(* ===== verification/GoPrelude.thy ===== *)
theory GoPrelude
  imports Main "HOL-Library.Word" "HOL-Library.Sublist"
begin

text \<open>
  The part of the Go language and of its standard library that the modelled packages
  use, and the generic lemmas the component theories share.

  \<^item> \<open>error\<close>: Go's \<^verbatim>\<open>error\<close> values. A sentinel (\<^verbatim>\<open>errors.New\<close> held in a package variable) is
    identified by its variable's name; \<^verbatim>\<open>fmt.Errorf\<close> is the format text with the errors it
    wraps (\<^verbatim>\<open>%w\<close>); the text of the other arguments is not kept. \<^verbatim>\<open>stackErr.Error\<close> only adds a
    stack trace and is the identity here. \<open>errors_is\<close> is \<^verbatim>\<open>errors.Is\<close>.
  \<^item> \<open>andThen\<close>: the \<^verbatim>\<open>if err != nil { return err }\<close> sequencing of fallible calls whose result
    is a value of \<open>error + 'a\<close>.
  \<^item> \<open>int64\<close>: 64-bit words read as two's complement; \<open>+\<close>, \<open>-\<close>, \<open>*\<close> wrap as Go's do.
  \<^item> strings are byte strings. \<open>TrimSpace\<close> removes the UTF-8 encodings of the runes for which
    \<^verbatim>\<open>unicode.IsSpace\<close> holds; \<open>ToUpper\<close>, \<open>ToLower\<close> and \<open>EqualFold\<close> map the ASCII letters and leave
    every other byte as it is, which is what Go does for ASCII text.
  \<^item> \<open>gotime\<close>: an instant (nanoseconds since Go's zero time) and a location.
\<close>

named_theorems go_simps \<open>rewrite rules for the Go library functions\<close>
named_theorems go_norm \<open>facts that a normalising function is idempotent or commutes with another\<close>

section \<open>Errors\<close>

datatype error = Sentinel string | Errorf string "error list"

fun errors_is :: "error \<Rightarrow> error \<Rightarrow> bool" where
  "errors_is (Sentinel s) target = (Sentinel s = target)"
| "errors_is (Errorf s es) target = (Errorf s es = target \<or> (\<exists>e\<in>set es. errors_is e target))"

definition andThen :: "'e + 'a \<Rightarrow> ('a \<Rightarrow> 'e + 'b) \<Rightarrow> 'e + 'b" where
  "andThen m f = (case m of Inl e \<Rightarrow> Inl e | Inr x \<Rightarrow> f x)"

definition ensure :: "bool \<Rightarrow> 'e \<Rightarrow> 'e + unit" where
  "ensure b e = (if b then Inr () else Inl e)"

definition wrapErr :: "('e \<Rightarrow> 'e) \<Rightarrow> 'e + 'a \<Rightarrow> 'e + 'a" where
  "wrapErr w m = (case m of Inl e \<Rightarrow> Inl (w e) | Inr x \<Rightarrow> Inr x)"

lemma andThen_simps [simp]: "andThen (Inl e) f = Inl e" "andThen (Inr x) f = f x"
  by (simp_all add: andThen_def)

lemma andThen_eq_Inr [simp]: "andThen m f = Inr y \<longleftrightarrow> (\<exists>x. m = Inr x \<and> f x = Inr y)"
  by (cases m) simp_all

lemma andThen_eq_Inl:
  "andThen m f = Inl e \<longleftrightarrow> m = Inl e \<or> (\<exists>x. m = Inr x \<and> f x = Inl e)"
  by (cases m) auto

lemma ensure_eq_Inr [simp]: "ensure b e = Inr u \<longleftrightarrow> b"
  by (simp add: ensure_def)

lemma ensure_eq_Inl: "ensure b e = Inl e' \<longleftrightarrow> \<not> b \<and> e' = e"
  by (auto simp: ensure_def)

lemma ensure_simps [simp]: "ensure True e = Inr ()" "ensure False e = Inl e"
  by (simp_all add: ensure_def)

lemma wrapErr_eq_Inr [simp]: "wrapErr w m = Inr y \<longleftrightarrow> m = Inr y"
  by (cases m) (simp_all add: wrapErr_def)

lemma wrapErr_eq_Inl: "wrapErr w m = Inl e \<longleftrightarrow> (\<exists>e'. m = Inl e' \<and> e = w e')"
  by (cases m) (auto simp: wrapErr_def)

lemma wrapErr_simps [simp]: "wrapErr w (Inl e) = Inl (w e)" "wrapErr w (Inr x) = Inr x"
  by (simp_all add: wrapErr_def)

section \<open>Signed 64-bit integers\<close>

type_synonym int64 = "64 word"

definition fits64 :: "int \<Rightarrow> bool" where
  "fits64 k \<longleftrightarrow> - (2 ^ 63) \<le> k \<and> k < 2 ^ 63"

lemma sint64_range: "fits64 (sint (x :: int64))"
  using sint_ge [of x] sint_lt [of x] by (simp add: fits64_def)

lemma signed_take_bit_fits64: "fits64 k \<Longrightarrow> signed_take_bit 63 k = k"
  by (rule signed_take_bit_int_eq_self) (simp_all add: fits64_def)

lemma sint_add64: "sint ((x :: int64) + y) = signed_take_bit 63 (sint x + sint y)"
  by (simp add: sint_word_ariths)

lemma sint_mul64: "sint ((x :: int64) * y) = signed_take_bit 63 (sint x * sint y)"
  by (simp add: sint_word_ariths)

lemma sint_neg64: "sint (- (x :: int64)) = signed_take_bit 63 (- sint x)"
  by (simp add: sint_word_ariths)

lemma sint_add64_fits: "fits64 (sint x + sint y) \<Longrightarrow> sint ((x :: int64) + y) = sint x + sint y"
  by (simp add: sint_add64 signed_take_bit_fits64)

lemma sint_mul64_fits: "fits64 (sint x * sint y) \<Longrightarrow> sint ((x :: int64) * y) = sint x * sint y"
  by (simp add: sint_mul64 signed_take_bit_fits64)

lemma sint_neg64_fits: "fits64 (- sint x) \<Longrightarrow> sint (- (x :: int64)) = - sint x"
  by (simp add: sint_neg64 signed_take_bit_fits64)

text \<open>
  \<open>x / y\<close> on \<^verbatim>\<open>int64\<close> truncates towards zero (and wraps at \<open>-2^63 / -1\<close>). The modelled code
  divides by non-zero constants only.
\<close>

definition quot64 :: "int64 \<Rightarrow> int64 \<Rightarrow> int64" where
  "quot64 x y = word_of_int (sgn (sint x) * sgn (sint y) * (\<bar>sint x\<bar> div \<bar>sint y\<bar>))"

lemma sint_of_int_fits: "fits64 k \<Longrightarrow> sint (word_of_int k :: int64) = k"
  by (simp add: sint_sbintrunc' signed_take_bit_fits64)

lemma sint_quot64_pos:
  assumes "0 \<le> sint x" "0 < sint y"
  shows "sint (quot64 x y) = sint x div sint y"
proof -
  have "sint x div sint y \<le> sint x" using assms by (metis div_by_1 zdiv_mono2 zero_less_one int_one_le_iff_zero_less)
  moreover have "0 \<le> sint x div sint y" using assms by (simp add: pos_imp_zdiv_nonneg_iff)
  ultimately have "fits64 (sint x div sint y)"
    using sint64_range [of x] by (simp add: fits64_def)
  moreover have "quot64 x y = word_of_int (sint x div sint y)"
    using assms by (cases "sint x = 0") (simp_all add: quot64_def)
  ultimately show ?thesis by (simp add: sint_of_int_fits)
qed

section \<open>Strings\<close>

definition ascii_space :: "char \<Rightarrow> bool" where
  "ascii_space c \<longleftrightarrow> (of_char c :: nat) \<in> {9, 10, 11, 12, 13, 32}"

text \<open>
  \<open>space2 b c\<close> and \<open>space3 b c d\<close>: the two- and three-byte UTF-8 encodings of the space runes
  U+0085, U+00A0 and U+1680, U+2000 to U+200A, U+2028, U+2029, U+202F, U+205F, U+3000.
\<close>

definition space2 :: "char \<Rightarrow> char \<Rightarrow> bool" where
  "space2 b c \<longleftrightarrow> (of_char b :: nat) = 194 \<and> (of_char c :: nat) \<in> {133, 160}"

definition space3 :: "char \<Rightarrow> char \<Rightarrow> char \<Rightarrow> bool" where
  "space3 b c d \<longleftrightarrow>
     ((of_char b :: nat) = 225 \<and> (of_char c :: nat) = 154 \<and> (of_char d :: nat) = 128) \<or>
     ((of_char b :: nat) = 226 \<and> (of_char c :: nat) = 128 \<and>
        ((128 \<le> (of_char d :: nat) \<and> (of_char d :: nat) \<le> 138) \<or> (of_char d :: nat) \<in> {168, 169, 175})) \<or>
     ((of_char b :: nat) = 226 \<and> (of_char c :: nat) = 129 \<and> (of_char d :: nat) = 159) \<or>
     ((of_char b :: nat) = 227 \<and> (of_char c :: nat) = 128 \<and> (of_char d :: nat) = 128)"

text \<open>The string after its leading space rune, if it starts with one.\<close>

fun dropSpace :: "string \<Rightarrow> string option" where
  "dropSpace [] = None"
| "dropSpace (b # cs) =
     (if ascii_space b then Some cs
      else case cs of
        [] \<Rightarrow> None
      | c # ds \<Rightarrow>
          if space2 b c then Some ds
          else (case ds of [] \<Rightarrow> None | d # es \<Rightarrow> if space3 b c d then Some es else None))"

text \<open>The same at the end of the string, on the reversed string.\<close>

fun dropSpaceRev :: "string \<Rightarrow> string option" where
  "dropSpaceRev [] = None"
| "dropSpaceRev (d # cs) =
     (if ascii_space d then Some cs
      else case cs of
        [] \<Rightarrow> None
      | c # bs \<Rightarrow>
          if space2 c d then Some bs
          else (case bs of [] \<Rightarrow> None | b # es \<Rightarrow> if space3 b c d then Some es else None))"

lemma dropSpace_length: "dropSpace s = Some t \<Longrightarrow> length t < length s"
  by (cases s) (auto split: if_splits list.splits)

lemma dropSpaceRev_length: "dropSpaceRev s = Some t \<Longrightarrow> length t < length s"
  by (cases s) (auto split: if_splits list.splits)

function trimLeft :: "string \<Rightarrow> string" where
  "trimLeft s = (case dropSpace s of None \<Rightarrow> s | Some t \<Rightarrow> trimLeft t)"
  by pat_completeness auto
termination
  by (relation "measure length") (auto dest: dropSpace_length)

function trimRightRev :: "string \<Rightarrow> string" where
  "trimRightRev s = (case dropSpaceRev s of None \<Rightarrow> s | Some t \<Rightarrow> trimRightRev t)"
  by pat_completeness auto
termination
  by (relation "measure length") (auto dest: dropSpaceRev_length)

declare trimLeft.simps [simp del] trimRightRev.simps [simp del]

text \<open>\<^verbatim>\<open>strings.TrimSpace\<close>.\<close>

definition TrimSpace :: "string \<Rightarrow> string" where
  "TrimSpace s = rev (trimRightRev (rev (trimLeft s)))"

definition upperChar :: "char \<Rightarrow> char" where
  "upperChar c = (let n = of_char c :: nat in if 97 \<le> n \<and> n \<le> 122 then char_of (n - 32) else c)"

definition lowerChar :: "char \<Rightarrow> char" where
  "lowerChar c = (let n = of_char c :: nat in if 65 \<le> n \<and> n \<le> 90 then char_of (n + 32) else c)"

definition ToUpper :: "string \<Rightarrow> string" where
  "ToUpper = map upperChar"

definition ToLower :: "string \<Rightarrow> string" where
  "ToLower = map lowerChar"

definition EqualFold :: "string \<Rightarrow> string \<Rightarrow> bool" where
  "EqualFold s t \<longleftrightarrow> ToLower s = ToLower t"

text \<open>\<^verbatim>\<open>utils.FirstNonEmpty\<close>, and the identical helper \<^verbatim>\<open>coalescePaymentValue\<close> of the payment module.\<close>

fun FirstNonEmpty :: "string list \<Rightarrow> string" where
  "FirstNonEmpty [] = []"
| "FirstNonEmpty (v # vs) = (if TrimSpace v \<noteq> [] then TrimSpace v else FirstNonEmpty vs)"

section \<open>Facts about the string functions\<close>

lemma dropSpace_append: "dropSpace s = Some t \<Longrightarrow> dropSpace (s @ u) = Some (t @ u)"
  by (cases s) (auto split: if_splits list.splits)

lemma trimLeft_fixed: "dropSpace (trimLeft s) = None"
proof (induction s rule: trimLeft.induct)
  case (1 s)
  then show ?case by (cases "dropSpace s") (simp_all add: trimLeft.simps [of s])
qed

lemma trimRightRev_fixed: "dropSpaceRev (trimRightRev s) = None"
proof (induction s rule: trimRightRev.induct)
  case (1 s)
  then show ?case by (cases "dropSpaceRev s") (simp_all add: trimRightRev.simps [of s])
qed

lemma trimLeft_id: "dropSpace s = None \<Longrightarrow> trimLeft s = s"
  by (simp add: trimLeft.simps)

lemma trimRightRev_id: "dropSpaceRev s = None \<Longrightarrow> trimRightRev s = s"
  by (simp add: trimRightRev.simps)

lemma dropSpaceRev_suffix: "dropSpaceRev s = Some t \<Longrightarrow> suffix t s"
  by (cases s) (auto simp: suffix_def split: if_splits list.splits)

lemma trimRightRev_suffix: "suffix (trimRightRev s) s"
proof (induction s rule: trimRightRev.induct)
  case (1 s)
  show ?case
  proof (cases "dropSpaceRev s")
    case None
    then show ?thesis by (simp add: trimRightRev.simps [of s])
  next
    case (Some t)
    with "1.IH" have "suffix (trimRightRev t) t" by simp
    with dropSpaceRev_suffix [OF Some] have "suffix (trimRightRev t) s"
      by (metis suffix_order.trans)
    with Some show ?thesis by (simp add: trimRightRev.simps [of s])
  qed
qed

lemma dropSpace_TrimSpace: "dropSpace (TrimSpace s) = None"
proof -
  have "prefix (TrimSpace s) (trimLeft s)"
    using trimRightRev_suffix [of "rev (trimLeft s)"] by (simp add: TrimSpace_def suffix_to_prefix)
  then obtain u where u: "trimLeft s = TrimSpace s @ u" by (auto simp: prefix_def)
  show ?thesis
  proof (cases "dropSpace (TrimSpace s)")
    case (Some t)
    then have "dropSpace (trimLeft s) = Some (t @ u)" by (simp add: u dropSpace_append)
    then show ?thesis by (simp add: trimLeft_fixed)
  qed simp
qed

lemma dropSpaceRev_TrimSpace: "dropSpaceRev (rev (TrimSpace s)) = None"
  by (simp add: TrimSpace_def trimRightRev_fixed)

text \<open>A string is trimmed when \<open>TrimSpace\<close> leaves it as it is.\<close>

definition trimmed :: "string \<Rightarrow> bool" where
  "trimmed s \<longleftrightarrow> dropSpace s = None \<and> dropSpaceRev (rev s) = None"

lemma TrimSpace_trimmed: "trimmed s \<Longrightarrow> TrimSpace s = s"
  by (simp add: TrimSpace_def trimmed_def trimLeft_id trimRightRev_id)

lemma trimmed_TrimSpace [simp]: "trimmed (TrimSpace s)"
  by (simp add: trimmed_def dropSpace_TrimSpace dropSpaceRev_TrimSpace)

lemma trimmed_iff: "trimmed s \<longleftrightarrow> TrimSpace s = s"
  by (metis TrimSpace_trimmed trimmed_TrimSpace)

lemma TrimSpace_idem [simp, go_norm]: "TrimSpace (TrimSpace s) = TrimSpace s"
  by (simp add: TrimSpace_trimmed)

lemma trimmed_Nil [simp]: "trimmed []"
  by (simp add: trimmed_def)

lemma TrimSpace_Nil [simp]: "TrimSpace [] = []"
  by (simp add: TrimSpace_trimmed)

lemma of_char_upperChar:
  "(of_char (upperChar c) :: nat) =
     (if 97 \<le> (of_char c :: nat) \<and> (of_char c :: nat) \<le> 122 then of_char c - 32 else of_char c)"
  by (auto simp: upperChar_def Let_def)

lemma of_char_lowerChar:
  "(of_char (lowerChar c) :: nat) =
     (if 65 \<le> (of_char c :: nat) \<and> (of_char c :: nat) \<le> 90 then of_char c + 32 else of_char c)"
  by (auto simp: lowerChar_def Let_def)

lemma upperChar_idem [simp]: "upperChar (upperChar c) = upperChar c"
  by (rule of_char_eqI [where 'a = nat]) (auto simp: of_char_upperChar)

lemma lowerChar_idem [simp]: "lowerChar (lowerChar c) = lowerChar c"
  by (rule of_char_eqI [where 'a = nat]) (auto simp: of_char_lowerChar)

lemma ToUpper_simps [simp]: "ToUpper [] = []" "ToUpper (c # s) = upperChar c # ToUpper s"
  "ToUpper (s @ t) = ToUpper s @ ToUpper t" "length (ToUpper s) = length s"
  "ToUpper s = [] \<longleftrightarrow> s = []" "ToUpper (rev s) = rev (ToUpper s)"
  by (simp_all add: ToUpper_def rev_map)

lemma ToLower_simps [simp]: "ToLower [] = []" "ToLower (c # s) = lowerChar c # ToLower s"
  "ToLower (s @ t) = ToLower s @ ToLower t" "length (ToLower s) = length s"
  "ToLower s = [] \<longleftrightarrow> s = []" "ToLower (rev s) = rev (ToLower s)"
  by (simp_all add: ToLower_def rev_map)

lemma ToUpper_idem [simp, go_norm]: "ToUpper (ToUpper s) = ToUpper s"
  by (simp add: ToUpper_def)

lemma ToLower_idem [simp, go_norm]: "ToLower (ToLower s) = ToLower s"
  by (simp add: ToLower_def)

text \<open>
  A map on bytes that moves no byte in or out of the bytes used by space runes commutes
  with trimming. Both case maps are of this kind.
\<close>

locale case_map =
  fixes f :: "char \<Rightarrow> char"
  assumes ascii_letters: "(of_char (f c) :: nat) = of_char c \<or>
      (65 \<le> (of_char c :: nat) \<and> (of_char c :: nat) \<le> 122 \<and>
       65 \<le> (of_char (f c) :: nat) \<and> (of_char (f c) :: nat) \<le> 122)"
begin

lemma ascii_space_map [simp]: "ascii_space (f c) = ascii_space c"
  using ascii_letters [of c] by (auto simp: ascii_space_def)

lemma space2_map [simp]: "space2 (f b) (f c) = space2 b c"
  using ascii_letters [of b] ascii_letters [of c] by (auto simp: space2_def)

lemma high_byte_map: "128 \<le> n \<Longrightarrow> (of_char (f c) :: nat) = n \<longleftrightarrow> (of_char c :: nat) = n"
  using ascii_letters [of c] by auto

lemma high_range_map: "128 \<le> (of_char (f c) :: nat) \<longleftrightarrow> 128 \<le> (of_char c :: nat)"
    "128 \<le> (of_char c :: nat) \<Longrightarrow> (of_char (f c) :: nat) \<le> 138 \<longleftrightarrow> (of_char c :: nat) \<le> 138"
  using ascii_letters [of c] by auto

lemma space3_map [simp]: "space3 (f b) (f c) (f d) = space3 b c d"
  unfolding space3_def
  by (auto simp: high_byte_map high_range_map)

lemma dropSpace_map: "dropSpace (map f s) = map_option (map f) (dropSpace s)"
  by (cases s) (auto split: list.splits)

lemma dropSpaceRev_map: "dropSpaceRev (map f s) = map_option (map f) (dropSpaceRev s)"
  by (cases s) (auto split: list.splits)

lemma trimLeft_map: "trimLeft (map f s) = map f (trimLeft s)"
proof (induction s rule: trimLeft.induct)
  case (1 s)
  then show ?case
    by (cases "dropSpace s") (simp_all add: trimLeft.simps [of s] trimLeft.simps [of "map f s"] dropSpace_map)
qed

lemma trimRightRev_map: "trimRightRev (map f s) = map f (trimRightRev s)"
proof (induction s rule: trimRightRev.induct)
  case (1 s)
  then show ?case
    by (cases "dropSpaceRev s")
      (simp_all add: trimRightRev.simps [of s] trimRightRev.simps [of "map f s"] dropSpaceRev_map)
qed

lemma TrimSpace_map: "TrimSpace (map f s) = map f (TrimSpace s)"
  by (simp add: TrimSpace_def trimLeft_map flip: rev_map) (simp add: rev_map trimRightRev_map)

end

interpretation upper_map: case_map upperChar
  by unfold_locales (auto simp: of_char_upperChar)

interpretation lower_map: case_map lowerChar
  by unfold_locales (auto simp: of_char_lowerChar)

lemma TrimSpace_ToUpper [simp, go_norm]: "TrimSpace (ToUpper s) = ToUpper (TrimSpace s)"
  by (simp add: ToUpper_def upper_map.TrimSpace_map)

lemma TrimSpace_ToLower [simp, go_norm]: "TrimSpace (ToLower s) = ToLower (TrimSpace s)"
  by (simp add: ToLower_def lower_map.TrimSpace_map)

lemma trimmed_ToUpper [simp]: "trimmed s \<Longrightarrow> trimmed (ToUpper s)"
  by (simp add: trimmed_iff)

lemma trimmed_ToLower [simp]: "trimmed s \<Longrightarrow> trimmed (ToLower s)"
  by (simp add: trimmed_iff)

text \<open>
  A string that begins and ends with a visible ASCII character is trimmed, whatever is between.
\<close>

definition visible :: "char \<Rightarrow> bool" where
  "visible c \<longleftrightarrow> 33 \<le> (of_char c :: nat) \<and> (of_char c :: nat) \<le> 126"

lemma visible_not_space: "visible c \<Longrightarrow> \<not> ascii_space c"
  by (auto simp: visible_def ascii_space_def)

lemma visible_not_space2: "visible c \<Longrightarrow> \<not> space2 c d" "visible d \<Longrightarrow> \<not> space2 c d"
  by (auto simp: visible_def space2_def)

lemma visible_not_space3: "visible c \<Longrightarrow> \<not> space3 c d e" "visible d \<Longrightarrow> \<not> space3 c d e" "visible e \<Longrightarrow> \<not> space3 c d e"
  by (auto simp: visible_def space3_def)

lemma dropSpace_visible: "visible c \<Longrightarrow> dropSpace (c # s) = None"
  by (auto simp: visible_not_space visible_not_space2 visible_not_space3 split: list.splits)

lemma dropSpaceRev_visible: "visible c \<Longrightarrow> dropSpaceRev (c # s) = None"
  by (auto simp: visible_not_space visible_not_space2 visible_not_space3 split: list.splits)

lemma trimmed_visible: "visible c \<Longrightarrow> visible d \<Longrightarrow> trimmed (c # s @ [d])"
  by (simp add: trimmed_def dropSpace_visible dropSpaceRev_visible del: dropSpace.simps dropSpaceRev.simps)

lemma trimmed_visible_ends: "s \<noteq> [] \<Longrightarrow> visible (hd s) \<Longrightarrow> visible (last s) \<Longrightarrow> trimmed s"
  by (cases s; cases "rev s")
    (simp_all add: trimmed_def dropSpace_visible dropSpaceRev_visible last_rev flip: hd_rev
      del: dropSpace.simps dropSpaceRev.simps)

text \<open>Gluing a visible prefix or suffix to a trimmed string keeps it trimmed.\<close>

lemma dropSpaceRev_glue: "dropSpaceRev s = None \<Longrightarrow> s \<noteq> [] \<Longrightarrow> visible c \<Longrightarrow> dropSpaceRev (s @ c # t) = None"
  by (cases s) (auto simp: visible_not_space2 visible_not_space3 Cons_eq_append_conv split: if_splits list.splits)

lemma dropSpace_glue: "dropSpace s = None \<Longrightarrow> s \<noteq> [] \<Longrightarrow> visible c \<Longrightarrow> dropSpace (s @ c # t) = None"
  by (cases s) (auto simp: visible_not_space2 visible_not_space3 Cons_eq_append_conv split: if_splits list.splits)

lemma trimmed_prefixed:
  assumes "trimmed k" "k \<noteq> []" "visible c" "visible d"
  shows "trimmed (c # p @ d # k)"
  using assms dropSpaceRev_glue [of "rev k" d "rev p @ [c]"]
  by (simp add: trimmed_def dropSpace_visible del: dropSpace.simps dropSpaceRev.simps)

lemma trimmed_suffixed:
  assumes "trimmed k" "k \<noteq> []" "visible c" "visible d"
  shows "trimmed (k @ c # p @ [d])"
  using assms dropSpace_glue [of k c "p @ [d]"]
  by (simp add: trimmed_def dropSpaceRev_visible del: dropSpace.simps dropSpaceRev.simps)

lemma FirstNonEmpty_trimmed [simp]: "trimmed (FirstNonEmpty vs)"
  by (induction vs) auto

lemma FirstNonEmpty_eq_Nil: "FirstNonEmpty vs = [] \<longleftrightarrow> (\<forall>v\<in>set vs. TrimSpace v = [])"
  by (induction vs) auto

section \<open>Instants\<close>

datatype gotime = GoTime (nanos: int) (loc: string)

definition zeroTime :: gotime where
  "zeroTime = GoTime 0 ''UTC''"

definition IsZero :: "gotime \<Rightarrow> bool" where
  "IsZero t \<longleftrightarrow> nanos t = 0"

definition UTC :: "gotime \<Rightarrow> gotime" where
  "UTC t = GoTime (nanos t) ''UTC''"

text \<open>\<^verbatim>\<open>Unix()\<close>: whole seconds since 1970, 62135596800 seconds after Go's zero time.\<close>

definition Unix :: "gotime \<Rightarrow> int" where
  "Unix t = nanos t div 1000000000 - 62135596800"

lemma IsZero_UTC [simp]: "IsZero (UTC t) = IsZero t"
  by (simp add: IsZero_def UTC_def)

lemma UTC_idem [simp]: "UTC (UTC t) = UTC t"
  by (simp add: UTC_def)

lemma nanos_UTC [simp]: "nanos (UTC t) = nanos t"
  by (simp add: UTC_def)

lemma Unix_UTC [simp]: "Unix (UTC t) = Unix t"
  by (simp add: Unix_def)

end
