(* ===== verification/EventSourcing.thy ===== *)
theory EventSourcing
  imports GoPrelude
begin

text \<open>
  The event-sourcing kernel of \<^verbatim>\<open>core/shared/pkg/event\<close>: \<open>Event\<close>, \<open>AggregateRoot\<close> and its
  operations, \<open>InitAggregate\<close>, the outbox publisher and the serializer's event registry.

  Go embeds \<^verbatim>\<open>AggregateRoot\<close> in every aggregate; here every aggregate record extends the record
  \<open>AggregateRoot\<close>, and the operations work on any extension. An event's payload is a value of the
  type parameter \<open>'d\<close>, the sum of the event structs the aggregate registers; \<^verbatim>\<open>nil\<close> payloads are
  \<open>None\<close>. \<^verbatim>\<open>EventName\<close> (the payload's Go type name) and \<^verbatim>\<open>Transition\<close> are arguments, as the
  methods of the interface \<^verbatim>\<open>Aggregate\<close> are. A \<^verbatim>\<open>Transition\<close> that fails leaves the aggregate as
  it was, which holds of every aggregate modelled here, so its result is an error or the new
  aggregate. Versions are Go \<^verbatim>\<open>int\<close>s that count stored events and are modelled as integers.

  The locale \<open>aggregate\<close> states what the kernel relies on of an aggregate, and proves once that
  recorded versions are consecutive and that replaying the recorded events rebuilds the state.
\<close>

section \<open>Events and the aggregate root\<close>

record 'd Event =
  ev_ID :: int
  ev_AggregateID :: string
  ev_AggregateType :: string
  ev_Version :: int
  ev_EventName :: string
  ev_EventData :: 'd
  ev_CreatedAt :: int

record 'd AggregateRoot =
  aggregateID :: string
  aggregateType :: string
  version :: int
  baseVersion :: int
  events :: "'d Event list"

abbreviation ErrAggExisted :: error where "ErrAggExisted \<equiv> Sentinel ''ErrAggExisted''"
abbreviation ErrIDEmpty :: error where "ErrIDEmpty \<equiv> Sentinel ''ErrIDEmpty''"
abbreviation ErrAggregateTypeEmpty :: error where "ErrAggregateTypeEmpty \<equiv> Sentinel ''ErrAggregateTypeEmpty''"
abbreviation ErrEventNameEmpty :: error where "ErrEventNameEmpty \<equiv> Sentinel ''ErrEventNameEmpty''"
abbreviation ErrUnsupportedEventType :: error where "ErrUnsupportedEventType \<equiv> Sentinel ''ErrUnsupportedEventType''"

definition SetID :: "('d, 'z) AggregateRoot_scheme \<Rightarrow> string \<Rightarrow> error + ('d, 'z) AggregateRoot_scheme" where
  "SetID ar aggID =
     (if aggID = [] then Inl ErrIDEmpty
      else if aggregateID ar \<noteq> [] \<and> aggregateID ar \<noteq> aggID then Inl ErrAggExisted
      else Inr (ar\<lparr>aggregateID := aggID\<rparr>))"

definition SetAggregateType :: "('d, 'z) AggregateRoot_scheme \<Rightarrow> string \<Rightarrow> ('d, 'z) AggregateRoot_scheme" where
  "SetAggregateType ar typ = ar\<lparr>aggregateType := typ\<rparr>"

definition Version :: "('d, 'z) AggregateRoot_scheme \<Rightarrow> int" where
  "Version ar = (if events ar \<noteq> [] then ev_Version (last (events ar)) else version ar)"

definition BaseVersion :: "('d, 'z) AggregateRoot_scheme \<Rightarrow> int" where
  "BaseVersion ar = baseVersion ar"

definition CloneEvents :: "('d, 'z) AggregateRoot_scheme \<Rightarrow> 'd Event list" where
  "CloneEvents ar = events ar"

definition IsUnsaved :: "('d, 'z) AggregateRoot_scheme \<Rightarrow> bool" where
  "IsUnsaved ar \<longleftrightarrow> 0 < length (events ar)"

definition nextVersion :: "('d, 'z) AggregateRoot_scheme \<Rightarrow> int" where
  "nextVersion ar = Version ar + 1"

text \<open>The event that \<open>ApplyChange\<close> records for a payload.\<close>

definition newEvent :: "('d \<Rightarrow> string) \<Rightarrow> ('d, 'z) AggregateRoot_scheme \<Rightarrow> 'd \<Rightarrow> 'd Event" where
  "newEvent eventName ar d =
     \<lparr>ev_ID = 0, ev_AggregateID = aggregateID ar, ev_AggregateType = aggregateType ar,
      ev_Version = nextVersion ar, ev_EventName = eventName d, ev_EventData = d, ev_CreatedAt = 0\<rparr>"

text \<open>
  \<open>ApplyChange\<close> appends the event before it runs the transition: when the transition fails, the
  event stays among the pending ones and the caller gets the error.
\<close>

definition ApplyChangeWithMetadata ::
  "('d \<Rightarrow> string) \<Rightarrow> (('d, 'z) AggregateRoot_scheme \<Rightarrow> 'd Event \<Rightarrow> error + ('d, 'z) AggregateRoot_scheme)
   \<Rightarrow> ('d, 'z) AggregateRoot_scheme \<Rightarrow> 'd option \<Rightarrow> (error + unit) \<times> ('d, 'z) AggregateRoot_scheme" where
  "ApplyChangeWithMetadata eventName transition ar data =
     (if aggregateID ar = [] then (Inl (Errorf ''missing aggregate_id, aggregate_type=%s'' []), ar)
      else case data of
        None \<Rightarrow> (Inl (Errorf ''event data can not be nil'' []), ar)
      | Some d \<Rightarrow>
          if eventName d = [] then (Inl ErrEventNameEmpty, ar)
          else
            let event = newEvent eventName ar d;
                ar' = ar\<lparr>events := events ar @ [event]\<rparr>
            in case transition ar' event of
                 Inl e \<Rightarrow> (Inl e, ar')
               | Inr ar'' \<Rightarrow> (Inr (), ar''))"

definition ApplyChange ::
  "('d \<Rightarrow> string) \<Rightarrow> (('d, 'z) AggregateRoot_scheme \<Rightarrow> 'd Event \<Rightarrow> error + ('d, 'z) AggregateRoot_scheme)
   \<Rightarrow> ('d, 'z) AggregateRoot_scheme \<Rightarrow> 'd option \<Rightarrow> (error + unit) \<times> ('d, 'z) AggregateRoot_scheme" where
  "ApplyChange eventName transition ar data = ApplyChangeWithMetadata eventName transition ar data"

text \<open>A failed \<open>LoadFromHistory\<close> makes every caller drop the half-loaded aggregate.\<close>

fun LoadFromHistory ::
  "(('d, 'z) AggregateRoot_scheme \<Rightarrow> 'd Event \<Rightarrow> error + ('d, 'z) AggregateRoot_scheme)
   \<Rightarrow> ('d, 'z) AggregateRoot_scheme \<Rightarrow> 'd Event list \<Rightarrow> error + ('d, 'z) AggregateRoot_scheme" where
  "LoadFromHistory transition ar [] = Inr ar"
| "LoadFromHistory transition ar (e # es) =
     andThen (transition ar e) (\<lambda>ar'.
       LoadFromHistory transition
         (ar'\<lparr>aggregateID := ev_AggregateID e, version := ev_Version e, baseVersion := ev_Version e\<rparr>) es)"

definition MarkPersisted :: "('d, 'z) AggregateRoot_scheme \<Rightarrow> ('d, 'z) AggregateRoot_scheme" where
  "MarkPersisted ar =
     (if events ar \<noteq> []
      then ar\<lparr>version := ev_Version (last (events ar)), baseVersion := ev_Version (last (events ar)), events := []\<rparr>
      else ar)"

definition SetInternal :: "('d, 'z) AggregateRoot_scheme \<Rightarrow> string \<Rightarrow> int \<Rightarrow> int \<Rightarrow> ('d, 'z) AggregateRoot_scheme" where
  "SetInternal ar aggID bv v = ar\<lparr>aggregateID := aggID, baseVersion := bv, version := v, events := []\<rparr>"

text \<open>The aggregate's Go type name is an argument.\<close>

definition InitAggregate ::
  "string \<Rightarrow> ('d, 'z) AggregateRoot_scheme \<Rightarrow> string \<Rightarrow> error + ('d, 'z) AggregateRoot_scheme" where
  "InitAggregate typeName root aggID =
     (if typeName = [] then Inl ErrAggregateTypeEmpty
      else SetID (SetAggregateType root typeName) (TrimSpace aggID))"

definition emptyRoot :: "'d AggregateRoot" where
  "emptyRoot = \<lparr>aggregateID = [], aggregateType = [], version = 0, baseVersion = 0, events = []\<rparr>"

section \<open>The outbox publisher\<close>

text \<open>
  \<open>appendTo\<close> is the \<^verbatim>\<open>Store\<close> the publisher holds; on an error the events already appended stay in
  the store (the callers run inside a database transaction that is rolled back).
\<close>

fun Publish ::
  "int \<Rightarrow> ('s \<Rightarrow> 'd Event \<Rightarrow> error + 's) \<Rightarrow> 's \<Rightarrow> 'd Event list \<Rightarrow> (error + unit) \<times> 's" where
  "Publish now appendTo s [] = (Inr (), s)"
| "Publish now appendTo s (ev # evs) =
     (if ev_AggregateID ev = [] then (Inl ErrIDEmpty, s)
      else if ev_EventName ev = [] then (Inl ErrEventNameEmpty, s)
      else let ev' = (if ev_CreatedAt ev \<le> 0 then ev\<lparr>ev_CreatedAt := now\<rparr> else ev)
           in case appendTo s ev' of
                Inl e \<Rightarrow> (Inl (Errorf ''append event=%s failed: %w'' [e]), s)
              | Inr s' \<Rightarrow> Publish now appendTo s' evs)"

definition PublishAggregate ::
  "int \<Rightarrow> ('s \<Rightarrow> 'd Event \<Rightarrow> error + 's) \<Rightarrow> 's \<Rightarrow> ('d, 'z) AggregateRoot_scheme
   \<Rightarrow> (error + unit) \<times> 's \<times> ('d, 'z) AggregateRoot_scheme" where
  "PublishAggregate now appendTo s agg =
     (let evs = CloneEvents agg
      in if evs = [] then (Inr (), s, agg)
         else case Publish now appendTo s evs of
                (Inl e, s') \<Rightarrow> (Inl e, s', agg)
              | (Inr u, s') \<Rightarrow> (Inr (), s', MarkPersisted agg))"

section \<open>The serializer's registry of event types\<close>

text \<open>A registered prototype is the payload type's name; the key is the aggregate type, an underscore, the name.\<close>

type_synonym serializer = "string \<rightharpoonup> string"

fun registerEvents :: "string \<Rightarrow> serializer \<Rightarrow> string list \<Rightarrow> error + serializer" where
  "registerEvents typ s [] = Inr s"
| "registerEvents typ s (eName # es) =
     (if eName = [] then Inl (Errorf ''name of event is missing'' [])
      else registerEvents typ (s(typ @ ''_'' @ eName \<mapsto> eName)) es)"

definition RegisterAggregate :: "string \<Rightarrow> serializer \<Rightarrow> string list \<Rightarrow> error + serializer" where
  "RegisterAggregate typ s names =
     (if typ = [] then Inl (Errorf ''not found aggregate'' []) else registerEvents typ s names)"

definition serializerType :: "serializer \<Rightarrow> string \<Rightarrow> string \<Rightarrow> string option" where
  "serializerType s typ name = s (typ @ ''_'' @ name)"

section \<open>What the kernel relies on of an aggregate\<close>

text \<open>
  \<open>evolves\<close>: an aggregate reached from another by successful \<open>ApplyChange\<close> calls.
\<close>

inductive evolves ::
  "('d \<Rightarrow> string) \<Rightarrow> (('d, 'z) AggregateRoot_scheme \<Rightarrow> 'd Event \<Rightarrow> error + ('d, 'z) AggregateRoot_scheme)
   \<Rightarrow> ('d, 'z) AggregateRoot_scheme \<Rightarrow> ('d, 'z) AggregateRoot_scheme \<Rightarrow> bool"
  for eventName transition where
  evolves_refl: "evolves eventName transition a a"
| evolves_step: "evolves eventName transition a b \<Longrightarrow> ApplyChange eventName transition b d = (Inr (), c)
    \<Longrightarrow> evolves eventName transition a c"

text \<open>Pending events carry the aggregate's id and consecutive versions above the stored version.\<close>

definition pending_ok :: "('d, 'z) AggregateRoot_scheme \<Rightarrow> bool" where
  "pending_ok a \<longleftrightarrow> aggregateID a \<noteq> [] \<and>
     (\<forall>i < length (events a). ev_Version (events a ! i) = version a + 1 + int i \<and>
        ev_AggregateID (events a ! i) = aggregateID a)"

lemmas apply_change_defs = ApplyChange_def ApplyChangeWithMetadata_def

lemma pending_ok_Version: "pending_ok a \<Longrightarrow> Version a = version a + int (length (events a))"
  by (cases "events a" rule: rev_cases) (auto simp: pending_ok_def Version_def nth_append)

lemma SetID_Inr: "SetID a k = Inr b \<longleftrightarrow> k \<noteq> [] \<and> (aggregateID a = [] \<or> aggregateID a = k) \<and> b = a\<lparr>aggregateID := k\<rparr>"
  by (auto simp: SetID_def)

lemma MarkPersisted_simps [simp]:
  "events (MarkPersisted a) = []" "aggregateID (MarkPersisted a) = aggregateID a"
  "version (MarkPersisted a) = Version a" "AggregateRoot.more (MarkPersisted a) = AggregateRoot.more a"
  by (auto simp: MarkPersisted_def Version_def)

lemma MarkPersisted_pending_ok: "pending_ok a \<Longrightarrow> pending_ok (MarkPersisted a)"
  by (simp add: pending_ok_def)

locale aggregate =
  fixes eventName :: "'d \<Rightarrow> string"
    and transition :: "('d, 'z) AggregateRoot_scheme \<Rightarrow> 'd Event \<Rightarrow> error + ('d, 'z) AggregateRoot_scheme"
  assumes transition_root: "transition a e = Inr b \<Longrightarrow>
      AggregateRoot.truncate b = AggregateRoot.truncate a"
    and transition_state: "transition a e = Inr b \<Longrightarrow> AggregateRoot.more a' = AggregateRoot.more a \<Longrightarrow>
      \<exists>b'. transition a' e = Inr b' \<and> AggregateRoot.more b' = AggregateRoot.more b"
begin

lemma transition_fields:
  assumes "transition a e = Inr b"
  shows "aggregateID b = aggregateID a" "aggregateType b = aggregateType a" "version b = version a"
    "baseVersion b = baseVersion a" "events b = events a"
  using transition_root [OF assms] by (simp_all add: AggregateRoot.truncate_def)

lemma ApplyChange_ok:
  assumes "ApplyChange eventName transition a d = (Inr (), b)"
  obtains data ev where "d = Some data" "aggregateID a \<noteq> []" "ev = newEvent eventName a data"
    "transition (a\<lparr>events := events a @ [ev]\<rparr>) ev = Inr b"
    "events b = events a @ [ev]" "version b = version a" "aggregateID b = aggregateID a"
proof -
  from assms obtain data where d: "d = Some data" "aggregateID a \<noteq> []"
    and t: "transition (a\<lparr>events := events a @ [newEvent eventName a data]\<rparr>) (newEvent eventName a data) = Inr b"
    by (auto simp: apply_change_defs Let_def split: if_splits option.splits sum.splits)
  from transition_fields [OF t] d t show thesis by (intro that) simp_all
qed

lemma ApplyChange_pending_ok:
  assumes "pending_ok a" "ApplyChange eventName transition a d = (Inr (), b)"
  shows "pending_ok b"
  using assms(2)
proof (rule ApplyChange_ok)
  fix data ev
  assume ev: "ev = newEvent eventName a data"
    and b: "events b = events a @ [ev]" "version b = version a" "aggregateID b = aggregateID a"
  from pending_ok_Version [OF assms(1)] ev
  have "ev_Version ev = version a + 1 + int (length (events a))" by (simp add: newEvent_def nextVersion_def)
  with assms(1) ev b show ?thesis
    by (auto simp: pending_ok_def nth_append less_Suc_eq newEvent_def)
qed

lemma evolves_pending_ok: "evolves eventName transition a b \<Longrightarrow> pending_ok a \<Longrightarrow> pending_ok b"
  by (induction rule: evolves.induct) (auto dest: ApplyChange_pending_ok)

lemma LoadFromHistory_snoc:
  "LoadFromHistory transition a (es @ [e]) =
     andThen (LoadFromHistory transition a es) (\<lambda>b. LoadFromHistory transition b [e])"
proof (induction es arbitrary: a)
  case (Cons x es)
  then show ?case by (cases "transition a x") simp_all
qed simp

lemma LoadFromHistory_fields: "LoadFromHistory transition a es = Inr b \<Longrightarrow> events b = events a"
  by (induction es arbitrary: a) (auto dest: transition_fields(5))

lemma evolves_version: "evolves eventName transition a b \<Longrightarrow> version b = version a"
  by (induction rule: evolves.induct) (auto elim: ApplyChange_ok)

text \<open>Replaying what was recorded since \<open>a\<close> on any aggregate with \<open>a\<close>'s state gives the state reached.\<close>

lemma replay:
  assumes "evolves eventName transition a b" "events a = []" "AggregateRoot.more a' = AggregateRoot.more a"
  shows "\<exists>b'. LoadFromHistory transition a' (events b) = Inr b' \<and>
           AggregateRoot.more b' = AggregateRoot.more b \<and>
           (events b \<noteq> [] \<longrightarrow> version b' = Version b \<and> baseVersion b' = Version b \<and>
              aggregateID b' = ev_AggregateID (last (events b)))"
  using assms
proof (induction rule: evolves.induct)
  case (evolves_refl a)
  then show ?case by simp
next
  case (evolves_step a b d c)
  from evolves_step obtain b' where b': "LoadFromHistory transition a' (events b) = Inr b'"
    "AggregateRoot.more b' = AggregateRoot.more b" by blast
  from evolves_step(2) show ?case
  proof (rule ApplyChange_ok)
    fix data ev
    assume t: "transition (b\<lparr>events := events b @ [ev]\<rparr>) ev = Inr c" and ec: "events c = events b @ [ev]"
    from transition_state [OF t, of b'] b'(2) obtain c' where
      "transition b' ev = Inr c'" "AggregateRoot.more c' = AggregateRoot.more c" by auto
    with b'(1) ec show ?case
      by (auto simp: LoadFromHistory_snoc Version_def)
  qed
qed

end

section \<open>Registry lookups\<close>

lemma registerEvents_keeps:
  "registerEvents typ s names = Inr s' \<Longrightarrow> name \<notin> set names \<Longrightarrow> s' (typ @ ''_'' @ name) = s (typ @ ''_'' @ name)"
  by (induction names arbitrary: s) (auto split: if_splits)

lemma registerEvents_lookup:
  "registerEvents typ s names = Inr s' \<Longrightarrow> name \<in> set names \<Longrightarrow> s' (typ @ ''_'' @ name) = Some name"
proof (induction names arbitrary: s)
  case (Cons n ns)
  show ?case
  proof (cases "name \<in> set ns")
    case True
    with Cons show ?thesis by (auto split: if_splits)
  next
    case False
    with Cons.prems have "registerEvents typ (s(typ @ ''_'' @ name \<mapsto> name)) ns = Inr s'"
      by (auto split: if_splits)
    from registerEvents_keeps [OF this False] show ?thesis by simp
  qed
qed simp

section \<open>Publishing\<close>

text \<open>With a store that records what it is given, publishing appends the events in order.\<close>

lemma Publish_appends:
  assumes "\<And>s ev. appendTo s ev = Inr (s @ [ev])"
    and "\<forall>ev\<in>set evs. ev_AggregateID ev \<noteq> [] \<and> ev_EventName ev \<noteq> []"
  shows "Publish now appendTo s evs =
    (Inr (), s @ map (\<lambda>ev. if ev_CreatedAt ev \<le> 0 then ev\<lparr>ev_CreatedAt := now\<rparr> else ev) evs)"
  using assms(2) by (induction evs arbitrary: s) (auto simp: assms(1) Let_def)

end
