(* ===== verification/Locks.thy ===== *)
theory Locks
  imports GoPrelude "HOL-Library.List_Lexorder" "HOL-Library.Char_ord"
begin

text \<open>
  \<^verbatim>\<open>core/shared/infra/lock\<close>: the key normalisation and the scoped multi-lock \<open>WithLocks\<close>, over the
  interface \<^verbatim>\<open>Lock\<close>, and the Redis implementation of that interface over the key space of the
  server: \<^verbatim>\<open>SET key value NX\<close> (the replies the client gives are an argument) and the release
  script. Expiry of a lock while its holder still runs is not modelled.

  The locale \<open>lock_service\<close> is what \<open>WithLocks\<close> relies on of a \<^verbatim>\<open>Lock\<close>; it is interpreted on the
  key space model. The theory shows that the keys are taken in one global order (no circular
  wait), that the body runs with every key held, and that every key taken is given back.
\<close>

section \<open>Options and keys\<close>

record MultiLockOptions =
  Expiration :: int
  RetryDelay :: int
  Timeout :: int
  KeyPrefix :: string

definition DefaultMultiLockOptions :: MultiLockOptions where
  "DefaultMultiLockOptions =
     \<lparr>Expiration = 30 * 1000000000, RetryDelay = 100 * 1000000, Timeout = 3 * 1000000000, KeyPrefix = []\<rparr>"

fun collectKeys :: "string \<Rightarrow> string list \<Rightarrow> string list \<Rightarrow> string list" where
  "collectKeys pfx result [] = result"
| "collectKeys pfx result (k # ks) =
     (if k = [] then collectKeys pfx result ks
      else let k' = (if pfx \<noteq> [] then pfx @ '':'' @ k else k)
           in if k' \<in> set result then collectKeys pfx result ks
              else collectKeys pfx (result @ [k']) ks)"

definition normalizeKeys :: "string list \<Rightarrow> string \<Rightarrow> string list" where
  "normalizeKeys keys pfx = (if keys = [] then [] else sort (collectKeys pfx [] keys))"

section \<open>Scoped locks\<close>

text \<open>
  \<open>acquire\<close> and \<open>releaseLock\<close> are the methods of the \<^verbatim>\<open>Lock\<close>; \<open>'s\<close> is everything they and the body
  change. Failures of a release are only logged.
\<close>

type_synonym 's acquireFn = "string \<Rightarrow> string \<Rightarrow> 's \<Rightarrow> (error + bool) \<times> 's"
type_synonym 's releaseFn = "string \<Rightarrow> string \<Rightarrow> 's \<Rightarrow> (error + bool) \<times> 's"

definition releaseAll :: "'s releaseFn \<Rightarrow> string \<Rightarrow> string list \<Rightarrow> 's \<Rightarrow> 's" where
  "releaseAll releaseLock lockValue releaseKeys s = fold (\<lambda>k s. snd (releaseLock k lockValue s)) (rev releaseKeys) s"

fun acquireAll ::
  "'s acquireFn \<Rightarrow> 's releaseFn \<Rightarrow> string \<Rightarrow> string list \<Rightarrow> string list \<Rightarrow> 's \<Rightarrow> (error + string list) \<times> 's" where
  "acquireAll acquire releaseLock lockValue releaseKeys [] s = (Inr releaseKeys, s)"
| "acquireAll acquire releaseLock lockValue releaseKeys (key # keys) s =
     (case acquire key lockValue s of
        (Inl e, s') \<Rightarrow> (Inl e, releaseAll releaseLock lockValue releaseKeys s')
      | (Inr locked, s') \<Rightarrow>
          if \<not> locked then (Inl (Errorf ''acquire lock failed: %s'' []), releaseAll releaseLock lockValue releaseKeys s')
          else acquireAll acquire releaseLock lockValue (releaseKeys @ [key]) keys s')"

definition WithLocks ::
  "('s acquireFn \<times> 's releaseFn) option \<Rightarrow> string \<Rightarrow> string list \<Rightarrow> MultiLockOptions
   \<Rightarrow> ('s \<Rightarrow> (error + 'a) \<times> 's) \<Rightarrow> 's \<Rightarrow> (error + 'a) \<times> 's" where
  "WithLocks locker lockValue keys opts fn s =
     (case locker of
        None \<Rightarrow> fn s
      | Some (acquire, releaseLock) \<Rightarrow>
          if keys = [] then fn s
          else
            let lockKeys = normalizeKeys keys (KeyPrefix opts)
            in if lockKeys = [] then fn s
               else (case acquireAll acquire releaseLock lockValue [] lockKeys s of
                       (Inl e, s') \<Rightarrow> (Inl e, s')
                     | (Inr releaseKeys, s') \<Rightarrow>
                         (case fn s' of (r, s'') \<Rightarrow> (r, releaseAll releaseLock lockValue releaseKeys s''))))"

section \<open>The Redis lock\<close>

text \<open>
  The server's key space. \<^verbatim>\<open>SET NX\<close> answers \<^verbatim>\<open>OK\<close> and writes the key when it is absent; what the
  client library returns when the key is present (an error or a reply other than \<^verbatim>\<open>OK\<close>) is the
  argument \<open>refusal\<close>. \<open>attempts\<close> is the number of further attempts the timeout leaves, after which
  \<^verbatim>\<open>ctx.Done()\<close> fires.
\<close>

type_synonym keyspace = "string \<rightharpoonup> string"

definition setNX :: "(error + string) \<Rightarrow> string \<Rightarrow> string \<Rightarrow> keyspace \<Rightarrow> (error + string) \<times> keyspace" where
  "setNX refusal key val s = (case s key of None \<Rightarrow> (Inr ''OK'', s(key \<mapsto> val)) | Some v \<Rightarrow> (refusal, s))"

fun AcquireLock :: "(error + string) \<Rightarrow> nat \<Rightarrow> keyspace acquireFn" where
  "AcquireLock refusal attempts key val s =
     (case setNX refusal key val s of
        (Inl e, s') \<Rightarrow> (Inl e, s')
      | (Inr res, s') \<Rightarrow>
          if res = ''OK'' then (Inr True, s')
          else (case attempts of
                  0 \<Rightarrow> (Inl (Errorf ''timeout acquiring lock'' []), s')
                | Suc n \<Rightarrow> AcquireLock refusal n key val s'))"

declare AcquireLock.simps [simp del]

definition releaseLockScript :: "string \<Rightarrow> string \<Rightarrow> keyspace \<Rightarrow> int \<times> keyspace" where
  "releaseLockScript key val s = (if s key = Some val then (1, s(key := None)) else (0, s))"

definition ReleaseLock :: "keyspace releaseFn" where
  "ReleaseLock key val s = (case releaseLockScript key val s of (hit, s') \<Rightarrow> (Inr (hit \<noteq> 0), s'))"


text \<open>A lock whose state is the first part of a larger one (the key space beside the database).\<close>

definition onFirst :: "(string \<Rightarrow> string \<Rightarrow> 's \<Rightarrow> (error + bool) \<times> 's) \<Rightarrow>
    string \<Rightarrow> string \<Rightarrow> 's \<times> 'w \<Rightarrow> (error + bool) \<times> 's \<times> 'w" where
  "onFirst f key val sw = (case f key val (fst sw) of (r, s') \<Rightarrow> (r, s', snd sw))"

section \<open>Normalised keys\<close>

definition lockKey :: "string \<Rightarrow> string \<Rightarrow> string" where
  "lockKey pfx k = (if pfx \<noteq> [] then pfx @ '':'' @ k else k)"

lemma set_collectKeys: "set (collectKeys pfx result ks) = set result \<union> lockKey pfx ` {k \<in> set ks. k \<noteq> []}"
  by (induction ks arbitrary: result) (auto simp: lockKey_def Let_def)

lemma distinct_collectKeys: "distinct result \<Longrightarrow> distinct (collectKeys pfx result ks)"
  by (induction ks arbitrary: result) (auto simp: Let_def)

lemma normalizeKeys_strict: "sorted_wrt (<) (normalizeKeys ks pfx)"
  by (simp add: normalizeKeys_def strict_sorted_iff distinct_collectKeys)

lemma set_normalizeKeys: "set (normalizeKeys ks pfx) = lockKey pfx ` {k \<in> set ks. k \<noteq> []}"
  by (simp add: normalizeKeys_def set_collectKeys)

lemma distinct_normalizeKeys: "distinct (normalizeKeys ks pfx)"
  using normalizeKeys_strict [of ks pfx] by (simp add: strict_sorted_iff)

lemma WithLocks_cases [consumes 1, case_names unlocked refused locked]:
  assumes "WithLocks (Some (acquire, releaseLock)) v keys opts fn s = (r, s')"
  obtains "normalizeKeys keys (KeyPrefix opts) = []" "fn s = (r, s')"
  | e where "acquireAll acquire releaseLock v [] (normalizeKeys keys (KeyPrefix opts)) s = (Inl e, s')" "r = Inl e"
  | got s1 where "acquireAll acquire releaseLock v [] (normalizeKeys keys (KeyPrefix opts)) s = (Inr got, s1)"
      "r = fst (fn s1)" "s' = releaseAll releaseLock v got (snd (fn s1))"
proof (cases "normalizeKeys keys (KeyPrefix opts) = []")
  case True
  with assms that(1) show thesis by (simp add: WithLocks_def Let_def split: if_splits)
next
  case False
  then have "keys \<noteq> []" by (auto simp: normalizeKeys_def)
  with assms that(2,3) False show thesis
    by (auto simp: WithLocks_def Let_def split: prod.splits sum.splits)
qed

section \<open>What \<open>WithLocks\<close> relies on of a lock\<close>

text \<open>The locks \<open>h\<close> and, beside them, the keys \<open>ks\<close> with the value \<open>v\<close>.\<close>

definition withHeld :: "string \<Rightarrow> string list \<Rightarrow> (string \<rightharpoonup> string) \<Rightarrow> string \<rightharpoonup> string" where
  "withHeld v ks h = (\<lambda>k. if k \<in> set ks then Some v else h k)"

lemma withHeld_Nil [simp]: "withHeld v [] h = h"
  by (simp add: withHeld_def)

lemma withHeld_in [simp]: "k \<in> set ks \<Longrightarrow> withHeld v ks h k = Some v"
  by (simp add: withHeld_def)

lemma withHeld_notin [simp]: "k \<notin> set ks \<Longrightarrow> withHeld v ks h k = h k"
  by (simp add: withHeld_def)

lemma withHeld_snoc: "(withHeld v ks h)(k \<mapsto> v) = withHeld v (ks @ [k]) h"
  by (auto simp: withHeld_def)

lemma withHeld_drop: "k \<notin> set ks \<Longrightarrow> h k = None \<Longrightarrow> (withHeld v (ks @ [k]) h)(k := None) = withHeld v ks h"
  by (auto simp: withHeld_def)

locale lock_service =
  fixes acquire :: "'s acquireFn"
    and releaseLock :: "'s releaseFn"
    and held :: "'s \<Rightarrow> string \<rightharpoonup> string"
  assumes acquire_ok: "acquire k v s = (Inr True, s') \<Longrightarrow> held s k = None \<and> held s' = (held s)(k \<mapsto> v)"
    and acquire_refused: "acquire k v s = (r, s') \<Longrightarrow> r \<noteq> Inr True \<Longrightarrow> held s' = held s"
    and release_own: "held s k = Some v \<Longrightarrow> held (snd (releaseLock k v s)) = (held s)(k := None)"
begin

lemma releaseAll_held:
  assumes "\<forall>k\<in>set ks. h k = None" "distinct ks" "held s = withHeld v ks h"
  shows "held (releaseAll releaseLock v ks s) = h"
  using assms
proof (induction ks arbitrary: s rule: rev_induct)
  case (snoc k ks)
  then have "held (snd (releaseLock k v s)) = (held s)(k := None)" by (intro release_own) simp
  with snoc.prems have "held (snd (releaseLock k v s)) = withHeld v ks h" by (simp add: withHeld_drop)
  with snoc show ?case by (simp add: releaseAll_def)
qed (simp add: releaseAll_def)

lemma acquireAll_held:
  assumes "acquireAll acquire releaseLock v done keys s = (r, s')"
    and "distinct (done @ keys)" "\<forall>k\<in>set done. h k = None"
    and "held s = withHeld v done h"
  shows "(\<forall>e. r = Inl e \<longrightarrow> held s' = h) \<and>
    (\<forall>got. r = Inr got \<longrightarrow> got = done @ keys \<and> (\<forall>k\<in>set (done @ keys). h k = None) \<and>
       held s' = withHeld v (done @ keys) h)"
  using assms
proof (induction keys arbitrary: "done" s)
  case (Cons key keys)
  obtain a s1 where a: "acquire key v s = (a, s1)" by fastforce
  show ?case
  proof (cases "a = Inr True")
    case True
    from acquire_ok [of key v s s1] a True have ok: "held s key = None" "held s1 = (held s)(key \<mapsto> v)" by auto
    with Cons.prems(2-4) have "h key = None" by simp
    from ok Cons.prems(4) have held: "held s1 = withHeld v (done @ [key]) h" by (simp add: withHeld_snoc)
    from Cons.prems(1) a True have acq: "acquireAll acquire releaseLock v (done @ [key]) keys s1 = (r, s')"
      by simp
    from Cons.prems(2,3) \<open>h key = None\<close>
    have free: "distinct ((done @ [key]) @ keys)" "\<forall>k\<in>set (done @ [key]). h k = None" by auto
    from Cons.IH [OF acq free held] show ?thesis by auto
  next
    case False
    with a have "held s1 = held s" by (rule acquire_refused)
    with Cons.prems have "held (releaseAll releaseLock v done s1) = h"
      by (intro releaseAll_held) auto
    with Cons.prems(1) a False show ?thesis by (auto split: sum.splits if_splits)
  qed
qed auto

text \<open>Either some key could not be taken and nothing is held, or the body ran with every key held.\<close>

lemma WithLocks_scope:
  assumes w: "WithLocks (Some (acquire, releaseLock)) v keys opts fn s = (r, s')"
    and fn: "\<And>t. held (snd (fn t)) = held t"
  shows "held s' = held s \<and> ((\<exists>e. r = Inl e) \<or>
      (\<exists>t. (\<forall>k\<in>set (normalizeKeys keys (KeyPrefix opts)). held s k = None \<and> held t k = Some v) \<and> fst (fn t) = r))"
  using w
proof (cases rule: WithLocks_cases)
  case unlocked
  then have "held s' = held s" "fst (fn s) = r" using fn [of s] by simp_all
  with unlocked show ?thesis by (metis empty_iff empty_set)
next
  case (refused e)
  then show ?thesis
    using acquireAll_held [of v "[]" "normalizeKeys keys (KeyPrefix opts)" s "Inl e" s' "held s"] by (simp add: distinct_normalizeKeys)
next
  case (locked got s1)
  then have h: "got = normalizeKeys keys (KeyPrefix opts)" "\<forall>k\<in>set got. held s k = None"
    "held s1 = withHeld v got (held s)"
    using acquireAll_held [of v "[]" "normalizeKeys keys (KeyPrefix opts)" s "Inr got" s1 "held s"]
    by (simp_all add: distinct_normalizeKeys)
  with fn [of s1] have "held (releaseAll releaseLock v got (snd (fn s1))) = held s"
    by (intro releaseAll_held) (simp_all add: distinct_normalizeKeys)
  moreover have "held s1 k = Some v" if "k \<in> set got" for k using that h(3) by simp
  ultimately show ?thesis using locked h by blast
qed

end

text \<open>A refusal is any answer but \<^verbatim>\<open>OK\<close>.\<close>

lemma AcquireLock_free: "s k = None \<Longrightarrow> AcquireLock refusal n k v s = (Inr True, s(k \<mapsto> v))"
  by (simp add: AcquireLock.simps setNX_def)

lemma AcquireLock_taken:
  "refusal \<noteq> Inr ''OK'' \<Longrightarrow> s k = Some w \<Longrightarrow> \<exists>e. AcquireLock refusal n k v s = (Inl e, s)"
proof (induction n)
  case 0
  then show ?case by (auto simp: AcquireLock.simps setNX_def split: sum.splits)
next
  case (Suc n)
  then show ?case by (subst AcquireLock.simps) (auto simp: setNX_def split: sum.splits)
qed

lemma ReleaseLock_own: "s k = Some v \<Longrightarrow> ReleaseLock k v s = (Inr True, s(k := None))"
  by (simp add: ReleaseLock_def releaseLockScript_def)

text \<open>
  The Redis lock over the key space beside any other state is a lock service, for every client
  that answers a refused \<^verbatim>\<open>SET NX\<close> with anything but \<^verbatim>\<open>OK\<close>.
\<close>

lemma redis_lock_service:
  assumes "refusal \<noteq> Inr ''OK''"
  shows "lock_service (onFirst (AcquireLock refusal n)) (onFirst ReleaseLock) fst"
proof
  fix k v and s s' :: "keyspace \<times> 'w" and r
  show "fst s k = None \<and> fst s' = (fst s)(k \<mapsto> v)"
    if "onFirst (AcquireLock refusal n) k v s = (Inr True, s')"
    using that AcquireLock_free [of "fst s" k refusal n v] AcquireLock_taken [OF assms, of "fst s" k _ n v]
    by (cases "fst s k") (auto simp: onFirst_def split: prod.splits)
  show "fst s' = fst s" if "onFirst (AcquireLock refusal n) k v s = (r, s')" "r \<noteq> Inr True"
    using that AcquireLock_free [of "fst s" k refusal n v] AcquireLock_taken [OF assms, of "fst s" k _ n v]
    by (cases "fst s k") (auto simp: onFirst_def split: prod.splits)
  show "fst (snd (onFirst ReleaseLock k v s)) = (fst s)(k := None)" if "fst s k = Some v"
    using that by (simp add: onFirst_def ReleaseLock_own)
qed

text \<open>The go-redis client answers a refused \<^verbatim>\<open>SET NX\<close> with the error \<^verbatim>\<open>redis.Nil\<close>.\<close>

abbreviation redisNil :: error where "redisNil \<equiv> Sentinel ''redis.Nil''"

interpretation redis: lock_service "onFirst (AcquireLock (Inl redisNil) n)" "onFirst ReleaseLock" fst
  by (rule redis_lock_service) simp

section \<open>Locks beside a database\<close>

text \<open>A body that works on the second part of the state, such as the database beside the key space.\<close>

definition onSecond :: "('w \<Rightarrow> (error + 'a) \<times> 'w) \<Rightarrow> 's \<times> 'w \<Rightarrow> (error + 'a) \<times> 's \<times> 'w" where
  "onSecond f sw = (case f (snd sw) of (r, w) \<Rightarrow> (r, fst sw, w))"

lemma releaseAll_onFirst: "snd (releaseAll (onFirst f) v ks s) = snd s"
proof -
  have "snd (fold (\<lambda>k s. snd (onFirst f k v s)) xs s) = snd s" for xs
    by (induction xs arbitrary: s) (simp_all add: onFirst_def split: prod.splits)
  then show ?thesis by (simp add: releaseAll_def)
qed

lemma acquireAll_onFirst: "snd (snd (acquireAll (onFirst f) (onFirst g) v got keys s)) = snd s"
proof (induction keys arbitrary: got s)
  case (Cons k ks)
  obtain r s1 where r: "onFirst f k v s = (r, s1)" by (rule prod.exhaust)
  then have "snd s1 = snd s" by (auto simp: onFirst_def split: prod.splits)
  with r Cons show ?case by (auto simp: releaseAll_onFirst split: sum.splits)
qed simp

abbreviation redisLock :: "nat \<Rightarrow> ((keyspace \<times> 'w) acquireFn \<times> (keyspace \<times> 'w) releaseFn) option" where
  "redisLock n \<equiv> Some (onFirst (AcquireLock (Inl redisNil) n), onFirst ReleaseLock)"

lemma WithLocks_outcome:
  assumes "WithLocks (redisLock n) v keys opts (onSecond f) (ks, db) = (r, s')"
  shows "fst s' = ks \<and> ((\<exists>e. r = Inl e) \<and> snd s' = db \<or> f db = (r, snd s'))"
proof -
  have "fst (snd (onSecond f t)) = fst t" for t by (simp add: onSecond_def split: prod.splits)
  from redis.WithLocks_scope [OF assms this] have ks: "fst s' = ks" by simp
  from assms show ?thesis
  proof (cases rule: WithLocks_cases)
    case unlocked
    with ks show ?thesis by (cases s') (auto simp: onSecond_def split: prod.splits)
  next
    case (refused e)
    from acquireAll_onFirst [of "AcquireLock (Inl redisNil) n" ReleaseLock v "[]" "normalizeKeys keys (KeyPrefix opts)" "(ks, db)"] refused ks
    show ?thesis by simp
  next
    case (locked got s1)
    from acquireAll_onFirst [of "AcquireLock (Inl redisNil) n" ReleaseLock v "[]" "normalizeKeys keys (KeyPrefix opts)" "(ks, db)"] locked
    have "snd s1 = db" by simp
    with locked ks show ?thesis by (auto simp: releaseAll_onFirst onSecond_def split: prod.splits)
  qed
qed

lemma acquireAll_free:
  "\<forall>k\<in>set keys. fst s k = None \<Longrightarrow> distinct keys \<Longrightarrow>
     \<exists>s'. acquireAll (onFirst (AcquireLock (Inl redisNil) n)) rel v got keys s = (Inr (got @ keys), s')"
proof (induction keys arbitrary: got s)
  case (Cons k ks)
  then have a: "onFirst (AcquireLock (Inl redisNil) n) k v s = (Inr True, ((fst s)(k \<mapsto> v), snd s))"
    by (simp add: onFirst_def AcquireLock_free)
  from Cons.prems have "\<forall>x\<in>set ks. fst ((fst s)(k \<mapsto> v), snd s) x = None" "distinct ks" by auto
  from Cons.IH [OF this, of "got @ [k]"] a show ?case by auto
qed simp

text \<open>When all its keys are free, the body runs.\<close>

lemma WithLocks_free:
  assumes "\<forall>k\<in>set (normalizeKeys keys (KeyPrefix opts)). ks k = None"
  shows "WithLocks (redisLock n) v keys opts (onSecond f) (ks, db) = (fst (f db), ks, snd (f db))"
proof -
  obtain r s' where w: "WithLocks (redisLock n) v keys opts (onSecond f) (ks, db) = (r, s')" by (rule prod.exhaust)
  from WithLocks_outcome [OF w] have ks: "fst s' = ks" by simp
  from w have "f db = (r, snd s')"
  proof (cases rule: WithLocks_cases)
    case unlocked
    then show ?thesis by (auto simp: onSecond_def split: prod.splits)
  next
    case (refused e)
    from acquireAll_free [of "normalizeKeys keys (KeyPrefix opts)" "(ks, db)" n "onFirst ReleaseLock" v "[]"] assms refused(1)
    show ?thesis by (simp add: distinct_normalizeKeys)
  next
    case (locked got s1)
    from acquireAll_onFirst [of "AcquireLock (Inl redisNil) n" ReleaseLock v "[]" "normalizeKeys keys (KeyPrefix opts)" "(ks, db)"] locked
    have "snd s1 = db" by simp
    with locked show ?thesis by (auto simp: releaseAll_onFirst onSecond_def split: prod.splits)
  qed
  with w ks show ?thesis by (simp add: prod_eq_iff)
qed

section \<open>Properties\<close>

text \<open>
  C36 (safety). The lock keys of a request are the non-empty keys with their prefix, each once, in
  strictly increasing order. So in any finite set of requests, each holding the keys before position
  \<open>i\<close> of its key list and waiting for the key at \<open>i\<close>, some request waits for a key that none of them
  holds: there is no circular wait between money movements over shared accounts.
\<close>

theorem normalizeKeys_no_circular_wait:
  assumes "finite P" "P \<noteq> {}"
    and "\<forall>(ks, i)\<in>P. (\<exists>keys pfx. ks = normalizeKeys keys pfx) \<and> i < length ks"
  shows "\<exists>(ks, i)\<in>P. \<forall>(ks', i')\<in>P. ks ! i \<notin> set (take i' ks')"
proof -
  let ?want = "\<lambda>p. fst p ! snd p"
  obtain p where p: "p \<in> P" "?want p = Max (?want ` P)"
    using Max_in [of "?want ` P"] assms(1,2) by (metis (no_types, lifting) finite_imageI image_iff image_is_empty)
  have "?want p \<notin> set (take i ks)" if q: "(ks, i) \<in> P" for ks i
  proof
    assume "?want p \<in> set (take i ks)"
    then obtain j where j: "j < i" "j < length ks" "ks ! j = ?want p" by (auto simp: in_set_conv_nth)
    from assms(3) q have "sorted_wrt (<) ks" "i < length ks" by (auto simp: normalizeKeys_strict)
    with j have "?want p < ks ! i" by (metis sorted_wrt_nth_less)
    moreover have "ks ! i \<le> Max (?want ` P)" using assms(1) q by (intro Max_ge) force+
    ultimately show False using p by simp
  qed
  with p show ?thesis by (intro bexI [of _ p]) (auto split: prod.splits)
qed

theorem normalizeKeys_no_circular_wait_witness:
  "\<exists>(ks, i)\<in>{(normalizeKeys [''b'', ''a'', ''b''] [], 1), (normalizeKeys [''b'', ''c''] [], 0)}.
     \<forall>(ks', i')\<in>{(normalizeKeys [''b'', ''a'', ''b''] [], 1), (normalizeKeys [''b'', ''c''] [], 0)}.
       ks ! i \<notin> set (take i' ks')"
  by (rule normalizeKeys_no_circular_wait) (auto, code_simp+)

text \<open>
  C37 (safety). With the Redis lock, whatever the body and the other clients' locks are (the body
  leaves the key space alone), \<open>WithLocks\<close> ends with the key space it started from: no lock it took
  survives it, on success, on a body error and on a failed acquisition, and no foreign lock is
  released. When it returns a value, that value is the body's, run in a state where every normalised
  key was free before and is held under the caller's value.
\<close>

theorem WithLocks_redis:
  assumes "WithLocks (Some (onFirst (AcquireLock (Inl redisNil) n), onFirst ReleaseLock)) v keys opts fn s = (r, s')"
    and "\<And>t. fst (snd (fn t)) = fst t"
  shows "fst s' = fst s \<and> ((\<exists>e. r = Inl e) \<or>
      (\<exists>t. (\<forall>k\<in>set (normalizeKeys keys (KeyPrefix opts)). fst s k = None \<and> fst t k = Some v) \<and> fst (fn t) = r))"
  using assms by (rule redis.WithLocks_scope)

theorem WithLocks_redis_witness:
  "fst (snd (WithLocks (Some (onFirst (AcquireLock (Inl redisNil) 3), onFirst ReleaseLock)) ''v'' [''b'', ''a'']
       DefaultMultiLockOptions (\<lambda>s. (Inr (fst s ''a'', fst s ''b''), s)) (Map.empty, ()))) = Map.empty \<and>
   fst (WithLocks (Some (onFirst (AcquireLock (Inl redisNil) 3), onFirst ReleaseLock)) ''v'' [''b'', ''a'']
       DefaultMultiLockOptions (\<lambda>s. (Inr (fst s ''a'', fst s ''b''), s)) (Map.empty, ())) = Inr (Some ''v'', Some ''v'')"
proof
  show "fst (WithLocks (Some (onFirst (AcquireLock (Inl redisNil) 3), onFirst ReleaseLock)) ''v'' [''b'', ''a'']
       DefaultMultiLockOptions (\<lambda>s. (Inr (fst s ''a'', fst s ''b''), s)) (Map.empty, ())) = Inr (Some ''v'', Some ''v'')"
    by code_simp
qed (simp add: WithLocks_redis [OF surjective_pairing])

end
