(* ===== verification/LedgerEntities.thy ===== *)
theory LedgerEntities
  imports GoPrelude
begin

text \<open>
  \<^verbatim>\<open>core/modules/ledger/domain/entity\<close>: balanced ledger transactions, transfer bookings and the
  bookings of succeeded and reversed payments. A \<^verbatim>\<open>nil\<close> result with an error is the error alone.
  The clock (\<^verbatim>\<open>time.Now().UTC()\<close>) is the argument \<open>now\<close>.

  The theory shows when a transaction is accepted and what it holds, that the balance test is
  modulo \<open>2^64\<close>, and that the entries of every booking make an accepted transaction.
\<close>

section \<open>Ledger transactions\<close>

abbreviation ErrLedgerTransactionIDRequired :: error where
  "ErrLedgerTransactionIDRequired \<equiv> Sentinel ''ErrLedgerTransactionIDRequired''"
abbreviation ErrLedgerEntriesRequired :: error where
  "ErrLedgerEntriesRequired \<equiv> Sentinel ''ErrLedgerEntriesRequired''"
abbreviation ErrLedgerEntriesUnbalanced :: error where
  "ErrLedgerEntriesUnbalanced \<equiv> Sentinel ''ErrLedgerEntriesUnbalanced''"
abbreviation ErrLedgerEntriesCurrencyMixed :: error where
  "ErrLedgerEntriesCurrencyMixed \<equiv> Sentinel ''ErrLedgerEntriesCurrencyMixed''"

record LedgerEntry =
  le_ID :: int
  le_TransactionID :: string
  le_AccountID :: string
  le_Currency :: string
  le_Amount :: int64
  le_CreatedAt :: gotime

record LedgerEntryInput =
  lei_AccountID :: string
  lei_Currency :: string
  lei_Amount :: int64

record LedgerTransaction =
  lt_TransactionID :: string
  lt_Currency :: string
  lt_CreatedAt :: gotime
  lt_Entries :: "LedgerEntry list"

text \<open>
  The loop over the entries: the running sum, the transaction's currency (empty until the first
  entry) and the entries built so far. The index in the message is dropped, its text kept apart
  for the three messages.
\<close>

fun addEntries ::
  "string \<Rightarrow> gotime \<Rightarrow> LedgerEntryInput list \<Rightarrow> int64 \<Rightarrow> string \<Rightarrow> LedgerEntry list
   \<Rightarrow> error + int64 \<times> string \<times> LedgerEntry list" where
  "addEntries txID now [] acc txCurrency entries = Inr (acc, txCurrency, entries)"
| "addEntries txID now (entry # rest) acc txCurrency entries =
     (let accID = TrimSpace (lei_AccountID entry);
          currency = ToUpper (TrimSpace (lei_Currency entry))
      in if accID = [] then Inl (Errorf ''entries[%d].account_id is required'' [])
         else if currency = [] then Inl (Errorf ''entries[%d].currency is required'' [])
         else if lei_Amount entry = 0 then Inl (Errorf ''entries[%d].amount must be non-zero'' [])
         else if txCurrency \<noteq> [] \<and> txCurrency \<noteq> currency then Inl ErrLedgerEntriesCurrencyMixed
         else addEntries txID now rest (acc + lei_Amount entry)
                (if txCurrency = [] then currency else txCurrency)
                (entries @ [\<lparr>le_ID = 0, le_TransactionID = txID, le_AccountID = accID,
                    le_Currency = currency, le_Amount = lei_Amount entry, le_CreatedAt = now\<rparr>]))"

definition NewLedgerTransaction :: "gotime \<Rightarrow> string \<Rightarrow> LedgerEntryInput list \<Rightarrow> error + LedgerTransaction" where
  "NewLedgerTransaction now transactionID entries =
     (let txID = TrimSpace transactionID
      in if txID = [] then Inl ErrLedgerTransactionIDRequired
         else if length entries < 2 then Inl ErrLedgerEntriesRequired
         else andThen (addEntries txID now entries 0 [] []) (\<lambda>(acc, txCurrency, es).
           if acc \<noteq> 0 then Inl ErrLedgerEntriesUnbalanced
           else Inr \<lparr>lt_TransactionID = txID, lt_Currency = txCurrency, lt_CreatedAt = now, lt_Entries = es\<rparr>))"

section \<open>Transfer bookings\<close>

abbreviation ErrTransferFromAccountRequired :: error where
  "ErrTransferFromAccountRequired \<equiv> Sentinel ''ErrTransferFromAccountRequired''"
abbreviation ErrTransferToAccountRequired :: error where
  "ErrTransferToAccountRequired \<equiv> Sentinel ''ErrTransferToAccountRequired''"
abbreviation ErrTransferAccountsMustDiffer :: error where
  "ErrTransferAccountsMustDiffer \<equiv> Sentinel ''ErrTransferAccountsMustDiffer''"
abbreviation ErrTransferCurrencyRequired :: error where
  "ErrTransferCurrencyRequired \<equiv> Sentinel ''ErrTransferCurrencyRequired''"
abbreviation ErrTransferAmountInvalid :: error where
  "ErrTransferAmountInvalid \<equiv> Sentinel ''ErrTransferAmountInvalid''"

record TransferBooking =
  tb_FromAccountID :: string
  tb_ToAccountID :: string
  tb_Currency :: string
  tb_Amount :: int64

text \<open>\<^verbatim>\<open>TransferBookingInput\<close> has the same fields.\<close>

type_synonym TransferBookingInput = TransferBooking

definition NewTransferBooking :: "TransferBookingInput \<Rightarrow> error + TransferBooking" where
  "NewTransferBooking input =
     (let fromAccountID = TrimSpace (tb_FromAccountID input);
          toAccountID = TrimSpace (tb_ToAccountID input);
          currency = ToUpper (TrimSpace (tb_Currency input))
      in if fromAccountID = [] then Inl ErrTransferFromAccountRequired
         else if toAccountID = [] then Inl ErrTransferToAccountRequired
         else if fromAccountID = toAccountID then Inl ErrTransferAccountsMustDiffer
         else if currency = [] then Inl ErrTransferCurrencyRequired
         else if tb_Amount input \<le>s 0 then Inl ErrTransferAmountInvalid
         else Inr \<lparr>tb_FromAccountID = fromAccountID, tb_ToAccountID = toAccountID,
                   tb_Currency = currency, tb_Amount = tb_Amount input\<rparr>)"

text \<open>The two entries of a movement, shared by the three \<^verbatim>\<open>LedgerEntries\<close> methods.\<close>

definition movementEntries :: "string \<Rightarrow> string \<Rightarrow> string \<Rightarrow> int64 \<Rightarrow> LedgerEntryInput list" where
  "movementEntries debit credit currency amount =
     [\<lparr>lei_AccountID = debit, lei_Currency = currency, lei_Amount = - amount\<rparr>,
      \<lparr>lei_AccountID = credit, lei_Currency = currency, lei_Amount = amount\<rparr>]"

definition TransferBooking_LedgerEntries :: "TransferBooking \<Rightarrow> LedgerEntryInput list" where
  "TransferBooking_LedgerEntries b = movementEntries (tb_FromAccountID b) (tb_ToAccountID b) (tb_Currency b) (tb_Amount b)"

section \<open>Payment bookings\<close>

abbreviation ErrPaymentBookingIDRequired :: error where
  "ErrPaymentBookingIDRequired \<equiv> Sentinel ''ErrPaymentBookingIDRequired''"
abbreviation ErrPaymentBookingClearingKeyRequired :: error where
  "ErrPaymentBookingClearingKeyRequired \<equiv> Sentinel ''ErrPaymentBookingClearingKeyRequired''"
abbreviation ErrPaymentBookingCreditAccountRequired :: error where
  "ErrPaymentBookingCreditAccountRequired \<equiv> Sentinel ''ErrPaymentBookingCreditAccountRequired''"
abbreviation ErrPaymentBookingCurrencyRequired :: error where
  "ErrPaymentBookingCurrencyRequired \<equiv> Sentinel ''ErrPaymentBookingCurrencyRequired''"
abbreviation ErrPaymentBookingAccountsMustDiffer :: error where
  "ErrPaymentBookingAccountsMustDiffer \<equiv> Sentinel ''ErrPaymentBookingAccountsMustDiffer''"
abbreviation ErrPaymentBookingAmountInvalid :: error where
  "ErrPaymentBookingAmountInvalid \<equiv> Sentinel ''ErrPaymentBookingAmountInvalid''"
abbreviation ErrPaymentBookingTypeInvalid :: error where
  "ErrPaymentBookingTypeInvalid \<equiv> Sentinel ''ErrPaymentBookingTypeInvalid''"

text \<open>Event names are the payload types' names.\<close>

definition EventPaymentSucceeded :: string where "EventPaymentSucceeded = ''PaymentSucceededEvent''"
definition EventPaymentRefunded :: string where "EventPaymentRefunded = ''PaymentRefundedEvent''"
definition EventPaymentChargeback :: string where "EventPaymentChargeback = ''PaymentChargebackEvent''"

record PaymentSucceededBooking =
  psb_PaymentID :: string
  psb_ClearingAccountKey :: string
  psb_DebitAccountID :: string
  psb_CreditAccountID :: string
  psb_Currency :: string
  psb_Amount :: int64

record PaymentSucceededBookingInput =
  psi_PaymentID :: string
  psi_TransactionID :: string
  psi_ClearingAccountKey :: string
  psi_CreditAccountID :: string
  psi_Currency :: string
  psi_Amount :: int64

record PaymentReversalBooking =
  prb_PaymentID :: string
  prb_ClearingAccountKey :: string
  prb_ReversalType :: string
  prb_DebitAccountID :: string
  prb_CreditAccountID :: string
  prb_Currency :: string
  prb_Amount :: int64

record PaymentReversalBookingInput =
  pri_PaymentID :: string
  pri_TransactionID :: string
  pri_ClearingAccountKey :: string
  pri_CreditAccountID :: string
  pri_Currency :: string
  pri_Amount :: int64
  pri_ReversalType :: string

definition ledgerClearingAccountID :: "string \<Rightarrow> string" where
  "ledgerClearingAccountID clearingAccountKey = ''ledger:clearing:'' @ ToLower (TrimSpace clearingAccountKey)"

definition normalizePaymentBookingType :: "string \<Rightarrow> string" where
  "normalizePaymentBookingType v =
     (if TrimSpace v = EventPaymentRefunded then EventPaymentRefunded
      else if TrimSpace v = EventPaymentChargeback then EventPaymentChargeback
      else [])"

definition NewPaymentSucceededBooking :: "PaymentSucceededBookingInput \<Rightarrow> error + PaymentSucceededBooking" where
  "NewPaymentSucceededBooking input =
     (let paymentID = (if TrimSpace (psi_PaymentID input) = [] then TrimSpace (psi_TransactionID input)
                       else TrimSpace (psi_PaymentID input));
          clearingAccountKey = ToLower (TrimSpace (psi_ClearingAccountKey input));
          creditAccountID = TrimSpace (psi_CreditAccountID input);
          currency = ToUpper (TrimSpace (psi_Currency input));
          debitAccountID = ledgerClearingAccountID clearingAccountKey
      in if paymentID = [] then Inl ErrPaymentBookingIDRequired
         else if clearingAccountKey = [] then Inl ErrPaymentBookingClearingKeyRequired
         else if creditAccountID = [] then Inl ErrPaymentBookingCreditAccountRequired
         else if currency = [] then Inl ErrPaymentBookingCurrencyRequired
         else if psi_Amount input \<le>s 0 then Inl ErrPaymentBookingAmountInvalid
         else if debitAccountID = creditAccountID then Inl ErrPaymentBookingAccountsMustDiffer
         else Inr \<lparr>psb_PaymentID = paymentID, psb_ClearingAccountKey = clearingAccountKey,
                   psb_DebitAccountID = debitAccountID, psb_CreditAccountID = creditAccountID,
                   psb_Currency = currency, psb_Amount = psi_Amount input\<rparr>)"

definition SucceededBooking_LedgerTransactionID :: "PaymentSucceededBooking \<Rightarrow> string" where
  "SucceededBooking_LedgerTransactionID b = ''payment:'' @ TrimSpace (psb_PaymentID b) @ '':succeeded''"

definition SucceededBooking_LedgerEntries :: "PaymentSucceededBooking \<Rightarrow> LedgerEntryInput list" where
  "SucceededBooking_LedgerEntries b =
     movementEntries (psb_DebitAccountID b) (psb_CreditAccountID b) (psb_Currency b) (psb_Amount b)"

definition NewPaymentReversalBooking :: "PaymentReversalBookingInput \<Rightarrow> error + PaymentReversalBooking" where
  "NewPaymentReversalBooking input =
     (let paymentID = (if TrimSpace (pri_PaymentID input) = [] then TrimSpace (pri_TransactionID input)
                       else TrimSpace (pri_PaymentID input));
          reversalType = normalizePaymentBookingType (pri_ReversalType input);
          clearingAccountKey = ToLower (TrimSpace (pri_ClearingAccountKey input));
          debitAccountID = TrimSpace (pri_CreditAccountID input);
          currency = ToUpper (TrimSpace (pri_Currency input));
          creditAccountID = ledgerClearingAccountID clearingAccountKey
      in if paymentID = [] then Inl ErrPaymentBookingIDRequired
         else if reversalType = [] then Inl ErrPaymentBookingTypeInvalid
         else if clearingAccountKey = [] then Inl ErrPaymentBookingClearingKeyRequired
         else if debitAccountID = [] then Inl ErrPaymentBookingCreditAccountRequired
         else if currency = [] then Inl ErrPaymentBookingCurrencyRequired
         else if pri_Amount input \<le>s 0 then Inl ErrPaymentBookingAmountInvalid
         else if debitAccountID = creditAccountID then Inl ErrPaymentBookingAccountsMustDiffer
         else Inr \<lparr>prb_PaymentID = paymentID, prb_ClearingAccountKey = clearingAccountKey,
                   prb_ReversalType = reversalType, prb_DebitAccountID = debitAccountID,
                   prb_CreditAccountID = creditAccountID, prb_Currency = currency,
                   prb_Amount = pri_Amount input\<rparr>)"

definition ReversalBooking_LedgerTransactionID :: "PaymentReversalBooking \<Rightarrow> string" where
  "ReversalBooking_LedgerTransactionID b =
     (let sfx = (if prb_ReversalType b = EventPaymentRefunded then ''refunded''
                 else if prb_ReversalType b = EventPaymentChargeback then ''chargeback''
                 else ''reversed'')
      in ''payment:'' @ TrimSpace (prb_PaymentID b) @ '':'' @ sfx)"

definition ReversalBooking_LedgerEntries :: "PaymentReversalBooking \<Rightarrow> LedgerEntryInput list" where
  "ReversalBooking_LedgerEntries b =
     movementEntries (prb_DebitAccountID b) (prb_CreditAccountID b) (prb_Currency b) (prb_Amount b)"


section \<open>Accepted transactions\<close>

text \<open>An entry that passes the three checks, its currency, and the entry that is stored for it.\<close>

definition entryOk :: "LedgerEntryInput \<Rightarrow> bool" where
  "entryOk e \<longleftrightarrow> TrimSpace (lei_AccountID e) \<noteq> [] \<and> TrimSpace (lei_Currency e) \<noteq> [] \<and> lei_Amount e \<noteq> 0"

definition entryCurrency :: "LedgerEntryInput \<Rightarrow> string" where
  "entryCurrency e = ToUpper (TrimSpace (lei_Currency e))"

definition storedEntry :: "string \<Rightarrow> gotime \<Rightarrow> LedgerEntryInput \<Rightarrow> LedgerEntry" where
  "storedEntry txID now e = \<lparr>le_ID = 0, le_TransactionID = txID, le_AccountID = TrimSpace (lei_AccountID e),
     le_Currency = entryCurrency e, le_Amount = lei_Amount e, le_CreatedAt = now\<rparr>"

lemma addEntries_Inr:
  assumes "c \<noteq> []"
  shows "addEntries txID now es t c acc = Inr r \<longleftrightarrow>
    (\<forall>e\<in>set es. entryOk e \<and> entryCurrency e = c) \<and>
    r = (t + sum_list (map lei_Amount es), c, acc @ map (storedEntry txID now) es)"
  using assms
  by (induction es arbitrary: t acc)
    (auto simp: Let_def entryOk_def entryCurrency_def storedEntry_def add.assoc)

lemma addEntries_first:
  "addEntries txID now (e # es) t [] acc = Inr r \<longleftrightarrow>
    (\<forall>x\<in>set (e # es). entryOk x \<and> entryCurrency x = entryCurrency e) \<and>
    r = (t + sum_list (map lei_Amount (e # es)), entryCurrency e, acc @ map (storedEntry txID now) (e # es))"
  by (auto simp: Let_def addEntries_Inr entryOk_def entryCurrency_def storedEntry_def add.assoc)

lemma NewLedgerTransaction_Inr:
  "NewLedgerTransaction now txID es = Inr t \<longleftrightarrow>
     TrimSpace txID \<noteq> [] \<and> 2 \<le> length es \<and>
     (\<forall>e\<in>set es. entryOk e \<and> entryCurrency e = entryCurrency (hd es)) \<and>
     sum_list (map lei_Amount es) = 0 \<and>
     t = \<lparr>lt_TransactionID = TrimSpace txID, lt_Currency = entryCurrency (hd es), lt_CreatedAt = now,
          lt_Entries = map (storedEntry (TrimSpace txID) now) es\<rparr>"
proof (cases es)
  case (Cons e rest)
  then show ?thesis by (auto simp: NewLedgerTransaction_def Let_def addEntries_first Suc_le_eq simp del: addEntries.simps)
qed (simp add: NewLedgerTransaction_def Let_def)

text \<open>The entries of a movement between two accounts are accepted.\<close>

lemma movement_accepted:
  assumes "trimmed debit" "debit \<noteq> []" "trimmed credit" "credit \<noteq> []" "trimmed currency" "currency \<noteq> []"
    and "ToUpper currency = currency" "amount \<noteq> 0" "TrimSpace txID \<noteq> []"
  shows "NewLedgerTransaction now txID (movementEntries debit credit currency amount) =
    Inr \<lparr>lt_TransactionID = TrimSpace txID, lt_Currency = currency, lt_CreatedAt = now, lt_Entries =
      [\<lparr>le_ID = 0, le_TransactionID = TrimSpace txID, le_AccountID = debit, le_Currency = currency,
        le_Amount = - amount, le_CreatedAt = now\<rparr>,
       \<lparr>le_ID = 0, le_TransactionID = TrimSpace txID, le_AccountID = credit, le_Currency = currency,
        le_Amount = amount, le_CreatedAt = now\<rparr>]\<rparr>"
  using assms
  by (auto simp: NewLedgerTransaction_Inr movementEntries_def entryOk_def entryCurrency_def storedEntry_def trimmed_iff)

text \<open>A transaction that moves \<open>k\<close> minor units of one currency, over the integers, between two accounts.\<close>

definition movesFunds :: "LedgerTransaction \<Rightarrow> string \<Rightarrow> string \<Rightarrow> string \<Rightarrow> int \<Rightarrow> bool" where
  "movesFunds t debit credit currency k \<longleftrightarrow> debit \<noteq> credit \<and> 0 < k \<and> lt_Currency t = currency \<and>
     map (\<lambda>e. (le_AccountID e, le_Currency e, sint (le_Amount e))) (lt_Entries t) =
       [(debit, currency, - k), (credit, currency, k)]"

lemma movement_movesFunds:
  assumes "trimmed debit" "debit \<noteq> []" "trimmed credit" "credit \<noteq> []" "trimmed currency" "currency \<noteq> []"
    and "ToUpper currency = currency" "0 < sint amount" "TrimSpace txID \<noteq> []" "debit \<noteq> credit"
  shows "\<exists>t. NewLedgerTransaction now txID (movementEntries debit credit currency amount) = Inr t \<and>
    lt_TransactionID t = TrimSpace txID \<and> movesFunds t debit credit currency (sint amount)"
proof -
  from assms(8) have "amount \<noteq> 0" by auto
  moreover have "sint (- amount) = - sint amount"
    using assms(8) sint64_range [of amount] by (intro sint_neg64_fits) (simp add: fits64_def)
  ultimately show ?thesis using assms by (simp add: movement_accepted movesFunds_def)
qed

lemma clearing_trimmed:
  assumes "TrimSpace k \<noteq> []"
  shows "trimmed (ledgerClearingAccountID k)" "ledgerClearingAccountID k \<noteq> []"
  using assms trimmed_prefixed [of "ToLower (TrimSpace k)" "CHR ''l''" "CHR '':''" "''edger:clearing''"]
  by (simp_all add: ledgerClearingAccountID_def visible_def)

lemma clearing_ToLower: "ledgerClearingAccountID (ToLower (TrimSpace k)) = ledgerClearingAccountID k"
  by (simp add: ledgerClearingAccountID_def)

lemma payment_txID_trimmed: "trimmed (''payment:'' @ k @ '':succeeded'')" "trimmed (''payment:'' @ k @ '':refunded'')"
  "trimmed (''payment:'' @ k @ '':chargeback'')"
  by (rule trimmed_visible_ends; simp add: visible_def)+

lemmas booking_defs = NewTransferBooking_def NewPaymentSucceededBooking_def NewPaymentReversalBooking_def
  TransferBooking_LedgerEntries_def SucceededBooking_LedgerEntries_def ReversalBooking_LedgerEntries_def

lemma TrimSpace_SucceededID [simp]:
  "TrimSpace (SucceededBooking_LedgerTransactionID b) = SucceededBooking_LedgerTransactionID b"
  "SucceededBooking_LedgerTransactionID b \<noteq> []"
  using payment_txID_trimmed by (simp_all add: SucceededBooking_LedgerTransactionID_def trimmed_iff)

lemma ReversalBooking_type:
  "NewPaymentReversalBooking i = Inr b \<Longrightarrow> prb_ReversalType b \<in> {EventPaymentRefunded, EventPaymentChargeback}"
  by (auto simp: NewPaymentReversalBooking_def normalizePaymentBookingType_def Let_def split: if_splits)

lemma TrimSpace_ReversalID:
  "NewPaymentReversalBooking i = Inr b \<Longrightarrow>
     TrimSpace (ReversalBooking_LedgerTransactionID b) = ReversalBooking_LedgerTransactionID b \<and>
     ReversalBooking_LedgerTransactionID b \<noteq> []"
  using payment_txID_trimmed
  by (auto dest!: ReversalBooking_type simp: ReversalBooking_LedgerTransactionID_def trimmed_iff Let_def)

lemma TransferBooking_moves:
  "NewTransferBooking ti = Inr tb \<Longrightarrow> TrimSpace txID \<noteq> [] \<Longrightarrow>
     \<exists>t. NewLedgerTransaction now txID (TransferBooking_LedgerEntries tb) = Inr t \<and> lt_TransactionID t = TrimSpace txID \<and>
       movesFunds t (TrimSpace (tb_FromAccountID ti)) (TrimSpace (tb_ToAccountID ti))
         (ToUpper (TrimSpace (tb_Currency ti))) (sint (tb_Amount ti))"
  by (auto simp: booking_defs Let_def word_sle_eq intro!: movement_movesFunds split: if_splits)

lemma SucceededBooking_fields:
  assumes "NewPaymentSucceededBooking si = Inr sb"
  shows "psb_DebitAccountID sb = ledgerClearingAccountID (psi_ClearingAccountKey si)"
    "psb_CreditAccountID sb = TrimSpace (psi_CreditAccountID si)"
    "psb_Currency sb = ToUpper (TrimSpace (psi_Currency si))" "psb_Amount sb = psi_Amount si"
    "TrimSpace (psi_ClearingAccountKey si) \<noteq> []" "TrimSpace (psi_CreditAccountID si) \<noteq> []"
    "TrimSpace (psi_Currency si) \<noteq> []" "0 < sint (psi_Amount si)"
    "ledgerClearingAccountID (psi_ClearingAccountKey si) \<noteq> TrimSpace (psi_CreditAccountID si)"
    "psb_PaymentID sb \<noteq> []" "trimmed (psb_PaymentID sb)"
  using assms
  by (auto simp: NewPaymentSucceededBooking_def Let_def word_sle_eq clearing_ToLower split: if_splits)

lemma SucceededBooking_moves:
  assumes "NewPaymentSucceededBooking si = Inr sb"
  shows "\<exists>t. NewLedgerTransaction now (SucceededBooking_LedgerTransactionID sb) (SucceededBooking_LedgerEntries sb) = Inr t \<and>
    lt_TransactionID t = SucceededBooking_LedgerTransactionID sb \<and>
    movesFunds t (ledgerClearingAccountID (psi_ClearingAccountKey si)) (TrimSpace (psi_CreditAccountID si))
      (ToUpper (TrimSpace (psi_Currency si))) (sint (psi_Amount si))"
  using SucceededBooking_fields [OF assms] clearing_trimmed [of "psi_ClearingAccountKey si"]
    movement_movesFunds [of "psb_DebitAccountID sb" "psb_CreditAccountID sb" "psb_Currency sb" "psb_Amount sb"
      "SucceededBooking_LedgerTransactionID sb" now]
  by (simp add: SucceededBooking_LedgerEntries_def)

lemma ReversalBooking_fields:
  assumes "NewPaymentReversalBooking ri = Inr rb"
  shows "prb_CreditAccountID rb = ledgerClearingAccountID (pri_ClearingAccountKey ri)"
    "prb_DebitAccountID rb = TrimSpace (pri_CreditAccountID ri)"
    "prb_Currency rb = ToUpper (TrimSpace (pri_Currency ri))" "prb_Amount rb = pri_Amount ri"
    "TrimSpace (pri_ClearingAccountKey ri) \<noteq> []" "TrimSpace (pri_CreditAccountID ri) \<noteq> []"
    "TrimSpace (pri_Currency ri) \<noteq> []" "0 < sint (pri_Amount ri)"
    "TrimSpace (pri_CreditAccountID ri) \<noteq> ledgerClearingAccountID (pri_ClearingAccountKey ri)"
    "prb_PaymentID rb \<noteq> []" "trimmed (prb_PaymentID rb)"
  using assms
  by (auto simp: NewPaymentReversalBooking_def Let_def word_sle_eq clearing_ToLower split: if_splits)

lemma ReversalBooking_moves:
  assumes "NewPaymentReversalBooking ri = Inr rb"
  shows "\<exists>t. NewLedgerTransaction now (ReversalBooking_LedgerTransactionID rb) (ReversalBooking_LedgerEntries rb) = Inr t \<and>
    lt_TransactionID t = ReversalBooking_LedgerTransactionID rb \<and>
    movesFunds t (TrimSpace (pri_CreditAccountID ri)) (ledgerClearingAccountID (pri_ClearingAccountKey ri))
      (ToUpper (TrimSpace (pri_Currency ri))) (sint (pri_Amount ri))"
  using ReversalBooking_fields [OF assms] clearing_trimmed [of "pri_ClearingAccountKey ri"] TrimSpace_ReversalID [OF assms]
    movement_movesFunds [of "prb_DebitAccountID rb" "prb_CreditAccountID rb" "prb_Currency rb" "prb_Amount rb"
      "ReversalBooking_LedgerTransactionID rb" now]
  by (simp add: ReversalBooking_LedgerEntries_def)

section \<open>Properties\<close>

text \<open>
  C35 (functional). A ledger transaction is accepted exactly when its id is not blank, it has at
  least two entries, every entry has an account, a currency and a non-zero amount, all entries have
  the same normalised currency, and the amounts add up to zero in int64 arithmetic; it then holds
  the normalised entries in order.
\<close>

theorem NewLedgerTransaction_exact:
  "NewLedgerTransaction now txID es = Inr t \<longleftrightarrow>
     TrimSpace txID \<noteq> [] \<and> 2 \<le> length es \<and>
     list_all (\<lambda>e. entryOk e \<and> entryCurrency e = entryCurrency (hd es)) es \<and>
     sum_list (map lei_Amount es) = 0 \<and>
     t = \<lparr>lt_TransactionID = TrimSpace txID, lt_Currency = entryCurrency (hd es), lt_CreatedAt = now,
          lt_Entries = map (storedEntry (TrimSpace txID) now) es\<rparr>"
  unfolding NewLedgerTransaction_Inr by (auto simp: list_all_iff)

text \<open>
  The balance test wraps: four entries of \<open>2^62\<close> each, all credits, add up to \<open>2^64\<close>
  and are accepted as balanced.
\<close>

lemma NewLedgerTransaction_wraps:
  "\<exists>t. NewLedgerTransaction now ''tx'' (map (\<lambda>a. \<lparr>lei_AccountID = a, lei_Currency = ''USD'', lei_Amount = 2 ^ 62\<rparr>)
        [''a'', ''b'', ''c'', ''d'']) = Inr t \<and> sum_list (map (sint \<circ> le_Amount) (lt_Entries t)) = 2 ^ 64"
proof -
  have "trimmed ''tx''" "trimmed ''USD''" "trimmed ''a''" "trimmed ''b''" "trimmed ''c''" "trimmed ''d''"
    by (rule trimmed_visible_ends; simp add: visible_def)+
  then show ?thesis
    by (simp add: NewLedgerTransaction_Inr entryOk_def entryCurrency_def storedEntry_def trimmed_iff)
qed

text \<open>
  Every booking that is accepted makes a ledger transaction that is accepted and
  moves the booked amount, positive and exact over the integers, from one account to a different
  one: a transfer from sender to receiver, a succeeded payment from the provider's clearing account
  to the credited account, a reversal back from the credited account to the clearing account.
\<close>

lemma bookings_move_funds:
  "(NewTransferBooking ti = Inr tb \<and> TrimSpace txID \<noteq> [] \<longrightarrow>
     (\<exists>t. NewLedgerTransaction now txID (TransferBooking_LedgerEntries tb) = Inr t \<and> lt_TransactionID t = TrimSpace txID \<and>
       movesFunds t (TrimSpace (tb_FromAccountID ti)) (TrimSpace (tb_ToAccountID ti))
         (ToUpper (TrimSpace (tb_Currency ti))) (sint (tb_Amount ti)))) \<and>
   (NewPaymentSucceededBooking si = Inr sb \<longrightarrow>
     (\<exists>t. NewLedgerTransaction now (SucceededBooking_LedgerTransactionID sb) (SucceededBooking_LedgerEntries sb) = Inr t \<and>
       lt_TransactionID t = SucceededBooking_LedgerTransactionID sb \<and>
       movesFunds t (ledgerClearingAccountID (psi_ClearingAccountKey si)) (TrimSpace (psi_CreditAccountID si))
         (ToUpper (TrimSpace (psi_Currency si))) (sint (psi_Amount si)))) \<and>
   (NewPaymentReversalBooking ri = Inr rb \<longrightarrow>
     (\<exists>t. NewLedgerTransaction now (ReversalBooking_LedgerTransactionID rb) (ReversalBooking_LedgerEntries rb) = Inr t \<and>
       lt_TransactionID t = ReversalBooking_LedgerTransactionID rb \<and>
       movesFunds t (TrimSpace (pri_CreditAccountID ri)) (ledgerClearingAccountID (pri_ClearingAccountKey ri))
         (ToUpper (TrimSpace (pri_Currency ri))) (sint (pri_Amount ri))))"
  using TransferBooking_moves SucceededBooking_moves ReversalBooking_moves by blast

text \<open>A top-up of 15.00 by a provider whose clearing key is given in mixed case.\<close>

definition sampleSucceeded :: PaymentSucceededBookingInput where
  "sampleSucceeded = \<lparr>psi_PaymentID = '' p1 '', psi_TransactionID = [], psi_ClearingAccountKey = ''Stripe'',
     psi_CreditAccountID = ''u1'', psi_Currency = ''usd'', psi_Amount = 1500\<rparr>"

lemma bookings_move_funds_witness:
  "\<exists>sb t. NewPaymentSucceededBooking sampleSucceeded = Inr sb \<and>
     SucceededBooking_LedgerTransactionID sb = ''payment:p1:succeeded'' \<and>
     NewLedgerTransaction zeroTime (SucceededBooking_LedgerTransactionID sb) (SucceededBooking_LedgerEntries sb) = Inr t \<and>
     movesFunds t ''ledger:clearing:stripe'' ''u1'' ''USD'' 1500"
proof -
  let ?sb = "\<lparr>psb_PaymentID = ''p1'', psb_ClearingAccountKey = ''stripe'', psb_DebitAccountID = ''ledger:clearing:stripe'',
    psb_CreditAccountID = ''u1'', psb_Currency = ''USD'', psb_Amount = 1500\<rparr>"
  have sb: "NewPaymentSucceededBooking sampleSucceeded = Inr ?sb" by code_simp
  have "SucceededBooking_LedgerTransactionID ?sb = ''payment:p1:succeeded''" by code_simp
  moreover have "ledgerClearingAccountID (psi_ClearingAccountKey sampleSucceeded) = ''ledger:clearing:stripe''"
    "TrimSpace (psi_CreditAccountID sampleSucceeded) = ''u1''"
    "ToUpper (TrimSpace (psi_Currency sampleSucceeded)) = ''USD''" "sint (psi_Amount sampleSucceeded) = 1500"
    by code_simp+
  ultimately show ?thesis
    using bookings_move_funds [of undefined undefined undefined zeroTime sampleSucceeded ?sb] sb by auto
qed

end
