(* ===== verification/LedgerPosting.thy ===== *)
theory LedgerPosting
  imports EventSourcing LedgerEntities
begin

text \<open>
  The postings and events of \<^verbatim>\<open>core/modules/ledger/domain/aggregate\<close>: how a posting is validated
  and normalised, the posting an event stands for, and the event of a posting.

  Typed event pointers that are \<^verbatim>\<open>nil\<close> are excluded by the types. The theory shows that what these
  functions return is normalised, that normalising is idempotent, and that event and posting
  determine each other.
\<close>

section \<open>Postings and events\<close>

abbreviation ErrLedgerAccountIDRequired :: error where
  "ErrLedgerAccountIDRequired \<equiv> Sentinel ''ErrLedgerAccountIDRequired''"
abbreviation ErrLedgerAccountIDMismatch :: error where
  "ErrLedgerAccountIDMismatch \<equiv> Sentinel ''ErrLedgerAccountIDMismatch''"
abbreviation ErrLedgerAccountTransactionRequired :: error where
  "ErrLedgerAccountTransactionRequired \<equiv> Sentinel ''ErrLedgerAccountTransactionRequired''"
abbreviation ErrLedgerAccountReferenceTypeInvalid :: error where
  "ErrLedgerAccountReferenceTypeInvalid \<equiv> Sentinel ''ErrLedgerAccountReferenceTypeInvalid''"
abbreviation ErrLedgerAccountReferenceIDRequired :: error where
  "ErrLedgerAccountReferenceIDRequired \<equiv> Sentinel ''ErrLedgerAccountReferenceIDRequired''"
abbreviation ErrLedgerAccountCounterpartyRequired :: error where
  "ErrLedgerAccountCounterpartyRequired \<equiv> Sentinel ''ErrLedgerAccountCounterpartyRequired''"
abbreviation ErrLedgerAccountAccountsMustDiffer :: error where
  "ErrLedgerAccountAccountsMustDiffer \<equiv> Sentinel ''ErrLedgerAccountAccountsMustDiffer''"
abbreviation ErrLedgerAccountCurrencyRequired :: error where
  "ErrLedgerAccountCurrencyRequired \<equiv> Sentinel ''ErrLedgerAccountCurrencyRequired''"
abbreviation ErrLedgerAccountAmountInvalid :: error where
  "ErrLedgerAccountAmountInvalid \<equiv> Sentinel ''ErrLedgerAccountAmountInvalid''"
abbreviation ErrLedgerAccountBookedAtRequired :: error where
  "ErrLedgerAccountBookedAtRequired \<equiv> Sentinel ''ErrLedgerAccountBookedAtRequired''"
abbreviation ErrLedgerAccountInsufficientFunds :: error where
  "ErrLedgerAccountInsufficientFunds \<equiv> Sentinel ''ErrLedgerAccountInsufficientFunds''"

definition LedgerReferenceInternalTransfer :: string where
  "LedgerReferenceInternalTransfer = ''ledger.transfer.internal''"

record LedgerAccountPosting =
  p_TransactionID :: string
  p_ReferenceType :: string
  p_ReferenceID :: string
  p_CounterpartyAccountID :: string
  p_Currency :: string
  p_AmountDelta :: int64
  p_BookedAt :: gotime

record LedgerAccountPostingInput =
  pi_AccountID :: string
  pi_TransactionID :: string
  pi_ReferenceType :: string
  pi_ReferenceID :: string
  pi_CounterpartyAccountID :: string
  pi_Currency :: string
  pi_AmountDelta :: int64
  pi_BookedAt :: gotime

record LedgerAccountTransferPostingInput =
  ti_AccountID :: string
  ti_TransactionID :: string
  ti_CounterpartyAccountID :: string
  ti_Currency :: string
  ti_Amount :: int64
  ti_BookedAt :: gotime

text \<open>The fields common to the ten payment event structs (\<^verbatim>\<open>ledgerPaymentEventData\<close>).\<close>

record ledgerPaymentEventData =
  pe_transactionID :: string
  pe_paymentID :: string
  pe_counterpartyAccountID :: string
  pe_currency :: string
  pe_amount :: int64
  pe_bookedAt :: gotime

record EventLedgerAccountTransferredToAccountData =
  tt_TransactionID :: string
  tt_ToAccountID :: string
  tt_Currency :: string
  tt_Amount :: int64
  tt_BookedAt :: gotime

record EventLedgerAccountReceivedTransferData =
  rt_TransactionID :: string
  rt_FromAccountID :: string
  rt_Currency :: string
  rt_Amount :: int64
  rt_BookedAt :: gotime

text \<open>\<open>OtherEvent\<close> stands for a payload of any other Go type, by the type's name.\<close>

datatype LedgerEvent =
    EventLedgerAccountDepositFromIntent ledgerPaymentEventData
  | EventLedgerAccountWithdrawFromIntent ledgerPaymentEventData
  | EventLedgerAccountDepositFromRefund ledgerPaymentEventData
  | EventLedgerAccountWithdrawFromRefund ledgerPaymentEventData
  | EventLedgerAccountDepositFromChargeback ledgerPaymentEventData
  | EventLedgerAccountWithdrawFromChargeback ledgerPaymentEventData
  | EventLedgerAccountReserveWithdrawal ledgerPaymentEventData
  | EventLedgerAccountReceiveWithdrawalHold ledgerPaymentEventData
  | EventLedgerAccountReleaseWithdrawal ledgerPaymentEventData
  | EventLedgerAccountWithdrawReleasedHold ledgerPaymentEventData
  | EventLedgerAccountTransferredToAccount EventLedgerAccountTransferredToAccountData
  | EventLedgerAccountReceivedTransfer EventLedgerAccountReceivedTransferData
  | OtherEvent string

abbreviation EventNameLedgerAccountDepositFromIntent :: string where
  "EventNameLedgerAccountDepositFromIntent \<equiv> ''EventLedgerAccountDepositFromIntent''"
abbreviation EventNameLedgerAccountWithdrawFromIntent :: string where
  "EventNameLedgerAccountWithdrawFromIntent \<equiv> ''EventLedgerAccountWithdrawFromIntent''"
abbreviation EventNameLedgerAccountDepositFromRefund :: string where
  "EventNameLedgerAccountDepositFromRefund \<equiv> ''EventLedgerAccountDepositFromRefund''"
abbreviation EventNameLedgerAccountWithdrawFromRefund :: string where
  "EventNameLedgerAccountWithdrawFromRefund \<equiv> ''EventLedgerAccountWithdrawFromRefund''"
abbreviation EventNameLedgerAccountDepositFromChargeback :: string where
  "EventNameLedgerAccountDepositFromChargeback \<equiv> ''EventLedgerAccountDepositFromChargeback''"
abbreviation EventNameLedgerAccountWithdrawFromChargeback :: string where
  "EventNameLedgerAccountWithdrawFromChargeback \<equiv> ''EventLedgerAccountWithdrawFromChargeback''"
abbreviation EventNameLedgerAccountReserveWithdrawal :: string where
  "EventNameLedgerAccountReserveWithdrawal \<equiv> ''EventLedgerAccountReserveWithdrawal''"
abbreviation EventNameLedgerAccountReceiveWithdrawalHold :: string where
  "EventNameLedgerAccountReceiveWithdrawalHold \<equiv> ''EventLedgerAccountReceiveWithdrawalHold''"
abbreviation EventNameLedgerAccountReleaseWithdrawal :: string where
  "EventNameLedgerAccountReleaseWithdrawal \<equiv> ''EventLedgerAccountReleaseWithdrawal''"
abbreviation EventNameLedgerAccountWithdrawReleasedHold :: string where
  "EventNameLedgerAccountWithdrawReleasedHold \<equiv> ''EventLedgerAccountWithdrawReleasedHold''"
abbreviation EventNameLedgerAccountTransferredToAccount :: string where
  "EventNameLedgerAccountTransferredToAccount \<equiv> ''EventLedgerAccountTransferredToAccount''"
abbreviation EventNameLedgerAccountReceivedTransfer :: string where
  "EventNameLedgerAccountReceivedTransfer \<equiv> ''EventLedgerAccountReceivedTransfer''"

text \<open>\<^verbatim>\<open>event.EventName\<close> on the payloads, and the method \<^verbatim>\<open>paymentEvent\<close> the ten payment events have.\<close>

fun ledgerEventName :: "LedgerEvent \<Rightarrow> string" where
  "ledgerEventName (EventLedgerAccountDepositFromIntent d) = EventNameLedgerAccountDepositFromIntent"
| "ledgerEventName (EventLedgerAccountWithdrawFromIntent d) = EventNameLedgerAccountWithdrawFromIntent"
| "ledgerEventName (EventLedgerAccountDepositFromRefund d) = EventNameLedgerAccountDepositFromRefund"
| "ledgerEventName (EventLedgerAccountWithdrawFromRefund d) = EventNameLedgerAccountWithdrawFromRefund"
| "ledgerEventName (EventLedgerAccountDepositFromChargeback d) = EventNameLedgerAccountDepositFromChargeback"
| "ledgerEventName (EventLedgerAccountWithdrawFromChargeback d) = EventNameLedgerAccountWithdrawFromChargeback"
| "ledgerEventName (EventLedgerAccountReserveWithdrawal d) = EventNameLedgerAccountReserveWithdrawal"
| "ledgerEventName (EventLedgerAccountReceiveWithdrawalHold d) = EventNameLedgerAccountReceiveWithdrawalHold"
| "ledgerEventName (EventLedgerAccountReleaseWithdrawal d) = EventNameLedgerAccountReleaseWithdrawal"
| "ledgerEventName (EventLedgerAccountWithdrawReleasedHold d) = EventNameLedgerAccountWithdrawReleasedHold"
| "ledgerEventName (EventLedgerAccountTransferredToAccount t) = EventNameLedgerAccountTransferredToAccount"
| "ledgerEventName (EventLedgerAccountReceivedTransfer t) = EventNameLedgerAccountReceivedTransfer"
| "ledgerEventName (OtherEvent n) = n"

fun paymentEvent :: "LedgerEvent \<Rightarrow> ledgerPaymentEventData option" where
  "paymentEvent (EventLedgerAccountDepositFromIntent d) = Some d"
| "paymentEvent (EventLedgerAccountWithdrawFromIntent d) = Some d"
| "paymentEvent (EventLedgerAccountDepositFromRefund d) = Some d"
| "paymentEvent (EventLedgerAccountWithdrawFromRefund d) = Some d"
| "paymentEvent (EventLedgerAccountDepositFromChargeback d) = Some d"
| "paymentEvent (EventLedgerAccountWithdrawFromChargeback d) = Some d"
| "paymentEvent (EventLedgerAccountReserveWithdrawal d) = Some d"
| "paymentEvent (EventLedgerAccountReceiveWithdrawalHold d) = Some d"
| "paymentEvent (EventLedgerAccountReleaseWithdrawal d) = Some d"
| "paymentEvent (EventLedgerAccountWithdrawReleasedHold d) = Some d"
| "paymentEvent (EventLedgerAccountTransferredToAccount t) = None"
| "paymentEvent (EventLedgerAccountReceivedTransfer t) = None"
| "paymentEvent (OtherEvent n) = None"

section \<open>Building postings\<close>

definition newLedgerPosting ::
  "string \<Rightarrow> string \<Rightarrow> string \<Rightarrow> string \<Rightarrow> string \<Rightarrow> int64 \<Rightarrow> gotime \<Rightarrow> error + LedgerAccountPosting" where
  "newLedgerPosting transactionID referenceType referenceID counterpartyAccountID currency amountDelta bookedAt =
     (if TrimSpace transactionID = [] then Inl ErrLedgerAccountTransactionRequired
      else if ToUpper (TrimSpace currency) = [] then Inl ErrLedgerAccountCurrencyRequired
      else if amountDelta = 0 then Inl ErrLedgerAccountAmountInvalid
      else if IsZero bookedAt then Inl ErrLedgerAccountBookedAtRequired
      else Inr \<lparr>p_TransactionID = TrimSpace transactionID, p_ReferenceType = TrimSpace referenceType,
                p_ReferenceID = TrimSpace referenceID, p_CounterpartyAccountID = TrimSpace counterpartyAccountID,
                p_Currency = ToUpper (TrimSpace currency), p_AmountDelta = amountDelta, p_BookedAt = UTC bookedAt\<rparr>)"

definition postingReferenceTypes :: "string list" where
  "postingReferenceTypes =
     [EventNameLedgerAccountDepositFromIntent, EventNameLedgerAccountWithdrawFromIntent,
      EventNameLedgerAccountDepositFromRefund, EventNameLedgerAccountWithdrawFromRefund,
      EventNameLedgerAccountDepositFromChargeback, EventNameLedgerAccountWithdrawFromChargeback,
      EventNameLedgerAccountReserveWithdrawal, EventNameLedgerAccountReceiveWithdrawalHold,
      EventNameLedgerAccountReleaseWithdrawal, EventNameLedgerAccountWithdrawReleasedHold,
      LedgerReferenceInternalTransfer]"

definition normalizeLedgerAccountPosting ::
  "string \<Rightarrow> LedgerAccountPosting \<Rightarrow> error + string \<times> LedgerAccountPosting" where
  "normalizeLedgerAccountPosting accID posting =
     (let accountID = TrimSpace accID;
          referenceType = TrimSpace (p_ReferenceType posting);
          transactionID = TrimSpace (p_TransactionID posting);
          referenceID = TrimSpace (p_ReferenceID posting);
          counterpartyAccountID = TrimSpace (p_CounterpartyAccountID posting);
          currency = ToUpper (TrimSpace (p_Currency posting))
      in if accountID = [] then Inl ErrLedgerAccountIDRequired
         else if referenceType \<notin> set postingReferenceTypes then Inl ErrLedgerAccountReferenceTypeInvalid
         else if transactionID = [] then Inl ErrLedgerAccountTransactionRequired
         else if referenceID = [] then Inl ErrLedgerAccountReferenceIDRequired
         else if counterpartyAccountID = [] then Inl ErrLedgerAccountCounterpartyRequired
         else if counterpartyAccountID = accountID then Inl ErrLedgerAccountAccountsMustDiffer
         else if currency = [] then Inl ErrLedgerAccountCurrencyRequired
         else if p_AmountDelta posting = 0 then Inl ErrLedgerAccountAmountInvalid
         else if IsZero (p_BookedAt posting) then Inl ErrLedgerAccountBookedAtRequired
         else Inr (accountID,
                \<lparr>p_TransactionID = transactionID, p_ReferenceType = referenceType, p_ReferenceID = referenceID,
                 p_CounterpartyAccountID = counterpartyAccountID, p_Currency = currency,
                 p_AmountDelta = p_AmountDelta posting, p_BookedAt = UTC (p_BookedAt posting)\<rparr>))"

definition NewLedgerAccountPaymentPosting :: "LedgerAccountPostingInput \<Rightarrow> error + LedgerAccountPosting" where
  "NewLedgerAccountPaymentPosting input =
     andThen (newLedgerPosting (pi_TransactionID input) (pi_ReferenceType input) (pi_ReferenceID input)
        (pi_CounterpartyAccountID input) (pi_Currency input) (pi_AmountDelta input) (pi_BookedAt input))
      (\<lambda>posting. andThen (normalizeLedgerAccountPosting (pi_AccountID input) posting) (\<lambda>(_, normalizedPosting).
        Inr normalizedPosting))"

definition NewLedgerAccountTransferOutPosting :: "LedgerAccountTransferPostingInput \<Rightarrow> error + LedgerAccountPosting" where
  "NewLedgerAccountTransferOutPosting input = NewLedgerAccountPaymentPosting
     \<lparr>pi_AccountID = ti_AccountID input, pi_TransactionID = ti_TransactionID input,
      pi_ReferenceType = LedgerReferenceInternalTransfer, pi_ReferenceID = ti_TransactionID input,
      pi_CounterpartyAccountID = ti_CounterpartyAccountID input, pi_Currency = ti_Currency input,
      pi_AmountDelta = - ti_Amount input, pi_BookedAt = ti_BookedAt input\<rparr>"

definition NewLedgerAccountTransferInPosting :: "LedgerAccountTransferPostingInput \<Rightarrow> error + LedgerAccountPosting" where
  "NewLedgerAccountTransferInPosting input = NewLedgerAccountPaymentPosting
     \<lparr>pi_AccountID = ti_AccountID input, pi_TransactionID = ti_TransactionID input,
      pi_ReferenceType = LedgerReferenceInternalTransfer, pi_ReferenceID = ti_TransactionID input,
      pi_CounterpartyAccountID = ti_CounterpartyAccountID input, pi_Currency = ti_Currency input,
      pi_AmountDelta = ti_Amount input, pi_BookedAt = ti_BookedAt input\<rparr>"

text \<open>\<open>None\<close> is the result \<^verbatim>\<open>ok = false\<close>.\<close>

definition newLedgerPostingFromPaymentEvent ::
  "string \<Rightarrow> LedgerEvent \<Rightarrow> string \<Rightarrow> int64 \<Rightarrow> error + LedgerAccountPosting option" where
  "newLedgerPostingFromPaymentEvent accountID data referenceType direction =
     (case paymentEvent data of
        None \<Rightarrow> Inr None
      | Some payload \<Rightarrow>
          andThen (NewLedgerAccountPaymentPosting
            \<lparr>pi_AccountID = accountID, pi_TransactionID = pe_transactionID payload,
             pi_ReferenceType = referenceType, pi_ReferenceID = pe_paymentID payload,
             pi_CounterpartyAccountID = pe_counterpartyAccountID payload, pi_Currency = pe_currency payload,
             pi_AmountDelta = direction * pe_amount payload, pi_BookedAt = pe_bookedAt payload\<rparr>)
          (\<lambda>posting. Inr (Some posting)))"

definition transferOutInput :: "string \<Rightarrow> EventLedgerAccountTransferredToAccountData \<Rightarrow> LedgerAccountTransferPostingInput" where
  "transferOutInput accountID data =
     \<lparr>ti_AccountID = accountID, ti_TransactionID = tt_TransactionID data, ti_CounterpartyAccountID = tt_ToAccountID data,
      ti_Currency = tt_Currency data, ti_Amount = tt_Amount data, ti_BookedAt = tt_BookedAt data\<rparr>"

definition transferInInput :: "string \<Rightarrow> EventLedgerAccountReceivedTransferData \<Rightarrow> LedgerAccountTransferPostingInput" where
  "transferInInput accountID data =
     \<lparr>ti_AccountID = accountID, ti_TransactionID = rt_TransactionID data, ti_CounterpartyAccountID = rt_FromAccountID data,
      ti_Currency = rt_Currency data, ti_Amount = rt_Amount data, ti_BookedAt = rt_BookedAt data\<rparr>"

definition previewLedgerPostingFromEvent :: "string \<Rightarrow> LedgerEvent \<Rightarrow> error + LedgerAccountPosting option" where
  "previewLedgerPostingFromEvent accountID eventData =
     (case eventData of
        EventLedgerAccountDepositFromIntent _ \<Rightarrow>
          newLedgerPostingFromPaymentEvent accountID eventData EventNameLedgerAccountDepositFromIntent 1
      | EventLedgerAccountWithdrawFromIntent _ \<Rightarrow>
          newLedgerPostingFromPaymentEvent accountID eventData EventNameLedgerAccountWithdrawFromIntent (- 1)
      | EventLedgerAccountDepositFromRefund _ \<Rightarrow>
          newLedgerPostingFromPaymentEvent accountID eventData EventNameLedgerAccountDepositFromRefund 1
      | EventLedgerAccountWithdrawFromRefund _ \<Rightarrow>
          newLedgerPostingFromPaymentEvent accountID eventData EventNameLedgerAccountWithdrawFromRefund (- 1)
      | EventLedgerAccountDepositFromChargeback _ \<Rightarrow>
          newLedgerPostingFromPaymentEvent accountID eventData EventNameLedgerAccountDepositFromChargeback 1
      | EventLedgerAccountWithdrawFromChargeback _ \<Rightarrow>
          newLedgerPostingFromPaymentEvent accountID eventData EventNameLedgerAccountWithdrawFromChargeback (- 1)
      | EventLedgerAccountReserveWithdrawal _ \<Rightarrow>
          newLedgerPostingFromPaymentEvent accountID eventData EventNameLedgerAccountReserveWithdrawal (- 1)
      | EventLedgerAccountReceiveWithdrawalHold _ \<Rightarrow>
          newLedgerPostingFromPaymentEvent accountID eventData EventNameLedgerAccountReceiveWithdrawalHold 1
      | EventLedgerAccountReleaseWithdrawal _ \<Rightarrow>
          newLedgerPostingFromPaymentEvent accountID eventData EventNameLedgerAccountReleaseWithdrawal 1
      | EventLedgerAccountWithdrawReleasedHold _ \<Rightarrow>
          newLedgerPostingFromPaymentEvent accountID eventData EventNameLedgerAccountWithdrawReleasedHold (- 1)
      | EventLedgerAccountTransferredToAccount data \<Rightarrow>
          andThen (NewLedgerAccountTransferOutPosting (transferOutInput accountID data)) (\<lambda>p. Inr (Some p))
      | EventLedgerAccountReceivedTransfer data \<Rightarrow>
          andThen (NewLedgerAccountTransferInPosting (transferInInput accountID data)) (\<lambda>p. Inr (Some p))
      | OtherEvent _ \<Rightarrow> Inr None)"

definition NewLedgerAccountPostingFromEvent :: "string \<Rightarrow> LedgerEvent \<Rightarrow> error + LedgerAccountPosting option" where
  "NewLedgerAccountPostingFromEvent accountID eventData = previewLedgerPostingFromEvent accountID eventData"

definition absInt64 :: "int64 \<Rightarrow> int64" where
  "absInt64 v = (if v <s 0 then - v else v)"

text \<open>\<open>None\<close> is the \<^verbatim>\<open>nil\<close> event.\<close>

definition newLedgerPaymentEvent :: "LedgerAccountPosting \<Rightarrow> LedgerEvent option" where
  "newLedgerPaymentEvent posting =
     (let base = \<lparr>pe_transactionID = p_TransactionID posting, pe_paymentID = p_ReferenceID posting,
                  pe_counterpartyAccountID = p_CounterpartyAccountID posting, pe_currency = p_Currency posting,
                  pe_amount = absInt64 (p_AmountDelta posting), pe_bookedAt = p_BookedAt posting\<rparr>;
          referenceType = p_ReferenceType posting
      in if referenceType = EventNameLedgerAccountDepositFromIntent then Some (EventLedgerAccountDepositFromIntent base)
         else if referenceType = EventNameLedgerAccountWithdrawFromIntent then Some (EventLedgerAccountWithdrawFromIntent base)
         else if referenceType = EventNameLedgerAccountDepositFromRefund then Some (EventLedgerAccountDepositFromRefund base)
         else if referenceType = EventNameLedgerAccountWithdrawFromRefund then Some (EventLedgerAccountWithdrawFromRefund base)
         else if referenceType = EventNameLedgerAccountDepositFromChargeback then Some (EventLedgerAccountDepositFromChargeback base)
         else if referenceType = EventNameLedgerAccountWithdrawFromChargeback then Some (EventLedgerAccountWithdrawFromChargeback base)
         else if referenceType = EventNameLedgerAccountReserveWithdrawal then Some (EventLedgerAccountReserveWithdrawal base)
         else if referenceType = EventNameLedgerAccountReceiveWithdrawalHold then Some (EventLedgerAccountReceiveWithdrawalHold base)
         else if referenceType = EventNameLedgerAccountReleaseWithdrawal then Some (EventLedgerAccountReleaseWithdrawal base)
         else if referenceType = EventNameLedgerAccountWithdrawReleasedHold then Some (EventLedgerAccountWithdrawReleasedHold base)
         else None)"

definition NewLedgerAccountEvent :: "string \<Rightarrow> string \<Rightarrow> LedgerEvent \<Rightarrow> LedgerEvent Event" where
  "NewLedgerAccountEvent aggID aggType data =
     \<lparr>ev_ID = 0, ev_AggregateID = aggID, ev_AggregateType = aggType, ev_Version = 0,
      ev_EventName = ledgerEventName data, ev_EventData = data, ev_CreatedAt = 0\<rparr>"

definition NewLedgerAccountEventFromPosting :: "string \<Rightarrow> LedgerAccountPosting \<Rightarrow> LedgerEvent Event option" where
  "NewLedgerAccountEventFromPosting accountID posting =
     map_option (NewLedgerAccountEvent accountID ''LedgerAccountAggregate'') (newLedgerPaymentEvent posting)"

definition SameLedgerAccountPosting :: "LedgerAccountPosting \<Rightarrow> LedgerAccountPosting \<Rightarrow> bool" where
  "SameLedgerAccountPosting left right \<longleftrightarrow>
     p_TransactionID left = p_TransactionID right \<and> p_ReferenceType left = p_ReferenceType right \<and>
     p_ReferenceID left = p_ReferenceID right \<and> p_CounterpartyAccountID left = p_CounterpartyAccountID right \<and>
     p_Currency left = p_Currency right \<and> p_AmountDelta left = p_AmountDelta right"

definition ledgerPaymentReferenceTypeForSucceededAmount :: "int64 \<Rightarrow> string" where
  "ledgerPaymentReferenceTypeForSucceededAmount amountDelta =
     (if 0 \<le>s amountDelta then EventNameLedgerAccountDepositFromIntent else EventNameLedgerAccountWithdrawFromIntent)"

definition ledgerPaymentReferenceTypeForReversal :: "string \<Rightarrow> int64 \<Rightarrow> string" where
  "ledgerPaymentReferenceTypeForReversal paymentEventName amountDelta =
     (if TrimSpace paymentEventName = EventPaymentRefunded
      then (if 0 \<le>s amountDelta then EventNameLedgerAccountDepositFromRefund else EventNameLedgerAccountWithdrawFromRefund)
      else if TrimSpace paymentEventName = EventPaymentChargeback
      then (if 0 \<le>s amountDelta then EventNameLedgerAccountDepositFromChargeback else EventNameLedgerAccountWithdrawFromChargeback)
      else [])"


section \<open>Normalised postings\<close>

text \<open>\<open>posting_ok acc p\<close>: a posting that \<open>normalizeLedgerAccountPosting\<close> leaves as it is on the account \<open>acc\<close>.\<close>

definition posting_ok :: "string \<Rightarrow> LedgerAccountPosting \<Rightarrow> bool" where
  "posting_ok acc p \<longleftrightarrow> acc \<noteq> [] \<and> trimmed acc \<and> p_ReferenceType p \<in> set postingReferenceTypes \<and>
     p_TransactionID p \<noteq> [] \<and> trimmed (p_TransactionID p) \<and> p_ReferenceID p \<noteq> [] \<and> trimmed (p_ReferenceID p) \<and>
     p_CounterpartyAccountID p \<noteq> [] \<and> trimmed (p_CounterpartyAccountID p) \<and> p_CounterpartyAccountID p \<noteq> acc \<and>
     p_Currency p \<noteq> [] \<and> trimmed (p_Currency p) \<and> ToUpper (p_Currency p) = p_Currency p \<and>
     p_AmountDelta p \<noteq> 0 \<and> \<not> IsZero (p_BookedAt p) \<and> UTC (p_BookedAt p) = p_BookedAt p"

lemma trimmed_referenceType: "t \<in> set postingReferenceTypes \<Longrightarrow> trimmed t"
  unfolding postingReferenceTypes_def LedgerReferenceInternalTransfer_def
  by (rule trimmed_visible_ends) (auto simp: visible_def)

lemma trimmed_paymentEventNames [simp]:
  "TrimSpace EventPaymentRefunded = EventPaymentRefunded" "TrimSpace EventPaymentChargeback = EventPaymentChargeback"
  unfolding trimmed_iff [symmetric] EventPaymentRefunded_def EventPaymentChargeback_def
  by (rule trimmed_visible_ends; simp add: visible_def)+

lemma normalize_Inr:
  "normalizeLedgerAccountPosting a p = Inr (a', p') \<Longrightarrow> a' = TrimSpace a \<and> posting_ok a' p' \<and>
     p' = \<lparr>p_TransactionID = TrimSpace (p_TransactionID p), p_ReferenceType = TrimSpace (p_ReferenceType p),
           p_ReferenceID = TrimSpace (p_ReferenceID p), p_CounterpartyAccountID = TrimSpace (p_CounterpartyAccountID p),
           p_Currency = ToUpper (TrimSpace (p_Currency p)), p_AmountDelta = p_AmountDelta p, p_BookedAt = UTC (p_BookedAt p)\<rparr>"
  by (auto simp: normalizeLedgerAccountPosting_def posting_ok_def Let_def split: if_splits)

lemma normalize_fixed: "posting_ok acc p \<Longrightarrow> normalizeLedgerAccountPosting acc p = Inr (acc, p)"
  using trimmed_referenceType [of "p_ReferenceType p"]
  by (cases p) (auto simp: normalizeLedgerAccountPosting_def posting_ok_def Let_def trimmed_iff)

lemma NewLedgerAccountPaymentPosting_Inr:
  assumes "NewLedgerAccountPaymentPosting i = Inr p"
  shows "posting_ok (TrimSpace (pi_AccountID i)) p"
    and "p = \<lparr>p_TransactionID = TrimSpace (pi_TransactionID i), p_ReferenceType = TrimSpace (pi_ReferenceType i),
           p_ReferenceID = TrimSpace (pi_ReferenceID i), p_CounterpartyAccountID = TrimSpace (pi_CounterpartyAccountID i),
           p_Currency = ToUpper (TrimSpace (pi_Currency i)), p_AmountDelta = pi_AmountDelta i, p_BookedAt = UTC (pi_BookedAt i)\<rparr>"
  using assms
  by (auto simp: NewLedgerAccountPaymentPosting_def newLedgerPosting_def dest!: normalize_Inr split: if_splits)

text \<open>A posting is returned whenever the normalised one is well-formed.\<close>

lemma NewLedgerAccountPaymentPosting_ok:
  assumes "posting_ok (TrimSpace (pi_AccountID i)) p"
    and "p = \<lparr>p_TransactionID = TrimSpace (pi_TransactionID i), p_ReferenceType = TrimSpace (pi_ReferenceType i),
           p_ReferenceID = TrimSpace (pi_ReferenceID i), p_CounterpartyAccountID = TrimSpace (pi_CounterpartyAccountID i),
           p_Currency = ToUpper (TrimSpace (pi_Currency i)), p_AmountDelta = pi_AmountDelta i, p_BookedAt = UTC (pi_BookedAt i)\<rparr>"
  shows "NewLedgerAccountPaymentPosting i = Inr p"
  using assms
  by (auto simp: NewLedgerAccountPaymentPosting_def newLedgerPosting_def normalizeLedgerAccountPosting_def
      posting_ok_def Let_def)

lemmas posting_constructors = NewLedgerAccountTransferOutPosting_def NewLedgerAccountTransferInPosting_def
  transferOutInput_def transferInInput_def newLedgerPostingFromPaymentEvent_def

lemma preview_posting_ok:
  "previewLedgerPostingFromEvent acc d = Inr (Some p) \<Longrightarrow> posting_ok (TrimSpace acc) p"
  by (auto simp: previewLedgerPostingFromEvent_def posting_constructors
      dest!: NewLedgerAccountPaymentPosting_Inr(1) split: LedgerEvent.splits)

section \<open>Events and postings\<close>

text \<open>The sign a posting of each reference type has in a recorded event.\<close>

definition creditTypes :: "string list" where
  "creditTypes = [EventNameLedgerAccountDepositFromIntent, EventNameLedgerAccountDepositFromRefund,
     EventNameLedgerAccountDepositFromChargeback, EventNameLedgerAccountReceiveWithdrawalHold,
     EventNameLedgerAccountReleaseWithdrawal]"

definition debitTypes :: "string list" where
  "debitTypes = [EventNameLedgerAccountWithdrawFromIntent, EventNameLedgerAccountWithdrawFromRefund,
     EventNameLedgerAccountWithdrawFromChargeback, EventNameLedgerAccountReserveWithdrawal,
     EventNameLedgerAccountWithdrawReleasedHold]"

definition sign_ok :: "LedgerAccountPosting \<Rightarrow> bool" where
  "sign_ok p \<longleftrightarrow> (p_ReferenceType p \<in> set creditTypes \<and> 0 \<le>s p_AmountDelta p) \<or>
     (p_ReferenceType p \<in> set debitTypes \<and> p_AmountDelta p <s 0)"

lemma absInt64_simps [simp]: "0 \<le>s v \<Longrightarrow> absInt64 v = v" "v <s 0 \<Longrightarrow> absInt64 v = - v"
  by (auto simp: absInt64_def word_sless_alt word_sle_eq)

lemma paymentEvent_roundtrip:
  assumes "posting_ok acc p" "sign_ok p"
  shows "\<exists>d. newLedgerPaymentEvent p = Some d \<and> ledgerEventName d = p_ReferenceType p \<and>
    previewLedgerPostingFromEvent acc d = Inr (Some p)"
proof -
  from assms(1) have "NewLedgerAccountPaymentPosting \<lparr>pi_AccountID = acc, pi_TransactionID = p_TransactionID p,
      pi_ReferenceType = p_ReferenceType p, pi_ReferenceID = p_ReferenceID p,
      pi_CounterpartyAccountID = p_CounterpartyAccountID p, pi_Currency = p_Currency p,
      pi_AmountDelta = p_AmountDelta p, pi_BookedAt = p_BookedAt p\<rparr> = Inr p"
    using trimmed_referenceType
    by (cases p, intro NewLedgerAccountPaymentPosting_ok) (auto simp: posting_ok_def trimmed_iff)
  with assms(2) show ?thesis
    by (auto simp: sign_ok_def creditTypes_def debitTypes_def newLedgerPaymentEvent_def
        previewLedgerPostingFromEvent_def posting_constructors)
qed

end
