(* ===== verification/LedgerAccount.thy ===== *)
theory LedgerAccount
  imports EventSourcing LedgerPosting
begin

text \<open>
  The aggregate \<^verbatim>\<open>LedgerAccountAggregate\<close> of \<^verbatim>\<open>core/modules/ledger/domain/aggregate\<close>: the balance per
  currency and the posted transactions by id. Each operation normalises a posting, answers a
  repeated one without a new event, refuses an overdraft where the reference type asks for it, and
  records one event; \<open>Transition\<close> applies a recorded event.

  A \<^verbatim>\<open>nil\<close> receiver is excluded by the types; a \<^verbatim>\<open>nil\<close> map and an empty one are the same, so
  \<^verbatim>\<open>ensureState\<close> is the identity. An operation returns its result together with the aggregate it
  leaves behind, since a Go method mutates its receiver even when it fails.

  The theory interprets the locale \<open>aggregate\<close> on this aggregate, gives every operation as one
  function of the account's state, and shows the account's invariants over every sequence of
  operations: the balance is the sum of the postings, a refused operation leaves no trace, a
  repeated one changes nothing, guarded debits never overdraw.
\<close>

section \<open>The aggregate\<close>

record LedgerAccountAggregate = "LedgerEvent AggregateRoot" +
  AccountID :: string
  Balances :: "string \<rightharpoonup> int64"
  PostedTransactions :: "string \<rightharpoonup> LedgerAccountPosting"

definition emptyLedgerAccount :: LedgerAccountAggregate where
  "emptyLedgerAccount = AggregateRoot.extend emptyRoot
     \<lparr>AccountID = [], Balances = Map.empty, PostedTransactions = Map.empty\<rparr>"

definition NewLedgerAccountAggregate :: "string \<Rightarrow> error + LedgerAccountAggregate" where
  "NewLedgerAccountAggregate accountID = InitAggregate ''LedgerAccountAggregate'' emptyLedgerAccount accountID"

definition RegisteredLedgerEvents :: "string list" where
  "RegisteredLedgerEvents =
     [EventNameLedgerAccountDepositFromIntent, EventNameLedgerAccountWithdrawFromIntent,
      EventNameLedgerAccountDepositFromRefund, EventNameLedgerAccountWithdrawFromRefund,
      EventNameLedgerAccountDepositFromChargeback, EventNameLedgerAccountWithdrawFromChargeback,
      EventNameLedgerAccountReserveWithdrawal, EventNameLedgerAccountReceiveWithdrawalHold,
      EventNameLedgerAccountReleaseWithdrawal, EventNameLedgerAccountWithdrawReleasedHold,
      EventNameLedgerAccountTransferredToAccount, EventNameLedgerAccountReceivedTransfer]"

text \<open>A missing key of a Go map reads as the zero value.\<close>

definition Balance :: "LedgerAccountAggregate \<Rightarrow> string \<Rightarrow> int64" where
  "Balance a currency = (case Balances a (ToUpper (TrimSpace currency)) of None \<Rightarrow> 0 | Some b \<Rightarrow> b)"

definition PostedTransaction :: "LedgerAccountAggregate \<Rightarrow> string \<Rightarrow> LedgerAccountPosting option" where
  "PostedTransaction a transactionID =
     (if TrimSpace transactionID = [] then None else PostedTransactions a (TrimSpace transactionID))"

definition lookupPendingPosting :: "LedgerAccountAggregate \<Rightarrow> string \<Rightarrow> LedgerAccountPosting option" where
  "lookupPendingPosting a transactionID =
     (if TrimSpace transactionID = [] then None else PostedTransactions a (TrimSpace transactionID))"

definition requiresNonNegativeBalance :: "string \<Rightarrow> bool" where
  "requiresNonNegativeBalance referenceType \<longleftrightarrow>
     TrimSpace referenceType \<notin>
       {EventNameLedgerAccountDepositFromIntent, EventNameLedgerAccountWithdrawFromIntent,
        EventNameLedgerAccountDepositFromRefund, EventNameLedgerAccountWithdrawFromRefund,
        EventNameLedgerAccountDepositFromChargeback, EventNameLedgerAccountWithdrawFromChargeback,
        EventNameLedgerAccountReceiveWithdrawalHold, EventNameLedgerAccountWithdrawReleasedHold}"

abbreviation insufficientFunds :: error where
  "insufficientFunds \<equiv> Errorf ''%w: account_id=%s currency=%s balance=%d amount=%d'' [ErrLedgerAccountInsufficientFunds]"

definition ensurePostingAllowed :: "LedgerAccountAggregate \<Rightarrow> LedgerAccountPosting \<Rightarrow> error + unit" where
  "ensurePostingAllowed a posting =
     (if 0 \<le>s p_AmountDelta posting then Inr ()
      else if \<not> requiresNonNegativeBalance (p_ReferenceType posting) then Inr ()
      else if Balance a (p_Currency posting) + p_AmountDelta posting <s 0 then Inl insufficientFunds
      else Inr ())"

definition applyPosting ::
  "LedgerAccountAggregate \<Rightarrow> string \<Rightarrow> LedgerAccountPosting \<Rightarrow> error + LedgerAccountAggregate" where
  "applyPosting a accID posting =
     andThen (normalizeLedgerAccountPosting accID posting) (\<lambda>(normalizedAccountID, p).
     andThen (ensurePostingAllowed a p) (\<lambda>_.
       if AccountID a \<noteq> [] \<and> AccountID a \<noteq> normalizedAccountID
       then Inl (Errorf ''%w: aggregate=%s event=%s'' [ErrLedgerAccountIDMismatch])
       else Inr (a\<lparr>AccountID := normalizedAccountID,
                   Balances := (Balances a)(p_Currency p \<mapsto>
                     (case Balances a (p_Currency p) of None \<Rightarrow> 0 | Some b \<Rightarrow> b) + p_AmountDelta p),
                   PostedTransactions := (PostedTransactions a)(p_TransactionID p \<mapsto> p)\<rparr>)))"

definition applyTransferredToAccount ::
  "LedgerAccountAggregate \<Rightarrow> string \<Rightarrow> EventLedgerAccountTransferredToAccountData \<Rightarrow> error + LedgerAccountAggregate" where
  "applyTransferredToAccount a accID data =
     andThen (NewLedgerAccountTransferOutPosting (transferOutInput accID data)) (applyPosting a accID)"

definition applyReceivedTransfer ::
  "LedgerAccountAggregate \<Rightarrow> string \<Rightarrow> EventLedgerAccountReceivedTransferData \<Rightarrow> error + LedgerAccountAggregate" where
  "applyReceivedTransfer a accID data =
     andThen (NewLedgerAccountTransferInPosting (transferInInput accID data)) (applyPosting a accID)"

definition applyEventPosting ::
  "LedgerAccountAggregate \<Rightarrow> string \<Rightarrow> LedgerEvent \<Rightarrow> string \<Rightarrow> error + LedgerAccountAggregate" where
  "applyEventPosting a accID eventData unsupportedErr =
     andThen (previewLedgerPostingFromEvent accID eventData) (\<lambda>r.
       case r of None \<Rightarrow> Inl (Errorf unsupportedErr []) | Some posting \<Rightarrow> applyPosting a accID posting)"

definition Transition :: "LedgerAccountAggregate \<Rightarrow> LedgerEvent Event \<Rightarrow> error + LedgerAccountAggregate" where
  "Transition a evt =
     (let accID = ev_AggregateID evt; eventData = ev_EventData evt
      in case eventData of
           EventLedgerAccountDepositFromIntent _ \<Rightarrow>
             applyEventPosting a accID eventData ''ledger deposit from intent event is unsupported''
         | EventLedgerAccountWithdrawFromIntent _ \<Rightarrow>
             applyEventPosting a accID eventData ''ledger withdraw from intent event is unsupported''
         | EventLedgerAccountDepositFromRefund _ \<Rightarrow>
             applyEventPosting a accID eventData ''ledger deposit from refund event is unsupported''
         | EventLedgerAccountWithdrawFromRefund _ \<Rightarrow>
             applyEventPosting a accID eventData ''ledger withdraw from refund event is unsupported''
         | EventLedgerAccountDepositFromChargeback _ \<Rightarrow>
             applyEventPosting a accID eventData ''ledger deposit from chargeback event is unsupported''
         | EventLedgerAccountWithdrawFromChargeback _ \<Rightarrow>
             applyEventPosting a accID eventData ''ledger withdraw from chargeback event is unsupported''
         | EventLedgerAccountReserveWithdrawal _ \<Rightarrow>
             applyEventPosting a accID eventData ''ledger reserve withdrawal event is unsupported''
         | EventLedgerAccountReceiveWithdrawalHold _ \<Rightarrow>
             applyEventPosting a accID eventData ''ledger receive withdrawal hold event is unsupported''
         | EventLedgerAccountReleaseWithdrawal _ \<Rightarrow>
             applyEventPosting a accID eventData ''ledger release withdrawal event is unsupported''
         | EventLedgerAccountWithdrawReleasedHold _ \<Rightarrow>
             applyEventPosting a accID eventData ''ledger withdraw released hold event is unsupported''
         | EventLedgerAccountTransferredToAccount data \<Rightarrow> applyTransferredToAccount a accID data
         | EventLedgerAccountReceivedTransfer data \<Rightarrow> applyReceivedTransfer a accID data
         | OtherEvent _ \<Rightarrow> Inl ErrUnsupportedEventType)"

section \<open>Operations\<close>

text \<open>
  The tail that \<^verbatim>\<open>ApplyPostingEvent\<close>, \<^verbatim>\<open>bookPaymentPosting\<close>, \<^verbatim>\<open>TransferToAccount\<close> and
  \<^verbatim>\<open>ReceiveTransfer\<close> share: look the transaction up, check the balance, record the event.
\<close>

definition recordPosting ::
  "LedgerAccountAggregate \<Rightarrow> string \<Rightarrow> LedgerAccountPosting \<Rightarrow> LedgerEvent option \<Rightarrow> (error + bool) \<times> LedgerAccountAggregate" where
  "recordPosting a mismatch posting eventData =
     (case lookupPendingPosting a (p_TransactionID posting) of
        Some existing \<Rightarrow>
          (if SameLedgerAccountPosting existing posting then (Inr False, a) else (Inl (Errorf mismatch []), a))
      | None \<Rightarrow>
          (case ensurePostingAllowed a posting of
             Inl e \<Rightarrow> (Inl e, a)
           | Inr _ \<Rightarrow>
               (case ApplyChange ledgerEventName Transition a eventData of
                  (Inl e, a') \<Rightarrow> (Inl e, a')
                | (Inr _, a') \<Rightarrow> (Inr True, a'))))"

definition ApplyPostingEvent :: "LedgerAccountAggregate \<Rightarrow> LedgerEvent \<Rightarrow> (error + bool) \<times> LedgerAccountAggregate" where
  "ApplyPostingEvent a eventData =
     (case previewLedgerPostingFromEvent (aggregateID a) eventData of
        Inl e \<Rightarrow> (Inl e, a)
      | Inr None \<Rightarrow> (Inl ErrUnsupportedEventType, a)
      | Inr (Some posting) \<Rightarrow> recordPosting a ''ledger posting mismatch for transaction_id=%s'' posting (Some eventData))"

definition bookPaymentPosting ::
  "LedgerAccountAggregate \<Rightarrow> string \<Rightarrow> string \<Rightarrow> string \<Rightarrow> string \<Rightarrow> string \<Rightarrow> int64 \<Rightarrow> gotime
   \<Rightarrow> (error + bool) \<times> LedgerAccountAggregate" where
  "bookPaymentPosting a transactionID referenceType referenceID counterpartyAccountID currency amountDelta bookedAt =
     (case NewLedgerAccountPaymentPosting
        \<lparr>pi_AccountID = aggregateID a, pi_TransactionID = transactionID, pi_ReferenceType = referenceType,
         pi_ReferenceID = referenceID, pi_CounterpartyAccountID = counterpartyAccountID, pi_Currency = currency,
         pi_AmountDelta = amountDelta, pi_BookedAt = bookedAt\<rparr> of
        Inl e \<Rightarrow> (Inl e, a)
      | Inr posting \<Rightarrow>
          recordPosting a ''ledger payment booking mismatch for transaction_id=%s'' posting (newLedgerPaymentEvent posting))"

definition BookPayment ::
  "LedgerAccountAggregate \<Rightarrow> string \<Rightarrow> string \<Rightarrow> string \<Rightarrow> string \<Rightarrow> int64 \<Rightarrow> gotime
   \<Rightarrow> (error + bool) \<times> LedgerAccountAggregate" where
  "BookPayment a transactionID paymentID counterpartyAccountID currency amountDelta bookedAt =
     bookPaymentPosting a transactionID (ledgerPaymentReferenceTypeForSucceededAmount amountDelta) paymentID
       counterpartyAccountID currency amountDelta bookedAt"

definition ReversePayment ::
  "LedgerAccountAggregate \<Rightarrow> string \<Rightarrow> string \<Rightarrow> string \<Rightarrow> string \<Rightarrow> string \<Rightarrow> int64 \<Rightarrow> gotime
   \<Rightarrow> (error + bool) \<times> LedgerAccountAggregate" where
  "ReversePayment a transactionID refType paymentID counterpartyAccountID currency amountDelta bookedAt =
     (let referenceType = TrimSpace refType
      in if referenceType \<noteq> EventPaymentRefunded \<and> referenceType \<noteq> EventPaymentChargeback
         then (Inl (Errorf ''%w: %s'' [ErrLedgerAccountReferenceTypeInvalid]), a)
         else bookPaymentPosting a transactionID (ledgerPaymentReferenceTypeForReversal referenceType amountDelta)
                paymentID counterpartyAccountID currency amountDelta bookedAt)"

definition TransferToAccount ::
  "LedgerAccountAggregate \<Rightarrow> string \<Rightarrow> string \<Rightarrow> string \<Rightarrow> int64 \<Rightarrow> gotime \<Rightarrow> (error + bool) \<times> LedgerAccountAggregate" where
  "TransferToAccount a transactionID toAccountID currency amount bookedAt =
     (case NewLedgerAccountTransferOutPosting
        \<lparr>ti_AccountID = aggregateID a, ti_TransactionID = transactionID, ti_CounterpartyAccountID = toAccountID,
         ti_Currency = currency, ti_Amount = amount, ti_BookedAt = bookedAt\<rparr> of
        Inl e \<Rightarrow> (Inl e, a)
      | Inr posting \<Rightarrow>
          recordPosting a ''ledger transfer mismatch for transaction_id=%s'' posting
            (Some (EventLedgerAccountTransferredToAccount
              \<lparr>tt_TransactionID = p_TransactionID posting, tt_ToAccountID = p_CounterpartyAccountID posting,
               tt_Currency = p_Currency posting, tt_Amount = amount, tt_BookedAt = p_BookedAt posting\<rparr>)))"

definition ReceiveTransfer ::
  "LedgerAccountAggregate \<Rightarrow> string \<Rightarrow> string \<Rightarrow> string \<Rightarrow> int64 \<Rightarrow> gotime \<Rightarrow> (error + bool) \<times> LedgerAccountAggregate" where
  "ReceiveTransfer a transactionID fromAccountID currency amount bookedAt =
     (case NewLedgerAccountTransferInPosting
        \<lparr>ti_AccountID = aggregateID a, ti_TransactionID = transactionID, ti_CounterpartyAccountID = fromAccountID,
         ti_Currency = currency, ti_Amount = amount, ti_BookedAt = bookedAt\<rparr> of
        Inl e \<Rightarrow> (Inl e, a)
      | Inr posting \<Rightarrow>
          recordPosting a ''ledger transfer receive mismatch for transaction_id=%s'' posting
            (Some (EventLedgerAccountReceivedTransfer
              \<lparr>rt_TransactionID = p_TransactionID posting, rt_FromAccountID = p_CounterpartyAccountID posting,
               rt_Currency = p_Currency posting, rt_Amount = amount, rt_BookedAt = p_BookedAt posting\<rparr>)))"


section \<open>The aggregate contract\<close>

lemma preview_None: "previewLedgerPostingFromEvent acc d = Inr None \<Longrightarrow> \<exists>n. d = OtherEvent n"
  by (auto simp: previewLedgerPostingFromEvent_def posting_constructors split: LedgerEvent.splits)

lemma Transition_preview:
  "Transition a evt = andThen (previewLedgerPostingFromEvent (ev_AggregateID evt) (ev_EventData evt)) (\<lambda>r.
     case r of None \<Rightarrow> Inl ErrUnsupportedEventType | Some p \<Rightarrow> applyPosting a (ev_AggregateID evt) p)"
proof (cases "previewLedgerPostingFromEvent (ev_AggregateID evt) (ev_EventData evt)")
  case (Inl e)
  then show ?thesis
    by (cases "ev_EventData evt")
      (auto simp: Transition_def applyEventPosting_def applyTransferredToAccount_def applyReceivedTransfer_def
        previewLedgerPostingFromEvent_def Let_def andThen_eq_Inl)
next
  case (Inr r)
  then show ?thesis
    by (cases r; cases "ev_EventData evt"; auto dest!: preview_None)
      (auto simp: Transition_def applyEventPosting_def applyTransferredToAccount_def applyReceivedTransfer_def
        previewLedgerPostingFromEvent_def Let_def)
qed

lemma applyPosting_root: "applyPosting a acc p = Inr b \<Longrightarrow> AggregateRoot.truncate b = AggregateRoot.truncate a"
  by (auto simp: applyPosting_def AggregateRoot.truncate_def split: if_splits)

lemma more_ledger_iff:
  "AggregateRoot.more a = AggregateRoot.more (b :: LedgerAccountAggregate) \<longleftrightarrow>
     AccountID a = AccountID b \<and> Balances a = Balances b \<and> PostedTransactions a = PostedTransactions b"
  by (cases a; cases b) simp

lemma applyPosting_state:
  assumes "applyPosting a acc p = Inr b" "AggregateRoot.more a' = AggregateRoot.more a"
  shows "\<exists>b'. applyPosting a' acc p = Inr b' \<and> AggregateRoot.more b' = AggregateRoot.more b"
proof -
  from assms(1) obtain acc' p' where n: "normalizeLedgerAccountPosting acc p = Inr (acc', p')"
    and allowed: "ensurePostingAllowed a p' = Inr ()" and id_ok: "AccountID a = [] \<or> AccountID a = acc'"
    by (auto simp: applyPosting_def split: if_splits)
  from assms(2) have "ensurePostingAllowed a' p' = ensurePostingAllowed a p'"
    by (simp add: more_ledger_iff ensurePostingAllowed_def Balance_def)
  with assms n allowed id_ok show ?thesis
    unfolding applyPosting_def by (auto simp: more_ledger_iff simp del: andThen_eq_Inr)
qed

interpretation ledger: aggregate ledgerEventName Transition
proof
  fix a b a' :: LedgerAccountAggregate and e
  assume t: "Transition a e = Inr b"
  then show "AggregateRoot.truncate b = AggregateRoot.truncate a"
    by (auto simp: Transition_preview applyPosting_root split: option.splits)
  assume "AggregateRoot.more a' = AggregateRoot.more a"
  moreover from t obtain p where "previewLedgerPostingFromEvent (ev_AggregateID e) (ev_EventData e) = Inr (Some p)"
    "applyPosting a (ev_AggregateID e) p = Inr b"
    by (auto simp: Transition_preview split: option.splits)
  ultimately show "\<exists>b'. Transition a' e = Inr b' \<and> AggregateRoot.more b' = AggregateRoot.more b"
    by (simp add: Transition_preview applyPosting_state del: andThen_eq_Inr)
qed

section \<open>Every operation as one function of the state\<close>

text \<open>
  \<open>account_ok\<close>: the aggregate has a trimmed id, and the account id in its state is that id or not
  set yet. \<open>postTo\<close> is the account after a posting.
\<close>

definition account_ok :: "LedgerAccountAggregate \<Rightarrow> bool" where
  "account_ok a \<longleftrightarrow> aggregateID a \<noteq> [] \<and> trimmed (aggregateID a) \<and> AccountID a \<in> {[], aggregateID a}"

definition postTo :: "LedgerAccountAggregate \<Rightarrow> LedgerEvent \<Rightarrow> LedgerAccountPosting \<Rightarrow> LedgerAccountAggregate" where
  "postTo a d p = a\<lparr>events := events a @ [newEvent ledgerEventName a d], AccountID := aggregateID a,
     Balances := (Balances a)(p_Currency p \<mapsto> Balance a (p_Currency p) + p_AmountDelta p),
     PostedTransactions := (PostedTransactions a)(p_TransactionID p \<mapsto> p)\<rparr>"

definition overdraws :: "LedgerAccountAggregate \<Rightarrow> LedgerAccountPosting \<Rightarrow> bool" where
  "overdraws a p \<longleftrightarrow> p_AmountDelta p <s 0 \<and> requiresNonNegativeBalance (p_ReferenceType p) \<and>
     Balance a (p_Currency p) + p_AmountDelta p <s 0"

lemma ensurePostingAllowed_eq:
  "ensurePostingAllowed a p = (if overdraws a p then Inl insufficientFunds else Inr ())"
  by (auto simp: ensurePostingAllowed_def overdraws_def word_sless_alt word_sle_eq)

lemma overdraws_events [simp]: "overdraws (a\<lparr>events := es\<rparr>) p = overdraws a p"
  by (simp add: overdraws_def Balance_def)

lemma posting_lookup: "posting_ok acc p \<Longrightarrow> lookupPendingPosting a (p_TransactionID p) = PostedTransactions a (p_TransactionID p)"
  by (simp add: lookupPendingPosting_def posting_ok_def trimmed_iff)

lemma posting_balance: "posting_ok acc p \<Longrightarrow>
    Balance a (p_Currency p) = (case Balances a (p_Currency p) of None \<Rightarrow> 0 | Some b \<Rightarrow> b)"
  by (simp add: Balance_def posting_ok_def trimmed_iff)

lemma ledgerEventName_nonempty: "previewLedgerPostingFromEvent acc d = Inr (Some p) \<Longrightarrow> ledgerEventName d \<noteq> []"
  by (cases d) (simp_all add: previewLedgerPostingFromEvent_def)

lemma ApplyChange_posting:
  assumes "account_ok a" "previewLedgerPostingFromEvent (aggregateID a) d = Inr (Some p)" "\<not> overdraws a p"
  shows "ApplyChange ledgerEventName Transition a (Some d) = (Inr (), postTo a d p)"
proof -
  from assms(1) preview_posting_ok [OF assms(2)] have ok: "posting_ok (aggregateID a) p"
    by (simp add: account_ok_def trimmed_iff)
  have "Transition (a\<lparr>events := events a @ [newEvent ledgerEventName a d]\<rparr>) (newEvent ledgerEventName a d) =
      Inr (postTo a d p)"
    using assms ok
    by (auto simp: Transition_preview newEvent_def applyPosting_def normalize_fixed ensurePostingAllowed_eq
        account_ok_def postTo_def posting_balance)
  with assms(1) ledgerEventName_nonempty [OF assms(2)] show ?thesis
    by (simp add: apply_change_defs account_ok_def Let_def)
qed

text \<open>What \<open>recordPosting\<close> does with a posting and the event that stands for it.\<close>

definition postOnce :: "LedgerAccountAggregate \<Rightarrow> string \<Rightarrow> LedgerAccountPosting \<Rightarrow> LedgerEvent \<Rightarrow> (error + bool) \<times> LedgerAccountAggregate" where
  "postOnce a mismatch p d =
     (case PostedTransactions a (p_TransactionID p) of
        Some existing \<Rightarrow> (if SameLedgerAccountPosting existing p then Inr False else Inl (Errorf mismatch []), a)
      | None \<Rightarrow> if overdraws a p then (Inl insufficientFunds, a) else (Inr True, postTo a d p))"

lemma recordPosting_eq:
  assumes "account_ok a" "previewLedgerPostingFromEvent (aggregateID a) d = Inr (Some p)"
  shows "recordPosting a mismatch p (Some d) = postOnce a mismatch p d"
  using assms preview_posting_ok [OF assms(2)]
  by (auto simp: recordPosting_def postOnce_def posting_lookup ensurePostingAllowed_eq ApplyChange_posting
      split: option.splits)


section \<open>All operations together\<close>

datatype LedgerOp =
    OpApplyPostingEvent LedgerEvent
  | OpBookPayment string string string string int64 gotime
  | OpReversePayment string string string string string int64 gotime
  | OpTransferToAccount string string string int64 gotime
  | OpReceiveTransfer string string string int64 gotime

fun runOp :: "LedgerAccountAggregate \<Rightarrow> LedgerOp \<Rightarrow> (error + bool) \<times> LedgerAccountAggregate" where
  "runOp a (OpApplyPostingEvent d) = ApplyPostingEvent a d"
| "runOp a (OpBookPayment tx pay cp cur amt t) = BookPayment a tx pay cp cur amt t"
| "runOp a (OpReversePayment tx ref pay cp cur amt t) = ReversePayment a tx ref pay cp cur amt t"
| "runOp a (OpTransferToAccount tx cp cur amt t) = TransferToAccount a tx cp cur amt t"
| "runOp a (OpReceiveTransfer tx cp cur amt t) = ReceiveTransfer a tx cp cur amt t"

definition runOps :: "LedgerAccountAggregate \<Rightarrow> LedgerOp list \<Rightarrow> LedgerAccountAggregate" where
  "runOps a ops = fold (\<lambda>op b. snd (runOp b op)) ops a"

text \<open>
  The posting and the event of an operation on the account with the given id, and its message for
  a transaction id that is already used by another posting.
\<close>

definition paymentPosting :: "string \<Rightarrow> string \<Rightarrow> string \<Rightarrow> string \<Rightarrow> string \<Rightarrow> string \<Rightarrow> int64 \<Rightarrow> gotime \<Rightarrow> error + LedgerAccountPosting" where
  "paymentPosting acc tx ref pay cp cur amt t = NewLedgerAccountPaymentPosting
     \<lparr>pi_AccountID = acc, pi_TransactionID = tx, pi_ReferenceType = ref, pi_ReferenceID = pay,
      pi_CounterpartyAccountID = cp, pi_Currency = cur, pi_AmountDelta = amt, pi_BookedAt = t\<rparr>"

definition mismatchMsg :: "LedgerOp \<Rightarrow> string" where
  "mismatchMsg op = (case op of
      OpApplyPostingEvent _ \<Rightarrow> ''ledger posting mismatch for transaction_id=%s''
    | OpBookPayment _ _ _ _ _ _ \<Rightarrow> ''ledger payment booking mismatch for transaction_id=%s''
    | OpReversePayment _ _ _ _ _ _ _ \<Rightarrow> ''ledger payment booking mismatch for transaction_id=%s''
    | OpTransferToAccount _ _ _ _ _ \<Rightarrow> ''ledger transfer mismatch for transaction_id=%s''
    | OpReceiveTransfer _ _ _ _ _ \<Rightarrow> ''ledger transfer receive mismatch for transaction_id=%s'')"

definition opPosting :: "string \<Rightarrow> LedgerOp \<Rightarrow> (error + LedgerAccountPosting \<times> LedgerEvent)" where
  "opPosting acc op = (case op of
      OpApplyPostingEvent d \<Rightarrow> andThen (previewLedgerPostingFromEvent acc d) (\<lambda>r.
        case r of None \<Rightarrow> Inl ErrUnsupportedEventType | Some p \<Rightarrow> Inr (p, d))
    | OpBookPayment tx pay cp cur amt t \<Rightarrow>
        andThen (paymentPosting acc tx (ledgerPaymentReferenceTypeForSucceededAmount amt) pay cp cur amt t) (\<lambda>p.
          Inr (p, the (newLedgerPaymentEvent p)))
    | OpReversePayment tx ref pay cp cur amt t \<Rightarrow>
        andThen (ensure (TrimSpace ref \<in> {EventPaymentRefunded, EventPaymentChargeback})
          (Errorf ''%w: %s'' [ErrLedgerAccountReferenceTypeInvalid])) (\<lambda>_.
        andThen (paymentPosting acc tx (ledgerPaymentReferenceTypeForReversal (TrimSpace ref) amt) pay cp cur amt t) (\<lambda>p.
          Inr (p, the (newLedgerPaymentEvent p))))
    | OpTransferToAccount tx cp cur amt t \<Rightarrow>
        andThen (paymentPosting acc tx LedgerReferenceInternalTransfer tx cp cur (- amt) t) (\<lambda>p.
          Inr (p, EventLedgerAccountTransferredToAccount
              \<lparr>tt_TransactionID = p_TransactionID p, tt_ToAccountID = p_CounterpartyAccountID p,
               tt_Currency = p_Currency p, tt_Amount = amt, tt_BookedAt = p_BookedAt p\<rparr>))
    | OpReceiveTransfer tx cp cur amt t \<Rightarrow>
        andThen (paymentPosting acc tx LedgerReferenceInternalTransfer tx cp cur amt t) (\<lambda>p.
          Inr (p, EventLedgerAccountReceivedTransfer
              \<lparr>rt_TransactionID = p_TransactionID p, rt_FromAccountID = p_CounterpartyAccountID p,
               rt_Currency = p_Currency p, rt_Amount = amt, rt_BookedAt = p_BookedAt p\<rparr>)))"

lemma paymentPosting_fields:
  assumes "paymentPosting acc tx ref pay cp cur amt t = Inr p"
  shows "posting_ok (TrimSpace acc) p" "p_TransactionID p = TrimSpace tx" "p_ReferenceType p = TrimSpace ref"
    "p_ReferenceID p = TrimSpace pay" "p_CounterpartyAccountID p = TrimSpace cp" "p_Currency p = ToUpper (TrimSpace cur)"
    "p_AmountDelta p = amt" "p_BookedAt p = UTC t"
  using NewLedgerAccountPaymentPosting_Inr [OF assms [unfolded paymentPosting_def]] by simp_all

text \<open>Building the posting again from its own fields gives it back.\<close>

lemma paymentPosting_again:
  assumes "posting_ok acc p" "TrimSpace ref = p_ReferenceType p"
  shows "paymentPosting acc (p_TransactionID p) ref (p_ReferenceID p) (p_CounterpartyAccountID p) (p_Currency p)
     (p_AmountDelta p) (p_BookedAt p) = Inr p"
  unfolding paymentPosting_def using assms
  by (cases p, intro NewLedgerAccountPaymentPosting_ok) (auto simp: posting_ok_def trimmed_iff)

lemma preview_payment:
  assumes p: "paymentPosting acc tx ref pay cp cur amt t = Inr p" and acc: "trimmed acc"
    and sgn: "ref \<in> set creditTypes \<and> 0 \<le>s amt \<or> ref \<in> set debitTypes \<and> amt <s 0"
  shows "\<exists>d. newLedgerPaymentEvent p = Some d \<and> previewLedgerPostingFromEvent acc d = Inr (Some p)"
proof -
  from sgn have "ref \<in> set postingReferenceTypes"
    by (auto simp: creditTypes_def debitTypes_def postingReferenceTypes_def)
  then have "TrimSpace ref = ref" by (intro TrimSpace_trimmed trimmed_referenceType)
  with paymentPosting_fields [OF p] sgn have "sign_ok p" by (simp add: sign_ok_def)
  with paymentPosting_fields(1) [OF p] acc show ?thesis
    using paymentEvent_roundtrip [of acc p] by (auto simp: trimmed_iff)
qed

lemma succeeded_sign:
  "ledgerPaymentReferenceTypeForSucceededAmount amt \<in> set creditTypes \<and> 0 \<le>s amt \<or>
   ledgerPaymentReferenceTypeForSucceededAmount amt \<in> set debitTypes \<and> amt <s 0"
  by (auto simp: ledgerPaymentReferenceTypeForSucceededAmount_def creditTypes_def debitTypes_def word_sless_alt word_sle_eq)

lemma reversal_sign:
  assumes "TrimSpace ref = EventPaymentRefunded \<or> TrimSpace ref = EventPaymentChargeback"
  shows "ledgerPaymentReferenceTypeForReversal (TrimSpace ref) amt \<in> set creditTypes \<and> 0 \<le>s amt \<or>
    ledgerPaymentReferenceTypeForReversal (TrimSpace ref) amt \<in> set debitTypes \<and> amt <s 0"
  using assms
  by (auto simp: ledgerPaymentReferenceTypeForReversal_def creditTypes_def debitTypes_def word_sless_alt word_sle_eq)

lemma preview_transfer:
  assumes p: "paymentPosting acc tx LedgerReferenceInternalTransfer tx cp cur delta t = Inr p" and acc: "trimmed acc"
  shows "delta = - amt \<Longrightarrow> previewLedgerPostingFromEvent acc (EventLedgerAccountTransferredToAccount
      \<lparr>tt_TransactionID = p_TransactionID p, tt_ToAccountID = p_CounterpartyAccountID p,
       tt_Currency = p_Currency p, tt_Amount = amt, tt_BookedAt = p_BookedAt p\<rparr>) = Inr (Some p)"
    and "previewLedgerPostingFromEvent acc (EventLedgerAccountReceivedTransfer
      \<lparr>rt_TransactionID = p_TransactionID p, rt_FromAccountID = p_CounterpartyAccountID p,
       rt_Currency = p_Currency p, rt_Amount = delta, rt_BookedAt = p_BookedAt p\<rparr>) = Inr (Some p)"
proof -
  note f = paymentPosting_fields [OF p]
  have "paymentPosting acc (p_TransactionID p) LedgerReferenceInternalTransfer (p_ReferenceID p)
     (p_CounterpartyAccountID p) (p_Currency p) (p_AmountDelta p) (p_BookedAt p) = Inr p"
    using f(1,3) acc by (intro paymentPosting_again) (simp_all add: trimmed_iff)
  with f show "delta = - amt \<Longrightarrow> previewLedgerPostingFromEvent acc (EventLedgerAccountTransferredToAccount
      \<lparr>tt_TransactionID = p_TransactionID p, tt_ToAccountID = p_CounterpartyAccountID p,
       tt_Currency = p_Currency p, tt_Amount = amt, tt_BookedAt = p_BookedAt p\<rparr>) = Inr (Some p)"
    and "previewLedgerPostingFromEvent acc (EventLedgerAccountReceivedTransfer
      \<lparr>rt_TransactionID = p_TransactionID p, rt_FromAccountID = p_CounterpartyAccountID p,
       rt_Currency = p_Currency p, rt_Amount = delta, rt_BookedAt = p_BookedAt p\<rparr>) = Inr (Some p)"
    by (simp_all add: previewLedgerPostingFromEvent_def posting_constructors paymentPosting_def del: andThen_eq_Inr)
qed

lemma opPosting_preview:
  assumes "opPosting acc op = Inr (p, d)" "trimmed acc"
  shows "previewLedgerPostingFromEvent acc d = Inr (Some p)"
  using assms
  by (cases op)
    (auto simp: opPosting_def preview_transfer split: option.splits
      dest!: preview_payment [OF _ _ succeeded_sign] preview_payment [OF _ _ reversal_sign])

lemma bookPaymentPosting_eq:
  assumes "trimmed (aggregateID a)" "ref \<in> set creditTypes \<and> 0 \<le>s amt \<or> ref \<in> set debitTypes \<and> amt <s 0"
  shows "bookPaymentPosting a tx ref pay cp cur amt t =
    (case paymentPosting (aggregateID a) tx ref pay cp cur amt t of
       Inl e \<Rightarrow> (Inl e, a)
     | Inr p \<Rightarrow> recordPosting a ''ledger payment booking mismatch for transaction_id=%s'' p (Some (the (newLedgerPaymentEvent p))))"
proof (cases "paymentPosting (aggregateID a) tx ref pay cp cur amt t")
  case (Inr p)
  from preview_payment [OF Inr assms] Inr show ?thesis
    by (auto simp: bookPaymentPosting_def paymentPosting_def)
qed (simp add: bookPaymentPosting_def paymentPosting_def)

text \<open>Every operation builds its posting and event and hands them to \<open>recordPosting\<close>.\<close>

lemma runOp_recordPosting:
  assumes acc: "trimmed (aggregateID a)"
  shows "runOp a op = (case opPosting (aggregateID a) op of
      Inl e \<Rightarrow> (Inl e, a) | Inr (p, d) \<Rightarrow> recordPosting a (mismatchMsg op) p (Some d))"
proof (cases op)
  case (OpApplyPostingEvent d)
  then show ?thesis
    by (cases "previewLedgerPostingFromEvent (aggregateID a) d")
      (auto simp: opPosting_def ApplyPostingEvent_def mismatchMsg_def split: option.splits)
next
  case (OpBookPayment tx pay cp cur amt t)
  then show ?thesis
    using bookPaymentPosting_eq [OF acc succeeded_sign [of amt], of tx pay cp cur t]
    by (simp add: opPosting_def BookPayment_def mismatchMsg_def andThen_def split: sum.splits)
next
  case (OpReversePayment tx ref pay cp cur amt t)
  then show ?thesis
    using bookPaymentPosting_eq [OF acc reversal_sign [of ref amt], of tx pay cp cur t]
    by (auto simp: opPosting_def ReversePayment_def mismatchMsg_def andThen_def ensure_def Let_def split: sum.splits)
next
  case (OpTransferToAccount tx cp cur amt t)
  then show ?thesis
    by (simp add: opPosting_def TransferToAccount_def NewLedgerAccountTransferOutPosting_def paymentPosting_def
        mismatchMsg_def andThen_def split: sum.splits)
next
  case (OpReceiveTransfer tx cp cur amt t)
  then show ?thesis
    by (simp add: opPosting_def ReceiveTransfer_def NewLedgerAccountTransferInPosting_def paymentPosting_def
        mismatchMsg_def andThen_def split: sum.splits)
qed

text \<open>An operation that fails to build its posting changes nothing; every other one is \<open>postOnce\<close>.\<close>

lemma runOp_eq:
  assumes "account_ok a"
  shows "runOp a op = (case opPosting (aggregateID a) op of
      Inl e \<Rightarrow> (Inl e, a) | Inr (p, d) \<Rightarrow> postOnce a (mismatchMsg op) p d)"
proof -
  from assms have acc: "trimmed (aggregateID a)" by (simp add: account_ok_def)
  show ?thesis
    unfolding runOp_recordPosting [OF acc]
    by (auto split: sum.splits dest!: opPosting_preview [OF _ acc] simp: recordPosting_eq [OF assms])
qed

section \<open>Invariants over every sequence of operations\<close>

text \<open>The accounts the program can hold: created, changed by operations, saved (\<open>MarkPersisted\<close>).\<close>

inductive ledger_reachable :: "LedgerAccountAggregate \<Rightarrow> bool" where
  created: "NewLedgerAccountAggregate acc = Inr a \<Longrightarrow> ledger_reachable a"
| operated: "ledger_reachable a \<Longrightarrow> runOp a op = (r, b) \<Longrightarrow> ledger_reachable b"
| saved: "ledger_reachable a \<Longrightarrow> ledger_reachable (MarkPersisted a)"

definition balanceIn :: "LedgerAccountAggregate \<Rightarrow> string \<Rightarrow> int64" where
  "balanceIn a c = (case Balances a c of None \<Rightarrow> 0 | Some b \<Rightarrow> b)"

definition postedIn :: "LedgerAccountAggregate \<Rightarrow> string \<Rightarrow> string \<Rightarrow> int64" where
  "postedIn a c tx = (case PostedTransactions a tx of None \<Rightarrow> 0
     | Some p \<Rightarrow> if p_Currency p = c then p_AmountDelta p else 0)"

definition ledger_inv :: "LedgerAccountAggregate \<Rightarrow> bool" where
  "ledger_inv a \<longleftrightarrow> account_ok a \<and> pending_ok a \<and> finite (dom (PostedTransactions a)) \<and>
     (\<forall>tx p. PostedTransactions a tx = Some p \<longrightarrow> p_TransactionID p = tx \<and> posting_ok (aggregateID a) p) \<and>
     (\<forall>c. balanceIn a c = (\<Sum>tx\<in>dom (PostedTransactions a). postedIn a c tx))"

lemma Balance_balanceIn: "Balance a cur = balanceIn a (ToUpper (TrimSpace cur))"
  by (simp add: Balance_def balanceIn_def)

lemma NewLedgerAccount_Inr:
  "NewLedgerAccountAggregate acc = Inr a \<longleftrightarrow> TrimSpace acc \<noteq> [] \<and>
     a = emptyLedgerAccount\<lparr>aggregateType := ''LedgerAccountAggregate'', aggregateID := TrimSpace acc\<rparr>"
  by (auto simp: NewLedgerAccountAggregate_def InitAggregate_def SetID_Inr SetAggregateType_def
      emptyLedgerAccount_def emptyRoot_def AggregateRoot.extend_def)

lemma emptyLedgerAccount_simps [simp]:
  "events emptyLedgerAccount = []" "AccountID emptyLedgerAccount = []" "Balances emptyLedgerAccount = Map.empty"
  "PostedTransactions emptyLedgerAccount = Map.empty" "version emptyLedgerAccount = 0"
  by (simp_all add: emptyLedgerAccount_def emptyRoot_def AggregateRoot.extend_def)

lemma created_inv: "NewLedgerAccountAggregate acc = Inr a \<Longrightarrow> ledger_inv a"
  by (auto simp: NewLedgerAccount_Inr ledger_inv_def account_ok_def pending_ok_def balanceIn_def)

lemma postTo_simps [simp]:
  "aggregateID (postTo a d p) = aggregateID a" "AccountID (postTo a d p) = aggregateID a"
  "PostedTransactions (postTo a d p) = (PostedTransactions a)(p_TransactionID p \<mapsto> p)"
  "events (postTo a d p) = events a @ [newEvent ledgerEventName a d]" "version (postTo a d p) = version a"
  by (simp_all add: postTo_def)

lemma balanceIn_postTo:
  "posting_ok acc p \<Longrightarrow> balanceIn (postTo a d p) c = balanceIn a c + (if p_Currency p = c then p_AmountDelta p else 0)"
  by (auto simp: balanceIn_def postTo_def posting_balance)

lemma postTo_inv:
  assumes inv: "ledger_inv a" and p: "previewLedgerPostingFromEvent (aggregateID a) d = Inr (Some p)"
    and new: "PostedTransactions a (p_TransactionID p) = None" "\<not> overdraws a p"
  shows "ledger_inv (postTo a d p)"
proof -
  from inv have a: "account_ok a" "pending_ok a" by (simp_all add: ledger_inv_def)
  from a(1) preview_posting_ok [OF p] have ok: "posting_ok (aggregateID a) p" by (simp add: account_ok_def trimmed_iff)
  from ledger.ApplyChange_pending_ok [OF a(2) ApplyChange_posting [OF a(1) p new(2)]]
  have "pending_ok (postTo a d p)" .
  moreover have "balanceIn (postTo a d p) c = (\<Sum>tx\<in>dom (PostedTransactions (postTo a d p)). postedIn (postTo a d p) c tx)" for c
  proof -
    have old: "postedIn (postTo a d p) c tx = postedIn a c tx" if "tx \<in> dom (PostedTransactions a)" for tx
      using that new(1) by (auto simp: postedIn_def)
    have "(\<Sum>tx\<in>dom (PostedTransactions (postTo a d p)). postedIn (postTo a d p) c tx) =
        (if p_Currency p = c then p_AmountDelta p else 0) + (\<Sum>tx\<in>dom (PostedTransactions a). postedIn a c tx)"
      using inv new(1) old by (simp add: ledger_inv_def domIff) (simp add: postedIn_def)
    with inv show ?thesis by (simp add: balanceIn_postTo [OF ok] ledger_inv_def)
  qed
  ultimately show ?thesis using inv ok a(1)
    by (auto simp: ledger_inv_def account_ok_def split: if_splits)
qed

lemma runOp_cases:
  assumes "ledger_inv a" "runOp a op = (r, b)"
  obtains "r \<noteq> Inr True" "b = a"
  | p d where "opPosting (aggregateID a) op = Inr (p, d)" "previewLedgerPostingFromEvent (aggregateID a) d = Inr (Some p)"
      "posting_ok (aggregateID a) p" "PostedTransactions a (p_TransactionID p) = None" "\<not> overdraws a p"
      "r = Inr True" "b = postTo a d p"
proof (cases "opPosting (aggregateID a) op")
  case (Inl e)
  with assms that(1) show thesis by (auto simp: ledger_inv_def runOp_eq)
next
  case (Inr pd)
  obtain p d where pd: "pd = (p, d)" by fastforce
  from assms(1) have acc: "account_ok a" "trimmed (aggregateID a)" by (simp_all add: ledger_inv_def account_ok_def)
  from opPosting_preview Inr pd acc have pv: "previewLedgerPostingFromEvent (aggregateID a) d = Inr (Some p)" by simp
  with acc have ok: "posting_ok (aggregateID a) p" using preview_posting_ok [OF pv] by (simp add: trimmed_iff)
  from assms(2) Inr pd acc have "postOnce a (mismatchMsg op) p d = (r, b)" by (simp add: runOp_eq)
  with that Inr pd pv ok show thesis
    by (auto simp: postOnce_def split: option.splits if_splits)
qed

lemma runOp_inv: "ledger_inv a \<Longrightarrow> runOp a op = (r, b) \<Longrightarrow> ledger_inv b"
  by (rule runOp_cases [of a op r b]) (auto intro: postTo_inv)

lemma saved_inv: "ledger_inv a \<Longrightarrow> ledger_inv (MarkPersisted a)"
proof -
  assume inv: "ledger_inv a"
  have "AccountID (MarkPersisted a) = AccountID a" "Balances (MarkPersisted a) = Balances a"
    "PostedTransactions (MarkPersisted a) = PostedTransactions a" by (simp_all add: MarkPersisted_def)
  with inv show ?thesis
    by (simp add: ledger_inv_def account_ok_def MarkPersisted_pending_ok balanceIn_def postedIn_def)
qed

lemma reachable_inv: "ledger_reachable a \<Longrightarrow> ledger_inv a"
  by (induction rule: ledger_reachable.induct) (auto intro: created_inv runOp_inv saved_inv)

text \<open>A run of operations records its successful ones by \<open>ApplyChange\<close>.\<close>

lemma runOps_Cons: "runOps a (op # ops) = runOps (snd (runOp a op)) ops"
  by (simp add: runOps_def)

lemma runOps_append: "runOps a (xs @ ys) = runOps (runOps a xs) ys"
  by (simp add: runOps_def)

lemma runOp_evolves:
  assumes "ledger_inv a" "evolves ledgerEventName Transition s a"
  shows "evolves ledgerEventName Transition s (snd (runOp a op))"
  using assms(1) prod.collapse [of "runOp a op", symmetric]
proof (rule runOp_cases)
  fix p d
  assume "previewLedgerPostingFromEvent (aggregateID a) d = Inr (Some p)" "\<not> overdraws a p"
    "snd (runOp a op) = postTo a d p"
  with assms ApplyChange_posting [of a d p] show ?thesis
    by (auto simp: ledger_inv_def intro: evolves_step)
qed (use assms in simp)

lemma runOps_evolves: "ledger_inv a \<Longrightarrow> evolves ledgerEventName Transition s a \<Longrightarrow>
    evolves ledgerEventName Transition s (runOps a ops) \<and> ledger_inv (runOps a ops)"
proof (induction ops arbitrary: a)
  case (Cons op ops)
  then show ?case
    using runOp_evolves [of a s op] runOp_inv [of a op "fst (runOp a op)" "snd (runOp a op)"] by (simp add: runOps_Cons)
qed (simp add: runOps_def)

text \<open>A posted transaction stays posted, whatever else is done.\<close>

lemma runOps_keeps:
  "ledger_inv a \<Longrightarrow> PostedTransactions a tx = Some q \<Longrightarrow>
    PostedTransactions (runOps a ops) tx = Some q \<and> aggregateID (runOps a ops) = aggregateID a"
proof (induction ops arbitrary: a)
  case (Cons op ops)
  have "PostedTransactions (snd (runOp a op)) tx = Some q \<and> aggregateID (snd (runOp a op)) = aggregateID a"
    using Cons.prems(1) prod.collapse [of "runOp a op", symmetric] by (rule runOp_cases) (use Cons.prems in auto)
  then show ?case
    using Cons.IH Cons.prems(1) runOp_inv [of a op "fst (runOp a op)" "snd (runOp a op)"] by (simp add: runOps_Cons)
qed (simp add: runOps_def)


lemma SameLedgerAccountPosting_refl [simp]: "SameLedgerAccountPosting p p"
  by (simp add: SameLedgerAccountPosting_def)

lemma runOp_repeated:
  assumes inv: "ledger_inv a" and acc: "aggregateID a = acc" and op: "opPosting acc op = Inr (p, d)"
    and posted: "PostedTransactions a (p_TransactionID p) = Some p"
  shows "runOp a op = (Inr False, a)"
proof -
  from inv have "account_ok a" by (simp add: ledger_inv_def)
  with acc op posted show ?thesis by (simp add: runOp_eq postOnce_def)
qed

section \<open>Properties\<close>

text \<open>A sample account, with a deposit of 1000 and a transfer of 400.\<close>

definition sampleTime :: gotime where
  "sampleTime = GoTime 63839836800000000000 ''UTC''"

definition sampleOps :: "LedgerOp list" where
  "sampleOps = [OpBookPayment ''payment:p1:succeeded'' ''p1'' ''ledger:clearing:stripe'' ''usd'' 1000 sampleTime,
     OpTransferToAccount ''t1'' ''u2'' '' USD '' 400 sampleTime]"

definition sampleAccount :: LedgerAccountAggregate where
  "sampleAccount = (case NewLedgerAccountAggregate ''u1'' of Inr a \<Rightarrow> a | Inl e \<Rightarrow> emptyLedgerAccount)"

lemma sampleAccount_created: "NewLedgerAccountAggregate ''u1'' = Inr sampleAccount"
proof -
  have "trimmed ''u1''" by (rule trimmed_visible_ends) (simp_all add: visible_def)
  then show ?thesis
    by (cases "NewLedgerAccountAggregate ''u1''")
      (auto simp: sampleAccount_def NewLedgerAccountAggregate_def InitAggregate_def SetID_def trimmed_iff
        emptyLedgerAccount_def emptyRoot_def AggregateRoot.extend_def SetAggregateType_def)
qed

lemma reachable_runOps: "ledger_reachable a \<Longrightarrow> ledger_reachable (runOps a ops)"
proof (induction ops arbitrary: a)
  case (Cons op ops)
  then show ?case
    using operated [of a op "fst (runOp a op)" "snd (runOp a op)"] by (simp add: runOps_Cons)
qed (simp add: runOps_def)

lemma sampleAccount_reachable: "ledger_reachable (runOps sampleAccount ops)"
  by (intro reachable_runOps created [OF sampleAccount_created])

text \<open>
  C1 (invariant). In every account the program can reach, by any sequence of deposits, reversals,
  transfers, posting events and saves, the balance in a currency is the sum of the amounts of the
  account's posted transactions in that currency.
\<close>

theorem ledger_balance_is_sum_of_postings:
  assumes "ledger_reachable a"
  shows "Balance a cur = (\<Sum>tx\<in>dom (PostedTransactions a). postedIn a (ToUpper (TrimSpace cur)) tx)"
  using reachable_inv [OF assms] by (simp add: ledger_inv_def Balance_balanceIn)

theorem ledger_balance_is_sum_of_postings_witness:
  "Balance (runOps sampleAccount sampleOps) ''usd'' = 600 \<and>
   (\<Sum>tx\<in>dom (PostedTransactions (runOps sampleAccount sampleOps)).
      postedIn (runOps sampleAccount sampleOps) (ToUpper (TrimSpace ''usd'')) tx) = 600"
proof
  show "Balance (runOps sampleAccount sampleOps) ''usd'' = 600" by code_simp
  then show "(\<Sum>tx\<in>dom (PostedTransactions (runOps sampleAccount sampleOps)).
      postedIn (runOps sampleAccount sampleOps) (ToUpper (TrimSpace ''usd'')) tx) = 600"
    using ledger_balance_is_sum_of_postings [OF sampleAccount_reachable [of sampleOps], of "''usd''"] by simp
qed

text \<open>
  C30 (refinement). Event sourcing is faithful: starting from any saved account, replaying with
  \<open>LoadFromHistory\<close> the events that a sequence of operations recorded rebuilds the account's state,
  at the version of the last event, although the operations change the state while they record.
\<close>

theorem ledger_replay:
  assumes "ledger_reachable a" "events a = []"
  shows "\<exists>b. LoadFromHistory Transition a (events (runOps a ops)) = Inr b \<and>
    AccountID b = AccountID (runOps a ops) \<and> Balances b = Balances (runOps a ops) \<and>
    PostedTransactions b = PostedTransactions (runOps a ops) \<and> Version b = Version (runOps a ops)"
proof -
  from runOps_evolves [OF reachable_inv [OF assms(1)] evolves_refl]
  have ev: "evolves ledgerEventName Transition a (runOps a ops)" by simp
  from ledger.replay [OF this assms(2) refl] obtain b where b: "LoadFromHistory Transition a (events (runOps a ops)) = Inr b"
    "AggregateRoot.more b = AggregateRoot.more (runOps a ops)" "events (runOps a ops) \<noteq> [] \<Longrightarrow> version b = Version (runOps a ops)"
    by blast
  have "events b = []"
    using ledger.LoadFromHistory_fields [OF b(1)] assms(2) by simp
  moreover have "version (runOps a ops) = version a" using ledger.evolves_version [OF ev] .
  ultimately have "Version b = Version (runOps a ops)"
    using b(1,3) by (cases "events (runOps a ops) = []") (auto simp: Version_def)
  with b show ?thesis by (auto simp: more_ledger_iff)
qed

theorem ledger_replay_witness:
  "\<exists>b. LoadFromHistory Transition sampleAccount (events (runOps sampleAccount sampleOps)) = Inr b \<and>
    Balances b = Balances (runOps sampleAccount sampleOps) \<and> Version b = 2"
proof -
  have "Version (runOps sampleAccount sampleOps) = 2" by code_simp
  moreover have "events sampleAccount = []" by code_simp
  ultimately show ?thesis
    using ledger_replay [of sampleAccount sampleOps] created [OF sampleAccount_created] by auto
qed

text \<open>
  C31 (error). An operation that fails, or that finds its transaction already posted, leaves a
  reachable account exactly as it was: no event, no balance, no posting. (The kernel appends an
  event before it runs the transition, but no operation gets to record an event whose transition
  fails.)
\<close>

theorem ledger_refused_leaves_no_trace:
  assumes "ledger_reachable a" "runOp a op = (r, b)" "r \<noteq> Inr True"
  shows "b = a"
  using reachable_inv [OF assms(1)] assms(2) by (rule runOp_cases) (use assms(3) in simp_all)

theorem ledger_refused_leaves_no_trace_witness:
  "runOp (runOps sampleAccount sampleOps) (OpTransferToAccount ''t2'' ''u2'' ''usd'' 601 sampleTime) =
     (Inl insufficientFunds, runOps sampleAccount sampleOps)"
proof -
  obtain r b where r: "runOp (runOps sampleAccount sampleOps) (OpTransferToAccount ''t2'' ''u2'' ''usd'' 601 sampleTime) = (r, b)"
    by fastforce
  have "fst (runOp (runOps sampleAccount sampleOps) (OpTransferToAccount ''t2'' ''u2'' ''usd'' 601 sampleTime)) = Inl insufficientFunds"
    by code_simp
  with r ledger_refused_leaves_no_trace [OF sampleAccount_reachable r] show ?thesis by simp
qed



text \<open>
  C23 (functional). A transfer out of a reachable account with a non-negative balance, for a positive
  amount and a new transaction id, succeeds exactly when the balance covers the amount, and then the
  balance is the old one minus the amount, over the integers; otherwise it fails with
  \<open>ErrLedgerAccountInsufficientFunds\<close>. So a transfer never takes the balance below zero.
\<close>

theorem transfer_out_exact:
  assumes "ledger_reachable a" "0 < sint amount" "0 \<le> sint (Balance a cur)"
    and "PostedTransaction a tx = None" "TrimSpace tx \<noteq> []" "TrimSpace cur \<noteq> []" "\<not> IsZero t"
    and "TrimSpace to \<noteq> []" "TrimSpace to \<noteq> aggregateID a"
  shows "if sint amount \<le> sint (Balance a cur)
    then fst (TransferToAccount a tx to cur amount t) = Inr True \<and>
      sint (Balance (snd (TransferToAccount a tx to cur amount t)) cur) = sint (Balance a cur) - sint amount
    else TransferToAccount a tx to cur amount t = (Inl insufficientFunds, a)"
proof -
  from reachable_inv [OF assms(1)] have acc: "account_ok a" by (simp add: ledger_inv_def)
  define p where "p = \<lparr>p_TransactionID = TrimSpace tx, p_ReferenceType = LedgerReferenceInternalTransfer,
     p_ReferenceID = TrimSpace tx, p_CounterpartyAccountID = TrimSpace to, p_Currency = ToUpper (TrimSpace cur),
     p_AmountDelta = - amount, p_BookedAt = UTC t\<rparr>"
  from assms(2) have "amount \<noteq> 0" by auto
  with acc assms have ok: "posting_ok (aggregateID a) p"
    by (simp add: posting_ok_def p_def account_ok_def postingReferenceTypes_def)
  have itr: "TrimSpace LedgerReferenceInternalTransfer = LedgerReferenceInternalTransfer"
    by (intro TrimSpace_trimmed trimmed_referenceType) (simp add: postingReferenceTypes_def)
  have pp: "paymentPosting (aggregateID a) tx LedgerReferenceInternalTransfer tx to cur (- amount) t = Inr p"
    unfolding paymentPosting_def using ok acc itr
    by (intro NewLedgerAccountPaymentPosting_ok) (simp_all add: account_ok_def trimmed_iff p_def)
  have new: "PostedTransactions a (p_TransactionID p) = None"
    using assms(4,5) by (simp add: PostedTransaction_def p_def)
  have bal: "Balance c (p_Currency p) = Balance c cur" for c by (simp add: Balance_def p_def)
  have neg: "sint (- amount) = - sint amount" "fits64 (sint (Balance a cur) - sint amount)"
    using assms(2,3) sint64_range [of amount] sint64_range [of "Balance a cur"]
    by (auto intro!: sint_neg64_fits simp: fits64_def)
  then have diff: "sint (Balance a cur + - amount) = sint (Balance a cur) - sint amount"
    using sint_add64_fits [of "Balance a cur" "- amount"] by simp
  have guarded: "requiresNonNegativeBalance LedgerReferenceInternalTransfer"
    unfolding requiresNonNegativeBalance_def itr by (simp add: LedgerReferenceInternalTransfer_def)
  have over: "overdraws a p \<longleftrightarrow> sint (Balance a cur) < sint amount"
    using assms(2) neg(1) diff by (simp add: overdraws_def bal word_sless_alt guarded) (simp add: p_def guarded)
  have "Balance (postTo a d p) cur = Balance a cur + - amount" for d
    using balanceIn_postTo [OF ok, of a d] by (simp add: Balance_balanceIn p_def)
  with diff new over runOp_eq [OF acc, of "OpTransferToAccount tx to cur amount t"] pp show ?thesis
    by (simp add: opPosting_def postOnce_def)
qed

theorem transfer_out_exact_witness:
  "sint (Balance (snd (TransferToAccount (runOps sampleAccount sampleOps) ''t9'' ''u3'' ''usd'' 600 sampleTime)) ''usd'') = 0"
proof -
  have "sint (Balance (runOps sampleAccount sampleOps) ''usd'') = 600" "\<not> IsZero sampleTime"
    "PostedTransaction (runOps sampleAccount sampleOps) ''t9'' = None"
    "TrimSpace ''t9'' = ''t9''" "TrimSpace ''usd'' = ''usd''" "TrimSpace ''u3'' = ''u3''"
    "aggregateID (runOps sampleAccount sampleOps) = ''u1''" by code_simp+
  then show ?thesis
    using transfer_out_exact [OF sampleAccount_reachable [of sampleOps], of 600 "''usd''" "''t9''" sampleTime "''u3''"] by simp
qed

text \<open>
  Encoding a normalised payment posting as its event and reading the event back gives
  the posting, and the event's name is the posting's reference type, for each of the ten reference
  types in its direction.
\<close>

lemma posting_event_roundtrip:
  assumes "posting_ok acc p" "sign_ok p"
  shows "\<exists>d. newLedgerPaymentEvent p = Some d \<and> ledgerEventName d = p_ReferenceType p \<and>
    NewLedgerAccountPostingFromEvent acc d = Inr (Some p)"
  unfolding NewLedgerAccountPostingFromEvent_def using assms by (rule paymentEvent_roundtrip)

lemma posting_event_roundtrip_witness:
  "\<exists>d. newLedgerPaymentEvent \<lparr>p_TransactionID = ''t'', p_ReferenceType = EventNameLedgerAccountReserveWithdrawal,
       p_ReferenceID = ''p1'', p_CounterpartyAccountID = ''h'', p_Currency = ''USD'', p_AmountDelta = - 5,
       p_BookedAt = sampleTime\<rparr> = Some d \<and> ledgerEventName d = EventNameLedgerAccountReserveWithdrawal"
  by (rule exE [OF posting_event_roundtrip [of "''u1''" "\<lparr>p_TransactionID = ''t'', p_ReferenceType = EventNameLedgerAccountReserveWithdrawal,
       p_ReferenceID = ''p1'', p_CounterpartyAccountID = ''h'', p_Currency = ''USD'', p_AmountDelta = - 5,
       p_BookedAt = sampleTime\<rparr>"]]) (code_simp, code_simp, auto)

end
