(* ===== verification/LedgerStore.thy ===== *)
theory LedgerStore
  imports LedgerAccount
begin

text \<open>
  \<^verbatim>\<open>core/modules/ledger/infra/persistent/repository\<close>: the event store, the posted-transaction store,
  the snapshot-aware aggregate store and the account repository.

  The database is the contents of the five tables; an insert into a table fails with
  \<open>ErrDuplicate\<close> exactly when it breaks the table's unique index. Connection failures and
  isolation between database transactions are not modelled. \<open>Marshal\<close> followed by \<open>Unmarshal\<close> is
  the identity on payloads and on the exported fields of the aggregate, and \<open>cloneEventPayload\<close>
  gives a fresh value of the registered type. A call that fails makes its callers roll the
  database transaction back, so its result is the error alone.

  The theory shows that loading through a snapshot equals replaying the whole history, that what
  is saved is loaded back, and that a stale save is refused.
\<close>

section \<open>Tables\<close>

abbreviation ErrNotFound :: error where "ErrNotFound \<equiv> Sentinel ''ErrNotFound''"
abbreviation ErrDuplicate :: error where "ErrDuplicate \<equiv> Sentinel ''ErrDuplicate''"
abbreviation ErrAlreadyApplied :: error where "ErrAlreadyApplied \<equiv> Sentinel ''ErrAlreadyApplied''"
abbreviation ledgerType :: string where "ledgerType \<equiv> ''LedgerAccountAggregate''"

record LedgerPostedTransactionModel =
  pt_AggregateID :: string
  pt_AggregateType :: string
  pt_TransactionID :: string
  pt_EventName :: string
  pt_EventData :: LedgerEvent

text \<open>A snapshot holds the aggregate's exported fields.\<close>

record LedgerSnapshotModel =
  sn_AggregateID :: string
  sn_AggregateType :: string
  sn_Version :: int
  sn_AccountID :: string
  sn_Balances :: "string \<rightharpoonup> int64"
  sn_PostedTransactions :: "string \<rightharpoonup> LedgerAccountPosting"

record LedgerDB =
  aggregatesT :: "string \<times> string \<rightharpoonup> int"
  eventsT :: "LedgerEvent Event list"
  postedT :: "LedgerPostedTransactionModel list"
  snapshotsT :: "LedgerSnapshotModel list"
  outboxT :: "LedgerEvent Event list"

definition emptyDB :: LedgerDB where
  "emptyDB = \<lparr>aggregatesT = Map.empty, eventsT = [], postedT = [], snapshotsT = [], outboxT = []\<rparr>"

definition ledgerSerializer :: serializer where
  "ledgerSerializer = (case RegisterAggregate ledgerType Map.empty RegisteredLedgerEvents of Inr s \<Rightarrow> s | Inl _ \<Rightarrow> Map.empty)"

section \<open>The event store\<close>

definition CreateIfNotExist :: "LedgerDB \<Rightarrow> string \<Rightarrow> string \<Rightarrow> LedgerDB" where
  "CreateIfNotExist db aggID aggType =
     (case aggregatesT db (aggID, aggType) of
        None \<Rightarrow> db\<lparr>aggregatesT := (aggregatesT db)((aggID, aggType) \<mapsto> 0)\<rparr>
      | Some _ \<Rightarrow> db)"

definition CheckAndUpdateVersion :: "LedgerDB \<Rightarrow> string \<Rightarrow> string \<Rightarrow> int \<Rightarrow> int \<Rightarrow> bool \<times> LedgerDB" where
  "CheckAndUpdateVersion db aggID aggType bv nv =
     (if aggregatesT db (aggID, aggType) = Some bv
      then (True, db\<lparr>aggregatesT := (aggregatesT db)((aggID, aggType) \<mapsto> nv)\<rparr>) else (False, db))"

definition Append :: "int \<Rightarrow> LedgerDB \<Rightarrow> LedgerEvent Event \<Rightarrow> error + LedgerDB" where
  "Append now db evt =
     (if \<exists>e\<in>set (eventsT db). ev_AggregateID e = ev_AggregateID evt \<and> ev_AggregateType e = ev_AggregateType evt \<and>
           ev_Version e = ev_Version evt
      then Inl ErrDuplicate
      else Inr (db\<lparr>eventsT := eventsT db @ [evt\<lparr>ev_ID := 0, ev_CreatedAt := (if 0 < ev_CreatedAt evt then ev_CreatedAt evt else now)\<rparr>]\<rparr>))"

definition toDomainEvent :: "LedgerEvent Event \<Rightarrow> error + LedgerEvent Event" where
  "toDomainEvent row =
     (case serializerType ledgerSerializer (ev_AggregateType row) (ev_EventName row) of
        None \<Rightarrow> Inl (Errorf ''unsupported ledger event: aggregate_type=%s event_name=%s'' [])
      | Some _ \<Rightarrow> Inr row)"

fun toDomainEvents :: "LedgerEvent Event list \<Rightarrow> error + LedgerEvent Event list" where
  "toDomainEvents [] = Inr []"
| "toDomainEvents (row # rows) = andThen (toDomainEvent row) (\<lambda>e. andThen (toDomainEvents rows) (\<lambda>es. Inr (e # es)))"

definition eventStoreGet ::
  "LedgerDB \<Rightarrow> string \<Rightarrow> string \<Rightarrow> int \<Rightarrow> LedgerAccountAggregate \<Rightarrow> error + LedgerAccountAggregate" where
  "eventStoreGet db aggID aggType afterVersion agg =
     (let rows = sort_key ev_Version (filter (\<lambda>e. ev_AggregateID e = aggID \<and> ev_AggregateType e = aggType \<and>
                   (0 < afterVersion \<longrightarrow> afterVersion < ev_Version e)) (eventsT db))
      in if rows = [] then (if afterVersion = 0 then Inl ErrNotFound else Inr agg)
         else andThen (toDomainEvents rows) (\<lambda>es. LoadFromHistory Transition agg es))"

definition CreateSnapshot :: "LedgerDB \<Rightarrow> LedgerAccountAggregate \<Rightarrow> error + LedgerDB" where
  "CreateSnapshot db agg =
     (if \<exists>s\<in>set (snapshotsT db). sn_AggregateType s = aggregateType agg \<and> sn_AggregateID s = aggregateID agg \<and>
           sn_Version s = Version agg
      then Inl ErrDuplicate
      else Inr (db\<lparr>snapshotsT := snapshotsT db @
        [\<lparr>sn_AggregateID = aggregateID agg, sn_AggregateType = aggregateType agg, sn_Version = Version agg,
          sn_AccountID = AccountID agg, sn_Balances = Balances agg, sn_PostedTransactions = PostedTransactions agg\<rparr>]\<rparr>))"

text \<open>\<open>None\<close>: no snapshot. Unmarshalling into the aggregate adds the snapshot's keys to its maps.\<close>

definition ReadSnapshot :: "LedgerDB \<Rightarrow> string \<Rightarrow> string \<Rightarrow> LedgerAccountAggregate \<Rightarrow> LedgerAccountAggregate option" where
  "ReadSnapshot db aggID aggType agg =
     (case sort_key (\<lambda>s. - sn_Version s) (filter (\<lambda>s. sn_AggregateID s = aggID \<and> sn_AggregateType s = aggType) (snapshotsT db)) of
        [] \<Rightarrow> None
      | s # _ \<Rightarrow> Some (SetInternal (agg\<lparr>AccountID := sn_AccountID s, Balances := Balances agg ++ sn_Balances s,
            PostedTransactions := PostedTransactions agg ++ sn_PostedTransactions s\<rparr>) aggID (sn_Version s) (sn_Version s)))"

section \<open>The posted-transaction store\<close>

definition postingFromRawEvent :: "LedgerPostedTransactionModel \<Rightarrow> error + LedgerAccountPosting" where
  "postingFromRawEvent m =
     (case serializerType ledgerSerializer (pt_AggregateType m) (pt_EventName m) of
        None \<Rightarrow> Inl (Errorf ''unsupported ledger posted transaction event: aggregate_type=%s event_name=%s'' [])
      | Some _ \<Rightarrow>
          andThen (NewLedgerAccountPostingFromEvent (pt_AggregateID m) (pt_EventData m)) (\<lambda>r.
            case r of
              None \<Rightarrow> Inl (Errorf ''ledger posted transaction event cannot be converted aggregate_id=%s event_name=%s'' [])
            | Some posting \<Rightarrow> Inr posting))"

definition findPostedTransaction ::
  "LedgerDB \<Rightarrow> string \<Rightarrow> string \<Rightarrow> string \<Rightarrow> error + LedgerAccountPosting option" where
  "findPostedTransaction db aggID aggType txID =
     (case filter (\<lambda>m. pt_AggregateID m = aggID \<and> pt_AggregateType m = aggType \<and> pt_TransactionID m = txID) (postedT db) of
        [] \<Rightarrow> Inr None
      | m # _ \<Rightarrow> andThen (postingFromRawEvent m) (\<lambda>p. Inr (Some p)))"

definition insertPosted :: "LedgerDB \<Rightarrow> LedgerPostedTransactionModel \<Rightarrow> error + LedgerDB" where
  "insertPosted db m =
     (if \<exists>r\<in>set (postedT db). pt_AggregateID r = pt_AggregateID m \<and> pt_AggregateType r = pt_AggregateType m \<and>
           pt_TransactionID r = pt_TransactionID m
      then Inl ErrDuplicate else Inr (db\<lparr>postedT := postedT db @ [m]\<rparr>))"

text \<open>
  The insert's error is declared inside the \<^verbatim>\<open>if\<close> and shadows the function's \<^verbatim>\<open>err\<close>; the tests that
  follow read the outer variable, which is \<^verbatim>\<open>nil\<close> at that point (\<open>outerErr\<close>).
\<close>

definition ReservePostedTransaction :: "LedgerDB \<Rightarrow> LedgerEvent Event \<Rightarrow> error + LedgerDB" where
  "ReservePostedTransaction db evt =
     andThen (NewLedgerAccountPostingFromEvent (ev_AggregateID evt) (ev_EventData evt)) (\<lambda>r.
       case r of
         None \<Rightarrow> Inr db
       | Some posting \<Rightarrow>
           let outerErr = (None :: error option)
           in case insertPosted db \<lparr>pt_AggregateID = ev_AggregateID evt, pt_AggregateType = ev_AggregateType evt,
                     pt_TransactionID = p_TransactionID posting, pt_EventName = ev_EventName evt,
                     pt_EventData = ev_EventData evt\<rparr> of
                Inr db' \<Rightarrow> Inr db'
              | Inl _ \<Rightarrow>
                  if \<not> (case outerErr of None \<Rightarrow> False | Some e \<Rightarrow> errors_is e ErrDuplicate)
                  then (case outerErr of None \<Rightarrow> Inr db | Some e \<Rightarrow> Inl e)
                  else andThen (findPostedTransaction db (ev_AggregateID evt) (ev_AggregateType evt) (p_TransactionID posting)) (\<lambda>existing.
                    case existing of
                      Some q \<Rightarrow> (if SameLedgerAccountPosting q posting then Inl ErrAlreadyApplied
                                 else Inl (Errorf ''existing ledger posting mismatch'' []))
                    | None \<Rightarrow> Inl (Errorf ''existing ledger posting mismatch'' [])))"

section \<open>The outbox\<close>

definition IsLedgerTransactionProjectionEvent :: "string \<Rightarrow> bool" where
  "IsLedgerTransactionProjectionEvent name \<longleftrightarrow> name \<in> set
     [EventNameLedgerAccountDepositFromIntent, EventNameLedgerAccountWithdrawFromIntent,
      EventNameLedgerAccountDepositFromRefund, EventNameLedgerAccountWithdrawFromRefund,
      EventNameLedgerAccountDepositFromChargeback, EventNameLedgerAccountWithdrawFromChargeback,
      EventNameLedgerAccountReserveWithdrawal, EventNameLedgerAccountReceiveWithdrawalHold,
      EventNameLedgerAccountReleaseWithdrawal, EventNameLedgerAccountWithdrawReleasedHold,
      EventNameLedgerAccountTransferredToAccount, EventNameLedgerAccountReceivedTransfer]"

definition ledgerProjectionOutboxEvent :: "LedgerEvent Event \<Rightarrow> LedgerEvent Event option" where
  "ledgerProjectionOutboxEvent evt = (if IsLedgerTransactionProjectionEvent (ev_EventName evt) then Some evt else None)"

definition outboxAppend :: "int \<Rightarrow> LedgerDB \<Rightarrow> LedgerEvent Event \<Rightarrow> LedgerDB" where
  "outboxAppend now db evt = db\<lparr>outboxT := outboxT db @
     [evt\<lparr>ev_ID := 0, ev_CreatedAt := (if 0 < ev_CreatedAt evt then ev_CreatedAt evt else now)\<rparr>]\<rparr>"

section \<open>The aggregate store\<close>

definition storeGet :: "LedgerDB \<Rightarrow> string \<Rightarrow> LedgerAccountAggregate \<Rightarrow> error + LedgerAccountAggregate" where
  "storeGet db aggID agg =
     (let agg1 = SetAggregateType agg ledgerType
      in case ReadSnapshot db aggID ledgerType agg1 of
           None \<Rightarrow> eventStoreGet db aggID ledgerType 0 agg1
         | Some agg2 \<Rightarrow> eventStoreGet db aggID ledgerType (BaseVersion agg2) agg2)"

fun reserveAll :: "LedgerDB \<Rightarrow> nat \<Rightarrow> nat \<Rightarrow> LedgerEvent Event list \<Rightarrow> error + LedgerDB" where
  "reserveAll db n idx [] = Inr db"
| "reserveAll db n idx (evt # evts) =
     (case ReservePostedTransaction db evt of
        Inl e \<Rightarrow>
          (if errors_is e ErrAlreadyApplied
           then (if n = 1 \<and> idx = 0 then Inl e else Inl (Errorf ''ledger idempotency collision on event #%d: %w'' [e]))
           else Inl (Errorf ''reserve ledger posting #%d failed: %w'' [e]))
      | Inr db' \<Rightarrow> reserveAll db' n (idx + 1) evts)"

fun appendAll :: "int \<Rightarrow> LedgerAccountAggregate \<Rightarrow> LedgerDB \<Rightarrow> LedgerEvent Event list \<Rightarrow> error + LedgerDB" where
  "appendAll now agg db [] = Inr db"
| "appendAll now agg db (evt # evts) =
     andThen (wrapErr (\<lambda>e. Errorf ''append ledger event #%d failed: %w'' [e]) (Append now db evt)) (\<lambda>db1.
       let db2 = (case ledgerProjectionOutboxEvent evt of None \<Rightarrow> db1 | Some pe \<Rightarrow> outboxAppend now db1 pe)
       in andThen (if ev_Version evt mod 100 = 0
                   then wrapErr (\<lambda>e. Errorf ''create ledger snapshot failed: %w'' [e]) (CreateSnapshot db2 agg)
                   else Inr db2)
                  (\<lambda>db3. appendAll now agg db3 evts))"

abbreviation ErrOptimisticLock :: error where
  "ErrOptimisticLock \<equiv> Errorf ''optimistic concurrency control failed id=%s expectedVersion=%d newVersion=%d'' []"

definition storeSave :: "int \<Rightarrow> LedgerDB \<Rightarrow> LedgerAccountAggregate \<Rightarrow> error + LedgerDB \<times> LedgerAccountAggregate" where
  "storeSave now db ag =
     (let agg = SetAggregateType ag ledgerType; evts = CloneEvents agg
      in if evts = [] then Inr (db, agg)
         else
           andThen (reserveAll (CreateIfNotExist db (aggregateID agg) ledgerType) (length evts) 0 evts) (\<lambda>db1.
             case CheckAndUpdateVersion db1 (aggregateID agg) ledgerType (BaseVersion agg) (Version agg) of
               (False, _) \<Rightarrow> Inl ErrOptimisticLock
             | (True, db2) \<Rightarrow> andThen (appendAll now agg db2 evts) (\<lambda>db3. Inr (db3, MarkPersisted agg))))"

section \<open>The account repository\<close>

text \<open>\<open>Inr None\<close> is the \<^verbatim>\<open>nil\<close> aggregate of an account that has no events.\<close>

definition Load :: "LedgerDB \<Rightarrow> string \<Rightarrow> error + LedgerAccountAggregate option" where
  "Load db accID =
     (let accountID = TrimSpace accID
      in if accountID = [] then Inl (Errorf ''account id is required'' [])
         else andThen (NewLedgerAccountAggregate accountID) (\<lambda>agg.
           case storeGet db accountID agg of
             Inl e \<Rightarrow> (if errors_is e ErrNotFound then Inr None else Inl e)
           | Inr a \<Rightarrow> Inr (Some a)))"

definition Save :: "int \<Rightarrow> LedgerDB \<Rightarrow> LedgerAccountAggregate \<Rightarrow> error + LedgerDB \<times> LedgerAccountAggregate" where
  "Save now db agg = storeSave now db agg"


section \<open>The history of an account\<close>

definition accountRows :: "LedgerDB \<Rightarrow> string \<Rightarrow> LedgerEvent Event list" where
  "accountRows db acc = filter (\<lambda>e. ev_AggregateID e = acc \<and> ev_AggregateType e = ledgerType) (eventsT db)"

definition freshAccount :: "string \<Rightarrow> LedgerAccountAggregate" where
  "freshAccount acc = emptyLedgerAccount\<lparr>aggregateType := ledgerType, aggregateID := acc\<rparr>"

definition snapshotOf :: "LedgerAccountAggregate \<Rightarrow> LedgerSnapshotModel" where
  "snapshotOf agg = \<lparr>sn_AggregateID = aggregateID agg, sn_AggregateType = aggregateType agg, sn_Version = Version agg,
     sn_AccountID = AccountID agg, sn_Balances = Balances agg, sn_PostedTransactions = PostedTransactions agg\<rparr>"

text \<open>
  \<open>consistent db acc\<close>: the account's rows carry the versions \<open>1, 2, \<dots>\<close> and registered names and
  replay to a well-formed account, the version counter is their number, and every snapshot of the
  account is the state after as many rows as its version says.
\<close>

definition consecutive :: "LedgerEvent Event list \<Rightarrow> bool" where
  "consecutive rows \<longleftrightarrow> (\<forall>i < length rows. ev_Version (rows ! i) = int i + 1)"

definition replays :: "string \<Rightarrow> LedgerEvent Event list \<Rightarrow> LedgerAccountAggregate \<Rightarrow> bool" where
  "replays acc rows a \<longleftrightarrow> LoadFromHistory Transition (freshAccount acc) rows = Inr a \<and> ledger_inv a"

definition consistent :: "LedgerDB \<Rightarrow> string \<Rightarrow> bool" where
  "consistent db acc \<longleftrightarrow> acc \<noteq> [] \<and> trimmed acc \<and>
     consecutive (accountRows db acc) \<and>
     (\<forall>e\<in>set (accountRows db acc). ev_EventName e \<in> set RegisteredLedgerEvents) \<and>
     (\<exists>a. replays acc (accountRows db acc) a) \<and>
     (aggregatesT db (acc, ledgerType) = Some (int (length (accountRows db acc))) \<or>
       aggregatesT db (acc, ledgerType) = None \<and> accountRows db acc = []) \<and>
     (\<forall>s\<in>set (snapshotsT db). sn_AggregateID s = acc \<and> sn_AggregateType s = ledgerType \<longrightarrow>
       (\<exists>v a. 0 < v \<and> v \<le> length (accountRows db acc) \<and> replays acc (take v (accountRows db acc)) a \<and> s = snapshotOf a \<and>
          sn_Version s = int v))"

lemma LoadFromHistory_append:
  "LoadFromHistory t a (xs @ ys) = andThen (LoadFromHistory t a xs) (\<lambda>b. LoadFromHistory t b ys)"
proof (induction xs arbitrary: a)
  case (Cons x xs)
  then show ?case by (cases "t a x") simp_all
qed simp

lemma LoadFromHistory_last:
  assumes "LoadFromHistory Transition a es = Inr b" "es \<noteq> []"
  shows "version b = ev_Version (last es)" "baseVersion b = ev_Version (last es)"
    "aggregateID b = ev_AggregateID (last es)" "aggregateType b = aggregateType a" "events b = events a"
proof -
  from assms show "events b = events a" using ledger.LoadFromHistory_fields by blast
  have "aggregateType b = aggregateType a" using assms(1)
    by (induction es arbitrary: a) (auto dest: ledger.transition_fields(2))
  then show "aggregateType b = aggregateType a" .
  from assms(2) obtain xs x where es: "es = xs @ [x]" by (cases es rule: rev_cases) auto
  with assms(1) show "version b = ev_Version (last es)" "baseVersion b = ev_Version (last es)"
    "aggregateID b = ev_AggregateID (last es)" by (auto simp: LoadFromHistory_append)
qed

lemma freshAccount_created: "acc \<noteq> [] \<Longrightarrow> trimmed acc \<Longrightarrow> NewLedgerAccountAggregate acc = Inr (freshAccount acc)"
  by (simp add: NewLedgerAccount_Inr trimmed_iff freshAccount_def)

lemma freshAccount_simps [simp]:
  "aggregateID (freshAccount acc) = acc" "aggregateType (freshAccount acc) = ledgerType" "events (freshAccount acc) = []"
  "version (freshAccount acc) = 0" "baseVersion (freshAccount acc) = 0" "Balances (freshAccount acc) = Map.empty"
  "PostedTransactions (freshAccount acc) = Map.empty" "AccountID (freshAccount acc) = []"
  by (simp_all add: freshAccount_def emptyLedgerAccount_def emptyRoot_def AggregateRoot.extend_def)

lemma consecutive_take: "consecutive rows \<Longrightarrow> consecutive (take v rows)"
  by (simp add: consecutive_def)

lemma consecutive_last: "consecutive rows \<Longrightarrow> rows \<noteq> [] \<Longrightarrow> ev_Version (last rows) = int (length rows)"
  by (cases rows rule: rev_cases) (auto simp: consecutive_def nth_append)

text \<open>What the replay of an account's rows looks like.\<close>

lemma replays_root:
  assumes "replays acc rows a" "consecutive rows" "\<forall>e\<in>set rows. ev_AggregateID e = acc"
  shows "aggregateID a = acc" "aggregateType a = ledgerType" "version a = int (length rows)"
    "baseVersion a = int (length rows)" "events a = []" "Version a = int (length rows)"
proof -
  have "aggregateID a = acc \<and> aggregateType a = ledgerType \<and> version a = int (length rows) \<and>
      baseVersion a = int (length rows) \<and> events a = []"
  proof (cases "rows = []")
    case False
    with assms show ?thesis
      using LoadFromHistory_last [of "freshAccount acc" rows a] consecutive_last [of rows] last_in_set [OF False]
      by (simp add: replays_def)
  qed (use assms in \<open>auto simp: replays_def\<close>)
  then show "aggregateID a = acc" "aggregateType a = ledgerType" "version a = int (length rows)"
    "baseVersion a = int (length rows)" "events a = []" "Version a = int (length rows)"
    by (simp_all add: Version_def)
qed

lemma replays_unique: "replays acc rows a \<Longrightarrow> replays acc rows b \<Longrightarrow> a = b"
  by (simp add: replays_def)

section \<open>Loading\<close>

lemma ledgerSerializer_registered:
  assumes "name \<in> set RegisteredLedgerEvents"
  shows "serializerType ledgerSerializer ledgerType name = Some name"
proof -
  have "[] \<notin> set RegisteredLedgerEvents" by (simp add: RegisteredLedgerEvents_def)
  then have "\<exists>s. registerEvents ledgerType Map.empty RegisteredLedgerEvents = Inr s"
    by (simp add: RegisteredLedgerEvents_def)
  then obtain s where s: "registerEvents ledgerType Map.empty RegisteredLedgerEvents = Inr s" by blast
  with registerEvents_lookup [OF s assms] show ?thesis
    by (simp add: ledgerSerializer_def RegisterAggregate_def serializerType_def)
qed

lemma toDomainEvents_registered:
  "\<forall>e\<in>set rows. ev_AggregateType e = ledgerType \<and> ev_EventName e \<in> set RegisteredLedgerEvents \<Longrightarrow>
     toDomainEvents rows = Inr rows"
  by (induction rows) (simp_all add: toDomainEvent_def ledgerSerializer_registered)

lemma consecutive_sort: "consecutive rows \<Longrightarrow> sort_key ev_Version rows = rows"
  by (rule sort_key_id_if_sorted) (auto simp: consecutive_def sorted_iff_nth_mono)

lemma consecutive_after:
  assumes "consecutive rows" "v \<le> length rows"
  shows "filter (\<lambda>e. int v < ev_Version e) rows = drop v rows"
proof -
  have "filter (\<lambda>e. int v < ev_Version e) (take v rows) = []"
    using assms by (auto simp: filter_empty_conv consecutive_def in_set_conv_nth)
  moreover have "filter (\<lambda>e. int v < ev_Version e) (drop v rows) = drop v rows"
    using assms by (auto simp: filter_id_conv consecutive_def in_set_conv_nth)
  ultimately show ?thesis by (metis append_Nil append_take_drop_id filter_append)
qed

lemma consecutive_drop_sort:
  "consecutive rows \<Longrightarrow> sort_key ev_Version (drop v rows) = drop v rows"
  by (rule sort_key_id_if_sorted) (auto simp: consecutive_def sorted_iff_nth_mono)

lemma accountRows_fields: "e \<in> set (accountRows db acc) \<Longrightarrow> ev_AggregateID e = acc \<and> ev_AggregateType e = ledgerType"
  by (simp add: accountRows_def)

lemma filter_after: "0 < v \<Longrightarrow> filter (\<lambda>e. ev_AggregateID e = acc \<and> ev_AggregateType e = ledgerType \<and>
    (0 < int v \<longrightarrow> int v < ev_Version e)) (eventsT db) = filter (\<lambda>e. int v < ev_Version e) (accountRows db acc)"
  by (simp add: accountRows_def conj_commute conj_left_commute)

text \<open>Reading the rest of the history after a prefix that has been replayed.\<close>

lemma eventStoreGet_after:
  assumes c: "consistent db acc" and v: "v \<le> length (accountRows db acc)" "0 < v"
    and b: "replays acc (take v (accountRows db acc)) b" and a: "replays acc (accountRows db acc) a"
  shows "eventStoreGet db acc ledgerType (int v) b = Inr a"
proof -
  let ?rows = "accountRows db acc"
  from c have cons: "consecutive ?rows" by (simp add: consistent_def)
  have rows: "sort_key ev_Version (filter (\<lambda>e. ev_AggregateID e = acc \<and> ev_AggregateType e = ledgerType \<and>
      (0 < int v \<longrightarrow> int v < ev_Version e)) (eventsT db)) = drop v ?rows"
    unfolding filter_after [OF v(2)] using cons v(1) by (simp add: consecutive_after consecutive_drop_sort)
  have "toDomainEvents (drop v ?rows) = Inr (drop v ?rows)"
    using c by (intro toDomainEvents_registered) (auto simp: consistent_def dest: in_set_dropD accountRows_fields)
  moreover have "LoadFromHistory Transition b (drop v ?rows) = Inr a"
    using a b LoadFromHistory_append [of Transition "freshAccount acc" "take v ?rows" "drop v ?rows"]
    by (simp add: replays_def)
  moreover have "drop v ?rows = [] \<Longrightarrow> b = a" using a b replays_unique by fastforce
  ultimately show ?thesis
    unfolding eventStoreGet_def rows Let_def using v(2) by auto
qed

lemma eventStoreGet_all:
  assumes "consistent db acc" "replays acc (accountRows db acc) a"
  shows "eventStoreGet db acc ledgerType 0 (freshAccount acc) =
    (if accountRows db acc = [] then Inl ErrNotFound else Inr a)"
proof -
  have rows: "sort_key ev_Version (filter (\<lambda>e. ev_AggregateID e = acc \<and> ev_AggregateType e = ledgerType \<and>
      ((0 :: int) < 0 \<longrightarrow> 0 < ev_Version e)) (eventsT db)) = accountRows db acc"
    using consecutive_sort [of "accountRows db acc"] assms(1) [unfolded consistent_def] by (simp add: accountRows_def)
  have "toDomainEvents (accountRows db acc) = Inr (accountRows db acc)"
    using assms(1) by (intro toDomainEvents_registered) (auto simp: consistent_def dest: accountRows_fields)
  with assms(2) show ?thesis
    unfolding eventStoreGet_def rows Let_def by (simp add: replays_def)
qed

text \<open>A snapshot read into a fresh account is the account replayed to the snapshot's version.\<close>

lemma ReadSnapshot_replays:
  assumes c: "consistent db acc" and r: "ReadSnapshot db acc ledgerType (freshAccount acc) = Some b"
  shows "\<exists>v. 0 < v \<and> v \<le> length (accountRows db acc) \<and> replays acc (take v (accountRows db acc)) b \<and> baseVersion b = int v"
proof -
  let ?mine = "filter (\<lambda>s. sn_AggregateID s = acc \<and> sn_AggregateType s = ledgerType) (snapshotsT db)"
  from r obtain s ss where ss: "sort_key (\<lambda>s. - sn_Version s) ?mine = s # ss"
    by (auto simp: ReadSnapshot_def split: list.splits)
  have "s \<in> set (sort_key (\<lambda>s. - sn_Version s) ?mine)" unfolding ss by simp
  then have "s \<in> set ?mine" unfolding set_sort .
  with c obtain v a where va: "0 < v" "v \<le> length (accountRows db acc)" "replays acc (take v (accountRows db acc)) a"
    "s = snapshotOf a" "sn_Version s = int v" by (auto simp: consistent_def)
  have root: "aggregateID a = acc" "aggregateType a = ledgerType" "version a = int v" "baseVersion a = int v" "events a = []"
    using replays_root [OF va(3) consecutive_take] va(2) c
    by (auto simp: consistent_def dest!: in_set_takeD dest: accountRows_fields)
  have "b = SetInternal ((freshAccount acc)\<lparr>AccountID := sn_AccountID s, Balances := sn_Balances s,
      PostedTransactions := sn_PostedTransactions s\<rparr>) acc (sn_Version s) (sn_Version s)"
    using r ss by (simp add: ReadSnapshot_def)
  also have "\<dots> = a" using root va(4,5)
    by (cases a) (simp add: SetInternal_def snapshotOf_def freshAccount_def emptyLedgerAccount_def emptyRoot_def
        AggregateRoot.extend_def)
  finally show ?thesis using va root by blast
qed

lemma storeGet_eq:
  assumes c: "consistent db acc" and a: "replays acc (accountRows db acc) a"
  shows "storeGet db acc (freshAccount acc) = (if accountRows db acc = [] then Inl ErrNotFound else Inr a)"
proof -
  have t: "SetAggregateType (freshAccount acc) ledgerType = freshAccount acc"
    by (simp add: SetAggregateType_def freshAccount_def)
  show ?thesis
  proof (cases "ReadSnapshot db acc ledgerType (freshAccount acc)")
    case None
    with c a show ?thesis by (simp add: storeGet_def t eventStoreGet_all)
  next
    case (Some b)
    with ReadSnapshot_replays [OF c Some] eventStoreGet_after [OF c] a show ?thesis
      by (auto simp: storeGet_def t BaseVersion_def)
  qed
qed

lemma Load_eq:
  assumes c: "consistent db acc" and a: "replays acc (accountRows db acc) a"
  shows "Load db acc = Inr (if accountRows db acc = [] then None else Some a)"
  using c freshAccount_created [of acc] storeGet_eq [OF c a]
  by (simp add: Load_def Let_def consistent_def trimmed_iff)


section \<open>Saving\<close>

text \<open>Pending events of a run are of the account's type, named and convertible to postings.\<close>

definition pending_rows_ok :: "LedgerAccountAggregate \<Rightarrow> bool" where
  "pending_rows_ok a \<longleftrightarrow> (\<forall>e\<in>set (events a). ev_AggregateType e = aggregateType a \<and>
     ev_EventName e \<in> set RegisteredLedgerEvents \<and>
     (\<exists>p. previewLedgerPostingFromEvent (ev_AggregateID e) (ev_EventData e) = Inr (Some p)))"

lemma registered_name: "previewLedgerPostingFromEvent acc d = Inr (Some p) \<Longrightarrow> ledgerEventName d \<in> set RegisteredLedgerEvents"
  by (cases d) (simp_all add: RegisteredLedgerEvents_def previewLedgerPostingFromEvent_def)

lemma aggregateType_postTo [simp]: "aggregateType (postTo a d p) = aggregateType a" "baseVersion (postTo a d p) = baseVersion a"
  by (simp_all add: postTo_def)

lemma runOp_pending_rows:
  assumes "ledger_inv a" "pending_rows_ok a"
  shows "pending_rows_ok (snd (runOp a op)) \<and> aggregateType (snd (runOp a op)) = aggregateType a \<and>
    baseVersion (snd (runOp a op)) = baseVersion a \<and> aggregateID (snd (runOp a op)) = aggregateID a \<and>
    length (events (snd (runOp a op))) \<le> Suc (length (events a))"
  using assms(1) prod.collapse [of "runOp a op", symmetric]
proof (rule runOp_cases)
  fix p d
  assume "previewLedgerPostingFromEvent (aggregateID a) d = Inr (Some p)" "snd (runOp a op) = postTo a d p"
  with assms(2) show ?thesis
    by (auto simp: pending_rows_ok_def newEvent_def registered_name)
qed (use assms in simp)

lemma runOps_pending_rows:
  assumes "ledger_inv a" "pending_rows_ok a"
  shows "pending_rows_ok (runOps a ops) \<and> aggregateType (runOps a ops) = aggregateType a \<and>
    baseVersion (runOps a ops) = baseVersion a \<and> aggregateID (runOps a ops) = aggregateID a \<and>
    length (events (runOps a ops)) \<le> length (events a) + length ops"
  using assms
proof (induction ops arbitrary: a)
  case (Cons op ops)
  note step = runOp_pending_rows [OF Cons.prems, of op]
  have "ledger_inv (snd (runOp a op))" using runOp_inv [OF Cons.prems(1) prod.collapse [of "runOp a op", symmetric]] .
  with Cons.IH [of "snd (runOp a op)"] step show ?case by (auto simp: runOps_Cons)
qed (simp add: runOps_def)

definition stamp :: "int \<Rightarrow> LedgerEvent Event \<Rightarrow> LedgerEvent Event" where
  "stamp now evt = evt\<lparr>ev_ID := 0, ev_CreatedAt := (if 0 < ev_CreatedAt evt then ev_CreatedAt evt else now)\<rparr>"

lemma stamp_simps [simp]: "ev_AggregateID (stamp now e) = ev_AggregateID e" "ev_AggregateType (stamp now e) = ev_AggregateType e"
  "ev_Version (stamp now e) = ev_Version e" "ev_EventName (stamp now e) = ev_EventName e" "ev_EventData (stamp now e) = ev_EventData e"
  by (simp_all add: stamp_def)

lemma Transition_stamp: "Transition a (stamp now e) = Transition a e"
  unfolding Transition_def stamp_simps ..

lemma LoadFromHistory_stamp: "LoadFromHistory Transition a (map (stamp now) es) = LoadFromHistory Transition a es"
  by (induction es arbitrary: a) (simp_all add: Transition_stamp)

lemma ReservePosted_ok:
  assumes "previewLedgerPostingFromEvent (ev_AggregateID e) (ev_EventData e) = Inr (Some p)"
  shows "\<exists>rows. ReservePostedTransaction db e = Inr (db\<lparr>postedT := rows\<rparr>)"
proof (cases "insertPosted db \<lparr>pt_AggregateID = ev_AggregateID e, pt_AggregateType = ev_AggregateType e,
    pt_TransactionID = p_TransactionID p, pt_EventName = ev_EventName e, pt_EventData = ev_EventData e\<rparr>")
  case (Inl x)
  then have "ReservePostedTransaction db e = Inr (db\<lparr>postedT := postedT db\<rparr>)"
    using assms by (simp add: ReservePostedTransaction_def NewLedgerAccountPostingFromEvent_def)
  then show ?thesis by blast
next
  case (Inr db')
  then have "\<exists>rows. db' = db\<lparr>postedT := rows\<rparr>" by (auto simp: insertPosted_def split: if_splits)
  with Inr assms show ?thesis
    by (simp add: ReservePostedTransaction_def NewLedgerAccountPostingFromEvent_def del: andThen_eq_Inr)
qed

lemma reserveAll_ok:
  "\<forall>e\<in>set evts. \<exists>p. previewLedgerPostingFromEvent (ev_AggregateID e) (ev_EventData e) = Inr (Some p) \<Longrightarrow>
     \<exists>rows. reserveAll db n idx evts = Inr (db\<lparr>postedT := rows\<rparr>)"
proof (induction evts arbitrary: db idx)
  case Nil
  show ?case by (rule exI [of _ "postedT db"]) simp
next
  case (Cons e evts)
  then obtain p where "previewLedgerPostingFromEvent (ev_AggregateID e) (ev_EventData e) = Inr (Some p)" by auto
  from ReservePosted_ok [OF this, of db] obtain rows where r: "ReservePostedTransaction db e = Inr (db\<lparr>postedT := rows\<rparr>)" by blast
  from Cons.IH [of "db\<lparr>postedT := rows\<rparr>" "idx + 1"] Cons.prems r show ?case by simp
qed

text \<open>The outbox gets the projected events, the snapshot table at most one row.\<close>

definition snapshotDue :: "LedgerEvent Event \<Rightarrow> bool" where
  "snapshotDue e \<longleftrightarrow> ev_Version e mod 100 = 0"

lemma outboxAppend_stamp: "outboxAppend now db e = db\<lparr>outboxT := outboxT db @ [stamp now e]\<rparr>"
  by (simp add: outboxAppend_def stamp_def)

lemma CreateSnapshot_new:
  "\<forall>s\<in>set (snapshotsT db). \<not> (sn_AggregateID s = aggregateID agg \<and> sn_AggregateType s = aggregateType agg \<and> sn_Version s = Version agg)
    \<Longrightarrow> CreateSnapshot db agg = Inr (db\<lparr>snapshotsT := snapshotsT db @ [snapshotOf agg]\<rparr>)"
  by (auto simp: CreateSnapshot_def snapshotOf_def)

lemma appendAll_plain:
  assumes "sorted_wrt (\<lambda>e f. ev_Version e \<noteq> ev_Version f) evts" "\<not> (\<exists>e\<in>set evts. snapshotDue e)"
    and "\<forall>e\<in>set evts. ev_AggregateID e = acc \<and> ev_AggregateType e = ledgerType"
    and "\<forall>e\<in>set evts. \<forall>r\<in>set (eventsT db). \<not> (ev_AggregateID r = acc \<and> ev_AggregateType r = ledgerType \<and> ev_Version r = ev_Version e)"
  shows "\<exists>out. appendAll now agg db evts = Inr (db\<lparr>eventsT := eventsT db @ map (stamp now) evts, outboxT := out\<rparr>)"
  using assms
proof (induction evts arbitrary: db)
  case Nil
  show ?case by (rule exI [of _ "outboxT db"]) simp
next
  case (Cons e evts)
  define db1 where "db1 = db\<lparr>eventsT := eventsT db @ [stamp now e],
    outboxT := (case ledgerProjectionOutboxEvent e of None \<Rightarrow> outboxT db | Some pe \<Rightarrow> outboxT db @ [stamp now pe])\<rparr>"
  have app: "Append now db e = Inr (db\<lparr>eventsT := eventsT db @ [stamp now e]\<rparr>)"
    using Cons.prems(3,4) by (auto simp: Append_def stamp_def)
  have step: "appendAll now agg db (e # evts) = appendAll now agg db1 evts"
    using app Cons.prems(2)
    by (auto simp: db1_def snapshotDue_def outboxAppend_stamp Let_def split: option.splits)
  have "\<exists>out. appendAll now agg db1 evts = Inr (db1\<lparr>eventsT := eventsT db1 @ map (stamp now) evts, outboxT := out\<rparr>)"
    using Cons.prems by (intro Cons.IH) (auto simp: db1_def)
  with step show ?case by (auto simp: db1_def)
qed

lemma appendAll_ok:
  assumes "sorted_wrt (\<lambda>e f. ev_Version e \<noteq> ev_Version f \<and> \<not> (snapshotDue e \<and> snapshotDue f)) evts"
    and "\<forall>e\<in>set evts. ev_AggregateID e = acc \<and> ev_AggregateType e = ledgerType"
    and "\<forall>e\<in>set evts. \<forall>r\<in>set (eventsT db). \<not> (ev_AggregateID r = acc \<and> ev_AggregateType r = ledgerType \<and> ev_Version r = ev_Version e)"
    and "\<forall>s\<in>set (snapshotsT db). \<not> (sn_AggregateID s = aggregateID agg \<and> sn_AggregateType s = aggregateType agg \<and> sn_Version s = Version agg)"
  shows "\<exists>out. appendAll now agg db evts = Inr (db\<lparr>eventsT := eventsT db @ map (stamp now) evts,
      snapshotsT := snapshotsT db @ (if \<exists>e\<in>set evts. snapshotDue e then [snapshotOf agg] else []), outboxT := out\<rparr>)"
  using assms
proof (induction evts arbitrary: db)
  case Nil
  show ?case by (rule exI [of _ "outboxT db"]) simp
next
  case (Cons e evts)
  define db1 where "db1 = db\<lparr>eventsT := eventsT db @ [stamp now e],
    snapshotsT := snapshotsT db @ (if snapshotDue e then [snapshotOf agg] else []),
    outboxT := (case ledgerProjectionOutboxEvent e of None \<Rightarrow> outboxT db | Some pe \<Rightarrow> outboxT db @ [stamp now pe])\<rparr>"
  have app: "Append now db e = Inr (db\<lparr>eventsT := eventsT db @ [stamp now e]\<rparr>)"
    using Cons.prems(2,3) by (auto simp: Append_def stamp_def)
  have step: "appendAll now agg db (e # evts) = appendAll now agg db1 evts"
    using app CreateSnapshot_new [of _ agg] Cons.prems(4)
    by (cases db; auto simp: db1_def snapshotDue_def outboxAppend_stamp Let_def split: option.splits)
  show ?case
  proof (cases "snapshotDue e")
    case False
    have "\<exists>out. appendAll now agg db1 evts = Inr (db1\<lparr>eventsT := eventsT db1 @ map (stamp now) evts,
      snapshotsT := snapshotsT db1 @ (if \<exists>e\<in>set evts. snapshotDue e then [snapshotOf agg] else []), outboxT := out\<rparr>)"
      using Cons.prems False by (intro Cons.IH) (auto simp: db1_def)
    with step False show ?thesis by (auto simp: db1_def)
  next
    case True
    with Cons.prems(1) have none: "\<not> (\<exists>e\<in>set evts. snapshotDue e)" by auto
    have "\<exists>out. appendAll now agg db1 evts = Inr (db1\<lparr>eventsT := eventsT db1 @ map (stamp now) evts, outboxT := out\<rparr>)"
      using none Cons.prems
      by (intro appendAll_plain [where acc = acc]) (auto simp: db1_def elim!: sorted_wrt_mono_rel [rotated])
    then obtain out where out: "appendAll now agg db1 evts = Inr (db1\<lparr>eventsT := eventsT db1 @ map (stamp now) evts, outboxT := out\<rparr>)"
      by blast
    have "db1\<lparr>eventsT := eventsT db1 @ map (stamp now) evts, outboxT := out\<rparr> = db\<lparr>eventsT := eventsT db @ map (stamp now) (e # evts),
      snapshotsT := snapshotsT db @ (if \<exists>e\<in>set (e # evts). snapshotDue e then [snapshotOf agg] else []), outboxT := out\<rparr>"
      using True by (cases db) (simp add: db1_def)
    then show ?thesis unfolding step out by (intro exI [of _ out]) simp
  qed
qed


text \<open>\<open>loaded db acc a\<close>: what a command works on, the loaded account or a new one.\<close>

definition loaded :: "LedgerDB \<Rightarrow> string \<Rightarrow> LedgerAccountAggregate \<Rightarrow> bool" where
  "loaded db acc a \<longleftrightarrow> Load db acc = Inr (Some a) \<or> Load db acc = Inr None \<and> NewLedgerAccountAggregate acc = Inr a"

lemma loaded_replays:
  assumes c: "consistent db acc" and l: "loaded db acc a"
  shows "replays acc (accountRows db acc) a"
proof -
  from c obtain b where b: "replays acc (accountRows db acc) b" by (auto simp: consistent_def)
  have "a = b"
  proof (cases "accountRows db acc = []")
    case True
    with l Load_eq [OF c b] have "NewLedgerAccountAggregate acc = Inr a" by (simp add: loaded_def)
    with c b True freshAccount_created [of acc] show ?thesis by (simp add: consistent_def replays_def)
  next
    case False
    with l Load_eq [OF c b] show ?thesis by (simp add: loaded_def)
  qed
  with b show ?thesis by simp
qed

text \<open>The pending events of a run of at most 100 operations on a loaded account.\<close>

lemma pending_sorted:
  assumes "pending_ok b" "length (events b) \<le> 100"
  shows "sorted_wrt (\<lambda>e f. ev_Version e \<noteq> ev_Version f \<and> \<not> (snapshotDue e \<and> snapshotDue f)) (events b)"
proof -
  have "ev_Version (events b ! i) \<noteq> ev_Version (events b ! j) \<and> \<not> (snapshotDue (events b ! i) \<and> snapshotDue (events b ! j))"
    if "i < j" "j < length (events b)" for i j
  proof -
    from assms(1) that have v: "ev_Version (events b ! i) = version b + 1 + int i" "ev_Version (events b ! j) = version b + 1 + int j"
      by (auto simp: pending_ok_def)
    have "\<not> (snapshotDue (events b ! i) \<and> snapshotDue (events b ! j))"
    proof
      assume "snapshotDue (events b ! i) \<and> snapshotDue (events b ! j)"
      then have "100 dvd ev_Version (events b ! j) - ev_Version (events b ! i)"
        unfolding snapshotDue_def by (simp add: dvd_eq_mod_eq_0 [symmetric])
      then have "100 dvd int j - int i" by (simp add: v)
      moreover have "0 < int j - int i" "int j - int i < 100" using that assms(2) by auto
      ultimately show False using zdvd_not_zless by blast
    qed
    with v that show ?thesis by simp
  qed
  then show ?thesis by (simp add: sorted_wrt_iff_nth_less)
qed

lemma MarkPersisted_fields:
  "events b \<noteq> [] \<Longrightarrow> MarkPersisted b = b\<lparr>version := Version b, baseVersion := Version b, events := []\<rparr>"
  by (simp add: MarkPersisted_def Version_def)

lemma aggregate_eqI:
  fixes a b :: LedgerAccountAggregate
  assumes "aggregateID a = aggregateID b" "aggregateType a = aggregateType b" "version a = version b"
    "baseVersion a = baseVersion b" "events a = events b" "AggregateRoot.more a = AggregateRoot.more b"
  shows "a = b"
  using assms by (cases a; cases b) simp

text \<open>Replaying the stored rows of a run after the rows before it gives the saved account.\<close>

lemma replays_run:
  assumes r: "replays acc rows a" "consecutive rows" "\<forall>e\<in>set rows. ev_AggregateID e = acc"
    and b: "b = runOps a ops" "events b \<noteq> []"
  shows "replays acc (rows @ map (stamp now) (events b)) (MarkPersisted b)"
proof -
  note root = replays_root [OF r]
  from r(1) have inv: "ledger_inv a" by (simp add: replays_def)
  from runOps_evolves [OF inv evolves_refl, of ops] b
  have ev: "evolves ledgerEventName Transition a b" and invb: "ledger_inv b" by simp_all
  have pr: "aggregateType b = ledgerType" "aggregateID b = acc" "\<forall>e\<in>set (events b). ev_AggregateID e = acc"
    using runOps_pending_rows [OF inv, of ops] root b invb
    by (auto simp: pending_rows_ok_def ledger_inv_def pending_ok_def in_set_conv_nth)
  from ledger.replay [OF ev root(5) refl] b(2) obtain b' where b':
    "LoadFromHistory Transition a (events b) = Inr b'" "AggregateRoot.more b' = AggregateRoot.more b"
    "version b' = Version b" "baseVersion b' = Version b" by blast
  have "b' = MarkPersisted b"
    using LoadFromHistory_last [OF b'(1) b(2)] b' pr root last_in_set [OF b(2)]
    by (intro aggregate_eqI) (simp_all add: MarkPersisted_fields [OF b(2)])
  with b' r(1) saved_inv [OF invb] show ?thesis
    by (simp add: replays_def LoadFromHistory_append LoadFromHistory_stamp)
qed

lemma pending_events_owner:
  assumes "ledger_inv b" "pending_rows_ok b" "aggregateType b = ledgerType"
  shows "\<forall>e\<in>set (events b). ev_AggregateID e = aggregateID b \<and> ev_AggregateType e = ledgerType"
  using assms by (auto simp: ledger_inv_def pending_ok_def pending_rows_ok_def in_set_conv_nth)

text \<open>The database after a run has been saved.\<close>

definition savedDB :: "int \<Rightarrow> LedgerDB \<Rightarrow> LedgerAccountAggregate \<Rightarrow> LedgerPostedTransactionModel list \<Rightarrow> LedgerEvent Event list \<Rightarrow> LedgerDB" where
  "savedDB now db b posted out = db\<lparr>
     aggregatesT := (aggregatesT db)((aggregateID b, ledgerType) \<mapsto> Version b),
     eventsT := eventsT db @ map (stamp now) (events b), postedT := posted,
     snapshotsT := snapshotsT db @ (if \<exists>e\<in>set (events b). snapshotDue e then [snapshotOf b] else []), outboxT := out\<rparr>"

lemma run_facts:
  assumes c: "consistent db acc" and l: "loaded db acc a" and b: "b = runOps a ops" "events b \<noteq> []"
  shows "ledger_inv b" "pending_rows_ok b" "aggregateID b = acc" "aggregateType b = ledgerType"
    "baseVersion b = int (length (accountRows db acc))" "version b = int (length (accountRows db acc))"
    "Version b = int (length (accountRows db acc) + length (events b))" "length (events b) \<le> length ops"
    "replays acc (accountRows db acc @ map (stamp now) (events b)) (MarkPersisted b)"
proof -
  note r = loaded_replays [OF c l]
  have cons: "consecutive (accountRows db acc)" "\<forall>e\<in>set (accountRows db acc). ev_AggregateID e = acc"
    using c by (simp_all add: consistent_def accountRows_fields)
  note root = replays_root [OF r cons]
  from r have inv: "ledger_inv a" by (simp add: replays_def)
  from runOps_evolves [OF inv evolves_refl, of ops] b show invb: "ledger_inv b" by simp
  from root have "pending_rows_ok a" by (simp add: pending_rows_ok_def)
  from runOps_pending_rows [OF inv this, of ops] b root
  show "pending_rows_ok b" "aggregateID b = acc" "aggregateType b = ledgerType" "length (events b) \<le> length ops"
    "baseVersion b = int (length (accountRows db acc))" by auto
  have "version b = version a"
    using ledger.evolves_version runOps_evolves [OF inv evolves_refl, of ops] b by blast
  with root show v: "version b = int (length (accountRows db acc))" by simp
  from invb pending_ok_Version [of b] v show "Version b = int (length (accountRows db acc) + length (events b))"
    by (simp add: ledger_inv_def)
  show "replays acc (accountRows db acc @ map (stamp now) (events b)) (MarkPersisted b)"
    using r cons b by (rule replays_run)
qed

lemma Save_ok:
  assumes c: "consistent db acc" and l: "loaded db acc a" and b: "b = runOps a ops" "events b \<noteq> []" "length ops \<le> 100"
  shows "\<exists>posted out. Save now db b = Inr (savedDB now db b posted out, MarkPersisted b)"
proof -
  note f = run_facts [OF c l b(1,2)]
  let ?rows = "accountRows db acc"
  let ?db0 = "CreateIfNotExist db acc ledgerType"
  have t: "SetAggregateType b ledgerType = b" using f(4) by (cases b) (simp add: SetAggregateType_def)
  obtain posted where res: "reserveAll ?db0 (length (events b)) 0 (events b) = Inr (?db0\<lparr>postedT := posted\<rparr>)"
    using reserveAll_ok [of "events b" ?db0 "length (events b)" 0] f(2) by (auto simp: pending_rows_ok_def)
  let ?db1 = "?db0\<lparr>postedT := posted\<rparr>"
  let ?db2 = "?db1\<lparr>aggregatesT := (aggregatesT ?db1)((acc, ledgerType) \<mapsto> Version b)\<rparr>"
  have chk: "CheckAndUpdateVersion ?db1 acc ledgerType (baseVersion b) (Version b) = (True, ?db2)"
    using c f(5) by (auto simp: CheckAndUpdateVersion_def CreateIfNotExist_def consistent_def split: option.splits)
  have ver: "int (length ?rows) < ev_Version e \<and> ev_AggregateID e = acc \<and> ev_AggregateType e = ledgerType" if "e \<in> set (events b)" for e
    using that f(1-4,6) by (auto simp: ledger_inv_def pending_ok_def pending_rows_ok_def in_set_conv_nth)
  have old: "ev_Version r \<le> int (length ?rows)" if "r \<in> set (eventsT db)" "ev_AggregateID r = acc" "ev_AggregateType r = ledgerType" for r
  proof -
    from that have "r \<in> set ?rows" by (simp add: accountRows_def)
    with c show ?thesis by (auto simp: consistent_def consecutive_def in_set_conv_nth)
  qed
  have "\<exists>out. appendAll now b ?db2 (events b) = Inr (?db2\<lparr>eventsT := eventsT ?db2 @ map (stamp now) (events b),
      snapshotsT := snapshotsT ?db2 @ (if \<exists>e\<in>set (events b). snapshotDue e then [snapshotOf b] else []), outboxT := out\<rparr>)"
  proof (rule appendAll_ok)
    show "sorted_wrt (\<lambda>e f. ev_Version e \<noteq> ev_Version f \<and> \<not> (snapshotDue e \<and> snapshotDue f)) (events b)"
      using f(1,8) b(3) by (intro pending_sorted) (simp_all add: ledger_inv_def)
    show "\<forall>e\<in>set (events b). ev_AggregateID e = acc \<and> ev_AggregateType e = ledgerType" using ver by simp
    show "\<forall>e\<in>set (events b). \<forall>r\<in>set (eventsT ?db2). \<not> (ev_AggregateID r = acc \<and> ev_AggregateType r = ledgerType \<and> ev_Version r = ev_Version e)"
      using ver old by (fastforce simp: CreateIfNotExist_def split: option.splits)
    have "sn_Version s < Version b" if s: "s \<in> set (snapshotsT db)" "sn_AggregateID s = acc" "sn_AggregateType s = ledgerType" for s
    proof -
      from c s obtain v where "v \<le> length (accountRows db acc)" "sn_Version s = int v" by (auto simp: consistent_def)
      moreover from b(2) have "0 < length (events b)" by simp
      ultimately show ?thesis using f(7) by linarith
    qed
    then show "\<forall>s\<in>set (snapshotsT ?db2). \<not> (sn_AggregateID s = aggregateID b \<and> sn_AggregateType s = aggregateType b \<and> sn_Version s = Version b)"
      using f(3,4) by (fastforce simp: CreateIfNotExist_def split: option.splits)
  qed
  then obtain out where app: "appendAll now b ?db2 (events b) = Inr (?db2\<lparr>eventsT := eventsT ?db2 @ map (stamp now) (events b),
      snapshotsT := snapshotsT ?db2 @ (if \<exists>e\<in>set (events b). snapshotDue e then [snapshotOf b] else []), outboxT := out\<rparr>)" by blast
  have "?db2\<lparr>eventsT := eventsT ?db2 @ map (stamp now) (events b),
      snapshotsT := snapshotsT ?db2 @ (if \<exists>e\<in>set (events b). snapshotDue e then [snapshotOf b] else []), outboxT := out\<rparr> =
      savedDB now db b posted out"
    using f(3) by (cases db) (simp add: savedDB_def CreateIfNotExist_def split: option.splits)
  with app have app': "appendAll now b ?db2 (events b) = Inr (savedDB now db b posted out)" by simp
  have "Save now db b = Inr (savedDB now db b posted out, MarkPersisted b)"
    unfolding Save_def storeSave_def Let_def t CloneEvents_def BaseVersion_def f(3)
    using b(2) res chk app' by simp
  then show ?thesis by blast
qed

lemma accountRows_saved:
  assumes "\<forall>e\<in>set (events b). ev_AggregateID e = aggregateID b \<and> ev_AggregateType e = ledgerType"
  shows "accountRows (savedDB now db b posted out) acc =
    accountRows db acc @ (if acc = aggregateID b then map (stamp now) (events b) else [])"
proof -
  have "filter (\<lambda>e. ev_AggregateID e = acc \<and> ev_AggregateType e = ledgerType) (map (stamp now) (events b)) =
      (if acc = aggregateID b then map (stamp now) (events b) else [])"
    using assms by (auto simp: filter_empty_conv filter_id_conv)
  then show ?thesis by (simp add: accountRows_def savedDB_def)
qed

lemma consecutive_pending:
  assumes "consecutive rows" "pending_ok b" "version b = int (length rows)"
  shows "consecutive (rows @ map (stamp now) (events b))"
  using assms by (auto simp: consecutive_def pending_ok_def nth_append)

lemma Save_consistent_own:
  assumes c: "consistent db acc" and l: "loaded db acc a" and b: "b = runOps a ops" "events b \<noteq> []"
  shows "consistent (savedDB now db b posted out) acc"
proof -
  note f = run_facts [OF c l b]
  let ?db = "savedDB now db b posted out"
  from accountRows_saved [OF pending_events_owner [OF f(1,2,4)]] f(3)
  have rows: "accountRows ?db acc = accountRows db acc @ map (stamp now) (events b)" by simp
  have "consecutive (accountRows ?db acc)"
    unfolding rows using c f(1,6) by (intro consecutive_pending) (simp_all add: consistent_def ledger_inv_def)
  moreover have "\<forall>e\<in>set (accountRows ?db acc). ev_EventName e \<in> set RegisteredLedgerEvents"
    unfolding rows using c f(2) by (auto simp: consistent_def pending_rows_ok_def)
  moreover have all: "replays acc (accountRows ?db acc) (MarkPersisted b)" unfolding rows by (rule f(9))
  moreover have "aggregatesT ?db (acc, ledgerType) = Some (int (length (accountRows ?db acc)))"
    unfolding rows using f(3,7) by (simp add: savedDB_def)
  moreover have "\<exists>v a. 0 < v \<and> v \<le> length (accountRows ?db acc) \<and> replays acc (take v (accountRows ?db acc)) a \<and> s = snapshotOf a \<and> sn_Version s = int v"
    if s: "s \<in> set (snapshotsT ?db)" "sn_AggregateID s = acc" "sn_AggregateType s = ledgerType" for s
  proof (cases "s \<in> set (snapshotsT db)")
    case True
    with c s obtain v a where "0 < v" "v \<le> length (accountRows db acc)" "replays acc (take v (accountRows db acc)) a"
      "s = snapshotOf a" "sn_Version s = int v" by (auto simp: consistent_def)
    then show ?thesis by (intro exI [of _ v] exI [of _ a]) (simp add: rows)
  next
    case False
    with s have "s = snapshotOf b" by (auto simp: savedDB_def split: if_splits)
    also have "\<dots> = snapshotOf (MarkPersisted b)"
      using b(2) by (simp add: snapshotOf_def MarkPersisted_def Version_def)
    finally have "s = snapshotOf (MarkPersisted b)" .
    moreover have "sn_Version (snapshotOf (MarkPersisted b)) = int (length (accountRows ?db acc))"
      using f(7) by (simp add: snapshotOf_def rows) (simp add: Version_def MarkPersisted_def b(2))
    ultimately show ?thesis using all b(2)
      by (intro exI [of _ "length (accountRows ?db acc)"] exI [of _ "MarkPersisted b"]) (simp add: rows)
  qed
  ultimately show ?thesis using c unfolding consistent_def by blast
qed

lemma Save_consistent_other:
  assumes "consistent db other" "aggregateID b \<noteq> other"
    and "\<forall>e\<in>set (events b). ev_AggregateID e = aggregateID b \<and> ev_AggregateType e = ledgerType"
  shows "consistent (savedDB now db b posted out) other"
proof -
  have rows: "accountRows (savedDB now db b posted out) other = accountRows db other"
    using accountRows_saved [OF assms(3), of now db posted out other] assms(2) by simp
  have "sn_AggregateID (snapshotOf b) \<noteq> other" using assms(2) by (simp add: snapshotOf_def)
  with assms(1,2) show ?thesis
    unfolding consistent_def rows by (auto simp: savedDB_def split: if_splits)
qed

text \<open>The databases the program can reach: runs of up to 100 operations on loaded accounts are saved.\<close>

inductive db_reachable :: "LedgerDB \<Rightarrow> bool" where
  db_empty: "db_reachable emptyDB"
| db_saved: "db_reachable db \<Longrightarrow> acc \<noteq> [] \<Longrightarrow> trimmed acc \<Longrightarrow> loaded db acc a \<Longrightarrow> length ops \<le> 100 \<Longrightarrow>
    Save now db (runOps a ops) = Inr (db', b) \<Longrightarrow> db_reachable db'"

lemma Save_nothing: "events b = [] \<Longrightarrow> Save now db b = Inr (db, SetAggregateType b ledgerType)"
  by (simp add: Save_def storeSave_def CloneEvents_def SetAggregateType_def Let_def)

lemma emptyDB_consistent: "acc \<noteq> [] \<Longrightarrow> trimmed acc \<Longrightarrow> consistent emptyDB acc"
  using created_inv [OF freshAccount_created]
  by (simp add: consistent_def emptyDB_def accountRows_def consecutive_def replays_def)

lemma reachable_consistent: "db_reachable db \<Longrightarrow> acc \<noteq> [] \<Longrightarrow> trimmed acc \<Longrightarrow> consistent db acc"
proof (induction arbitrary: acc rule: db_reachable.induct)
  case db_empty
  then show ?case by (rule emptyDB_consistent)
next
  case (db_saved db acc' a ops now db' b)
  let ?b = "runOps a ops"
  from db_saved have c: "consistent db acc'" by simp
  show ?case
  proof (cases "events ?b = []")
    case True
    with db_saved show ?thesis by (auto simp: Save_nothing)
  next
    case False
    from Save_ok [OF c db_saved(4) refl False db_saved(5), of now] db_saved(6)
    obtain posted out where db': "db' = savedDB now db ?b posted out" by auto
    note f = run_facts [OF c db_saved(4) refl False]
    show ?thesis
    proof (cases "acc = acc'")
      case True
      with db' Save_consistent_own [OF c db_saved(4) refl False] show ?thesis by simp
    next
      case other: False
      from pending_events_owner [OF f(1,2,4)] db' other db_saved f(3) show ?thesis by (auto intro!: Save_consistent_other)
    qed
  qed
qed

section \<open>Properties\<close>



text \<open>
  C33 (roundtrip). Saving never fails on what was loaded: a run of at most 100 operations on an account
  loaded from a reachable database, or on a new account, is stored, and loading the account from
  the new database gives exactly the saved account back, at the version of its last event. (A run of
  more than 100 events may cross two multiples of 100 and then fails on the snapshot's key.)
\<close>

theorem save_then_load:
  assumes "db_reachable db" "acc \<noteq> []" "trimmed acc" "loaded db acc a" "length ops \<le> 100" "events (runOps a ops) \<noteq> []"
  shows "\<exists>db'. Save now db (runOps a ops) = Inr (db', MarkPersisted (runOps a ops)) \<and>
    Load db' acc = Inr (Some (MarkPersisted (runOps a ops)))"
proof -
  let ?b = "runOps a ops"
  from reachable_consistent [OF assms(1-3)] have c: "consistent db acc" .
  from Save_ok [OF c assms(4) refl assms(6,5)] obtain posted out where
    s: "Save now db ?b = Inr (savedDB now db ?b posted out, MarkPersisted ?b)" by blast
  have c': "consistent (savedDB now db ?b posted out) acc" by (rule Save_consistent_own [OF c assms(4) refl assms(6)])
  note f = run_facts [OF c assms(4) refl assms(6)]
  from accountRows_saved [OF pending_events_owner [OF f(1,2,4)], of now db posted out acc] f(3)
  have rows: "accountRows (savedDB now db ?b posted out) acc = accountRows db acc @ map (stamp now) (events ?b)" by simp
  have "Load (savedDB now db ?b posted out) acc = Inr (Some (MarkPersisted ?b))"
    using Load_eq [OF c'] f(9) [of now] assms(6) unfolding rows by simp
  with s show ?thesis by blast
qed

lemma sample_loaded: "loaded emptyDB ''u1'' sampleAccount"
proof -
  have "trimmed ''u1''" by (rule trimmed_visible_ends) (simp_all add: visible_def)
  then have c: "consistent emptyDB ''u1''" by (intro emptyDB_consistent) simp_all
  then obtain a where "replays ''u1'' (accountRows emptyDB ''u1'') a" by (auto simp: consistent_def)
  from Load_eq [OF c this] sampleAccount_created show ?thesis
    by (simp add: loaded_def accountRows_def emptyDB_def)
qed

lemma sample_pending: "length (events (runOps sampleAccount sampleOps)) = 2"
  by code_simp

theorem save_then_load_witness:
  "\<exists>db'. Save 1700000000 emptyDB (runOps sampleAccount sampleOps) = Inr (db', MarkPersisted (runOps sampleAccount sampleOps)) \<and>
    Load db' ''u1'' = Inr (Some (MarkPersisted (runOps sampleAccount sampleOps)))"
proof (rule save_then_load [OF db_empty _ _ sample_loaded])
  show "trimmed ''u1''" by (rule trimmed_visible_ends) (simp_all add: visible_def)
  show "events (runOps sampleAccount sampleOps) \<noteq> []" using sample_pending by auto
qed (simp_all add: sampleOps_def)

text \<open>
  C8 (safety). No lost update: when two commands work on the same loaded account and the first one
  has been saved, saving the second one is refused by the version check.
\<close>

theorem stale_save_refused:
  assumes "db_reachable db" "acc \<noteq> []" "trimmed acc" "loaded db acc a" "length ops \<le> 100" "events (runOps a ops) \<noteq> []"
    and "Save now db (runOps a ops) = Inr (db', b)" "events (runOps a ops') \<noteq> []"
  shows "Save now' db' (runOps a ops') = Inl ErrOptimisticLock"
proof -
  from reachable_consistent [OF assms(1-3)] have c: "consistent db acc" .
  from Save_ok [OF c assms(4) refl assms(6,5), of now] assms(7) obtain posted out where
    db': "db' = savedDB now db (runOps a ops) posted out" by auto
  note f = run_facts [OF c assms(4) refl assms(6)]
  note g = run_facts [OF c assms(4) refl assms(8)]
  have t: "SetAggregateType (runOps a ops') ledgerType = runOps a ops'"
    using g(4) by (cases "runOps a ops'") (simp add: SetAggregateType_def)
  let ?db0 = "CreateIfNotExist db' acc ledgerType"
  obtain posted' where res: "reserveAll ?db0 (length (events (runOps a ops'))) 0 (events (runOps a ops')) = Inr (?db0\<lparr>postedT := posted'\<rparr>)"
    using reserveAll_ok [of "events (runOps a ops')" ?db0 "length (events (runOps a ops'))" 0] g(2)
    by (auto simp: pending_rows_ok_def)
  have "aggregatesT ?db0 (acc, ledgerType) = Some (Version (runOps a ops))"
    using f(3) by (simp add: CreateIfNotExist_def db' savedDB_def split: option.splits)
  moreover have "baseVersion (runOps a ops') \<noteq> Version (runOps a ops)"
    using f(7) g(5) assms(6) by simp
  ultimately have "CheckAndUpdateVersion (?db0\<lparr>postedT := posted'\<rparr>) acc ledgerType (baseVersion (runOps a ops'))
      (Version (runOps a ops')) = (False, ?db0\<lparr>postedT := posted'\<rparr>)"
    by (simp add: CheckAndUpdateVersion_def)
  then show ?thesis
    unfolding Save_def storeSave_def Let_def t CloneEvents_def BaseVersion_def g(3)
    using assms(8) res by simp
qed

theorem stale_save_refused_witness:
  "\<exists>db' b. Save 1700000000 emptyDB (runOps sampleAccount sampleOps) = Inr (db', b) \<and>
     Save 1700000000 db' (runOps sampleAccount sampleOps) = Inl ErrOptimisticLock"
proof -
  have t: "trimmed ''u1''" by (rule trimmed_visible_ends) (simp_all add: visible_def)
  have e: "events (runOps sampleAccount sampleOps) \<noteq> []" using sample_pending by auto
  have n: "length sampleOps \<le> 100" by (simp add: sampleOps_def)
  from Save_ok [OF emptyDB_consistent [OF _ t] sample_loaded refl e n, of 1700000000] obtain db' b where
    s: "Save 1700000000 emptyDB (runOps sampleAccount sampleOps) = Inr (db', b)" by auto
  with stale_save_refused [OF db_empty _ t sample_loaded n e s e] show ?thesis by blast
qed

text \<open>
  C34 (error). The posted-transaction table never reports a duplicate: whatever the table holds, the
  reservation of an event that stands for a posting succeeds, also when the transaction is already
  reserved with another amount, and \<open>ErrAlreadyApplied\<close> is not returned.
\<close>

theorem ReservePostedTransaction_never_refuses:
  assumes "NewLedgerAccountPostingFromEvent (ev_AggregateID e) (ev_EventData e) = Inr (Some p)"
  shows "\<exists>rows. ReservePostedTransaction db e = Inr (db\<lparr>postedT := rows\<rparr>)"
  using assms ReservePosted_ok unfolding NewLedgerAccountPostingFromEvent_def by blast

definition sampleReservation :: "int64 \<Rightarrow> LedgerEvent Event" where
  "sampleReservation amount = NewLedgerAccountEvent ''u1'' ledgerType (EventLedgerAccountDepositFromIntent
     \<lparr>pe_transactionID = ''t1'', pe_paymentID = ''p1'', pe_counterpartyAccountID = ''c1'', pe_currency = ''USD'',
      pe_amount = amount, pe_bookedAt = sampleTime\<rparr>)"

theorem ReservePostedTransaction_never_refuses_witness:
  "\<exists>rows. ReservePostedTransaction (emptyDB\<lparr>postedT := [\<lparr>pt_AggregateID = ''u1'', pt_AggregateType = ledgerType,
       pt_TransactionID = ''t1'', pt_EventName = EventNameLedgerAccountDepositFromIntent,
       pt_EventData = ev_EventData (sampleReservation 7)\<rparr>]\<rparr>) (sampleReservation 9) =
     Inr (emptyDB\<lparr>postedT := rows\<rparr>)"
proof -
  have "NewLedgerAccountPostingFromEvent (ev_AggregateID (sampleReservation 9)) (ev_EventData (sampleReservation 9)) =
      Inr (Some \<lparr>p_TransactionID = ''t1'', p_ReferenceType = EventNameLedgerAccountDepositFromIntent,
        p_ReferenceID = ''p1'', p_CounterpartyAccountID = ''c1'', p_Currency = ''USD'', p_AmountDelta = 9,
        p_BookedAt = sampleTime\<rparr>)"
    by code_simp
  from ReservePostedTransaction_never_refuses [OF this, of "emptyDB\<lparr>postedT := [\<lparr>pt_AggregateID = ''u1'', pt_AggregateType = ledgerType,
       pt_TransactionID = ''t1'', pt_EventName = EventNameLedgerAccountDepositFromIntent,
       pt_EventData = ev_EventData (sampleReservation 7)\<rparr>]\<rparr>"]
  show ?thesis by simp
qed

end
