(* ===== verification/LedgerService.thy ===== *)
theory LedgerService
  imports LedgerStore
begin

text \<open>
  \<^verbatim>\<open>core/modules/ledger/application/service/ledger_service.go\<close>: transfers between accounts, the
  recording of batches of ledger events, of succeeded and reversed payments, and of failed
  reconciliations.

  The repositories are the interface \<open>LedgerRepos\<close>; \<open>WithTransaction\<close> keeps the database of a
  successful body and the old one otherwise (a failing commit is not modelled). Account pointers
  are the entries of the map of loaded accounts, so that two names of one account stay one
  account. The clock is an argument.

  The locale \<open>account_repository\<close> is what the service relies on of the repositories: the database
  stands for one account per id, loading returns it, saving a run of operations replaces it. It is
  interpreted on the event store of \<^verbatim>\<open>LedgerStore\<close>.
\<close>

section \<open>Commands and repositories\<close>

abbreviation ErrValidation :: error where "ErrValidation \<equiv> Sentinel ''ErrValidation''"
abbreviation ErrInsufficientFunds :: error where "ErrInsufficientFunds \<equiv> Sentinel ''ErrInsufficientFunds''"
abbreviation ErrLedgerAccountAggregateRequired :: error where
  "ErrLedgerAccountAggregateRequired \<equiv> Sentinel ''ErrLedgerAccountAggregateRequired''"

abbreviation validation :: "error \<Rightarrow> error" where
  "validation e \<equiv> Errorf ''%w: %w'' [ErrValidation, e]"

record TransferToAccountCommand =
  tc_TransactionID :: string
  tc_FromAccountID :: string
  tc_ToAccountID :: string
  tc_Currency :: string
  tc_Amount :: int64
  tc_FeeAmount :: int64
  tc_FeeAccountID :: string

text \<open>\<^verbatim>\<open>RecordPaymentSucceededCommand\<close> and \<^verbatim>\<open>RecordPaymentReversedCommand\<close> have the fields of the booking inputs.\<close>

type_synonym RecordPaymentSucceededCommand = PaymentSucceededBookingInput
type_synonym RecordPaymentReversedCommand = PaymentReversalBookingInput

record RecordPaymentReconciliationFailedCommand =
  rf_PaymentID :: string
  rf_TransactionID :: string
  rf_Provider :: string
  rf_ClearingAccountKey :: string
  rf_CreditAccountID :: string
  rf_Currency :: string
  rf_Amount :: int64
  rf_FeeAmount :: int64
  rf_ProviderAmount :: int64
  rf_Reason :: string
  rf_FailedAt :: gotime

text \<open>\<^verbatim>\<open>LedgerPaymentReconciliationFailedEvent\<close> has the same fields.\<close>

type_synonym LedgerPaymentReconciliationFailedEvent = RecordPaymentReconciliationFailedCommand

record 'db LedgerRepos =
  repoLoad :: "'db \<Rightarrow> string \<Rightarrow> error + LedgerAccountAggregate option"
  repoSave :: "int \<Rightarrow> 'db \<Rightarrow> LedgerAccountAggregate \<Rightarrow> error + 'db \<times> LedgerAccountAggregate"

definition ledgerRepos :: "LedgerDB LedgerRepos" where
  "ledgerRepos = \<lparr>repoLoad = Load, repoSave = Save\<rparr>"

type_synonym loadedLedgerAccounts = "string \<rightharpoonup> LedgerAccountAggregate"

definition WithTransaction :: "('db \<Rightarrow> error + 'a \<times> 'db) \<Rightarrow> 'db \<Rightarrow> (error + 'a) \<times> 'db" where
  "WithTransaction fn db = (case fn db of Inl e \<Rightarrow> (Inl e, db) | Inr (x, db') \<Rightarrow> (Inr x, db'))"

definition loadLedgerAccount :: "'db LedgerRepos \<Rightarrow> 'db \<Rightarrow> string \<Rightarrow> error + LedgerAccountAggregate" where
  "loadLedgerAccount repos db accountID =
     andThen (repoLoad repos db accountID) (\<lambda>account.
       case account of Some a \<Rightarrow> Inr a | None \<Rightarrow> NewLedgerAccountAggregate accountID)"

fun loadLedgerAccounts ::
  "'db LedgerRepos \<Rightarrow> 'db \<Rightarrow> loadedLedgerAccounts \<Rightarrow> string list \<Rightarrow> error + loadedLedgerAccounts" where
  "loadLedgerAccounts repos db accounts [] = Inr accounts"
| "loadLedgerAccounts repos db accounts (accID # accIDs) =
     (let accountID = TrimSpace accID
      in if accountID = [] then loadLedgerAccounts repos db accounts accIDs
         else if accounts accountID \<noteq> None then loadLedgerAccounts repos db accounts accIDs
         else andThen (loadLedgerAccount repos db accountID) (\<lambda>account.
                loadLedgerAccounts repos db (accounts(accountID \<mapsto> account)) accIDs))"

text \<open>An operation on the account an entry of the map points to; a method call on \<^verbatim>\<open>nil\<close> reports it.\<close>

definition onAccount ::
  "loadedLedgerAccounts \<Rightarrow> string \<Rightarrow> (LedgerAccountAggregate \<Rightarrow> (error + bool) \<times> LedgerAccountAggregate)
   \<Rightarrow> error + bool \<times> loadedLedgerAccounts" where
  "onAccount accounts accountID f =
     (case accounts (TrimSpace accountID) of
        None \<Rightarrow> Inl ErrLedgerAccountAggregateRequired
      | Some a \<Rightarrow> (case f a of (Inl e, _) \<Rightarrow> Inl e | (Inr applied, a') \<Rightarrow> Inr (applied, accounts(TrimSpace accountID \<mapsto> a'))))"

text \<open>\<open>Inr (True, \<dots>)\<close>: the store reported the posting as already applied.\<close>

definition saveLedgerAccount ::
  "'db LedgerRepos \<Rightarrow> int \<Rightarrow> 'db \<Rightarrow> LedgerAccountAggregate \<Rightarrow> error + bool \<times> 'db \<times> LedgerAccountAggregate" where
  "saveLedgerAccount repos now db account =
     (case repoSave repos now db account of
        Inr (db', account') \<Rightarrow> Inr (False, db', account')
      | Inl e \<Rightarrow> if errors_is e ErrAlreadyApplied then Inr (True, db, account) else Inl e)"

definition saveEntry ::
  "'db LedgerRepos \<Rightarrow> int \<Rightarrow> string \<Rightarrow> 'db \<times> loadedLedgerAccounts \<Rightarrow> error + bool \<times> 'db \<times> loadedLedgerAccounts" where
  "saveEntry repos now accountID st =
     (case snd st (TrimSpace accountID) of
        None \<Rightarrow> Inl (Errorf ''ledger account aggregate is nil'' [])
      | Some a \<Rightarrow> andThen (saveLedgerAccount repos now (fst st) a) (\<lambda>(dup, db', a').
          Inr (dup, db', (snd st)(TrimSpace accountID \<mapsto> a'))))"

record expectedLedgerPosting =
  xp_accountID :: string
  xp_posting :: LedgerAccountPosting

fun countMatching :: "loadedLedgerAccounts \<Rightarrow> expectedLedgerPosting list \<Rightarrow> error + nat" where
  "countMatching accounts [] = Inr 0"
| "countMatching accounts (item # items) =
     (case accounts (TrimSpace (xp_accountID item)) of
        None \<Rightarrow> countMatching accounts items
      | Some account \<Rightarrow>
          (case PostedTransaction account (p_TransactionID (xp_posting item)) of
             None \<Rightarrow> countMatching accounts items
           | Some existing \<Rightarrow>
               if \<not> SameLedgerAccountPosting existing (xp_posting item)
               then Inl (Errorf ''existing ledger posting mismatch for account_id=%s transaction_id=%s'' [])
               else andThen (countMatching accounts items) (\<lambda>n. Inr (n + 1))))"

definition ensureLedgerPostingsState :: "loadedLedgerAccounts \<Rightarrow> expectedLedgerPosting list \<Rightarrow> error + bool" where
  "ensureLedgerPostingsState accounts expected =
     andThen (countMatching accounts expected) (\<lambda>matchedCount.
       if matchedCount = 0 then Inr False
       else if matchedCount \<noteq> length expected
       then Inl (Errorf ''ledger posting state became inconsistent for transaction_id=%s'' [])
       else Inr True)"

section \<open>Transfers\<close>

definition transferInput :: "string \<Rightarrow> string \<Rightarrow> string \<Rightarrow> string \<Rightarrow> int64 \<Rightarrow> gotime \<Rightarrow> LedgerAccountTransferPostingInput" where
  "transferInput acc tx cp cur amount t =
     \<lparr>ti_AccountID = acc, ti_TransactionID = tx, ti_CounterpartyAccountID = cp, ti_Currency = cur, ti_Amount = amount, ti_BookedAt = t\<rparr>"

text \<open>The fee's transaction, when there is a fee.\<close>

definition feeTransactionOf :: "gotime \<Rightarrow> TransferToAccountCommand \<Rightarrow> error + LedgerTransaction option" where
  "feeTransactionOf t command =
     (if 0 <s tc_FeeAmount command then
        andThen (wrapErr validation (NewTransferBooking
          \<lparr>tb_FromAccountID = tc_FromAccountID command, tb_ToAccountID = TrimSpace (tc_FeeAccountID command),
           tb_Currency = tc_Currency command, tb_Amount = tc_FeeAmount command\<rparr>)) (\<lambda>feeBooking.
        andThen (wrapErr validation (NewLedgerTransaction t (TrimSpace (tc_TransactionID command) @ '':fee'')
          (TransferBooking_LedgerEntries feeBooking))) (\<lambda>tr. Inr (Some tr)))
      else Inr None)"

text \<open>What a transfer has validated before it opens the database transaction.\<close>

record transferPlan =
  tp_booking :: TransferBooking
  tp_transaction :: LedgerTransaction
  tp_fee :: "LedgerTransaction option"
  tp_expected :: "expectedLedgerPosting list"

definition planTransfer :: "gotime \<Rightarrow> TransferToAccountCommand \<Rightarrow> error + transferPlan" where
  "planTransfer t command =
     andThen (wrapErr validation (NewTransferBooking
       \<lparr>tb_FromAccountID = tc_FromAccountID command, tb_ToAccountID = tc_ToAccountID command,
        tb_Currency = tc_Currency command, tb_Amount = tc_Amount command\<rparr>)) (\<lambda>booking.
     let feeAccountID = TrimSpace (tc_FeeAccountID command)
     in if tc_FeeAmount command <s 0
        then Inl (Errorf ''%w: fee_amount must be greater than or equal to 0'' [ErrValidation])
        else if 0 <s tc_FeeAmount command \<and> feeAccountID = []
        then Inl (Errorf ''%w: fee_account_id is required when fee_amount > 0'' [ErrValidation])
        else
     andThen (wrapErr validation (NewLedgerTransaction t (TrimSpace (tc_TransactionID command))
       (TransferBooking_LedgerEntries booking))) (\<lambda>transaction.
     andThen (feeTransactionOf t command) (\<lambda>feeTransaction.
     andThen (NewLedgerAccountTransferOutPosting (transferInput (tb_FromAccountID booking) (lt_TransactionID transaction)
       (tb_ToAccountID booking) (lt_Currency transaction) (tb_Amount booking) (lt_CreatedAt transaction))) (\<lambda>fromPosting.
     andThen (NewLedgerAccountTransferInPosting (transferInput (tb_ToAccountID booking) (lt_TransactionID transaction)
       (tb_FromAccountID booking) (lt_Currency transaction) (tb_Amount booking) (lt_CreatedAt transaction))) (\<lambda>toPosting.
     andThen (case feeTransaction of
         None \<Rightarrow> Inr []
       | Some feeTr \<Rightarrow>
           andThen (NewLedgerAccountTransferOutPosting (transferInput (tc_FromAccountID command) (lt_TransactionID feeTr)
             feeAccountID (lt_Currency feeTr) (tc_FeeAmount command) (lt_CreatedAt feeTr))) (\<lambda>feeFromPosting.
           andThen (NewLedgerAccountTransferInPosting (transferInput feeAccountID (lt_TransactionID feeTr)
             (tc_FromAccountID command) (lt_Currency feeTr) (tc_FeeAmount command) (lt_CreatedAt feeTr))) (\<lambda>feeToPosting.
             Inr [\<lparr>xp_accountID = tc_FromAccountID command, xp_posting = feeFromPosting\<rparr>,
                  \<lparr>xp_accountID = feeAccountID, xp_posting = feeToPosting\<rparr>]))) (\<lambda>feePostings.
       Inr \<lparr>tp_booking = booking, tp_transaction = transaction, tp_fee = feeTransaction,
            tp_expected = [\<lparr>xp_accountID = tb_FromAccountID booking, xp_posting = fromPosting\<rparr>,
              \<lparr>xp_accountID = tb_ToAccountID booking, xp_posting = toPosting\<rparr>] @ feePostings\<rparr>))))))"

definition fundsError :: "error \<Rightarrow> error" where
  "fundsError e = (if errors_is e ErrLedgerAccountInsufficientFunds then Errorf ''%w: %w'' [ErrInsufficientFunds, e] else e)"

text \<open>The four postings of a transfer with a fee: which were applied, and the accounts after them.\<close>

definition applyTransfer ::
  "TransferToAccountCommand \<Rightarrow> transferPlan \<Rightarrow> loadedLedgerAccounts \<Rightarrow> error + bool \<times> bool \<times> loadedLedgerAccounts" where
  "applyTransfer command plan accounts =
     (let booking = tp_booking plan; tr = tp_transaction plan; feeAccountID = TrimSpace (tc_FeeAccountID command)
      in
     andThen (wrapErr fundsError (onAccount accounts (tb_FromAccountID booking) (\<lambda>a. TransferToAccount a (lt_TransactionID tr)
       (tb_ToAccountID booking) (lt_Currency tr) (tb_Amount booking) (lt_CreatedAt tr)))) (\<lambda>(fromApplied, accounts1).
     andThen (onAccount accounts1 (tb_ToAccountID booking) (\<lambda>a. ReceiveTransfer a (lt_TransactionID tr)
       (tb_FromAccountID booking) (lt_Currency tr) (tb_Amount booking) (lt_CreatedAt tr))) (\<lambda>(toApplied, accounts2).
     andThen (case tp_fee plan of
         None \<Rightarrow> Inr (False, accounts2)
       | Some feeTr \<Rightarrow>
           andThen (wrapErr fundsError (onAccount accounts2 (tb_FromAccountID booking) (\<lambda>a. TransferToAccount a (lt_TransactionID feeTr)
             feeAccountID (lt_Currency feeTr) (tc_FeeAmount command) (lt_CreatedAt feeTr)))) (\<lambda>(feeApplied, accounts3).
           andThen (onAccount accounts3 feeAccountID (\<lambda>a. ReceiveTransfer a (lt_TransactionID feeTr)
             (tc_FromAccountID command) (lt_Currency feeTr) (tc_FeeAmount command) (lt_CreatedAt feeTr))) (\<lambda>(feeReceived, accounts4).
             if feeApplied \<noteq> feeReceived
             then Inl (Errorf ''ledger fee transfer became inconsistent for transaction_id=%s'' [])
             else Inr (feeApplied, accounts4)))) (\<lambda>(feeApplied, accounts5).
       if fromApplied \<noteq> toApplied
       then Inl (Errorf ''ledger transfer posting became inconsistent for transaction_id=%s'' [])
       else Inr (fromApplied, feeApplied, accounts5)))))"

definition saveTransfer ::
  "'db LedgerRepos \<Rightarrow> int \<Rightarrow> TransferToAccountCommand \<Rightarrow> transferPlan \<Rightarrow> 'db \<Rightarrow> loadedLedgerAccounts \<Rightarrow> error + unit \<times> 'db" where
  "saveTransfer repos now command plan db accounts =
     andThen (saveEntry repos now (tb_FromAccountID (tp_booking plan)) (db, accounts)) (\<lambda>(dup1, st1).
       if dup1 then Inr ((), fst st1)
       else
     andThen (saveEntry repos now (tb_ToAccountID (tp_booking plan)) st1) (\<lambda>(dup2, st2).
       if dup2 then Inl (Errorf ''ledger transfer duplicate state became inconsistent for transaction_id=%s'' [])
       else case tp_fee plan of
         None \<Rightarrow> Inr ((), fst st2)
       | Some feeTr \<Rightarrow>
           andThen (saveEntry repos now (TrimSpace (tc_FeeAccountID command)) st2) (\<lambda>(dup3, st3).
             if dup3 then Inl (Errorf ''ledger fee duplicate state became inconsistent for transaction_id=%s'' [])
             else Inr ((), fst st3))))"

definition transferBody ::
  "'db LedgerRepos \<Rightarrow> int \<Rightarrow> TransferToAccountCommand \<Rightarrow> transferPlan \<Rightarrow> 'db \<Rightarrow> error + unit \<times> 'db" where
  "transferBody repos now command plan db =
     (let booking = tp_booking plan;
          accountIDs = [tb_FromAccountID booking, tb_ToAccountID booking] @
            (case tp_fee plan of None \<Rightarrow> [] | Some _ \<Rightarrow> [TrimSpace (tc_FeeAccountID command)])
      in
     andThen (loadLedgerAccounts repos db Map.empty accountIDs) (\<lambda>accounts.
     andThen (ensureLedgerPostingsState accounts (tp_expected plan)) (\<lambda>alreadyApplied.
       if alreadyApplied then Inr ((), db)
       else andThen (applyTransfer command plan accounts) (\<lambda>(fromApplied, feeApplied, accounts').
         if \<not> fromApplied \<and> \<not> feeApplied then Inr ((), db)
         else saveTransfer repos now command plan db accounts'))))"

definition ledgerService_TransferToAccount ::
  "'db LedgerRepos \<Rightarrow> int \<Rightarrow> gotime \<Rightarrow> TransferToAccountCommand \<Rightarrow> 'db \<Rightarrow> (error + LedgerTransaction) \<times> 'db" where
  "ledgerService_TransferToAccount repos now t command db =
     (case planTransfer t command of
        Inl e \<Rightarrow> (Inl e, db)
      | Inr plan \<Rightarrow>
          (case WithTransaction (transferBody repos now command plan) db of
             (Inl e, db') \<Rightarrow> (Inl e, db')
           | (Inr _, db') \<Rightarrow>
               (Inr (case tp_fee plan of
                       None \<Rightarrow> tp_transaction plan
                     | Some feeTr \<Rightarrow> (tp_transaction plan)\<lparr>lt_Entries := lt_Entries (tp_transaction plan) @ lt_Entries feeTr\<rparr>), db')))"

section \<open>Batches of ledger events\<close>

fun collectAccountIDs :: "string list \<Rightarrow> LedgerEvent Event list \<Rightarrow> error + string list" where
  "collectAccountIDs accountIDs [] = Inr accountIDs"
| "collectAccountIDs accountIDs (evt # evts) =
     (let accountID = TrimSpace (ev_AggregateID evt)
      in if accountID = [] then Inl (Errorf ''ledger event aggregate_id is required'' [])
         else if accountID \<in> set accountIDs then collectAccountIDs accountIDs evts
         else collectAccountIDs (accountIDs @ [accountID]) evts)"

fun applyEvents ::
  "loadedLedgerAccounts \<Rightarrow> string set \<Rightarrow> string list \<Rightarrow> nat \<Rightarrow> LedgerEvent Event list
   \<Rightarrow> error + nat \<times> string list \<times> loadedLedgerAccounts" where
  "applyEvents accounts seen saveOrder appliedCount [] = Inr (appliedCount, saveOrder, accounts)"
| "applyEvents accounts seen saveOrder appliedCount (evt # evts) =
     (let accountID = TrimSpace (ev_AggregateID evt)
      in case accounts accountID of
           None \<Rightarrow> Inl (Errorf ''ledger aggregate not loaded: %s'' [])
         | Some agg \<Rightarrow>
             (case ApplyPostingEvent agg (ev_EventData evt) of
                (Inl e, _) \<Rightarrow> Inl e
              | (Inr applied, agg') \<Rightarrow>
                  applyEvents (accounts(accountID \<mapsto> agg')) (seen - {accountID})
                    (if accountID \<in> seen then saveOrder @ [accountID] else saveOrder)
                    (if applied then appliedCount + 1 else appliedCount) evts))"

fun saveAccounts ::
  "'db LedgerRepos \<Rightarrow> int \<Rightarrow> 'db \<Rightarrow> loadedLedgerAccounts \<Rightarrow> string list \<Rightarrow> error + 'db" where
  "saveAccounts repos now db accounts [] = Inr db"
| "saveAccounts repos now db accounts (accountID # accountIDs) =
     (case accounts accountID of
        None \<Rightarrow> Inl (Errorf ''ledger account aggregate is nil'' [])
      | Some agg \<Rightarrow>
          andThen (saveLedgerAccount repos now db agg) (\<lambda>(dup, db', agg').
            if dup then Inl (Errorf ''ledger duplicate state became inconsistent for aggregate_id=%s'' [])
            else saveAccounts repos now db' (accounts(accountID \<mapsto> agg')) accountIDs))"

definition recordBody :: "'db LedgerRepos \<Rightarrow> int \<Rightarrow> LedgerEvent Event list \<Rightarrow> 'db \<Rightarrow> error + unit \<times> 'db" where
  "recordBody repos now evts db =
     andThen (collectAccountIDs [] evts) (\<lambda>accountIDs.
     andThen (loadLedgerAccounts repos db Map.empty accountIDs) (\<lambda>aggregates.
     andThen (applyEvents aggregates (set accountIDs) [] 0 evts) (\<lambda>(appliedCount, saveOrder, aggregates').
       if appliedCount = 0 then Inr ((), db)
       else if appliedCount \<noteq> length evts then Inl (Errorf ''ledger event application became inconsistent'' [])
       else andThen (saveAccounts repos now db aggregates' saveOrder) (\<lambda>db'. Inr ((), db')))))"

definition RecordLedgerEvents :: "'db LedgerRepos \<Rightarrow> int \<Rightarrow> LedgerEvent Event list \<Rightarrow> 'db \<Rightarrow> (error + unit) \<times> 'db" where
  "RecordLedgerEvents repos now evts db =
     (if evts = [] then (Inr (), db) else WithTransaction (recordBody repos now evts) db)"

section \<open>Payments\<close>

record ledgerPostingEventInput =
  pei_accountID :: string
  pei_posting :: LedgerAccountPosting

fun ledgerPaymentEventsFromPostings :: "ledgerPostingEventInput list \<Rightarrow> error + LedgerEvent Event list" where
  "ledgerPaymentEventsFromPostings [] = Inr []"
| "ledgerPaymentEventsFromPostings (item # items) =
     (case NewLedgerAccountEventFromPosting (pei_accountID item) (pei_posting item) of
        None \<Rightarrow> Inl (Errorf ''unsupported ledger posting reference_type=%s'' [])
      | Some evt \<Rightarrow> andThen (ledgerPaymentEventsFromPostings items) (\<lambda>evts. Inr (evt # evts)))"

definition debitLedgerEventNameForPaymentReversal :: "string \<Rightarrow> string" where
  "debitLedgerEventNameForPaymentReversal paymentEventName =
     (if TrimSpace paymentEventName = EventPaymentRefunded then EventNameLedgerAccountWithdrawFromRefund
      else if TrimSpace paymentEventName = EventPaymentChargeback then EventNameLedgerAccountWithdrawFromChargeback
      else [])"

definition creditLedgerEventNameForPaymentReversal :: "string \<Rightarrow> string" where
  "creditLedgerEventNameForPaymentReversal paymentEventName =
     (if TrimSpace paymentEventName = EventPaymentRefunded then EventNameLedgerAccountDepositFromRefund
      else if TrimSpace paymentEventName = EventPaymentChargeback then EventNameLedgerAccountDepositFromChargeback
      else [])"

text \<open>The debit and the credit posting of a payment as events.\<close>

definition movementEvents ::
  "string \<Rightarrow> string \<Rightarrow> string \<Rightarrow> string \<Rightarrow> string \<Rightarrow> LedgerTransaction \<Rightarrow> int64 \<Rightarrow> error + LedgerEvent Event list" where
  "movementEvents debitAcc creditAcc debitRef creditRef paymentID tr amount =
     andThen (NewLedgerAccountPaymentPosting
       \<lparr>pi_AccountID = debitAcc, pi_TransactionID = lt_TransactionID tr, pi_ReferenceType = debitRef, pi_ReferenceID = paymentID,
        pi_CounterpartyAccountID = creditAcc, pi_Currency = lt_Currency tr, pi_AmountDelta = - amount, pi_BookedAt = lt_CreatedAt tr\<rparr>) (\<lambda>debitPosting.
     andThen (NewLedgerAccountPaymentPosting
       \<lparr>pi_AccountID = creditAcc, pi_TransactionID = lt_TransactionID tr, pi_ReferenceType = creditRef, pi_ReferenceID = paymentID,
        pi_CounterpartyAccountID = debitAcc, pi_Currency = lt_Currency tr, pi_AmountDelta = amount, pi_BookedAt = lt_CreatedAt tr\<rparr>) (\<lambda>creditPosting.
     ledgerPaymentEventsFromPostings
       [\<lparr>pei_accountID = debitAcc, pei_posting = debitPosting\<rparr>, \<lparr>pei_accountID = creditAcc, pei_posting = creditPosting\<rparr>]))"

definition succeededEvents :: "gotime \<Rightarrow> RecordPaymentSucceededCommand \<Rightarrow> error + LedgerEvent Event list" where
  "succeededEvents t command =
     andThen (wrapErr validation (NewPaymentSucceededBooking command)) (\<lambda>booking.
     andThen (wrapErr validation (NewLedgerTransaction t (SucceededBooking_LedgerTransactionID booking)
       (SucceededBooking_LedgerEntries booking))) (\<lambda>tr.
     movementEvents (psb_DebitAccountID booking) (psb_CreditAccountID booking) EventNameLedgerAccountWithdrawFromIntent
       EventNameLedgerAccountDepositFromIntent (psb_PaymentID booking) tr (psb_Amount booking)))"

definition RecordPaymentSucceeded ::
  "'db LedgerRepos \<Rightarrow> int \<Rightarrow> gotime \<Rightarrow> RecordPaymentSucceededCommand \<Rightarrow> 'db \<Rightarrow> (error + unit) \<times> 'db" where
  "RecordPaymentSucceeded repos now t command db =
     (case succeededEvents t command of Inl e \<Rightarrow> (Inl e, db) | Inr evts \<Rightarrow> RecordLedgerEvents repos now evts db)"

definition reversedEvents :: "gotime \<Rightarrow> RecordPaymentReversedCommand \<Rightarrow> error + LedgerEvent Event list" where
  "reversedEvents t command =
     andThen (wrapErr validation (NewPaymentReversalBooking command)) (\<lambda>booking.
     andThen (wrapErr validation (NewLedgerTransaction t (ReversalBooking_LedgerTransactionID booking)
       (ReversalBooking_LedgerEntries booking))) (\<lambda>tr.
     movementEvents (prb_DebitAccountID booking) (prb_CreditAccountID booking)
       (debitLedgerEventNameForPaymentReversal (prb_ReversalType booking))
       (creditLedgerEventNameForPaymentReversal (prb_ReversalType booking)) (prb_PaymentID booking) tr (prb_Amount booking)))"

definition RecordPaymentReversed ::
  "'db LedgerRepos \<Rightarrow> int \<Rightarrow> gotime \<Rightarrow> RecordPaymentReversedCommand \<Rightarrow> 'db \<Rightarrow> (error + unit) \<times> 'db" where
  "RecordPaymentReversed repos now t command db =
     (case reversedEvents t command of Inl e \<Rightarrow> (Inl e, db) | Inr evts \<Rightarrow> RecordLedgerEvents repos now evts db)"

text \<open>\<open>outbox\<close>: the store for failure events, when the repositories provide one.\<close>

definition RecordPaymentReconciliationFailed ::
  "('o \<Rightarrow> LedgerPaymentReconciliationFailedEvent Event \<Rightarrow> error + 'o) option \<Rightarrow> gotime
   \<Rightarrow> RecordPaymentReconciliationFailedCommand \<Rightarrow> 'o \<Rightarrow> error + 'o" where
  "RecordPaymentReconciliationFailed outboxAppendTo now command outbox =
     (let paymentID = (if TrimSpace (rf_PaymentID command) = [] then TrimSpace (rf_TransactionID command)
                       else TrimSpace (rf_PaymentID command));
          failedAt = (if IsZero (UTC (rf_FailedAt command)) then UTC now else UTC (rf_FailedAt command));
          reason = (if TrimSpace (rf_Reason command) = [] then ''ledger payment reconciliation failed''
                    else TrimSpace (rf_Reason command))
      in if paymentID = [] then Inl (Errorf ''%w: payment_id is required'' [ErrValidation])
         else case outboxAppendTo of
                None \<Rightarrow> Inl (Errorf ''ledger reconciliation failure publisher is not configured'' [])
              | Some appendTo \<Rightarrow> appendTo outbox
                  \<lparr>ev_ID = 0, ev_AggregateID = paymentID, ev_AggregateType = ''LedgerPaymentReconciliation'', ev_Version = 0,
                   ev_EventName = ''EventLedgerPaymentReconciliationFailed'',
                   ev_EventData = \<lparr>rf_PaymentID = paymentID, rf_TransactionID = TrimSpace (rf_TransactionID command),
                     rf_Provider = TrimSpace (rf_Provider command), rf_ClearingAccountKey = TrimSpace (rf_ClearingAccountKey command),
                     rf_CreditAccountID = TrimSpace (rf_CreditAccountID command), rf_Currency = TrimSpace (rf_Currency command),
                     rf_Amount = rf_Amount command, rf_FeeAmount = rf_FeeAmount command,
                     rf_ProviderAmount = rf_ProviderAmount command, rf_Reason = reason, rf_FailedAt = failedAt\<rparr>,
                   ev_CreatedAt = Unix failedAt\<rparr>)"


section \<open>What the service relies on of the repositories\<close>

definition validID :: "string \<Rightarrow> bool" where
  "validID acc \<longleftrightarrow> acc \<noteq> [] \<and> trimmed acc"

lemma validID_TrimSpace [simp]: "validID (TrimSpace s) \<longleftrightarrow> TrimSpace s \<noteq> []"
  by (simp add: validID_def)

lemma MarkPersisted_id: "events a = [] \<Longrightarrow> MarkPersisted a = a"
  by (simp add: MarkPersisted_def)

text \<open>The operations that a batch of events makes on one account.\<close>

definition opsFor :: "string \<Rightarrow> LedgerEvent Event list \<Rightarrow> LedgerOp list" where
  "opsFor acc evts = map (\<lambda>e. OpApplyPostingEvent (ev_EventData e)) (filter (\<lambda>e. TrimSpace (ev_AggregateID e) = acc) evts)"

lemma opsFor_simps [simp]: "opsFor acc [] = []"
  "opsFor acc (e # evts) = (if TrimSpace (ev_AggregateID e) = acc then [OpApplyPostingEvent (ev_EventData e)] else []) @ opsFor acc evts"
  by (simp_all add: opsFor_def)

lemma length_opsFor: "length (opsFor acc evts) \<le> length evts"
  by (simp add: opsFor_def)

lemma runOps_Nil [simp]: "runOps a [] = a"
  by (simp add: runOps_def)

lemma runOps_inv: "ledger_inv a \<Longrightarrow> ledger_inv (runOps a ops)"
  using runOps_evolves [OF _ evolves_refl] by blast

lemma runOp_counts:
  assumes "ledger_inv a" "runOp a op = (Inr r, b)"
  shows "ledger_inv b \<and> length (events b) = length (events a) + (if r then 1 else 0) \<and> (r \<or> b = a)"
  using assms by (rule runOp_cases) (use runOp_inv [OF assms] in auto)

text \<open>Applying a batch to the loaded accounts runs, on each account, the operations for it.\<close>

lemma applyEvents_runs:
  assumes "applyEvents accounts seen order n evts = Inr (n', order', accounts')"
  shows "accounts' k = map_option (\<lambda>a. runOps a (opsFor k evts)) (accounts k)"
  using assms
proof (induction evts arbitrary: accounts seen order n)
  case (Cons e evts)
  let ?k = "TrimSpace (ev_AggregateID e)"
  from Cons.prems obtain a r a' where a: "accounts ?k = Some a" "ApplyPostingEvent a (ev_EventData e) = (Inr r, a')"
    and rest: "applyEvents (accounts(?k \<mapsto> a')) (seen - {?k}) (if ?k \<in> seen then order @ [?k] else order)
      (if r then n + 1 else n) evts = Inr (n', order', accounts')"
    by (auto simp: Let_def split: option.splits sum.splits prod.splits)
  from Cons.IH [OF rest] a show ?case by (cases "k = ?k") (auto simp: runOps_Cons)
qed (simp add: option.map_ident)

lemma applyEvents_order:
  assumes "applyEvents accounts seen order n evts = Inr (n', order', accounts')" "distinct order" "set order \<inter> seen = {}"
  shows "distinct order' \<and> set order' = set order \<union> (seen \<inter> (\<lambda>e. TrimSpace (ev_AggregateID e)) ` set evts) \<and>
    n \<le> n' \<and> n' \<le> n + length evts"
  using assms
proof (induction evts arbitrary: accounts seen order n)
  case (Cons e evts)
  let ?k = "TrimSpace (ev_AggregateID e)"
  from Cons.prems obtain a r a' where
    rest: "applyEvents (accounts(?k \<mapsto> a')) (seen - {?k}) (if ?k \<in> seen then order @ [?k] else order)
      (if r then n + 1 else n) evts = Inr (n', order', accounts')"
    by (auto simp: Let_def split: option.splits sum.splits prod.splits)
  have "distinct (if ?k \<in> seen then order @ [?k] else order)"
    "set (if ?k \<in> seen then order @ [?k] else order) \<inter> (seen - {?k}) = {}"
    using Cons.prems(2,3) by auto
  from Cons.IH [OF rest this] Cons.prems(3) show ?case by (auto split: if_splits)
qed simp

text \<open>Nothing applied leaves the accounts alone; everything applied records one event per operation.\<close>

lemma applyEvents_none:
  assumes "applyEvents accounts seen order n evts = Inr (n, order', accounts')" "\<forall>a\<in>ran accounts. ledger_inv a"
    "distinct order" "set order \<inter> seen = {}"
  shows "accounts' = accounts"
  using assms
proof (induction evts arbitrary: accounts seen order)
  case (Cons e evts)
  let ?k = "TrimSpace (ev_AggregateID e)"
  from Cons.prems(1) obtain a r a' where a: "accounts ?k = Some a" "ApplyPostingEvent a (ev_EventData e) = (Inr r, a')"
    and rest: "applyEvents (accounts(?k \<mapsto> a')) (seen - {?k}) (if ?k \<in> seen then order @ [?k] else order)
      (if r then n + 1 else n) evts = Inr (n, order', accounts')"
    by (auto simp: Let_def split: option.splits sum.splits prod.splits)
  have d: "distinct (if ?k \<in> seen then order @ [?k] else order)"
    "set (if ?k \<in> seen then order @ [?k] else order) \<inter> (seen - {?k}) = {}"
    using Cons.prems(3,4) by auto
  from applyEvents_order [OF rest d] have r: "\<not> r" by (auto split: if_splits)
  from Cons.prems(2) a have "ledger_inv a" by (auto simp: ran_def)
  then have "a' = a"
    using runOp_counts [of a "OpApplyPostingEvent (ev_EventData e)" r a'] a r by simp
  with a have same: "accounts(?k \<mapsto> a') = accounts" by auto
  from rest r same have "applyEvents accounts (seen - {?k}) (if ?k \<in> seen then order @ [?k] else order) n evts =
      Inr (n, order', accounts')" by simp
  from Cons.IH [OF this Cons.prems(2) d] show ?case .
qed simp

lemma applyEvents_all:
  assumes "applyEvents accounts seen order n evts = Inr (n + length evts, order', accounts')"
    "\<forall>a\<in>ran accounts. ledger_inv a" "distinct order" "set order \<inter> seen = {}" "accounts k = Some a"
  shows "\<exists>b. accounts' k = Some b \<and> length (events b) = length (events a) + length (opsFor k evts)"
  using assms
proof (induction evts arbitrary: accounts seen order n a)
  case (Cons e evts)
  let ?k = "TrimSpace (ev_AggregateID e)"
  from Cons.prems(1) obtain c r c' where c: "accounts ?k = Some c" "ApplyPostingEvent c (ev_EventData e) = (Inr r, c')"
    and rest: "applyEvents (accounts(?k \<mapsto> c')) (seen - {?k}) (if ?k \<in> seen then order @ [?k] else order)
      (if r then n + 1 else n) evts = Inr (n + length (e # evts), order', accounts')"
    by (auto simp: Let_def split: option.splits sum.splits prod.splits)
  have d: "distinct (if ?k \<in> seen then order @ [?k] else order)"
    "set (if ?k \<in> seen then order @ [?k] else order) \<inter> (seen - {?k}) = {}"
    using Cons.prems(3,4) by auto
  from applyEvents_order [OF rest d] have r: "r" by (auto split: if_splits)
  from Cons.prems(2) c have inv: "ledger_inv c" by (auto simp: ran_def)
  have c': "length (events c') = Suc (length (events c))" "ledger_inv c'"
    using inv c r runOp_counts [of c "OpApplyPostingEvent (ev_EventData e)" r c'] by simp_all
  have inv': "\<forall>a\<in>ran (accounts(?k \<mapsto> c')). ledger_inv a" using Cons.prems(2) c'(2) by (auto simp: ran_def)
  from rest r have rest': "applyEvents (accounts(?k \<mapsto> c')) (seen - {?k}) (if ?k \<in> seen then order @ [?k] else order)
      (n + 1) evts = Inr (n + 1 + length evts, order', accounts')" by simp
  obtain a1 where a1: "(accounts(?k \<mapsto> c')) k = Some a1" "length (events a1) = length (events a) + (if ?k = k then 1 else 0)"
    using Cons.prems(5) c c' by (cases "?k = k") auto
  from Cons.IH [OF rest' inv' d a1(1)] a1(2) show ?case by auto
qed simp


lemma collectAccountIDs_set:
  "collectAccountIDs ids evts = Inr ids' \<Longrightarrow> set ids' = set ids \<union> (\<lambda>e. TrimSpace (ev_AggregateID e)) ` set evts \<and>
     (\<forall>e\<in>set evts. TrimSpace (ev_AggregateID e) \<noteq> [])"
  by (induction evts arbitrary: ids) (auto simp: Let_def split: if_splits)

text \<open>An event whose posting the account already holds.\<close>

definition settled :: "LedgerAccountAggregate \<Rightarrow> LedgerEvent \<Rightarrow> bool" where
  "settled a d \<longleftrightarrow> (\<exists>p q. previewLedgerPostingFromEvent (aggregateID a) d = Inr (Some p) \<and>
     PostedTransactions a (p_TransactionID p) = Some q \<and> SameLedgerAccountPosting q p)"

lemma opPosting_event:
  "opPosting acc (OpApplyPostingEvent d) = Inr (p, d') \<longleftrightarrow> previewLedgerPostingFromEvent acc d = Inr (Some p) \<and> d' = d"
  by (auto simp: opPosting_def split: option.splits)

lemma settled_repeat: "ledger_inv a \<Longrightarrow> settled a d \<Longrightarrow> ApplyPostingEvent a d = (Inr False, a)"
  using runOp_eq [of a "OpApplyPostingEvent d"]
  by (auto simp: settled_def ledger_inv_def opPosting_def postOnce_def)

lemma applied_settled:
  assumes "ledger_inv a" "ApplyPostingEvent a d = (Inr r, b)"
  shows "settled b d"
proof -
  from assms(1) have acc: "account_ok a" by (simp add: ledger_inv_def)
  from runOp_eq [OF acc, of "OpApplyPostingEvent d"] assms(2)
  obtain p where p: "previewLedgerPostingFromEvent (aggregateID a) d = Inr (Some p)"
    and b: "postOnce a (mismatchMsg (OpApplyPostingEvent d)) p d = (Inr r, b)"
    by (auto simp: opPosting_event split: sum.splits)
  from b p show ?thesis
    by (auto simp: settled_def postOnce_def split: option.splits if_splits)
qed

lemma settled_runOps:
  assumes "ledger_inv a" "settled a d"
  shows "settled (runOps a ops) d"
  using assms(2) runOps_keeps [OF assms(1)] by (fastforce simp: settled_def)

lemma applyEvents_settled:
  assumes "applyEvents accounts seen order n evts = Inr (n', order', accounts')" "\<forall>a\<in>ran accounts. ledger_inv a" "e \<in> set evts"
  shows "\<exists>b. accounts' (TrimSpace (ev_AggregateID e)) = Some b \<and> settled b (ev_EventData e)"
  using assms
proof (induction evts arbitrary: accounts seen order n)
  case (Cons x evts)
  let ?k = "TrimSpace (ev_AggregateID x)"
  from Cons.prems(1) obtain a r a' where a: "accounts ?k = Some a" "ApplyPostingEvent a (ev_EventData x) = (Inr r, a')"
    and rest: "applyEvents (accounts(?k \<mapsto> a')) (seen - {?k}) (if ?k \<in> seen then order @ [?k] else order)
      (if r then n + 1 else n) evts = Inr (n', order', accounts')"
    by (auto simp: Let_def split: option.splits sum.splits prod.splits)
  from Cons.prems(2) a have inv: "ledger_inv a" by (auto simp: ran_def)
  with a have inv': "ledger_inv a'" using runOp_counts [of a "OpApplyPostingEvent (ev_EventData x)" r a'] by simp
  show ?case
  proof (cases "e \<in> set evts")
    case True
    have "\<forall>a\<in>ran (accounts(?k \<mapsto> a')). ledger_inv a" using Cons.prems(2) inv' by (auto simp: ran_def)
    from Cons.IH [OF rest this True] show ?thesis .
  next
    case False
    with Cons.prems(3) have e: "e = x" by simp
    from applyEvents_runs [OF rest, of ?k] settled_runOps [OF inv' applied_settled [OF inv a(2)]] e
    show ?thesis by simp
  qed
qed simp

lemma applyEvents_repeat:
  assumes "\<forall>e\<in>set evts. \<exists>a. accounts (TrimSpace (ev_AggregateID e)) = Some a \<and> ledger_inv a \<and> settled a (ev_EventData e)"
  shows "\<exists>order'. applyEvents accounts seen order n evts = Inr (n, order', accounts)"
  using assms
proof (induction evts arbitrary: seen order)
  case (Cons e evts)
  from Cons.prems obtain a where a: "accounts (TrimSpace (ev_AggregateID e)) = Some a" "ledger_inv a" "settled a (ev_EventData e)"
    by auto
  have same: "accounts(TrimSpace (ev_AggregateID e) \<mapsto> a) = accounts" using a(1) by auto
  from Cons.prems have "\<forall>e\<in>set evts. \<exists>a. accounts (TrimSpace (ev_AggregateID e)) = Some a \<and> ledger_inv a \<and> settled a (ev_EventData e)"
    by simp
  note Cons.IH [OF this]
  with a settled_repeat [OF a(2,3)] show ?case by (simp add: Let_def same)
qed simp

text \<open>A batch of new postings on different accounts, none of which overdraws, is applied in full.\<close>

definition postable :: "loadedLedgerAccounts \<Rightarrow> LedgerEvent Event \<Rightarrow> bool" where
  "postable accounts e \<longleftrightarrow> (\<exists>a p. accounts (TrimSpace (ev_AggregateID e)) = Some a \<and> account_ok a \<and>
     previewLedgerPostingFromEvent (aggregateID a) (ev_EventData e) = Inr (Some p) \<and>
     PostedTransactions a (p_TransactionID p) = None \<and> \<not> overdraws a p)"

lemma applyEvents_fresh:
  assumes "\<forall>e\<in>set evts. postable accounts e" "distinct (map (\<lambda>e. TrimSpace (ev_AggregateID e)) evts)"
  shows "\<exists>order' accounts'. applyEvents accounts seen order n evts = Inr (n + length evts, order', accounts')"
  using assms
proof (induction evts arbitrary: accounts seen order n)
  case (Cons e evts)
  let ?k = "TrimSpace (ev_AggregateID e)"
  from Cons.prems(1) obtain a p where a: "accounts ?k = Some a" "account_ok a"
    "previewLedgerPostingFromEvent (aggregateID a) (ev_EventData e) = Inr (Some p)"
    "PostedTransactions a (p_TransactionID p) = None" "\<not> overdraws a p"
    by (auto simp: postable_def)
  then have ap: "ApplyPostingEvent a (ev_EventData e) = (Inr True, postTo a (ev_EventData e) p)"
    using runOp_eq [of a "OpApplyPostingEvent (ev_EventData e)"] by (simp add: opPosting_def postOnce_def)
  have "\<forall>x\<in>set evts. postable (accounts(?k \<mapsto> postTo a (ev_EventData e) p)) x"
  proof
    fix x assume x: "x \<in> set evts"
    with Cons.prems(2) have "TrimSpace (ev_AggregateID x) \<noteq> ?k" by (auto simp: image_iff)
    with Cons.prems(1) x show "postable (accounts(?k \<mapsto> postTo a (ev_EventData e) p)) x" by (simp add: postable_def)
  qed
  note post = this
  from Cons.prems(2) have "distinct (map (\<lambda>e. TrimSpace (ev_AggregateID e)) evts)" by simp
  from Cons.IH [OF post this, of "seen - {?k}" "if ?k \<in> seen then order @ [?k] else order" "n + 1"]
  obtain order' accounts' where "applyEvents (accounts(?k \<mapsto> postTo a (ev_EventData e) p)) (seen - {?k})
      (if ?k \<in> seen then order @ [?k] else order) (n + 1) evts = Inr (n + 1 + length evts, order', accounts')" by blast
  with a(1) ap have "applyEvents accounts seen order n (e # evts) = Inr (n + length (e # evts), order', accounts')"
    by (simp add: Let_def)
  then show ?case by blast
qed simp

lemma collectAccountIDs_ok:
  "\<forall>e\<in>set evts. TrimSpace (ev_AggregateID e) \<noteq> [] \<Longrightarrow> \<exists>ids'. collectAccountIDs ids evts = Inr ids'"
  by (induction evts arbitrary: ids) (auto simp: Let_def)

text \<open>What an event adds to the balance of an account in a currency.\<close>

definition deltaOf :: "string \<Rightarrow> string \<Rightarrow> LedgerEvent \<Rightarrow> int64" where
  "deltaOf acc cur d = (case previewLedgerPostingFromEvent acc d of
     Inr (Some p) \<Rightarrow> if p_Currency p = cur then p_AmountDelta p else 0 | _ \<Rightarrow> 0)"

definition batchDelta :: "string \<Rightarrow> string \<Rightarrow> LedgerEvent Event list \<Rightarrow> int64" where
  "batchDelta acc cur evts = sum_list (map (\<lambda>e. if TrimSpace (ev_AggregateID e) = acc then deltaOf acc cur (ev_EventData e) else 0) evts)"

lemma batchDelta_other: "k \<notin> (\<lambda>e. TrimSpace (ev_AggregateID e)) ` set evts \<Longrightarrow> batchDelta k cur evts = 0"
  by (induction evts) (auto simp: batchDelta_def)

lemma applied_delta:
  assumes "ledger_inv a" "ApplyPostingEvent a d = (Inr True, b)"
  shows "balanceIn b cur = balanceIn a cur + deltaOf (aggregateID a) cur d" "aggregateID b = aggregateID a"
proof -
  have "runOp a (OpApplyPostingEvent d) = (Inr True, b)" using assms(2) by simp
  with assms(1) have "balanceIn b cur = balanceIn a cur + deltaOf (aggregateID a) cur d \<and> aggregateID b = aggregateID a"
  proof (rule runOp_cases)
    fix p d'
    assume "opPosting (aggregateID a) (OpApplyPostingEvent d) = Inr (p, d')" "posting_ok (aggregateID a) p" "b = postTo a d' p"
    then show ?thesis by (simp add: opPosting_event deltaOf_def balanceIn_postTo)
  qed simp
  then show "balanceIn b cur = balanceIn a cur + deltaOf (aggregateID a) cur d" "aggregateID b = aggregateID a" by simp_all
qed

lemma applyEvents_balance:
  assumes "applyEvents accounts seen order n evts = Inr (n + length evts, order', accounts')"
    "\<forall>k a. accounts k = Some a \<longrightarrow> ledger_inv a \<and> aggregateID a = k" "distinct order" "set order \<inter> seen = {}"
    "accounts k = Some a" "accounts' k = Some b"
  shows "balanceIn b cur = balanceIn a cur + batchDelta k cur evts"
  using assms
proof (induction evts arbitrary: accounts seen order n a)
  case (Cons e evts)
  let ?k = "TrimSpace (ev_AggregateID e)"
  from Cons.prems(1) obtain c r c' where c: "accounts ?k = Some c" "ApplyPostingEvent c (ev_EventData e) = (Inr r, c')"
    and rest: "applyEvents (accounts(?k \<mapsto> c')) (seen - {?k}) (if ?k \<in> seen then order @ [?k] else order)
      (if r then n + 1 else n) evts = Inr (n + length (e # evts), order', accounts')"
    by (auto simp: Let_def split: option.splits sum.splits prod.splits)
  have d: "distinct (if ?k \<in> seen then order @ [?k] else order)"
    "set (if ?k \<in> seen then order @ [?k] else order) \<inter> (seen - {?k}) = {}"
    using Cons.prems(3,4) by auto
  from applyEvents_order [OF rest d] have r: "r" by (auto split: if_splits)
  with c have c2: "ApplyPostingEvent c (ev_EventData e) = (Inr True, c')" by simp
  from Cons.prems(2) c have inv: "ledger_inv c" "aggregateID c = ?k" by auto
  have "ledger_inv c'" using runOp_counts [of c "OpApplyPostingEvent (ev_EventData e)" True c'] inv(1) c2 by simp
  with Cons.prems(2) applied_delta(2) [OF inv(1) c2] inv(2)
  have inv': "\<forall>k a. (accounts(?k \<mapsto> c')) k = Some a \<longrightarrow> ledger_inv a \<and> aggregateID a = k" by auto
  from rest r have rest': "applyEvents (accounts(?k \<mapsto> c')) (seen - {?k}) (if ?k \<in> seen then order @ [?k] else order)
      (n + 1) evts = Inr (n + 1 + length evts, order', accounts')" by simp
  obtain a1 where a1: "(accounts(?k \<mapsto> c')) k = Some a1"
    "balanceIn a1 cur = balanceIn a cur + (if ?k = k then deltaOf k cur (ev_EventData e) else 0)"
    using Cons.prems(5) c applied_delta(1) [OF inv(1) c2, of cur] inv(2) by (cases "?k = k") auto
  from Cons.IH [OF rest' inv' d a1(1) Cons.prems(6)] a1(2) show ?case by (simp add: batchDelta_def)
qed (simp add: batchDelta_def)

text \<open>
  \<open>ok\<close>: the databases the program reaches; \<open>stored db acc\<close>: the account a database holds under an
  id, a new one when it holds none.
\<close>

locale account_repository =
  fixes repos :: "'db LedgerRepos"
    and ok :: "'db \<Rightarrow> bool"
    and stored :: "'db \<Rightarrow> string \<Rightarrow> LedgerAccountAggregate"
  assumes stored_inv: "ok db \<Longrightarrow> validID acc \<Longrightarrow>
      ledger_inv (stored db acc) \<and> events (stored db acc) = [] \<and> aggregateID (stored db acc) = acc"
    and load_stored: "ok db \<Longrightarrow> validID acc \<Longrightarrow> repoLoad repos db acc = Inr (Some (stored db acc)) \<or>
      repoLoad repos db acc = Inr None \<and> NewLedgerAccountAggregate acc = Inr (stored db acc)"
    and save_stored: "ok db \<Longrightarrow> validID acc \<Longrightarrow> length ops \<le> 100 \<Longrightarrow> events (runOps (stored db acc) ops) \<noteq> [] \<Longrightarrow>
      \<exists>db'. repoSave repos now db (runOps (stored db acc) ops) = Inr (db', MarkPersisted (runOps (stored db acc) ops)) \<and> ok db' \<and>
        (\<forall>k. validID k \<longrightarrow> stored db' k = (if k = acc then MarkPersisted (runOps (stored db acc) ops) else stored db k))"
    and save_nothing: "ok db \<Longrightarrow> events a = [] \<Longrightarrow> \<exists>a'. repoSave repos now db a = Inr (db, a') \<and> events a' = []"
begin

lemma loadLedgerAccount_stored: "ok db \<Longrightarrow> validID acc \<Longrightarrow> loadLedgerAccount repos db acc = Inr (stored db acc)"
  using load_stored [of db acc] by (auto simp: loadLedgerAccount_def)

lemma loadLedgerAccounts_stored:
  assumes "ok db" "\<forall>k a. accounts k = Some a \<longrightarrow> validID k \<and> a = stored db k"
  shows "\<exists>accounts'. loadLedgerAccounts repos db accounts ids = Inr accounts' \<and>
    (\<forall>k. accounts' k = (if accounts k \<noteq> None \<or> (validID k \<and> k \<in> TrimSpace ` set ids) then Some (stored db k) else None))"
  using assms(2)
proof (induction ids arbitrary: accounts)
  case Nil
  then show ?case by (intro exI [of _ accounts]) auto
next
  case (Cons i ids)
  show ?case
  proof (cases "TrimSpace i = [] \<or> accounts (TrimSpace i) \<noteq> None")
    case True
    from Cons.IH [OF Cons.prems] obtain accounts' where
      l: "loadLedgerAccounts repos db accounts ids = Inr accounts'"
      and a: "\<forall>k. accounts' k = (if accounts k \<noteq> None \<or> (validID k \<and> k \<in> TrimSpace ` set ids) then Some (stored db k) else None)"
      by blast
    from l True have "loadLedgerAccounts repos db accounts (i # ids) = Inr accounts'" by (auto simp: Let_def)
    moreover from a True have "\<forall>k. accounts' k = (if accounts k \<noteq> None \<or> (validID k \<and> k \<in> TrimSpace ` set (i # ids))
        then Some (stored db k) else None)" by (auto simp: validID_def)
    ultimately show ?thesis by blast
  next
    case False
    then have v: "validID (TrimSpace i)" by simp
    let ?acc = "accounts(TrimSpace i \<mapsto> stored db (TrimSpace i))"
    from Cons.prems v have "\<forall>k a. ?acc k = Some a \<longrightarrow> validID k \<and> a = stored db k" by auto
    from Cons.IH [OF this] obtain accounts' where
      l: "loadLedgerAccounts repos db ?acc ids = Inr accounts'"
      and a: "\<And>k. accounts' k = (if ?acc k \<noteq> None \<or> (validID k \<and> k \<in> TrimSpace ` set ids) then Some (stored db k) else None)"
      by blast
    from l False v loadLedgerAccount_stored [OF assms(1) v]
    have "loadLedgerAccounts repos db accounts (i # ids) = Inr accounts'" by (simp add: Let_def)
    moreover from a v have "\<forall>k. accounts' k = (if accounts k \<noteq> None \<or> (validID k \<and> k \<in> TrimSpace ` set (i # ids))
        then Some (stored db k) else None)" by auto
    ultimately show ?thesis by blast
  qed
qed

lemma saveAccounts_stored:
  assumes "ok db" "distinct ids"
    and "\<forall>k\<in>set ids. validID k \<and> (\<exists>ops. accounts k = Some (runOps (stored db k) ops) \<and> length ops \<le> 100 \<and>
      events (runOps (stored db k) ops) \<noteq> [])"
  shows "\<exists>db'. saveAccounts repos now db accounts ids = Inr db' \<and> ok db' \<and>
    (\<forall>k. validID k \<longrightarrow> stored db' k = (if k \<in> set ids then MarkPersisted (the (accounts k)) else stored db k))"
  using assms
proof (induction ids arbitrary: db accounts)
  case (Cons i ids)
  from Cons.prems(3) obtain ops where v: "validID i" and a: "accounts i = Some (runOps (stored db i) ops)"
    "length ops \<le> 100" "events (runOps (stored db i) ops) \<noteq> []" by auto
  let ?b = "runOps (stored db i) ops"
  from save_stored [OF Cons.prems(1) v a(2,3)] obtain db1 where
    s: "repoSave repos now db ?b = Inr (db1, MarkPersisted ?b)" "ok db1"
    "\<And>k. validID k \<Longrightarrow> stored db1 k = (if k = i then MarkPersisted ?b else stored db k)" by blast
  let ?acc = "accounts(i \<mapsto> MarkPersisted ?b)"
  have "\<exists>db'. saveAccounts repos now db1 ?acc ids = Inr db' \<and> ok db' \<and>
    (\<forall>k. validID k \<longrightarrow> stored db' k = (if k \<in> set ids then MarkPersisted (the (?acc k)) else stored db1 k))"
  proof (rule Cons.IH [OF s(2)])
    show "distinct ids" using Cons.prems(2) by simp
    show "\<forall>k\<in>set ids. validID k \<and> (\<exists>ops. ?acc k = Some (runOps (stored db1 k) ops) \<and> length ops \<le> 100 \<and>
      events (runOps (stored db1 k) ops) \<noteq> [])"
      using Cons.prems(2,3) s(3) by auto
  qed
  then obtain db' where db': "saveAccounts repos now db1 ?acc ids = Inr db'" "ok db'"
    "\<And>k. validID k \<Longrightarrow> stored db' k = (if k \<in> set ids then MarkPersisted (the (?acc k)) else stored db1 k)" by blast
  have "saveAccounts repos now db accounts (i # ids) = Inr db'"
    using a(1) s(1) db'(1) by (simp add: saveLedgerAccount_def)
  moreover have "\<forall>k. validID k \<longrightarrow> stored db' k = (if k \<in> set (i # ids) then MarkPersisted (the (accounts k)) else stored db k)"
    using db'(3) s(3) a(1) Cons.prems(2) by auto
  ultimately show ?case using db'(2) by blast
qed simp

text \<open>The steps of a batch that was recorded.\<close>

lemma recordBody_steps:
  assumes "ok db" "recordBody repos now evts db = Inr (u, db')"
  obtains ids accounts n order accounts' where "collectAccountIDs [] evts = Inr ids"
    "set ids = (\<lambda>e. TrimSpace (ev_AggregateID e)) ` set evts" "\<forall>k\<in>set ids. validID k"
    "loadLedgerAccounts repos db Map.empty ids = Inr accounts"
    "\<And>k. accounts k = (if k \<in> set ids then Some (stored db k) else None)"
    "applyEvents accounts (set ids) [] 0 evts = Inr (n, order, accounts')"
    "n = 0 \<and> db' = db \<or> n = length evts \<and> n \<noteq> 0 \<and> saveAccounts repos now db accounts' order = Inr db'"
proof -
  from assms(2) obtain ids accounts n order accounts' where s: "collectAccountIDs [] evts = Inr ids"
    "loadLedgerAccounts repos db Map.empty ids = Inr accounts"
    "applyEvents accounts (set ids) [] 0 evts = Inr (n, order, accounts')"
    and fin: "n = 0 \<and> db' = db \<or> n = length evts \<and> n \<noteq> 0 \<and> saveAccounts repos now db accounts' order = Inr db'"
    by (auto simp: recordBody_def split: if_splits)
  from collectAccountIDs_set [OF s(1)] have ids: "set ids = (\<lambda>e. TrimSpace (ev_AggregateID e)) ` set evts" by simp
  have v: "\<forall>k\<in>set ids. validID k" using collectAccountIDs_set [OF s(1)] by auto
  then have tr: "TrimSpace k = k" if "k \<in> set ids" for k using that by (simp add: validID_def trimmed_iff)
  from loadLedgerAccounts_stored [OF assms(1), of Map.empty ids] s(2)
  have acc: "accounts k = (if validID k \<and> k \<in> TrimSpace ` set ids then Some (stored db k) else None)" for k by simp
  have "TrimSpace ` set ids = set ids" using tr by (auto simp: image_iff)
  with acc v have "accounts k = (if k \<in> set ids then Some (stored db k) else None)" for k by simp
  from that [OF s(1) ids v s(2) this s(3) fin] show thesis .
qed

lemma RecordLedgerEvents_stored:
  assumes "ok db" "length evts \<le> 100" "RecordLedgerEvents repos now evts db = (Inr u, db')"
  shows "ok db' \<and> (\<forall>k. validID k \<longrightarrow> stored db' k = MarkPersisted (runOps (stored db k) (opsFor k evts)))"
proof (cases "evts = []")
  case True
  with assms show ?thesis using stored_inv [OF assms(1)] by (simp add: RecordLedgerEvents_def MarkPersisted_id)
next
  case False
  with assms(3) have "recordBody repos now evts db = Inr (u, db')"
    by (auto simp: RecordLedgerEvents_def WithTransaction_def split: sum.splits)
  with assms(1) show ?thesis
  proof (rule recordBody_steps)
    fix ids accounts n order accounts'
    assume ids: "set ids = (\<lambda>e. TrimSpace (ev_AggregateID e)) ` set evts" "\<forall>k\<in>set ids. validID k"
      and acc: "\<And>k. accounts k = (if k \<in> set ids then Some (stored db k) else None)"
      and app: "applyEvents accounts (set ids) [] 0 evts = Inr (n, order, accounts')"
      and fin: "n = 0 \<and> db' = db \<or> n = length evts \<and> n \<noteq> 0 \<and> saveAccounts repos now db accounts' order = Inr db'"
    have inv: "\<forall>a\<in>ran accounts. ledger_inv a"
      using ids(2) acc stored_inv [OF assms(1)] by (auto simp: ran_def split: if_splits)
    have runs: "accounts' k = (if k \<in> set ids then Some (runOps (stored db k) (opsFor k evts)) else None)" for k
      using applyEvents_runs [OF app, of k] acc [of k] by simp
    have out: "opsFor k evts = []" if "k \<notin> set ids" for k
      using that ids(1) by (auto simp: opsFor_def filter_empty_conv)
    from fin show ?thesis
    proof
      assume n: "n = 0 \<and> db' = db"
      with applyEvents_none [OF app [unfolded conjunct1 [OF n]] inv] have "accounts' = accounts" by simp
      with runs acc have "runOps (stored db k) (opsFor k evts) = stored db k" if "k \<in> set ids" for k
        using that by (metis option.inject)
      with out have "runOps (stored db k) (opsFor k evts) = stored db k" for k by (cases "k \<in> set ids") simp_all
      with n assms(1) stored_inv [OF assms(1)] show ?thesis by (simp add: MarkPersisted_id)
    next
      assume n: "n = length evts \<and> n \<noteq> 0 \<and> saveAccounts repos now db accounts' order = Inr db'"
      from applyEvents_order [OF app] ids(1) have ord: "distinct order" "set order = set ids" by auto
      have ev: "events (runOps (stored db k) (opsFor k evts)) \<noteq> []" if k: "k \<in> set ids" for k
      proof -
        from applyEvents_all [of accounts "set ids" "[]" 0 evts order accounts' k "stored db k"] app n inv acc [of k] k runs [of k]
        have "length (events (runOps (stored db k) (opsFor k evts))) = length (events (stored db k)) + length (opsFor k evts)" by simp
        moreover have "opsFor k evts \<noteq> []" using k ids(1) by (auto simp: opsFor_def filter_empty_conv)
        ultimately show ?thesis by fastforce
      qed
      have "\<forall>k\<in>set order. validID k \<and> (\<exists>ops. accounts' k = Some (runOps (stored db k) ops) \<and> length ops \<le> 100 \<and>
          events (runOps (stored db k) ops) \<noteq> [])"
        using ord(2) ids(2) runs ev order_trans [OF length_opsFor assms(2)] by auto
      from saveAccounts_stored [OF assms(1) ord(1) this, of now] n obtain
        "ok db'" "\<And>k. validID k \<Longrightarrow> stored db' k = (if k \<in> set order then MarkPersisted (the (accounts' k)) else stored db k)"
        by auto
      with ord(2) runs out stored_inv [OF assms(1)] show ?thesis by (auto simp: MarkPersisted_id)
    qed
  qed
qed

text \<open>All or nothing.\<close>

lemma RecordLedgerEvents_all_or_nothing:
  assumes "ok db" "length evts \<le> 100" "RecordLedgerEvents repos now evts db = (Inr u, db')"
  shows "db' = db \<or> (\<forall>k cur. validID k \<longrightarrow> balanceIn (stored db' k) cur = balanceIn (stored db k) cur + batchDelta k cur evts)"
proof (cases "evts = []")
  case True
  with assms show ?thesis by (simp add: RecordLedgerEvents_def)
next
  case False
  with assms(3) have "recordBody repos now evts db = Inr (u, db')"
    by (auto simp: RecordLedgerEvents_def WithTransaction_def split: sum.splits)
  with assms(1) show ?thesis
  proof (rule recordBody_steps)
    fix ids accounts n order accounts'
    assume ids: "set ids = (\<lambda>e. TrimSpace (ev_AggregateID e)) ` set evts" "\<forall>k\<in>set ids. validID k"
      and acc: "\<And>k. accounts k = (if k \<in> set ids then Some (stored db k) else None)"
      and app: "applyEvents accounts (set ids) [] 0 evts = Inr (n, order, accounts')"
      and fin: "n = 0 \<and> db' = db \<or> n = length evts \<and> n \<noteq> 0 \<and> saveAccounts repos now db accounts' order = Inr db'"
    have inv: "\<forall>k a. accounts k = Some a \<longrightarrow> ledger_inv a \<and> aggregateID a = k"
      using ids(2) acc stored_inv [OF assms(1)] by auto
    have runs: "accounts' k = (if k \<in> set ids then Some (runOps (stored db k) (opsFor k evts)) else None)" for k
      using applyEvents_runs [OF app, of k] acc [of k] by simp
    have "balanceIn (stored db' k) cur = balanceIn (stored db k) cur + batchDelta k cur evts"
      if n: "n = length evts" and k: "validID k" for k cur
    proof -
      have new: "balanceIn (stored db' k) cur = balanceIn (runOps (stored db k) (opsFor k evts)) cur"
        using RecordLedgerEvents_stored [OF assms] k by (simp add: balanceIn_def MarkPersisted_def)
      show ?thesis
      proof (cases "k \<in> set ids")
        case True
        with applyEvents_balance [of accounts "set ids" "[]" 0 evts order accounts' k "stored db k"] app n inv acc [of k] runs [of k] new
        show ?thesis by simp
      next
        case False
        then have "opsFor k evts = []" "batchDelta k cur evts = 0"
          using ids(1) by (auto simp: opsFor_def filter_empty_conv batchDelta_other)
        with new show ?thesis by simp
      qed
    qed
    with fin show ?thesis by blast
  qed
qed

text \<open>A batch whose events all apply to the stored accounts is recorded.\<close>

lemma RecordLedgerEvents_applied:
  assumes "ok db" "length evts \<le> 100" "\<forall>e\<in>set evts. TrimSpace (ev_AggregateID e) \<noteq> []"
    and app: "\<And>ids accounts. set ids = (\<lambda>e. TrimSpace (ev_AggregateID e)) ` set evts \<Longrightarrow>
      \<forall>k. accounts k = (if k \<in> set ids then Some (stored db k) else None) \<Longrightarrow>
      \<exists>order accounts'. applyEvents accounts (set ids) [] 0 evts = Inr (length evts, order, accounts')"
  shows "\<exists>db'. RecordLedgerEvents repos now evts db = (Inr (), db')"
proof -
  from collectAccountIDs_ok [of evts "[]"] assms(3) obtain ids where col: "collectAccountIDs [] evts = Inr ids" by auto
  note ids = collectAccountIDs_set [OF col]
  then have v: "\<forall>k\<in>set ids. validID k" by auto
  then have "TrimSpace k = k" if "k \<in> set ids" for k using that by (simp add: validID_def trimmed_iff)
  then have tr: "TrimSpace ` set ids = set ids" by (auto simp: image_iff)
  from loadLedgerAccounts_stored [OF assms(1), of Map.empty ids] obtain accounts where
    load: "loadLedgerAccounts repos db Map.empty ids = Inr accounts"
    and "\<And>k. accounts k = (if validID k \<and> k \<in> set ids then Some (stored db k) else None)" unfolding tr by auto
  with v have acc: "accounts k = (if k \<in> set ids then Some (stored db k) else None)" for k by simp
  from app [of ids accounts] acc ids obtain order accounts' where
    app: "applyEvents accounts (set ids) [] 0 evts = Inr (length evts, order, accounts')" by auto
  have inv: "\<forall>a\<in>ran accounts. ledger_inv a"
    using v acc stored_inv [OF assms(1)] by (auto simp: ran_def split: if_splits)
  from applyEvents_order [OF app] ids have ord: "distinct order" "set order = set ids" by auto
  have "\<exists>ops. accounts' k = Some (runOps (stored db k) ops) \<and> length ops \<le> 100 \<and> events (runOps (stored db k) ops) \<noteq> []"
    if k: "k \<in> set ids" for k
  proof -
    have a: "accounts' k = Some (runOps (stored db k) (opsFor k evts))"
      using applyEvents_runs [OF app, of k] acc [of k] k by simp
    with applyEvents_all [of accounts "set ids" "[]" 0 evts order accounts' k "stored db k"] app inv acc [of k] k
    have "length (events (runOps (stored db k) (opsFor k evts))) = length (events (stored db k)) + length (opsFor k evts)" by simp
    moreover have "opsFor k evts \<noteq> []" using k ids by (auto simp: opsFor_def filter_empty_conv)
    ultimately have "events (runOps (stored db k) (opsFor k evts)) \<noteq> []" by fastforce
    with a order_trans [OF length_opsFor assms(2)] show ?thesis by blast
  qed
  with saveAccounts_stored [OF assms(1) ord(1), of accounts' now] ord(2) v
  obtain db' where "saveAccounts repos now db accounts' order = Inr db'" by blast
  with col load app show ?thesis
    by (simp add: RecordLedgerEvents_def WithTransaction_def recordBody_def)
qed

text \<open>A batch of new postings on different accounts is recorded.\<close>

lemma RecordLedgerEvents_fresh:
  assumes "ok db" "length evts \<le> 100" "distinct (map (\<lambda>e. TrimSpace (ev_AggregateID e)) evts)"
    and post: "\<forall>e\<in>set evts. TrimSpace (ev_AggregateID e) \<noteq> [] \<and> postable (\<lambda>k. Some (stored db k)) e"
  shows "\<exists>db'. RecordLedgerEvents repos now evts db = (Inr (), db')"
proof (rule RecordLedgerEvents_applied [OF assms(1,2)])
  show "\<forall>e\<in>set evts. TrimSpace (ev_AggregateID e) \<noteq> []" using post by blast
  fix ids accounts
  assume ids: "set ids = (\<lambda>e. TrimSpace (ev_AggregateID e)) ` set evts"
    and acc: "\<forall>k. accounts k = (if k \<in> set ids then Some (stored db k) else None)"
  have "\<forall>e\<in>set evts. postable accounts e" using post acc ids by (auto simp: postable_def)
  from applyEvents_fresh [OF this assms(3), of "set ids" "[]" 0]
  show "\<exists>order accounts'. applyEvents accounts (set ids) [] 0 evts = Inr (length evts, order, accounts')" by simp
qed

text \<open>Redelivery, at any later state of the database that has kept the postings.\<close>

lemma RecordLedgerEvents_redelivered:
  assumes "ok db" "length evts \<le> 100" "RecordLedgerEvents repos now evts db = (Inr u, db')"
    and "ok db2" "\<And>k tx q. validID k \<Longrightarrow> PostedTransactions (stored db' k) tx = Some q \<Longrightarrow> PostedTransactions (stored db2 k) tx = Some q"
  shows "RecordLedgerEvents repos now2 evts db2 = (Inr (), db2)"
proof (cases "evts = []")
  case False
  with assms(3) have "recordBody repos now evts db = Inr (u, db')"
    by (auto simp: RecordLedgerEvents_def WithTransaction_def split: sum.splits)
  with assms(1) show ?thesis
  proof (rule recordBody_steps)
    fix ids accounts n order accounts'
    assume col: "collectAccountIDs [] evts = Inr ids" and ids: "set ids = (\<lambda>e. TrimSpace (ev_AggregateID e)) ` set evts" "\<forall>k\<in>set ids. validID k"
      and acc: "\<And>k. accounts k = (if k \<in> set ids then Some (stored db k) else None)"
      and app: "applyEvents accounts (set ids) [] 0 evts = Inr (n, order, accounts')"
    note v = ids(2)
    have inv: "\<forall>a\<in>ran accounts. ledger_inv a"
      using acc v stored_inv [OF assms(1)] by (auto simp: ran_def split: if_splits)
    have runs: "accounts' k = (if k \<in> set ids then Some (runOps (stored db k) (opsFor k evts)) else None)" for k
      using applyEvents_runs [OF app, of k] acc [of k] by simp
    have stl: "settled (stored db2 (TrimSpace (ev_AggregateID e))) (ev_EventData e)" if e: "e \<in> set evts" for e
    proof -
      let ?k = "TrimSpace (ev_AggregateID e)"
      from e ids have k: "?k \<in> set ids" "validID ?k" by auto
      from applyEvents_settled [OF app inv e] runs [of ?k] k
      have "settled (runOps (stored db ?k) (opsFor ?k evts)) (ev_EventData e)" by simp
      moreover have "stored db' ?k = MarkPersisted (runOps (stored db ?k) (opsFor ?k evts))"
        using RecordLedgerEvents_stored [OF assms(1-3)] k by simp
      ultimately have "settled (stored db' ?k) (ev_EventData e)" by (simp add: settled_def MarkPersisted_def)
      with assms(5) [OF k(2)] show ?thesis
        using stored_inv [OF assms(4) k(2)] RecordLedgerEvents_stored [OF assms(1-3)] stored_inv [of db' ?k] k(2)
        by (auto simp: settled_def)
    qed
    have "TrimSpace k = k" if "k \<in> set ids" for k using v that by (simp add: validID_def trimmed_iff)
    then have tr: "TrimSpace ` set ids = set ids" by (auto simp: image_iff)
    from loadLedgerAccounts_stored [OF assms(4), of Map.empty ids] obtain accounts2 where
      load2: "loadLedgerAccounts repos db2 Map.empty ids = Inr accounts2"
      and "\<And>k. accounts2 k = (if validID k \<and> k \<in> set ids then Some (stored db2 k) else None)" unfolding tr by auto
    with v have acc2: "accounts2 k = (if k \<in> set ids then Some (stored db2 k) else None)" for k by simp
    have "\<forall>e\<in>set evts. \<exists>a. accounts2 (TrimSpace (ev_AggregateID e)) = Some a \<and> ledger_inv a \<and> settled a (ev_EventData e)"
      using acc2 ids(1) stl v stored_inv [OF assms(4)] by auto
    from applyEvents_repeat [OF this, of "set ids" "[]" 0] obtain order2 where
      "applyEvents accounts2 (set ids) [] 0 evts = Inr (0, order2, accounts2)" by blast
    with col load2 False show ?thesis
      by (simp add: RecordLedgerEvents_def WithTransaction_def recordBody_def)
  qed
qed (simp add: RecordLedgerEvents_def)

end


section \<open>The event store provides the repositories\<close>

definition storedAccount :: "LedgerDB \<Rightarrow> string \<Rightarrow> LedgerAccountAggregate" where
  "storedAccount db acc = (case Load db acc of Inr (Some a) \<Rightarrow> a | _ \<Rightarrow> freshAccount acc)"

lemma storedAccount_replays:
  assumes c: "consistent db acc"
  shows "replays acc (accountRows db acc) (storedAccount db acc)" "loaded db acc (storedAccount db acc)"
proof -
  from c obtain a where a: "replays acc (accountRows db acc) a" by (auto simp: consistent_def)
  have f: "accountRows db acc = [] \<Longrightarrow> a = freshAccount acc" using a by (simp add: replays_def)
  with Load_eq [OF c a] have "storedAccount db acc = a" by (simp add: storedAccount_def)
  with a show "replays acc (accountRows db acc) (storedAccount db acc)" by simp
  show "loaded db acc (storedAccount db acc)"
    using Load_eq [OF c a] \<open>storedAccount db acc = a\<close> f freshAccount_created [of acc] c
    by (auto simp: loaded_def consistent_def)
qed

lemma storedAccount_root:
  assumes "consistent db acc"
  shows "ledger_inv (storedAccount db acc) \<and> events (storedAccount db acc) = [] \<and> aggregateID (storedAccount db acc) = acc"
  using replays_root [OF storedAccount_replays(1) [OF assms]] storedAccount_replays(1) [OF assms] assms
  by (auto simp: consistent_def replays_def dest: accountRows_fields)

lemma storedAccount_saved:
  assumes r: "db_reachable db" and v: "validID acc" "length ops \<le> 100" and e: "events (runOps (storedAccount db acc) ops) \<noteq> []"
  shows "\<exists>db'. Save now db (runOps (storedAccount db acc) ops) = Inr (db', MarkPersisted (runOps (storedAccount db acc) ops)) \<and>
    db_reachable db' \<and> (\<forall>k. validID k \<longrightarrow>
      storedAccount db' k = (if k = acc then MarkPersisted (runOps (storedAccount db acc) ops) else storedAccount db k))"
proof -
  let ?b = "runOps (storedAccount db acc) ops"
  from r v have c: "consistent db acc" by (simp add: reachable_consistent validID_def)
  note l = storedAccount_replays(2) [OF c]
  from Save_ok [OF c l refl e v(2)] obtain posted out where
    s: "Save now db ?b = Inr (savedDB now db ?b posted out, MarkPersisted ?b)" by blast
  let ?db = "savedDB now db ?b posted out"
  have r': "db_reachable ?db" using db_saved [OF r _ _ l v(2) s] v(1) by (simp add: validID_def)
  note f = run_facts [OF c l refl e]
  have rows: "accountRows ?db k = accountRows db k @ (if k = acc then map (stamp now) (events ?b) else [])" for k
    using accountRows_saved [OF pending_events_owner [OF f(1,2,4)], of now db posted out k] f(3) by simp
  have "storedAccount ?db k = (if k = acc then MarkPersisted ?b else storedAccount db k)" if k: "validID k" for k
  proof -
    have k1: "replays k (accountRows ?db k) (storedAccount ?db k)"
      using k r' by (intro storedAccount_replays reachable_consistent) (simp_all add: validID_def)
    have k2: "replays k (accountRows db k) (storedAccount db k)"
      using k r by (intro storedAccount_replays reachable_consistent) (simp_all add: validID_def)
    show ?thesis
    proof (cases "k = acc")
      case True
      with k1 rows [of k] f(9) [of now] show ?thesis by (auto intro: replays_unique)
    next
      case False
      with k1 k2 rows [of k] show ?thesis by (auto intro: replays_unique)
    qed
  qed
  with s r' show ?thesis by blast
qed

interpretation event_store: account_repository ledgerRepos db_reachable storedAccount
proof
  fix db acc now ops and a :: LedgerAccountAggregate
  assume r: "db_reachable db"
  { assume "validID acc"
    with r have c: "consistent db acc" by (simp add: reachable_consistent validID_def)
    from storedAccount_root [OF c]
    show "ledger_inv (storedAccount db acc) \<and> events (storedAccount db acc) = [] \<and> aggregateID (storedAccount db acc) = acc" .
    from storedAccount_replays(2) [OF c]
    show "repoLoad ledgerRepos db acc = Inr (Some (storedAccount db acc)) \<or>
      repoLoad ledgerRepos db acc = Inr None \<and> NewLedgerAccountAggregate acc = Inr (storedAccount db acc)"
      by (simp add: loaded_def ledgerRepos_def) }
  show "\<exists>db'. repoSave ledgerRepos now db (runOps (storedAccount db acc) ops) = Inr (db', MarkPersisted (runOps (storedAccount db acc) ops)) \<and>
      db_reachable db' \<and> (\<forall>k. validID k \<longrightarrow>
        storedAccount db' k = (if k = acc then MarkPersisted (runOps (storedAccount db acc) ops) else storedAccount db k))"
    if "validID acc" "length ops \<le> 100" "events (runOps (storedAccount db acc) ops) \<noteq> []"
    using storedAccount_saved [OF r that] by (simp add: ledgerRepos_def)
  show "\<exists>a'. repoSave ledgerRepos now db a = Inr (db, a') \<and> events a' = []" if "events a = []"
    using Save_nothing [OF that] that by (simp add: ledgerRepos_def SetAggregateType_def)
qed


section \<open>Movements of payments\<close>

text \<open>What a movement of \<open>amt\<close> from \<open>D\<close> to \<open>C\<close> adds to an account's balance.\<close>

definition movementDelta :: "string \<Rightarrow> string \<Rightarrow> string \<Rightarrow> int64 \<Rightarrow> string \<Rightarrow> string \<Rightarrow> int64" where
  "movementDelta D C cur amt k c = (if c = cur then (if k = D then - amt else if k = C then amt else 0) else 0)"

lemma posting_event_delta:
  assumes p: "paymentPosting acc tx ref pay cp cur amt t = Inr p" and acc: "validID acc"
    and sgn: "ref \<in> set creditTypes \<and> 0 \<le>s amt \<or> ref \<in> set debitTypes \<and> amt <s 0"
  shows "\<exists>d. NewLedgerAccountEventFromPosting acc p = Some (NewLedgerAccountEvent acc ledgerType d) \<and>
    deltaOf acc c d = (if c = ToUpper (TrimSpace cur) then amt else 0)"
  using preview_payment [OF p _ sgn] acc paymentPosting_fields [OF p]
  by (auto simp: validID_def NewLedgerAccountEventFromPosting_def deltaOf_def)

lemma movementEvents_delta:
  assumes m: "movementEvents D C dref cref pid tr amt = Inr evts" and v: "validID D" "validID C" "D \<noteq> C"
    and ref: "dref \<in> set debitTypes" "cref \<in> set creditTypes" and amt: "0 < sint amt"
    and cur: "lt_Currency tr = cur" "ToUpper (TrimSpace cur) = cur"
  shows "length evts = 2 \<and> (\<forall>k c. batchDelta k c evts = movementDelta D C cur amt k c)"
proof -
  have sgn: "dref \<in> set creditTypes \<and> 0 \<le>s - amt \<or> dref \<in> set debitTypes \<and> - amt <s 0"
    "cref \<in> set creditTypes \<and> 0 \<le>s amt \<or> cref \<in> set debitTypes \<and> amt <s 0"
    using ref amt sint_neg64_fits [of amt] sint64_range [of amt]
    by (auto simp: word_sle_eq word_sless_alt fits64_def)
  from m obtain p q where p: "paymentPosting D (lt_TransactionID tr) dref pid C (lt_Currency tr) (- amt) (lt_CreatedAt tr) = Inr p"
    and q: "paymentPosting C (lt_TransactionID tr) cref pid D (lt_Currency tr) amt (lt_CreatedAt tr) = Inr q"
    and evts: "ledgerPaymentEventsFromPostings [\<lparr>pei_accountID = D, pei_posting = p\<rparr>, \<lparr>pei_accountID = C, pei_posting = q\<rparr>] = Inr evts"
    by (auto simp: movementEvents_def paymentPosting_def)
  have t: "TrimSpace D = D" "TrimSpace C = C" using v by (simp_all add: validID_def trimmed_iff)
  from posting_event_delta [OF p v(1) sgn(1)] posting_event_delta [OF q v(2) sgn(2)] obtain d e where
    de: "NewLedgerAccountEventFromPosting D p = Some (NewLedgerAccountEvent D ledgerType d)"
      "NewLedgerAccountEventFromPosting C q = Some (NewLedgerAccountEvent C ledgerType e)" by blast
  then have "evts = [NewLedgerAccountEvent D ledgerType d, NewLedgerAccountEvent C ledgerType e]" using evts by simp
  moreover have "deltaOf D c d = (if c = cur then - amt else 0)" "deltaOf C c e = (if c = cur then amt else 0)" for c
    using posting_event_delta [OF p v(1) sgn(1), of c] posting_event_delta [OF q v(2) sgn(2), of c] de cur
    by (auto simp: NewLedgerAccountEvent_def)
  ultimately show ?thesis using t v(3)
    by (auto simp: batchDelta_def movementDelta_def NewLedgerAccountEvent_def)
qed

text \<open>A movement between two valid accounts is always expressed as two events, of unguarded types.\<close>

lemma unguarded [simp]:
  "\<not> requiresNonNegativeBalance EventNameLedgerAccountWithdrawFromIntent"
  "\<not> requiresNonNegativeBalance EventNameLedgerAccountDepositFromIntent"
  "\<not> requiresNonNegativeBalance EventNameLedgerAccountWithdrawFromRefund"
  "\<not> requiresNonNegativeBalance EventNameLedgerAccountDepositFromRefund"
  "\<not> requiresNonNegativeBalance EventNameLedgerAccountWithdrawFromChargeback"
  "\<not> requiresNonNegativeBalance EventNameLedgerAccountDepositFromChargeback"
  by code_simp+

lemma posting_event_postable:
  assumes p: "paymentPosting acc tx ref pay cp cur amt t = Inr p" and acc: "validID acc" "TrimSpace tx = tx"
    and sgn: "ref \<in> set creditTypes \<and> 0 \<le>s amt \<or> ref \<in> set debitTypes \<and> amt <s 0"
    and un: "\<not> requiresNonNegativeBalance ref"
    and a: "account_ok (st acc)" "aggregateID (st acc) = acc" "PostedTransactions (st acc) tx = None"
  shows "\<exists>d. NewLedgerAccountEventFromPosting acc p = Some (NewLedgerAccountEvent acc ledgerType d) \<and>
    postable (\<lambda>k. Some (st k)) (NewLedgerAccountEvent acc ledgerType d)"
proof -
  from sgn have "ref \<in> set postingReferenceTypes"
    by (auto simp: creditTypes_def debitTypes_def postingReferenceTypes_def)
  then have "TrimSpace ref = ref" by (intro TrimSpace_trimmed trimmed_referenceType)
  note f = paymentPosting_fields [OF p]
  from preview_payment [OF p _ sgn] acc(1) obtain d where d: "newLedgerPaymentEvent p = Some d"
    "previewLedgerPostingFromEvent acc d = Inr (Some p)" by (auto simp: validID_def)
  from d(1) acc(1) have ev: "NewLedgerAccountEventFromPosting acc p = Some (NewLedgerAccountEvent acc ledgerType d)"
    by (simp add: NewLedgerAccountEventFromPosting_def validID_def)
  have k: "TrimSpace acc = acc" using acc(1) by (simp add: validID_def trimmed_iff)
  have "\<not> overdraws (st acc) p" "PostedTransactions (st acc) (p_TransactionID p) = None"
    using f un a(3) acc(2) \<open>TrimSpace ref = ref\<close> by (simp_all add: overdraws_def)
  then have "postable (\<lambda>k. Some (st k)) (NewLedgerAccountEvent acc ledgerType d)"
    unfolding postable_def using a(1,2) d(2) k by (intro exI [of _ "st acc"] exI [of _ p]) (simp add: NewLedgerAccountEvent_def)
  with ev show ?thesis by blast
qed

lemma movementEvents_postable:
  assumes v: "validID D" "validID C" "D \<noteq> C" "validID pid" "validID (lt_TransactionID tr)"
    and ref: "dref \<in> set debitTypes" "cref \<in> set creditTypes" "\<not> requiresNonNegativeBalance dref" "\<not> requiresNonNegativeBalance cref"
    and amt: "0 < sint amt" and cur: "TrimSpace (lt_Currency tr) \<noteq> []" and t: "\<not> IsZero (lt_CreatedAt tr)"
    and st: "account_ok (st D)" "aggregateID (st D) = D" "account_ok (st C)" "aggregateID (st C) = C"
    and new: "PostedTransactions (st D) (lt_TransactionID tr) = None" "PostedTransactions (st C) (lt_TransactionID tr) = None"
  shows "\<exists>d e. movementEvents D C dref cref pid tr amt =
      Inr [NewLedgerAccountEvent D ledgerType d, NewLedgerAccountEvent C ledgerType e] \<and>
    postable (\<lambda>k. Some (st k)) (NewLedgerAccountEvent D ledgerType d) \<and> postable (\<lambda>k. Some (st k)) (NewLedgerAccountEvent C ledgerType e)"
proof -
  let ?tx = "lt_TransactionID tr"
  have sgn: "dref \<in> set creditTypes \<and> 0 \<le>s - amt \<or> dref \<in> set debitTypes \<and> - amt <s 0"
    "cref \<in> set creditTypes \<and> 0 \<le>s amt \<or> cref \<in> set debitTypes \<and> amt <s 0"
    using ref amt sint_neg64_fits [of amt] sint64_range [of amt]
    by (auto simp: word_sle_eq word_sless_alt fits64_def)
  from amt have nz: "amt \<noteq> 0" "- amt \<noteq> 0" by auto
  have rt: "dref \<in> set postingReferenceTypes" "cref \<in> set postingReferenceTypes"
    using ref(1,2) by (auto simp: creditTypes_def debitTypes_def postingReferenceTypes_def)
  then have rtt: "TrimSpace dref = dref" "TrimSpace cref = cref" by (auto intro!: TrimSpace_trimmed trimmed_referenceType)
  have tx: "TrimSpace ?tx = ?tx" "?tx \<noteq> []" and pid: "TrimSpace pid = pid" "pid \<noteq> []"
    and D: "TrimSpace D = D" "D \<noteq> []" "trimmed D" and C: "TrimSpace C = C" "C \<noteq> []" "trimmed C"
    using v by (auto simp: validID_def trimmed_iff)
  obtain p where p: "paymentPosting D ?tx dref pid C (lt_Currency tr) (- amt) (lt_CreatedAt tr) = Inr p"
    using NewLedgerAccountPaymentPosting_ok [OF _ refl, of "\<lparr>pi_AccountID = D, pi_TransactionID = ?tx, pi_ReferenceType = dref,
      pi_ReferenceID = pid, pi_CounterpartyAccountID = C, pi_Currency = lt_Currency tr, pi_AmountDelta = - amt, pi_BookedAt = lt_CreatedAt tr\<rparr>"]
      rt rtt tx pid D C v(3) nz cur t by (auto simp: posting_ok_def paymentPosting_def trimmed_iff)
  obtain q where q: "paymentPosting C ?tx cref pid D (lt_Currency tr) amt (lt_CreatedAt tr) = Inr q"
    using NewLedgerAccountPaymentPosting_ok [OF _ refl, of "\<lparr>pi_AccountID = C, pi_TransactionID = ?tx, pi_ReferenceType = cref,
      pi_ReferenceID = pid, pi_CounterpartyAccountID = D, pi_Currency = lt_Currency tr, pi_AmountDelta = amt, pi_BookedAt = lt_CreatedAt tr\<rparr>"]
      rt rtt tx pid D C v(3) nz cur t by (auto simp: posting_ok_def paymentPosting_def trimmed_iff)
  from posting_event_postable [where st = st, OF p v(1) tx(1) sgn(1) ref(3) st(1,2) new(1)]
    posting_event_postable [where st = st, OF q v(2) tx(1) sgn(2) ref(4) st(3,4) new(2)]
  obtain d e where "NewLedgerAccountEventFromPosting D p = Some (NewLedgerAccountEvent D ledgerType d)"
    "NewLedgerAccountEventFromPosting C q = Some (NewLedgerAccountEvent C ledgerType e)"
    and post: "postable (\<lambda>k. Some (st k)) (NewLedgerAccountEvent D ledgerType d)" "postable (\<lambda>k. Some (st k)) (NewLedgerAccountEvent C ledgerType e)"
    by blast
  then have "movementEvents D C dref cref pid tr amt = Inr [NewLedgerAccountEvent D ledgerType d, NewLedgerAccountEvent C ledgerType e]"
    using p q by (simp add: movementEvents_def paymentPosting_def)
  with post show ?thesis by blast
qed

lemma succeededEvents_delta:
  assumes "succeededEvents t command = Inr evts"
  shows "length evts = 2 \<and> (\<forall>k c. batchDelta k c evts = movementDelta (ledgerClearingAccountID (psi_ClearingAccountKey command))
    (TrimSpace (psi_CreditAccountID command)) (ToUpper (TrimSpace (psi_Currency command))) (psi_Amount command) k c)"
proof -
  from assms obtain b tr where b: "NewPaymentSucceededBooking command = Inr b"
    and tr: "NewLedgerTransaction t (SucceededBooking_LedgerTransactionID b) (SucceededBooking_LedgerEntries b) = Inr tr"
    and m: "movementEvents (psb_DebitAccountID b) (psb_CreditAccountID b) EventNameLedgerAccountWithdrawFromIntent
      EventNameLedgerAccountDepositFromIntent (psb_PaymentID b) tr (psb_Amount b) = Inr evts"
    by (auto simp: succeededEvents_def)
  note f = SucceededBooking_fields [OF b]
  have cur: "lt_Currency tr = ToUpper (TrimSpace (psi_Currency command))"
    using SucceededBooking_moves [OF b, of t] tr by (auto simp: movesFunds_def)
  show ?thesis
    using movementEvents_delta [OF m _ _ _ _ _ _ cur] f clearing_trimmed [OF f(5)]
    by (simp add: validID_def debitTypes_def creditTypes_def)
qed

lemma reversedEvents_delta:
  assumes "reversedEvents t command = Inr evts"
  shows "length evts = 2 \<and> (\<forall>k c. batchDelta k c evts = movementDelta (TrimSpace (pri_CreditAccountID command))
    (ledgerClearingAccountID (pri_ClearingAccountKey command)) (ToUpper (TrimSpace (pri_Currency command))) (pri_Amount command) k c)"
proof -
  from assms obtain b tr where b: "NewPaymentReversalBooking command = Inr b"
    and tr: "NewLedgerTransaction t (ReversalBooking_LedgerTransactionID b) (ReversalBooking_LedgerEntries b) = Inr tr"
    and m: "movementEvents (prb_DebitAccountID b) (prb_CreditAccountID b)
      (debitLedgerEventNameForPaymentReversal (prb_ReversalType b))
      (creditLedgerEventNameForPaymentReversal (prb_ReversalType b)) (prb_PaymentID b) tr (prb_Amount b) = Inr evts"
    by (auto simp: reversedEvents_def)
  note f = ReversalBooking_fields [OF b]
  have cur: "lt_Currency tr = ToUpper (TrimSpace (pri_Currency command))"
    using ReversalBooking_moves [OF b, of t] tr by (auto simp: movesFunds_def)
  have "debitLedgerEventNameForPaymentReversal (prb_ReversalType b) \<in> set debitTypes"
    "creditLedgerEventNameForPaymentReversal (prb_ReversalType b) \<in> set creditTypes"
    using ReversalBooking_type [OF b]
    by (auto simp: debitLedgerEventNameForPaymentReversal_def creditLedgerEventNameForPaymentReversal_def
        debitTypes_def creditTypes_def)
  from movementEvents_delta [OF m _ _ _ this _ cur] f clearing_trimmed [OF f(5)] show ?thesis
    by (simp add: validID_def)
qed

lemma opsFor_distinct:
  assumes "distinct (map (\<lambda>e. TrimSpace (ev_AggregateID e)) evts)" "e \<in> set evts"
  shows "opsFor (TrimSpace (ev_AggregateID e)) evts = [OpApplyPostingEvent (ev_EventData e)]"
  using assms
proof (induction evts)
  case (Cons x evts)
  have "opsFor k evts = []" if "k \<notin> (\<lambda>e. TrimSpace (ev_AggregateID e)) ` set evts" for k
    using that by (auto simp: opsFor_def filter_empty_conv)
  with Cons show ?case by (cases "e = x") force+
qed simp

lemma postable_posts:
  assumes "postable (\<lambda>k. Some (st k)) e" "k = TrimSpace (ev_AggregateID e)"
  shows "\<exists>p. PostedTransactions (st k) (p_TransactionID p) = None \<and>
    PostedTransactions (runOps (st k) [OpApplyPostingEvent (ev_EventData e)]) (p_TransactionID p) = Some p"
proof -
  from assms obtain p where a: "account_ok (st k)" "previewLedgerPostingFromEvent (aggregateID (st k)) (ev_EventData e) = Inr (Some p)"
    "PostedTransactions (st k) (p_TransactionID p) = None" "\<not> overdraws (st k) p"
    by (auto simp: postable_def)
  then have "ApplyPostingEvent (st k) (ev_EventData e) = (Inr True, postTo (st k) (ev_EventData e) p)"
    using runOp_eq [of "st k" "OpApplyPostingEvent (ev_EventData e)"] by (simp add: opPosting_def postOnce_def)
  with a(3) show ?thesis by (intro exI [of _ p]) (simp add: runOps_def postTo_def)
qed

context account_repository
begin

lemma RecordLedgerEvents_posts:
  assumes "ok db" "length evts \<le> 100" "distinct (map (\<lambda>e. TrimSpace (ev_AggregateID e)) evts)" "evts \<noteq> []"
    and "\<forall>e\<in>set evts. TrimSpace (ev_AggregateID e) \<noteq> [] \<and> postable (\<lambda>k. Some (stored db k)) e"
  shows "\<exists>db'. RecordLedgerEvents repos now evts db = (Inr (), db') \<and> db' \<noteq> db"
proof -
  from RecordLedgerEvents_fresh [OF assms(1-3,5)] obtain db' where db': "RecordLedgerEvents repos now evts db = (Inr (), db')" by blast
  from assms(4) obtain e where e: "e \<in> set evts" by (cases evts) auto
  let ?k = "TrimSpace (ev_AggregateID e)"
  from e assms(5) have v: "validID ?k" and p: "postable (\<lambda>k. Some (stored db k)) e" by simp_all
  from RecordLedgerEvents_stored [OF assms(1,2) db'] v opsFor_distinct [OF assms(3) e]
  have "stored db' ?k = MarkPersisted (runOps (stored db ?k) [OpApplyPostingEvent (ev_EventData e)])" by simp
  then have "PostedTransactions (stored db' ?k) = PostedTransactions (runOps (stored db ?k) [OpApplyPostingEvent (ev_EventData e)])"
    by (simp add: MarkPersisted_def)
  with postable_posts [OF p refl] have "PostedTransactions (stored db' ?k) \<noteq> PostedTransactions (stored db ?k)"
    by (metis option.distinct(1))
  with db' show ?thesis by auto
qed

end

lemma movement_recorded:
  assumes r: "db_reachable db" and v: "validID D" "validID C" "D \<noteq> C" "validID pid" "validID (lt_TransactionID tr)"
    and ref: "dref \<in> set debitTypes" "cref \<in> set creditTypes" "\<not> requiresNonNegativeBalance dref" "\<not> requiresNonNegativeBalance cref"
    and amt: "0 < sint amt" and cur: "TrimSpace (lt_Currency tr) \<noteq> []" and t: "\<not> IsZero (lt_CreatedAt tr)"
    and new: "PostedTransactions (storedAccount db D) (lt_TransactionID tr) = None"
      "PostedTransactions (storedAccount db C) (lt_TransactionID tr) = None"
  shows "\<exists>evts db'. movementEvents D C dref cref pid tr amt = Inr evts \<and>
    RecordLedgerEvents ledgerRepos now evts db = (Inr (), db') \<and> db' \<noteq> db"
proof -
  from event_store.stored_inv [OF r] v have st: "account_ok (storedAccount db D)" "aggregateID (storedAccount db D) = D"
    "account_ok (storedAccount db C)" "aggregateID (storedAccount db C) = C" by (auto simp: ledger_inv_def)
  from movementEvents_postable [where st = "storedAccount db", OF v ref amt cur t st new] obtain d e where
    m: "movementEvents D C dref cref pid tr amt = Inr [NewLedgerAccountEvent D ledgerType d, NewLedgerAccountEvent C ledgerType e]"
    and post: "postable (\<lambda>k. Some (storedAccount db k)) (NewLedgerAccountEvent D ledgerType d)"
      "postable (\<lambda>k. Some (storedAccount db k)) (NewLedgerAccountEvent C ledgerType e)" by blast
  have id: "TrimSpace (ev_AggregateID (NewLedgerAccountEvent k ledgerType x)) = k" if "validID k" for k x
    using that by (simp add: NewLedgerAccountEvent_def validID_def trimmed_iff)
  have "\<exists>db'. RecordLedgerEvents ledgerRepos now [NewLedgerAccountEvent D ledgerType d, NewLedgerAccountEvent C ledgerType e] db = (Inr (), db') \<and> db' \<noteq> db"
    using event_store.RecordLedgerEvents_posts [OF r, of "[NewLedgerAccountEvent D ledgerType d, NewLedgerAccountEvent C ledgerType e]" now]
      post v(1-3) by (simp add: id) (simp add: validID_def)
  with m show ?thesis by blast
qed

lemma NewLedgerTransaction_time: "NewLedgerTransaction t tx entries = Inr tr \<Longrightarrow> lt_CreatedAt tr = t"
  by (auto simp: NewLedgerTransaction_def Let_def split: if_splits)

lemma payment_recorded_once:
  assumes r: "db_reachable db" and b: "NewPaymentSucceededBooking s = Inr b" and t: "\<not> IsZero t"
    and new: "PostedTransactions (storedAccount db (psb_DebitAccountID b)) (SucceededBooking_LedgerTransactionID b) = None"
      "PostedTransactions (storedAccount db (psb_CreditAccountID b)) (SucceededBooking_LedgerTransactionID b) = None"
  shows "\<exists>db'. RecordPaymentSucceeded ledgerRepos now t s db = (Inr (), db') \<and> db' \<noteq> db"
proof -
  note f = SucceededBooking_fields [OF b]
  have v: "validID (psb_DebitAccountID b)" "validID (psb_CreditAccountID b)" "psb_DebitAccountID b \<noteq> psb_CreditAccountID b"
    "validID (psb_PaymentID b)"
    using f clearing_trimmed [OF f(5)] by (simp_all add: validID_def)
  from SucceededBooking_moves [OF b, of t] obtain tr where
    tr: "NewLedgerTransaction t (SucceededBooking_LedgerTransactionID b) (SucceededBooking_LedgerEntries b) = Inr tr"
      "lt_TransactionID tr = SucceededBooking_LedgerTransactionID b" "lt_Currency tr = psb_Currency b"
    using f by (auto simp: movesFunds_def)
  have tx: "validID (lt_TransactionID tr)"
    using tr(2) payment_txID_trimmed(1) [of "TrimSpace (psb_PaymentID b)"] by (simp add: validID_def SucceededBooking_LedgerTransactionID_def)
  have cur: "TrimSpace (lt_Currency tr) \<noteq> []" using tr(3) f by simp
  have at: "\<not> IsZero (lt_CreatedAt tr)" using NewLedgerTransaction_time [OF tr(1)] t by simp
  from movement_recorded [OF r v tx _ _ unguarded(1,2) _ cur at, of "psb_Amount b" now] new tr(2) f(4,8)
  show ?thesis using b tr(1) by (auto simp: RecordPaymentSucceeded_def succeededEvents_def debitTypes_def creditTypes_def)
qed

lemma reversal_recorded_once:
  assumes r: "db_reachable db" and b: "NewPaymentReversalBooking s = Inr b" and t: "\<not> IsZero t"
    and new: "PostedTransactions (storedAccount db (prb_DebitAccountID b)) (ReversalBooking_LedgerTransactionID b) = None"
      "PostedTransactions (storedAccount db (prb_CreditAccountID b)) (ReversalBooking_LedgerTransactionID b) = None"
  shows "\<exists>db'. RecordPaymentReversed ledgerRepos now t s db = (Inr (), db') \<and> db' \<noteq> db"
proof -
  let ?dref = "debitLedgerEventNameForPaymentReversal (prb_ReversalType b)"
  let ?cref = "creditLedgerEventNameForPaymentReversal (prb_ReversalType b)"
  note f = ReversalBooking_fields [OF b]
  have v: "validID (prb_DebitAccountID b)" "validID (prb_CreditAccountID b)" "prb_DebitAccountID b \<noteq> prb_CreditAccountID b"
    "validID (prb_PaymentID b)"
    using f clearing_trimmed [OF f(5)] by (simp_all add: validID_def)
  from ReversalBooking_moves [OF b, of t] obtain tr where
    tr: "NewLedgerTransaction t (ReversalBooking_LedgerTransactionID b) (ReversalBooking_LedgerEntries b) = Inr tr"
      "lt_TransactionID tr = ReversalBooking_LedgerTransactionID b" "lt_Currency tr = prb_Currency b"
    using f by (auto simp: movesFunds_def)
  from TrimSpace_ReversalID [OF b] have tx: "validID (lt_TransactionID tr)"
    using tr(2) by (simp add: validID_def trimmed_iff ReversalBooking_LedgerTransactionID_def)
  have cur: "TrimSpace (lt_Currency tr) \<noteq> []" using tr(3) f by simp
  have at: "\<not> IsZero (lt_CreatedAt tr)" using NewLedgerTransaction_time [OF tr(1)] t by simp
  have ref: "?dref \<in> set debitTypes" "?cref \<in> set creditTypes"
    "\<not> requiresNonNegativeBalance ?dref" "\<not> requiresNonNegativeBalance ?cref"
    using ReversalBooking_type [OF b]
    by (auto simp: debitLedgerEventNameForPaymentReversal_def creditLedgerEventNameForPaymentReversal_def
        debitTypes_def creditTypes_def)
  from movement_recorded [OF r v tx ref _ cur at, of "prb_Amount b" now] new tr(2) f(4,8)
  show ?thesis using b tr(1) by (auto simp: RecordPaymentReversed_def reversedEvents_def)
qed

section \<open>Properties\<close>

text \<open>The payment of the witnesses.\<close>

definition sampleSucceeded :: PaymentSucceededBookingInput where
  "sampleSucceeded = \<lparr>psi_PaymentID = '' p1 '', psi_TransactionID = [], psi_ClearingAccountKey = ''Stripe'',
     psi_CreditAccountID = ''u1'', psi_Currency = ''usd'', psi_Amount = 1500\<rparr>"

definition sampleReversal :: PaymentReversalBookingInput where
  "sampleReversal = \<lparr>pri_PaymentID = '' p1 '', pri_TransactionID = [], pri_ClearingAccountKey = ''Stripe'',
     pri_CreditAccountID = ''u1'', pri_Currency = ''usd'', pri_Amount = 1500, pri_ReversalType = EventPaymentRefunded\<rparr>"

definition sampleEvents :: "LedgerEvent Event list" where
  "sampleEvents = (case succeededEvents sampleTime sampleSucceeded of Inr evts \<Rightarrow> evts | _ \<Rightarrow> [])"

lemma sampleEvents_length: "length sampleEvents = 2"
  by code_simp

lemma sample_recorded:
  obtains db1 where "RecordLedgerEvents ledgerRepos 7 sampleEvents emptyDB = (Inr (), db1)"
    "RecordPaymentSucceeded ledgerRepos 7 sampleTime sampleSucceeded emptyDB = (Inr (), db1)" "db1 \<noteq> emptyDB" "db_reachable db1"
proof -
  obtain b where b: "NewPaymentSucceededBooking sampleSucceeded = Inr b"
    "PostedTransactions (storedAccount emptyDB (psb_DebitAccountID b)) (SucceededBooking_LedgerTransactionID b) = None"
    "PostedTransactions (storedAccount emptyDB (psb_CreditAccountID b)) (SucceededBooking_LedgerTransactionID b) = None"
  proof (cases "NewPaymentSucceededBooking sampleSucceeded")
    case (Inl e)
    moreover have "NewPaymentSucceededBooking sampleSucceeded \<noteq> Inl e" by code_simp
    ultimately show ?thesis by simp
  next
    case (Inr b)
    moreover have "case NewPaymentSucceededBooking sampleSucceeded of Inl _ \<Rightarrow> False | Inr b \<Rightarrow>
      PostedTransactions (storedAccount emptyDB (psb_DebitAccountID b)) (SucceededBooking_LedgerTransactionID b) = None \<and>
      PostedTransactions (storedAccount emptyDB (psb_CreditAccountID b)) (SucceededBooking_LedgerTransactionID b) = None" by code_simp
    ultimately show ?thesis using that by simp
  qed
  have "\<not> IsZero sampleTime" by code_simp
  from payment_recorded_once [OF db_empty b(1) this b(2,3), of 7] obtain db1 where
    db1: "RecordPaymentSucceeded ledgerRepos 7 sampleTime sampleSucceeded emptyDB = (Inr (), db1)" "db1 \<noteq> emptyDB" by blast
  have "isl (succeededEvents sampleTime sampleSucceeded) = False" by code_simp
  with db1(1) have rec: "RecordLedgerEvents ledgerRepos 7 sampleEvents emptyDB = (Inr (), db1)"
    by (auto simp: RecordPaymentSucceeded_def sampleEvents_def split: sum.splits)
  from event_store.RecordLedgerEvents_stored [OF db_empty _ rec] sampleEvents_length have "db_reachable db1" by simp
  with that rec db1 show thesis by blast
qed

text \<open>A batch of a reachable database, with the failing outcome included.\<close>

lemma RecordLedgerEvents_outcome:
  assumes "db_reachable db" "length evts \<le> 100" "RecordLedgerEvents ledgerRepos now evts db = (r, db')"
  shows "db_reachable db' \<and> (db' = db \<or> r = Inr () \<and>
    (\<forall>k c. validID k \<longrightarrow> balanceIn (storedAccount db' k) c = balanceIn (storedAccount db k) c + batchDelta k c evts))"
proof (cases r)
  case (Inl e)
  with assms have "db' = db"
    by (auto simp: RecordLedgerEvents_def WithTransaction_def split: if_splits sum.splits)
  with assms(1) show ?thesis by simp
next
  case (Inr u)
  with assms event_store.RecordLedgerEvents_all_or_nothing [of db evts now u db']
    event_store.RecordLedgerEvents_stored [of db evts now u db'] show ?thesis by auto
qed


text \<open>
  C4 (safety). A batch of ledger events is recorded all or nothing: on a reachable database, a
  successful \<open>RecordLedgerEvents\<close> either changes nothing (every posting was there already) or adds
  to every account and currency exactly the sum of the batch's postings for it; a failing one
  leaves the database as it was.
\<close>

theorem RecordLedgerEvents_atomic:
  assumes "db_reachable db" "length evts \<le> 100" "RecordLedgerEvents ledgerRepos now evts db = (r, db')"
  shows "db_reachable db' \<and> (db' = db \<or> r = Inr () \<and>
    (\<forall>k cur. validID k \<longrightarrow> balanceIn (storedAccount db' k) cur = balanceIn (storedAccount db k) cur + batchDelta k cur evts))"
  by (rule RecordLedgerEvents_outcome [OF assms])

theorem RecordLedgerEvents_atomic_witness:
  "\<exists>db1. RecordLedgerEvents ledgerRepos 7 sampleEvents emptyDB = (Inr (), db1) \<and> db_reachable db1 \<and>
     sint (balanceIn (storedAccount db1 ''u1'') ''USD'') = 1500"
proof -
  obtain db1 where db1: "RecordLedgerEvents ledgerRepos 7 sampleEvents emptyDB = (Inr (), db1)" "db1 \<noteq> emptyDB"
    by (rule sample_recorded)
  have "balanceIn (storedAccount emptyDB ''u1'') ''USD'' + batchDelta ''u1'' ''USD'' sampleEvents = 1500" "validID ''u1''"
    by (code_simp, code_simp)
  with RecordLedgerEvents_atomic [OF db_empty _ db1(1)] db1 sampleEvents_length
  have "db_reachable db1 \<and> sint (balanceIn (storedAccount db1 ''u1'') ''USD'') = 1500" by simp
  with db1(1) show ?thesis by blast
qed

text \<open>
  C20 (safety). Redelivery: after a batch has been recorded, recording it again, on the database it
  left or on any later one that has kept the postings, succeeds and changes nothing.
\<close>

theorem RecordLedgerEvents_idempotent:
  assumes "db_reachable db" "length evts \<le> 100" "RecordLedgerEvents ledgerRepos now evts db = (Inr u, db')"
    and "db_reachable db2"
    and "\<And>k tx q. validID k \<Longrightarrow> PostedTransactions (storedAccount db' k) tx = Some q \<Longrightarrow> PostedTransactions (storedAccount db2 k) tx = Some q"
  shows "RecordLedgerEvents ledgerRepos now2 evts db2 = (Inr (), db2)"
  using assms by (rule event_store.RecordLedgerEvents_redelivered)

theorem RecordLedgerEvents_idempotent_witness:
  "\<exists>db1. RecordLedgerEvents ledgerRepos 7 sampleEvents emptyDB = (Inr (), db1) \<and>
     RecordLedgerEvents ledgerRepos 9 sampleEvents db1 = (Inr (), db1)"
proof -
  obtain db1 where "RecordLedgerEvents ledgerRepos 7 sampleEvents emptyDB = (Inr (), db1)" "db_reachable db1"
    by (rule sample_recorded)
  with RecordLedgerEvents_idempotent [OF db_empty, of sampleEvents 7 "()" db1 db1 9] sampleEvents_length show ?thesis by auto
qed

text \<open>
  C32 (functional). Recording a succeeded payment moves its amount from the provider's clearing account
  to the credited account, in the payment's currency and nowhere else, or changes nothing when it
  was recorded before; recording a reversal of the same payment moves the amount back. So a payment
  that is recorded and then reversed leaves every balance as it was before.
\<close>

theorem payment_then_reversal:
  assumes "db_reachable db" "RecordPaymentSucceeded ledgerRepos now t s db = (Inr (), db1)" "db1 \<noteq> db"
    and "RecordPaymentReversed ledgerRepos now' t' r db1 = (Inr (), db2)" "db2 \<noteq> db1"
    and "pri_CreditAccountID r = psi_CreditAccountID s" "pri_ClearingAccountKey r = psi_ClearingAccountKey s"
    and "pri_Currency r = psi_Currency s" "pri_Amount r = psi_Amount s" "validID k"
  shows "balanceIn (storedAccount db1 k) c = balanceIn (storedAccount db k) c +
      movementDelta (ledgerClearingAccountID (psi_ClearingAccountKey s)) (TrimSpace (psi_CreditAccountID s))
        (ToUpper (TrimSpace (psi_Currency s))) (psi_Amount s) k c \<and>
    balanceIn (storedAccount db2 k) c = balanceIn (storedAccount db k) c"
proof -
  from assms(2,3) obtain e1 where e1: "succeededEvents t s = Inr e1" "RecordLedgerEvents ledgerRepos now e1 db = (Inr (), db1)"
    by (auto simp: RecordPaymentSucceeded_def split: sum.splits)
  from assms(4,5) obtain e2 where e2: "reversedEvents t' r = Inr e2" "RecordLedgerEvents ledgerRepos now' e2 db1 = (Inr (), db2)"
    by (auto simp: RecordPaymentReversed_def split: sum.splits)
  note d1 = succeededEvents_delta [OF e1(1)]
  note d2 = reversedEvents_delta [OF e2(1)]
  from event_store.RecordLedgerEvents_all_or_nothing [OF assms(1) _ e1(2)] d1 assms(3,10)
  have 1: "balanceIn (storedAccount db1 k) c = balanceIn (storedAccount db k) c + batchDelta k c e1" by simp
  from event_store.RecordLedgerEvents_stored [OF assms(1) _ e1(2)] d1 have "db_reachable db1" by simp
  from event_store.RecordLedgerEvents_all_or_nothing [OF this _ e2(2)] d2 assms(5,10)
  have 2: "balanceIn (storedAccount db2 k) c = balanceIn (storedAccount db1 k) c + batchDelta k c e2" by simp
  from e1(1) have ne: "ledgerClearingAccountID (psi_ClearingAccountKey s) \<noteq> TrimSpace (psi_CreditAccountID s)"
    by (auto simp: succeededEvents_def dest: SucceededBooking_fields(9))
  from 1 2 d1 d2 assms(6-9) ne show ?thesis by (auto simp: movementDelta_def)
qed

lemma sample_reversed:
  assumes rec: "RecordLedgerEvents ledgerRepos 7 sampleEvents emptyDB = (Inr (), db1)"
  shows "\<exists>db2. RecordPaymentReversed ledgerRepos 8 sampleTime sampleReversal db1 = (Inr (), db2) \<and> db2 \<noteq> db1"
proof -
  let ?none = "\<lambda>b k. PostedTransactions (runOps (storedAccount emptyDB k) (opsFor k sampleEvents)) (ReversalBooking_LedgerTransactionID b) = None"
  have "case NewPaymentReversalBooking sampleReversal of Inl _ \<Rightarrow> False
    | Inr b \<Rightarrow> ?none b (prb_DebitAccountID b) \<and> ?none b (prb_CreditAccountID b)" by code_simp
  then obtain b where b: "NewPaymentReversalBooking sampleReversal = Inr b" "?none b (prb_DebitAccountID b)" "?none b (prb_CreditAccountID b)"
    by (auto split: sum.splits)
  note f = ReversalBooking_fields [OF b(1)]
  have v: "validID (prb_DebitAccountID b)" "validID (prb_CreditAccountID b)"
    using f clearing_trimmed [OF f(5)] by (simp_all add: validID_def)
  have "\<not> IsZero sampleTime" by code_simp
  moreover from event_store.RecordLedgerEvents_stored [OF db_empty _ rec] sampleEvents_length
  have "db_reachable db1" and st: "\<And>k. validID k \<Longrightarrow> storedAccount db1 k = MarkPersisted (runOps (storedAccount emptyDB k) (opsFor k sampleEvents))"
    by simp_all
  moreover have "PostedTransactions (storedAccount db1 k) = PostedTransactions (runOps (storedAccount emptyDB k) (opsFor k sampleEvents))"
    if "validID k" for k using st [OF that] by (simp add: MarkPersisted_def)
  ultimately show ?thesis using reversal_recorded_once [OF _ b(1)] b(2,3) v by simp
qed

theorem payment_then_reversal_witness:
  "\<exists>db1 db2. RecordPaymentSucceeded ledgerRepos 7 sampleTime sampleSucceeded emptyDB = (Inr (), db1) \<and>
     RecordPaymentReversed ledgerRepos 8 sampleTime sampleReversal db1 = (Inr (), db2) \<and>
     sint (balanceIn (storedAccount db1 ''u1'') ''USD'') = 1500 \<and> balanceIn (storedAccount db2 ''u1'') ''USD'' = 0"
proof -
  obtain db1 where rec: "RecordLedgerEvents ledgerRepos 7 sampleEvents emptyDB = (Inr (), db1)"
    and s: "RecordPaymentSucceeded ledgerRepos 7 sampleTime sampleSucceeded emptyDB = (Inr (), db1)" "db1 \<noteq> emptyDB"
    by (rule sample_recorded)
  from sample_reversed [OF rec] obtain db2 where
    r: "RecordPaymentReversed ledgerRepos 8 sampleTime sampleReversal db1 = (Inr (), db2)" "db2 \<noteq> db1" by blast
  have "validID ''u1''" by code_simp
  note payment_then_reversal [OF db_empty s r _ _ _ _ this, of "''USD''"]
  moreover have "pri_CreditAccountID sampleReversal = psi_CreditAccountID sampleSucceeded"
    "pri_ClearingAccountKey sampleReversal = psi_ClearingAccountKey sampleSucceeded"
    "pri_Currency sampleReversal = psi_Currency sampleSucceeded" "pri_Amount sampleReversal = psi_Amount sampleSucceeded"
    by (simp_all add: sampleReversal_def sampleSucceeded_def)
  moreover have "balanceIn (storedAccount emptyDB ''u1'') ''USD'' = 0" by code_simp
  moreover have "movementDelta (ledgerClearingAccountID (psi_ClearingAccountKey sampleSucceeded)) (TrimSpace (psi_CreditAccountID sampleSucceeded))
      (ToUpper (TrimSpace (psi_Currency sampleSucceeded))) (psi_Amount sampleSucceeded) ''u1'' ''USD'' = 1500" by code_simp
  ultimately show ?thesis using s(1) r(1) by simp
qed

text \<open>
  C21 (liveness). A payment that has not been recorded is: a valid payment command whose ledger
  transaction neither account has posted is accepted, and its amount is then moved from the
  provider's clearing account to the credited account, in the payment's currency, and nowhere else.
\<close>

theorem payment_recorded:
  assumes "db_reachable db" "NewPaymentSucceededBooking s = Inr b" "\<not> IsZero t"
    and "PostedTransactions (storedAccount db (psb_DebitAccountID b)) (SucceededBooking_LedgerTransactionID b) = None"
      "PostedTransactions (storedAccount db (psb_CreditAccountID b)) (SucceededBooking_LedgerTransactionID b) = None"
  shows "\<exists>db'. RecordPaymentSucceeded ledgerRepos now t s db = (Inr (), db') \<and> db_reachable db' \<and>
    (\<forall>k c. validID k \<longrightarrow> balanceIn (storedAccount db' k) c = balanceIn (storedAccount db k) c +
      movementDelta (psb_DebitAccountID b) (psb_CreditAccountID b) (psb_Currency b) (psb_Amount b) k c)"
proof -
  from payment_recorded_once [OF assms, of now] obtain db' where
    db': "RecordPaymentSucceeded ledgerRepos now t s db = (Inr (), db')" "db' \<noteq> db" by blast
  then obtain evts where e: "succeededEvents t s = Inr evts" "RecordLedgerEvents ledgerRepos now evts db = (Inr (), db')"
    by (auto simp: RecordPaymentSucceeded_def split: sum.splits)
  note d = succeededEvents_delta [OF e(1)]
  from event_store.RecordLedgerEvents_all_or_nothing [OF assms(1) _ e(2)] event_store.RecordLedgerEvents_stored [OF assms(1) _ e(2)]
    d db'(2) SucceededBooking_fields(1-4) [OF assms(2)] db'(1) show ?thesis by simp
qed

theorem payment_recorded_witness:
  "\<exists>db1. RecordPaymentSucceeded ledgerRepos 7 sampleTime sampleSucceeded emptyDB = (Inr (), db1) \<and>
     balanceIn (storedAccount db1 ''u1'') ''USD'' = 1500 \<and> balanceIn (storedAccount db1 ''ledger:clearing:stripe'') ''USD'' = - 1500"
proof -
  let ?none = "\<lambda>b k. PostedTransactions (storedAccount emptyDB k) (SucceededBooking_LedgerTransactionID b) = None"
  let ?delta = "\<lambda>b k. balanceIn (storedAccount emptyDB k) ''USD'' +
      movementDelta (psb_DebitAccountID b) (psb_CreditAccountID b) (psb_Currency b) (psb_Amount b) k ''USD''"
  have "case NewPaymentSucceededBooking sampleSucceeded of Inl _ \<Rightarrow> False
    | Inr b \<Rightarrow> ?none b (psb_DebitAccountID b) \<and> ?none b (psb_CreditAccountID b) \<and>
        ?delta b ''u1'' = 1500 \<and> ?delta b ''ledger:clearing:stripe'' = - 1500" by code_simp
  then obtain b where b: "NewPaymentSucceededBooking sampleSucceeded = Inr b" "?none b (psb_DebitAccountID b)"
    "?none b (psb_CreditAccountID b)" "?delta b ''u1'' = 1500" "?delta b ''ledger:clearing:stripe'' = - 1500" by (auto split: sum.splits)
  have "\<not> IsZero sampleTime" "validID ''u1''" "validID ''ledger:clearing:stripe''" by (code_simp, code_simp, code_simp)
  with payment_recorded [OF db_empty b(1) _ b(2,3), of sampleTime 7] b(4,5) show ?thesis by auto
qed

end
