(* ===== verification/LedgerTransfer.thy ===== *)
theory LedgerTransfer
  imports LedgerService
begin

text \<open>
  What a transfer with a fee does to the accounts, for the service of \<^verbatim>\<open>LedgerService\<close>. The four
  postings of the transfer are operations on the loaded accounts; \<open>runsOn\<close> says which operations
  each account has run, every one of them applied.
\<close>

section \<open>Operations that were applied\<close>

fun isTransfer :: "LedgerOp \<Rightarrow> bool" where
  "isTransfer (OpTransferToAccount _ _ _ _ _) = True"
| "isTransfer (OpReceiveTransfer _ _ _ _ _) = True"
| "isTransfer _ = False"

fun transferTx :: "LedgerOp \<Rightarrow> string" where
  "transferTx (OpTransferToAccount tx _ _ _ _) = TrimSpace tx"
| "transferTx (OpReceiveTransfer tx _ _ _ _) = TrimSpace tx"
| "transferTx _ = []"

fun transferDelta :: "string \<Rightarrow> LedgerOp \<Rightarrow> int64" where
  "transferDelta c (OpTransferToAccount _ _ cur amt _) = (if c = ToUpper (TrimSpace cur) then - amt else 0)"
| "transferDelta c (OpReceiveTransfer _ _ cur amt _) = (if c = ToUpper (TrimSpace cur) then amt else 0)"
| "transferDelta c _ = 0"

fun allApplied :: "LedgerAccountAggregate \<Rightarrow> LedgerOp list \<Rightarrow> bool" where
  "allApplied a [] = True"
| "allApplied a (op # ops) = (fst (runOp a op) = Inr True \<and> allApplied (snd (runOp a op)) ops)"

lemma allApplied_snoc: "allApplied a (ops @ [op]) \<longleftrightarrow> allApplied a ops \<and> fst (runOp (runOps a ops) op) = Inr True"
  by (induction ops arbitrary: a) (auto simp: runOps_Cons)

lemma transfer_posting:
  "isTransfer op \<Longrightarrow> opPosting acc op = Inr (p, d) \<Longrightarrow> p_TransactionID p = transferTx op \<and>
     (if p_Currency p = c then p_AmountDelta p else 0) = transferDelta c op"
  by (cases op) (auto simp: opPosting_def paymentPosting_fields)

lemma transfer_applied:
  assumes "ledger_inv a" "isTransfer op" "runOp a op = (Inr True, b)"
  shows "balanceIn b c = balanceIn a c + transferDelta c op"
    "tx \<noteq> transferTx op \<Longrightarrow> PostedTransactions b tx = PostedTransactions a tx"
    "aggregateID b = aggregateID a" "length (events b) = Suc (length (events a))"
proof -
  from assms(1,3) obtain p d where p: "opPosting (aggregateID a) op = Inr (p, d)" "posting_ok (aggregateID a) p" "b = postTo a d p"
    by (rule runOp_cases) auto
  note f = transfer_posting [OF assms(2) p(1), of c]
  show "balanceIn b c = balanceIn a c + transferDelta c op" using balanceIn_postTo [OF p(2)] p(3) f by simp
  show "tx \<noteq> transferTx op \<Longrightarrow> PostedTransactions b tx = PostedTransactions a tx" using p(3) f by (simp add: postTo_def)
  show "aggregateID b = aggregateID a" "length (events b) = Suc (length (events a))" using p(3) by (simp_all add: postTo_def)
qed

text \<open>A transfer posting that is new to the account is applied unless it is refused.\<close>

lemma transfer_new:
  assumes "ledger_inv a" "isTransfer op" "PostedTransactions a (transferTx op) = None" "runOp a op = (Inr r, b)"
  shows "r"
proof -
  from assms(1) have ok: "account_ok a" by (simp add: ledger_inv_def)
  with assms(4) obtain p d where p: "opPosting (aggregateID a) op = Inr (p, d)"
    by (auto simp: runOp_eq split: sum.splits)
  with transfer_posting [OF assms(2) p] assms(3,4) ok show ?thesis
    by (auto simp: runOp_eq postOnce_def split: if_splits)
qed

lemma allApplied_effect:
  assumes "ledger_inv a" "\<forall>op\<in>set ops. isTransfer op" "allApplied a ops"
  shows "balanceIn (runOps a ops) c = balanceIn a c + sum_list (map (transferDelta c) ops) \<and>
    length (events (runOps a ops)) = length (events a) + length ops"
  using assms
proof (induction ops arbitrary: a)
  case (Cons op ops)
  then have op: "runOp a op = (Inr True, snd (runOp a op))" by (simp add: prod_eq_iff)
  from Cons.prems(1) op have "ledger_inv (snd (runOp a op))" by (rule runOp_inv)
  with Cons.IH [of "snd (runOp a op)"] Cons.prems transfer_applied(1,4) [OF Cons.prems(1) _ op] show ?case
    by (simp add: runOps_Cons)
qed simp

section \<open>The accounts of a transfer\<close>

definition runsOn :: "string set \<Rightarrow> (string \<Rightarrow> LedgerAccountAggregate) \<Rightarrow> (string \<Rightarrow> LedgerOp list) \<Rightarrow> loadedLedgerAccounts \<Rightarrow> bool" where
  "runsOn ids st ops accounts \<longleftrightarrow> (\<forall>k. accounts k = (if k \<in> ids then Some (runOps (st k) (ops k)) else None) \<and>
     (k \<in> ids \<longrightarrow> allApplied (st k) (ops k)))"

lemma runsOn_applied: "runsOn ids st ops accounts \<Longrightarrow> k \<in> ids \<Longrightarrow> allApplied (st k) (ops k)"
  by (simp add: runsOn_def)

lemma runsOn_lookup: "runsOn ids st ops accounts \<Longrightarrow> k \<in> ids \<Longrightarrow> accounts k = Some (runOps (st k) (ops k))"
  by (simp add: runsOn_def)

lemma runsOn_step:
  assumes "runsOn ids st ops accounts" "TrimSpace acc = acc" "onAccount accounts acc (\<lambda>a. runOp a op) = Inr (r, accounts')" "r"
  shows "runsOn ids st (ops(acc := ops acc @ [op])) accounts'"
proof -
  from assms(3,4) obtain a b where a: "accounts acc = Some a" "runOp a op = (Inr True, b)" "accounts' = accounts(acc \<mapsto> b)"
    unfolding onAccount_def assms(2) by (auto split: option.splits prod.splits sum.splits)
  with assms(1) have "acc \<in> ids" "a = runOps (st acc) (ops acc)" by (auto simp: runsOn_def split: if_splits)
  with a assms(1) show ?thesis by (auto simp: runsOn_def allApplied_snoc runOps_append runOps_Cons)
qed

lemma onAccount_runs:
  assumes "runsOn ids st ops accounts" "TrimSpace acc = acc" "onAccount accounts acc (\<lambda>a. runOp a op) = Inr (r, accounts')"
    and "isTransfer op" "ledger_inv (st acc)" "PostedTransactions (runOps (st acc) (ops acc)) (transferTx op) = None"
  shows "r"
proof -
  from assms(3) obtain a b where a: "accounts acc = Some a" "runOp a op = (Inr r, b)"
    unfolding onAccount_def assms(2) by (auto split: option.splits prod.splits sum.splits)
  with assms(1) have eq: "a = runOps (st acc) (ops acc)" by (auto simp: runsOn_def split: if_splits)
  with runOps_inv [OF assms(5)] have "ledger_inv a" by simp
  from transfer_new [OF this assms(4) _ a(2)] assms(6) eq show ?thesis by simp
qed

lemma countMatching_zero:
  "countMatching accounts expected = Inr 0 \<Longrightarrow> item \<in> set expected \<Longrightarrow> accounts (TrimSpace (xp_accountID item)) = Some a \<Longrightarrow>
     PostedTransaction a (p_TransactionID (xp_posting item)) = None"
  by (induction expected) (auto split: option.splits if_splits)

section \<open>The plan of a transfer\<close>

text \<open>The operations that a planned transfer makes on the account \<open>k\<close>.\<close>

definition feeOps :: "TransferToAccountCommand \<Rightarrow> transferPlan \<Rightarrow> string \<Rightarrow> LedgerOp list" where
  "feeOps command plan k = (case tp_fee plan of None \<Rightarrow> [] | Some feeTr \<Rightarrow>
     (if k = tb_FromAccountID (tp_booking plan) then [OpTransferToAccount (lt_TransactionID feeTr)
        (TrimSpace (tc_FeeAccountID command)) (lt_Currency feeTr) (tc_FeeAmount command) (lt_CreatedAt feeTr)] else []) @
     (if k = TrimSpace (tc_FeeAccountID command) then [OpReceiveTransfer (lt_TransactionID feeTr)
        (tc_FromAccountID command) (lt_Currency feeTr) (tc_FeeAmount command) (lt_CreatedAt feeTr)] else []))"

definition transferOps :: "TransferToAccountCommand \<Rightarrow> transferPlan \<Rightarrow> string \<Rightarrow> LedgerOp list" where
  "transferOps command plan k = (let b = tp_booking plan; tr = tp_transaction plan in
     (if k = tb_FromAccountID b then [OpTransferToAccount (lt_TransactionID tr)
        (tb_ToAccountID b) (lt_Currency tr) (tb_Amount b) (lt_CreatedAt tr)] else []) @
     (if k = tb_ToAccountID b then [OpReceiveTransfer (lt_TransactionID tr)
        (tb_FromAccountID b) (lt_Currency tr) (tb_Amount b) (lt_CreatedAt tr)] else []) @ feeOps command plan k)"

lemma transferOps_small: "length (transferOps command plan k) \<le> 4" "\<forall>op\<in>set (transferOps command plan k). isTransfer op"
  by (auto simp: transferOps_def feeOps_def Let_def split: option.splits)

definition planAccounts :: "TransferToAccountCommand \<Rightarrow> transferPlan \<Rightarrow> string list" where
  "planAccounts command plan = [tb_FromAccountID (tp_booking plan), tb_ToAccountID (tp_booking plan)] @
     (case tp_fee plan of None \<Rightarrow> [] | Some _ \<Rightarrow> [TrimSpace (tc_FeeAccountID command)])"

lemma transferOps_empty: "transferOps command plan k = [] \<longleftrightarrow> k \<notin> set (planAccounts command plan)"
  by (cases "tp_fee plan") (auto simp: planAccounts_def transferOps_def feeOps_def Let_def)

lemma TransferBooking_fields:
  assumes "NewTransferBooking i = Inr b"
  shows "tb_FromAccountID b = TrimSpace (tb_FromAccountID i)" "tb_ToAccountID b = TrimSpace (tb_ToAccountID i)"
    "tb_Currency b = ToUpper (TrimSpace (tb_Currency i))" "tb_Amount b = tb_Amount i" "0 < sint (tb_Amount i)"
    "TrimSpace (tb_FromAccountID i) \<noteq> []" "TrimSpace (tb_ToAccountID i) \<noteq> []"
    "TrimSpace (tb_FromAccountID i) \<noteq> TrimSpace (tb_ToAccountID i)"
  using assms by (auto simp: NewTransferBooking_def Let_def word_sle_eq split: if_splits)

lemma feeTransactionOf_fields:
  assumes "feeTransactionOf t command = Inr (Some feeTr)"
  shows "0 < sint (tc_FeeAmount command)" "TrimSpace (tc_FeeAccountID command) \<noteq> []"
    "TrimSpace (tc_FromAccountID command) \<noteq> TrimSpace (tc_FeeAccountID command)"
    "lt_TransactionID feeTr = TrimSpace (TrimSpace (tc_TransactionID command) @ '':fee'')"
    "lt_Currency feeTr = ToUpper (TrimSpace (tc_Currency command))"
proof -
  from assms obtain fb where fb: "NewTransferBooking \<lparr>tb_FromAccountID = tc_FromAccountID command,
      tb_ToAccountID = TrimSpace (tc_FeeAccountID command), tb_Currency = tc_Currency command, tb_Amount = tc_FeeAmount command\<rparr> = Inr fb"
    and tr: "NewLedgerTransaction t (TrimSpace (tc_TransactionID command) @ '':fee'') (TransferBooking_LedgerEntries fb) = Inr feeTr"
    by (auto simp: feeTransactionOf_def split: if_splits)
  from TransferBooking_fields [OF fb] show "0 < sint (tc_FeeAmount command)" "TrimSpace (tc_FeeAccountID command) \<noteq> []"
    "TrimSpace (tc_FromAccountID command) \<noteq> TrimSpace (tc_FeeAccountID command)" by simp_all
  from tr have "TrimSpace (TrimSpace (tc_TransactionID command) @ '':fee'') \<noteq> []"
    by (auto simp: NewLedgerTransaction_def Let_def split: if_splits)
  from TransferBooking_moves [OF fb this, of t] tr
  show "lt_TransactionID feeTr = TrimSpace (TrimSpace (tc_TransactionID command) @ '':fee'')"
    "lt_Currency feeTr = ToUpper (TrimSpace (tc_Currency command))" by (auto simp: movesFunds_def)
qed

lemma feeTransactionOf_none: "feeTransactionOf t command = Inr None \<Longrightarrow> sint (tc_FeeAmount command) \<le> 0"
  by (auto simp: feeTransactionOf_def word_sless_alt split: if_splits)

lemma fee_tx: "TrimSpace k \<noteq> [] \<Longrightarrow> TrimSpace (TrimSpace k @ '':fee'') = TrimSpace k @ '':fee''"
  using trimmed_suffixed [of "TrimSpace k" "CHR '':''" "CHR ''e''" "''fe''"] by (simp add: trimmed_iff visible_def)

text \<open>The transactions that the plan expects not to find, or to find all together.\<close>

definition planTxs :: "TransferToAccountCommand \<Rightarrow> transferPlan \<Rightarrow> (string \<times> string) list" where
  "planTxs command plan =
     [(tb_FromAccountID (tp_booking plan), lt_TransactionID (tp_transaction plan)),
      (tb_ToAccountID (tp_booking plan), lt_TransactionID (tp_transaction plan))] @
     (case tp_fee plan of None \<Rightarrow> [] | Some feeTr \<Rightarrow>
        [(TrimSpace (tc_FromAccountID command), lt_TransactionID feeTr),
         (TrimSpace (tc_FeeAccountID command), lt_TransactionID feeTr)])"

lemma planTransfer_fields:
  assumes "planTransfer t command = Inr plan"
  shows "NewTransferBooking \<lparr>tb_FromAccountID = tc_FromAccountID command, tb_ToAccountID = tc_ToAccountID command,
        tb_Currency = tc_Currency command, tb_Amount = tc_Amount command\<rparr> = Inr (tp_booking plan)"
    "NewLedgerTransaction t (TrimSpace (tc_TransactionID command)) (TransferBooking_LedgerEntries (tp_booking plan)) = Inr (tp_transaction plan)"
    "feeTransactionOf t command = Inr (tp_fee plan)" "0 \<le> sint (tc_FeeAmount command)"
  using assms by (auto simp: planTransfer_def Let_def word_sless_alt split: if_splits)

lemma NewLedgerTransaction_id: "NewLedgerTransaction t tx entries = Inr tr \<Longrightarrow> lt_TransactionID tr = TrimSpace tx \<and> TrimSpace tx \<noteq> []"
  by (auto simp: NewLedgerTransaction_def Let_def split: if_splits)

definition outPosting :: "string \<Rightarrow> LedgerTransaction \<Rightarrow> string \<Rightarrow> int64 \<Rightarrow> error + LedgerAccountPosting" where
  "outPosting acc tr cp amt = paymentPosting acc (lt_TransactionID tr) LedgerReferenceInternalTransfer (lt_TransactionID tr) cp
     (lt_Currency tr) (- amt) (lt_CreatedAt tr)"

definition inPosting :: "string \<Rightarrow> LedgerTransaction \<Rightarrow> string \<Rightarrow> int64 \<Rightarrow> error + LedgerAccountPosting" where
  "inPosting acc tr cp amt = paymentPosting acc (lt_TransactionID tr) LedgerReferenceInternalTransfer (lt_TransactionID tr) cp
     (lt_Currency tr) amt (lt_CreatedAt tr)"

lemma outPosting_eq: "NewLedgerAccountTransferOutPosting (transferInput acc (lt_TransactionID tr) cp (lt_Currency tr) amt (lt_CreatedAt tr)) =
    outPosting acc tr cp amt"
  by (simp add: NewLedgerAccountTransferOutPosting_def transferInput_def outPosting_def paymentPosting_def)

lemma inPosting_eq: "NewLedgerAccountTransferInPosting (transferInput acc (lt_TransactionID tr) cp (lt_Currency tr) amt (lt_CreatedAt tr)) =
    inPosting acc tr cp amt"
  by (simp add: NewLedgerAccountTransferInPosting_def transferInput_def inPosting_def paymentPosting_def)

lemma planTransfer_postings:
  assumes "planTransfer t command = Inr plan"
  defines "b \<equiv> tp_booking plan" and "tr \<equiv> tp_transaction plan" and "G \<equiv> TrimSpace (tc_FeeAccountID command)"
  shows "\<exists>p q es. outPosting (tb_FromAccountID b) tr (tb_ToAccountID b) (tb_Amount b) = Inr p \<and>
    inPosting (tb_ToAccountID b) tr (tb_FromAccountID b) (tb_Amount b) = Inr q \<and>
    tp_expected plan = [\<lparr>xp_accountID = tb_FromAccountID b, xp_posting = p\<rparr>, \<lparr>xp_accountID = tb_ToAccountID b, xp_posting = q\<rparr>] @ es \<and>
    (case tp_fee plan of None \<Rightarrow> es = [] | Some feeTr \<Rightarrow> \<exists>r s.
      outPosting (tc_FromAccountID command) feeTr G (tc_FeeAmount command) = Inr r \<and>
      inPosting G feeTr (tc_FromAccountID command) (tc_FeeAmount command) = Inr s \<and>
      es = [\<lparr>xp_accountID = tc_FromAccountID command, xp_posting = r\<rparr>, \<lparr>xp_accountID = G, xp_posting = s\<rparr>])"
  using assms(1)
  by (auto simp: planTransfer_def outPosting_eq inPosting_eq b_def tr_def G_def Let_def split: if_splits option.splits)

lemma planTransfer_expected:
  assumes "planTransfer t command = Inr plan"
  shows "map (\<lambda>i. (TrimSpace (xp_accountID i), TrimSpace (p_TransactionID (xp_posting i)))) (tp_expected plan) = planTxs command plan"
proof -
  note f = planTransfer_fields [OF assms]
  have tx: "TrimSpace (lt_TransactionID (tp_transaction plan)) = lt_TransactionID (tp_transaction plan)"
    using NewLedgerTransaction_id [OF f(2)] by simp
  have ftx: "TrimSpace (lt_TransactionID feeTr) = lt_TransactionID feeTr" if "tp_fee plan = Some feeTr" for feeTr
    using f(3) that feeTransactionOf_fields(4) [of t command feeTr] by simp
  have ids: "outPosting acc tr cp amt = Inr p \<Longrightarrow> p_TransactionID p = TrimSpace (lt_TransactionID tr)"
    "inPosting acc tr cp amt = Inr p \<Longrightarrow> p_TransactionID p = TrimSpace (lt_TransactionID tr)"
    for acc tr cp amt p by (auto simp: outPosting_def inPosting_def dest: paymentPosting_fields(2))
  from planTransfer_postings [OF assms] TransferBooking_fields [OF f(1)] show ?thesis
    by (auto simp: planTxs_def tx ftx dest!: ids split: option.splits)
qed

text \<open>What a planned transfer is about.\<close>

lemma planTransfer_facts:
  assumes "planTransfer t command = Inr plan"
  defines "F \<equiv> tb_FromAccountID (tp_booking plan)" and "T \<equiv> tb_ToAccountID (tp_booking plan)"
    and "G \<equiv> TrimSpace (tc_FeeAccountID command)" and "tx \<equiv> lt_TransactionID (tp_transaction plan)"
  shows "F = TrimSpace (tc_FromAccountID command)" "T = TrimSpace (tc_ToAccountID command)" "validID F" "validID T" "F \<noteq> T"
    "TrimSpace tx = tx" "tb_Amount (tp_booking plan) = tc_Amount command" "0 < sint (tc_Amount command)"
    "lt_Currency (tp_transaction plan) = ToUpper (TrimSpace (tc_Currency command))"
    "tp_fee plan = Some feeTr \<Longrightarrow> validID G \<and> F \<noteq> G \<and> TrimSpace (lt_TransactionID feeTr) = lt_TransactionID feeTr \<and>
      lt_TransactionID feeTr \<noteq> tx \<and> lt_Currency feeTr = ToUpper (TrimSpace (tc_Currency command)) \<and> 0 < sint (tc_FeeAmount command)"
    "tp_fee plan = None \<Longrightarrow> tc_FeeAmount command = 0"
proof -
  note f = planTransfer_fields [OF assms(1)]
  note b = TransferBooking_fields [OF f(1)]
  note tx = NewLedgerTransaction_id [OF f(2)]
  show "F = TrimSpace (tc_FromAccountID command)" "T = TrimSpace (tc_ToAccountID command)" "validID F" "validID T" "F \<noteq> T"
    "tb_Amount (tp_booking plan) = tc_Amount command" "0 < sint (tc_Amount command)"
    using b by (simp_all add: F_def T_def)
  show "TrimSpace tx = tx" using tx by (simp add: tx_def)
  show "lt_Currency (tp_transaction plan) = ToUpper (TrimSpace (tc_Currency command))"
    using TransferBooking_moves [OF f(1), of "TrimSpace (tc_TransactionID command)" t] tx f(2) by (auto simp: movesFunds_def)
  show "tp_fee plan = None \<Longrightarrow> tc_FeeAmount command = 0"
    using feeTransactionOf_none [of t command] f(3,4) by (simp add: signed_eq_0_iff)
  assume "tp_fee plan = Some feeTr"
  with f(3) have fee: "feeTransactionOf t command = Inr (Some feeTr)" by simp
  from feeTransactionOf_fields [OF this] tx fee_tx [of "tc_TransactionID command"] b
  show "validID G \<and> F \<noteq> G \<and> TrimSpace (lt_TransactionID feeTr) = lt_TransactionID feeTr \<and>
      lt_TransactionID feeTr \<noteq> tx \<and> lt_Currency feeTr = ToUpper (TrimSpace (tc_Currency command)) \<and> 0 < sint (tc_FeeAmount command)"
    by (simp add: F_def G_def tx_def)
qed

lemma planTxs_nonempty: "planTransfer t command = Inr plan \<Longrightarrow> (k, tx) \<in> set (planTxs command plan) \<Longrightarrow> tx \<noteq> []"
  using planTransfer_fields(2,3) [of t command plan] feeTransactionOf_fields(4) [of t command] fee_tx [of "tc_TransactionID command"]
  by (auto simp: planTxs_def dest!: NewLedgerTransaction_id split: option.splits)

section \<open>Applying and saving a transfer\<close>

text \<open>The steps of a transfer on the loaded accounts.\<close>

lemma applyTransfer_steps:
  assumes "applyTransfer command plan accounts = Inr (fa, fe, accounts')"
  defines "b \<equiv> tp_booking plan" and "tr \<equiv> tp_transaction plan" and "G \<equiv> TrimSpace (tc_FeeAccountID command)"
  obtains a1 a2 where
    "onAccount accounts (tb_FromAccountID b) (\<lambda>a. runOp a (OpTransferToAccount (lt_TransactionID tr) (tb_ToAccountID b)
      (lt_Currency tr) (tb_Amount b) (lt_CreatedAt tr))) = Inr (fa, a1)"
    "onAccount a1 (tb_ToAccountID b) (\<lambda>a. runOp a (OpReceiveTransfer (lt_TransactionID tr) (tb_FromAccountID b)
      (lt_Currency tr) (tb_Amount b) (lt_CreatedAt tr))) = Inr (fa, a2)"
    "tp_fee plan = None \<and> accounts' = a2 \<or> (\<exists>feeTr a3. tp_fee plan = Some feeTr \<and>
      onAccount a2 (tb_FromAccountID b) (\<lambda>a. runOp a (OpTransferToAccount (lt_TransactionID feeTr) G
        (lt_Currency feeTr) (tc_FeeAmount command) (lt_CreatedAt feeTr))) = Inr (fe, a3) \<and>
      onAccount a3 G (\<lambda>a. runOp a (OpReceiveTransfer (lt_TransactionID feeTr) (tc_FromAccountID command)
        (lt_Currency feeTr) (tc_FeeAmount command) (lt_CreatedAt feeTr))) = Inr (fe, accounts'))"
proof -
  from assms(1) show thesis
    by (cases "tp_fee plan") (auto simp: applyTransfer_def b_def tr_def G_def Let_def split: if_splits intro!: that)
qed

lemma applyTransfer_runs:
  assumes plan: "planTransfer t command = Inr plan" and acc: "runsOn ids st (\<lambda>_. []) accounts"
    and inv: "\<And>k. validID k \<Longrightarrow> ledger_inv (st k)"
    and new: "\<And>k tx. (k, tx) \<in> set (planTxs command plan) \<Longrightarrow> PostedTransactions (st k) tx = None"
    and ap: "applyTransfer command plan accounts = Inr (fa, fe, accounts')"
  shows "fa \<and> runsOn ids st (transferOps command plan) accounts'"
  using ap
proof (rule applyTransfer_steps)
  let ?b = "tp_booking plan" and ?tr = "tp_transaction plan" and ?G = "TrimSpace (tc_FeeAccountID command)"
  let ?F = "tb_FromAccountID ?b" and ?T = "tb_ToAccountID ?b"
  let ?out = "OpTransferToAccount (lt_TransactionID ?tr) ?T (lt_Currency ?tr) (tb_Amount ?b) (lt_CreatedAt ?tr)"
  let ?in = "OpReceiveTransfer (lt_TransactionID ?tr) ?F (lt_Currency ?tr) (tb_Amount ?b) (lt_CreatedAt ?tr)"
  let ?ops2 = "(\<lambda>_. [])(?F := [?out], ?T := [?in])"
  note f = planTransfer_facts [OF plan]
  fix a1 a2
  assume 1: "onAccount accounts ?F (\<lambda>a. runOp a ?out) = Inr (fa, a1)" and 2: "onAccount a1 ?T (\<lambda>a. runOp a ?in) = Inr (fa, a2)"
    and 3: "tp_fee plan = None \<and> accounts' = a2 \<or> (\<exists>feeTr a3. tp_fee plan = Some feeTr \<and>
      onAccount a2 ?F (\<lambda>a. runOp a (OpTransferToAccount (lt_TransactionID feeTr) ?G
        (lt_Currency feeTr) (tc_FeeAmount command) (lt_CreatedAt feeTr))) = Inr (fe, a3) \<and>
      onAccount a3 ?G (\<lambda>a. runOp a (OpReceiveTransfer (lt_TransactionID feeTr) (tc_FromAccountID command)
        (lt_Currency feeTr) (tc_FeeAmount command) (lt_CreatedAt feeTr))) = Inr (fe, accounts'))"
  have tr: "TrimSpace ?F = ?F" "TrimSpace ?T = ?T" using f(3,4) by (simp_all add: validID_def trimmed_iff)
  have fa: "fa" using onAccount_runs [OF acc tr(1) 1 _ inv [OF f(3)]] new [of ?F] f(6) by (simp add: planTxs_def)
  from runsOn_step [OF acc tr(1) 1 fa] have r1: "runsOn ids st ((\<lambda>_. [])(?F := [?out])) a1" by simp
  from runsOn_step [OF r1 tr(2) 2 fa] f(5) have r2: "runsOn ids st ?ops2 a2" by simp
  show ?thesis
  proof (cases "tp_fee plan")
    case None
    have "transferOps command plan = ?ops2" using f(5) None by (auto simp: transferOps_def feeOps_def Let_def)
    with None 3 r2 fa show ?thesis by simp
  next
    case (Some feeTr)
    let ?fout = "OpTransferToAccount (lt_TransactionID feeTr) ?G (lt_Currency feeTr) (tc_FeeAmount command) (lt_CreatedAt feeTr)"
    let ?fin = "OpReceiveTransfer (lt_TransactionID feeTr) (tc_FromAccountID command) (lt_Currency feeTr) (tc_FeeAmount command) (lt_CreatedAt feeTr)"
    from 3 Some obtain a3 where 4: "onAccount a2 ?F (\<lambda>a. runOp a ?fout) = Inr (fe, a3)" "onAccount a3 ?G (\<lambda>a. runOp a ?fin) = Inr (fe, accounts')"
      by auto
    note g = f(10) [OF Some]
    have "?F \<in> ids" using 1 acc tr(1) by (auto simp: onAccount_def runsOn_def split: option.splits if_splits)
    from runsOn_applied [OF r1 this] have "fst (runOp (st ?F) ?out) = Inr True" by simp
    then have "runOp (st ?F) ?out = (Inr True, snd (runOp (st ?F) ?out))" by (simp add: prod_eq_iff)
    from transfer_applied(2) [OF inv [OF f(3)] _ this] new [of ?F "lt_TransactionID feeTr"] g f(1,6) Some
    have "PostedTransactions (runOps (st ?F) (?ops2 ?F)) (transferTx ?fout) = None"
      using f(5) by (simp add: runOps_Cons planTxs_def)
    with onAccount_runs [OF r2 tr(1) 4(1) _ inv [OF f(3)]] have fe: "fe" by simp
    have "transferOps command plan = ?ops2(?F := ?ops2 ?F @ [?fout], ?G := (?ops2(?F := ?ops2 ?F @ [?fout])) ?G @ [?fin])"
      using f(5) Some g by (auto simp: transferOps_def feeOps_def Let_def)
    with runsOn_step [OF runsOn_step [OF r2 tr(1) 4(1) fe] _ 4(2) fe] fa show ?thesis by simp
  qed
qed

text \<open>The database and the loaded accounts when the accounts in \<open>S\<close> have been saved.\<close>

definition savedUpTo :: "string set \<Rightarrow> (string \<Rightarrow> LedgerAccountAggregate) \<Rightarrow> (string \<Rightarrow> LedgerOp list) \<Rightarrow> string set
    \<Rightarrow> (string \<Rightarrow> LedgerAccountAggregate) \<Rightarrow> loadedLedgerAccounts \<Rightarrow> bool" where
  "savedUpTo ids st ops S cur accounts \<longleftrightarrow>
     (\<forall>k. validID k \<longrightarrow> cur k = (if k \<in> S then MarkPersisted (runOps (st k) (ops k)) else st k)) \<and>
     (\<forall>k\<in>ids. if k \<in> S then \<exists>a. accounts k = Some a \<and> events a = [] else accounts k = Some (runOps (st k) (ops k)))"

lemma savedUpTo_insert:
  assumes "savedUpTo ids st ops S cur accounts" "events a = []"
    and "\<And>k. validID k \<Longrightarrow> cur' k = (if k = acc then MarkPersisted (runOps (st k) (ops k)) else cur k)"
  shows "savedUpTo ids st ops (insert acc S) cur' (accounts(acc \<mapsto> a))"
  using assms by (simp add: savedUpTo_def)

lemma events_MarkPersisted [simp]: "events (MarkPersisted a) = []"
  by (simp add: MarkPersisted_def)

lemma transferBody_eq: "transferBody repos now command plan db =
    andThen (loadLedgerAccounts repos db Map.empty (planAccounts command plan)) (\<lambda>accounts.
    andThen (ensureLedgerPostingsState accounts (tp_expected plan)) (\<lambda>alreadyApplied.
      if alreadyApplied then Inr ((), db)
      else andThen (applyTransfer command plan accounts) (\<lambda>(fromApplied, feeApplied, accounts').
        if \<not> fromApplied \<and> \<not> feeApplied then Inr ((), db)
        else saveTransfer repos now command plan db accounts')))"
  by (simp add: transferBody_def planAccounts_def Let_def)

context account_repository
begin

lemma saveEntry_step:
  assumes "ok db" "savedUpTo ids st ops S (stored db) accounts" "acc \<in> ids" "validID acc"
    and "length (ops acc) \<le> 100" "events (runOps (st acc) (ops acc)) \<noteq> []"
  shows "\<exists>db' accounts'. saveEntry repos now acc (db, accounts) = Inr (False, db', accounts') \<and> ok db' \<and>
    savedUpTo ids st ops (insert acc S) (stored db') accounts'"
proof (cases "acc \<in> S")
  case True
  from assms(2) have "if acc \<in> S then \<exists>a. accounts acc = Some a \<and> events a = [] else accounts acc = Some (runOps (st acc) (ops acc))"
    unfolding savedUpTo_def using assms(3) by blast
  with True obtain a where a: "accounts acc = Some a" "events a = []" by auto
  from save_nothing [OF assms(1) a(2), of now] obtain a' where a': "repoSave repos now db a = Inr (db, a')" "events a' = []" by blast
  have "TrimSpace acc = acc" using assms(4) by (simp add: validID_def trimmed_iff)
  with a a' have "saveEntry repos now acc (db, accounts) = Inr (False, db, accounts(acc \<mapsto> a'))"
    by (simp add: saveEntry_def saveLedgerAccount_def)
  moreover have "savedUpTo ids st ops (insert acc S) (stored db) (accounts(acc \<mapsto> a'))"
    using assms(2) True a'(2) by (simp add: savedUpTo_def insert_absorb)
  ultimately show ?thesis using assms(1) by blast
next
  case False
  let ?b = "runOps (st acc) (ops acc)"
  have k: "TrimSpace acc = acc" using assms(4) by (simp add: validID_def trimmed_iff)
  from False assms(2-4) have a: "accounts acc = Some ?b" and st: "stored db acc = st acc" by (auto simp: savedUpTo_def)
  from save_stored [OF assms(1,4,5), of now] st assms(6) obtain db' where s: "repoSave repos now db ?b = Inr (db', MarkPersisted ?b)" "ok db'"
    "\<And>k. validID k \<Longrightarrow> stored db' k = (if k = acc then MarkPersisted (runOps (st k) (ops k)) else stored db k)" by auto
  have "saveEntry repos now acc (db, accounts) = Inr (False, db', accounts(acc \<mapsto> MarkPersisted ?b))"
    using s(1) a k by (simp add: saveEntry_def saveLedgerAccount_def)
  with s(2) savedUpTo_insert [OF assms(2) events_MarkPersisted s(3)] show ?thesis by blast
qed

lemma saveTransfer_stored:
  assumes db: "ok db" and plan: "planTransfer t command = Inr plan"
    and runs: "runsOn (set (planAccounts command plan)) (stored db) (transferOps command plan) accounts"
  shows "\<exists>db'. saveTransfer repos now command plan db accounts = Inr ((), db') \<and> ok db' \<and>
    (\<forall>k. validID k \<longrightarrow> stored db' k = MarkPersisted (runOps (stored db k) (transferOps command plan k)))"
proof -
  let ?ops = "transferOps command plan" and ?G = "TrimSpace (tc_FeeAccountID command)" and ?ids = "set (planAccounts command plan)"
  let ?F = "tb_FromAccountID (tp_booking plan)" and ?T = "tb_ToAccountID (tp_booking plan)"
  let ?saved = "\<lambda>S db' accounts'. ok db' \<and> savedUpTo ?ids (stored db) ?ops S (stored db') accounts'"
  note f = planTransfer_facts [OF plan]
  have pend: "length (?ops k) \<le> 100" "events (runOps (stored db k) (?ops k)) \<noteq> []" if "validID k" "k \<in> ?ids" for k
  proof -
    show "length (?ops k) \<le> 100" using transferOps_small(1) [of command plan k] by simp
    have "?ops k \<noteq> []" using that(2) by (simp add: transferOps_empty)
    with allApplied_effect [of "stored db k" "?ops k"] stored_inv [OF db that(1)] runsOn_applied [OF runs that(2)]
      transferOps_small(2) [of command plan k] show "events (runOps (stored db k) (?ops k)) \<noteq> []" by auto
  qed
  have step: "\<exists>db2 accounts2. saveEntry repos now k (db1, accounts1) = Inr (False, db2, accounts2) \<and> ?saved (insert k S) db2 accounts2"
    if "?saved S db1 accounts1" "k \<in> ?ids" "validID k" for S k db1 accounts1
    using saveEntry_step [of db1 ?ids "stored db" ?ops S accounts1 k now] that pend [OF that(3,2)] by blast
  have fin: "stored db' k = MarkPersisted (runOps (stored db k) (?ops k))" if "?saved S db' accounts'" "?ids \<subseteq> S" "validID k" for S db' accounts' k
  proof (cases "k \<in> S")
    case False
    with that(2) have "k \<notin> ?ids" by blast
    then have "?ops k = []" by (simp add: transferOps_empty)
    with that False stored_inv [OF db that(3)] show ?thesis by (simp add: savedUpTo_def MarkPersisted_id)
  qed (use that in \<open>simp add: savedUpTo_def\<close>)
  have in_ids: "?F \<in> ?ids" "?T \<in> ?ids" by (simp_all add: planAccounts_def)
  have 0: "?saved {} db accounts" using db runs by (simp add: savedUpTo_def runsOn_def)
  from step [OF 0 in_ids(1) f(3)] obtain db1 accounts1 where
    1: "saveEntry repos now ?F (db, accounts) = Inr (False, db1, accounts1)" "?saved {?F} db1 accounts1" by blast
  from step [OF 1(2) in_ids(2) f(4)] obtain db2 accounts2 where
    2: "saveEntry repos now ?T (db1, accounts1) = Inr (False, db2, accounts2)" "?saved {?T, ?F} db2 accounts2" by blast
  show ?thesis
  proof (cases "tp_fee plan")
    case None
    then have "?ids \<subseteq> {?T, ?F}" by (auto simp: planAccounts_def)
    with fin [OF 2(2)] 2(2) 1(1) 2(1) None show ?thesis by (simp add: saveTransfer_def)
  next
    case (Some feeTr)
    then have G: "?G \<in> ?ids" "?ids \<subseteq> {?G, ?T, ?F}" by (auto simp: planAccounts_def)
    from step [OF 2(2) G(1)] f(10) [OF Some] obtain db3 accounts3 where
      3: "saveEntry repos now ?G (db2, accounts2) = Inr (False, db3, accounts3)" "?saved {?G, ?T, ?F} db3 accounts3" by blast
    with fin [OF 3(2) G(2)] 1(1) 2(1) Some show ?thesis by (simp add: saveTransfer_def)
  qed
qed

lemma loadPlan:
  assumes db: "ok db" and plan: "planTransfer t command = Inr plan"
  shows "\<exists>accounts. loadLedgerAccounts repos db Map.empty (planAccounts command plan) = Inr accounts \<and>
    runsOn (set (planAccounts command plan)) (stored db) (\<lambda>_. []) accounts"
proof -
  let ?ids = "set (planAccounts command plan)"
  note f = planTransfer_facts [OF plan]
  have v: "validID k" if "k \<in> ?ids" for k
    using that f(3,4,10) by (cases "tp_fee plan") (auto simp: planAccounts_def)
  then have "TrimSpace k = k" if "k \<in> ?ids" for k using that by (simp add: validID_def trimmed_iff)
  then have tr: "TrimSpace ` ?ids = ?ids" by (auto simp: image_iff)
  from loadLedgerAccounts_stored [OF db, of Map.empty "planAccounts command plan"] obtain accounts where
    "loadLedgerAccounts repos db Map.empty (planAccounts command plan) = Inr accounts"
    "\<And>k. accounts k = (if validID k \<and> k \<in> ?ids then Some (stored db k) else None)" unfolding tr by auto
  with v show ?thesis by (auto simp: runsOn_def)
qed

lemma transferBody_stored:
  assumes db: "ok db" and plan: "planTransfer t command = Inr plan" and body: "transferBody repos now command plan db = Inr (u, db')"
  shows "db' = db \<or> ok db' \<and> (\<forall>k. validID k \<longrightarrow> allApplied (stored db k) (transferOps command plan k) \<and>
    stored db' k = MarkPersisted (runOps (stored db k) (transferOps command plan k)))"
proof -
  let ?ids = "set (planAccounts command plan)"
  note f = planTransfer_facts [OF plan]
  from loadPlan [OF db plan] obtain accounts where load: "loadLedgerAccounts repos db Map.empty (planAccounts command plan) = Inr accounts"
    and runs0: "runsOn ?ids (stored db) (\<lambda>_. []) accounts" by blast
  then have acc: "accounts k = (if k \<in> ?ids then Some (stored db k) else None)" for k by (simp add: runsOn_def)
  show ?thesis
  proof (cases "db' = db")
    case False
    with body load obtain fa fe accounts' where cnt: "countMatching accounts (tp_expected plan) = Inr 0"
      and ap: "applyTransfer command plan accounts = Inr (fa, fe, accounts')"
      and sv: "saveTransfer repos now command plan db accounts' = Inr (u, db')"
      by (auto simp: transferBody_eq ensureLedgerPostingsState_def split: if_splits)
    have new: "PostedTransactions (stored db k) tx = None" if "(k, tx) \<in> set (planTxs command plan)" for k tx
    proof -
      from that obtain i where i: "i \<in> set (tp_expected plan)" "k = TrimSpace (xp_accountID i)" "tx = TrimSpace (p_TransactionID (xp_posting i))"
        by (auto simp flip: planTransfer_expected [OF plan])
      have k: "k \<in> ?ids" using that f(1) by (cases "tp_fee plan") (auto simp: planTxs_def planAccounts_def)
      from countMatching_zero [OF cnt i(1)] acc [of k] k i planTxs_nonempty [OF plan that] show ?thesis by (simp add: PostedTransaction_def)
    qed
    from applyTransfer_runs [OF plan runs0 _ new ap] stored_inv [OF db]
    have runs: "runsOn ?ids (stored db) (transferOps command plan) accounts'" by blast
    have "allApplied (stored db k) (transferOps command plan k)" for k
      using runsOn_applied [OF runs, of k] transferOps_empty [of command plan k] by (cases "k \<in> ?ids") auto
    with saveTransfer_stored [OF db plan runs, of now] sv show ?thesis by auto
  qed simp
qed

end

section \<open>Properties\<close>

lemma transfer_out_funded:
  assumes "ledger_inv a" "runOp a (OpTransferToAccount tx cp cur amt t) = (Inr True, b)" "0 < sint amt"
  shows "0 \<le>s balanceIn b (ToUpper (TrimSpace cur))"
proof -
  from assms(1,2) obtain p d where p: "opPosting (aggregateID a) (OpTransferToAccount tx cp cur amt t) = Inr (p, d)"
    "posting_ok (aggregateID a) p" "\<not> overdraws a p" "b = postTo a d p" by (rule runOp_cases) auto
  have "TrimSpace LedgerReferenceInternalTransfer = LedgerReferenceInternalTransfer" by code_simp
  with p have f: "p_AmountDelta p = - amt" "p_ReferenceType p = LedgerReferenceInternalTransfer" "p_Currency p = ToUpper (TrimSpace cur)"
    by (auto simp: opPosting_def paymentPosting_fields)
  have "requiresNonNegativeBalance LedgerReferenceInternalTransfer" by code_simp
  with f p(3) assms(3) sint_neg64_fits [of amt] sint64_range [of amt] have "\<not> Balance a (p_Currency p) + p_AmountDelta p <s 0"
    by (auto simp: overdraws_def word_sless_alt fits64_def)
  with balanceIn_postTo [OF p(2), of a d "p_Currency p"] posting_balance [OF p(2), of a] p(4) f(3) show ?thesis
    by (simp add: balanceIn_def word_sless_alt word_sle_eq)
qed

lemma transferOps_delta:
  assumes "planTransfer t command = Inr plan"
  shows "sum_list (map (transferDelta c) (transferOps command plan k)) =
    movementDelta (TrimSpace (tc_FromAccountID command)) (TrimSpace (tc_ToAccountID command))
      (ToUpper (TrimSpace (tc_Currency command))) (tc_Amount command) k c +
    movementDelta (TrimSpace (tc_FromAccountID command)) (TrimSpace (tc_FeeAccountID command))
      (ToUpper (TrimSpace (tc_Currency command))) (tc_FeeAmount command) k c"
  using planTransfer_facts [OF assms]
  by (cases "tp_fee plan") (auto simp: transferOps_def feeOps_def movementDelta_def Let_def)

lemma transferOps_funded:
  assumes plan: "planTransfer t command = Inr plan" and inv: "ledger_inv a"
    and ap: "allApplied a (transferOps command plan (TrimSpace (tc_FromAccountID command)))"
  shows "0 \<le>s balanceIn (runOps a (transferOps command plan (TrimSpace (tc_FromAccountID command)))) (ToUpper (TrimSpace (tc_Currency command)))"
proof -
  note f = planTransfer_facts [OF plan]
  obtain ops tx cp cur amt t' where ops: "transferOps command plan (TrimSpace (tc_FromAccountID command)) = ops @ [OpTransferToAccount tx cp cur amt t']"
    "cur = ToUpper (TrimSpace (tc_Currency command))" "0 < sint amt"
  proof (cases "tp_fee plan")
    case None
    with f that [of "[]"] show thesis by (simp add: transferOps_def feeOps_def Let_def)
  next
    case (Some feeTr)
    with f(1-9) f(10) [OF Some] that [of "[_]"] show thesis by (simp add: transferOps_def feeOps_def Let_def)
  qed
  let ?b = "runOps a ops"
  from ap ops(1) have "fst (runOp ?b (OpTransferToAccount tx cp cur amt t')) = Inr True" by (simp only: allApplied_snoc)
  then have "runOp ?b (OpTransferToAccount tx cp cur amt t') = (Inr True, snd (runOp ?b (OpTransferToAccount tx cp cur amt t')))"
    by (simp add: prod_eq_iff)
  from transfer_out_funded [OF runOps_inv [OF inv] this ops(3)] ops(2) show ?thesis
    unfolding ops(1) by (simp add: runOps_append runOps_Cons)
qed

text \<open>A posting that is new and does not overdraw is applied.\<close>

lemma outPosting_runs:
  assumes inv: "ledger_inv a" and p: "outPosting (aggregateID a) tr cp amt = Inr p"
    and new: "PostedTransactions a (TrimSpace (lt_TransactionID tr)) = None" and amt: "0 < sint amt"
    and funds: "sint amt \<le> sint (balanceIn a (ToUpper (TrimSpace (lt_Currency tr))))"
  shows "\<exists>b. runOp a (OpTransferToAccount (lt_TransactionID tr) cp (lt_Currency tr) amt (lt_CreatedAt tr)) = (Inr True, b)"
proof -
  from inv have ok: "account_ok a" "trimmed (aggregateID a)" by (simp_all add: ledger_inv_def account_ok_def)
  note f = paymentPosting_fields [OF p [unfolded outPosting_def]]
  have "fits64 (sint (balanceIn a (p_Currency p)) - sint amt)" "sint (- amt) = - sint amt"
    using funds amt f(6) sint64_range [of amt] sint64_range [of "balanceIn a (p_Currency p)"]
    by (auto intro!: sint_neg64_fits simp: fits64_def)
  then have "sint (balanceIn a (p_Currency p) + p_AmountDelta p) = sint (balanceIn a (p_Currency p)) - sint amt"
    using sint_add64_fits [of "balanceIn a (p_Currency p)" "- amt"] f(7) by simp
  moreover have "Balance a (p_Currency p) = balanceIn a (p_Currency p)"
    using f(1) by (simp add: Balance_balanceIn posting_ok_def trimmed_iff)
  ultimately have "\<not> overdraws a p" using funds f(6) by (simp add: overdraws_def word_sless_alt)
  with runOp_eq [OF ok(1), of "OpTransferToAccount (lt_TransactionID tr) cp (lt_Currency tr) amt (lt_CreatedAt tr)"] p new f(2)
  show ?thesis by (simp add: opPosting_def outPosting_def postOnce_def)
qed

lemma inPosting_runs:
  assumes inv: "ledger_inv a" and p: "inPosting (aggregateID a) tr cp amt = Inr p"
    and new: "PostedTransactions a (TrimSpace (lt_TransactionID tr)) = None" and amt: "0 < sint amt"
  shows "\<exists>b. runOp a (OpReceiveTransfer (lt_TransactionID tr) cp (lt_Currency tr) amt (lt_CreatedAt tr)) = (Inr True, b)"
proof -
  from inv have ok: "account_ok a" by (simp add: ledger_inv_def)
  note f = paymentPosting_fields [OF p [unfolded inPosting_def]]
  have "\<not> overdraws a p" using amt f(7) by (simp add: overdraws_def word_sless_alt)
  with runOp_eq [OF ok, of "OpReceiveTransfer (lt_TransactionID tr) cp (lt_Currency tr) amt (lt_CreatedAt tr)"] p new f(2)
  show ?thesis by (simp add: opPosting_def inPosting_def postOnce_def)
qed

lemma onAccount_applies:
  assumes "runsOn ids st ops accounts" "acc \<in> ids" "TrimSpace acc = acc" "\<exists>b. runOp (runOps (st acc) (ops acc)) op = (Inr True, b)"
  shows "\<exists>accounts'. onAccount accounts acc (\<lambda>a. runOp a op) = Inr (True, accounts') \<and>
    runsOn ids st (ops(acc := ops acc @ [op])) accounts'"
proof -
  from runsOn_lookup [OF assms(1,2)] assms(3,4) obtain accounts' where
    "onAccount accounts acc (\<lambda>a. runOp a op) = Inr (True, accounts')" by (auto simp: onAccount_def)
  with runsOn_step [OF assms(1,3) this] show ?thesis by blast
qed

lemma outPosting_trim [simp]: "outPosting (TrimSpace acc) tr cp amt = outPosting acc tr cp amt"
  by (simp add: outPosting_def paymentPosting_def NewLedgerAccountPaymentPosting_def normalizeLedgerAccountPosting_def)

lemma sint_minus64_funds:
  fixes x y z :: int64
  assumes "0 < sint x" "0 \<le> sint y" "sint x + sint y \<le> sint z"
  shows "sint y \<le> sint (z + - x)"
proof -
  have "fits64 (sint z - sint x)" "sint (- x) = - sint x"
    using assms sint64_range [of x] sint64_range [of z] by (auto intro!: sint_neg64_fits simp: fits64_def)
  then have "sint (z + - x) = sint z - sint x" using sint_add64_fits [of z "- x"] by simp
  with assms show ?thesis by simp
qed

text \<open>A transfer that the sender can pay, and whose postings are all new, is applied.\<close>

lemma applyTransfer_ok:
  assumes plan: "planTransfer t command = Inr plan" and acc: "runsOn (set (planAccounts command plan)) st (\<lambda>_. []) accounts"
    and inv: "\<And>k. validID k \<Longrightarrow> ledger_inv (st k) \<and> aggregateID (st k) = k"
    and new: "\<And>k tx. (k, tx) \<in> set (planTxs command plan) \<Longrightarrow> PostedTransactions (st k) tx = None"
    and funds: "sint (tc_Amount command) + sint (tc_FeeAmount command) \<le>
      sint (balanceIn (st (TrimSpace (tc_FromAccountID command))) (ToUpper (TrimSpace (tc_Currency command))))"
  shows "\<exists>fe accounts'. applyTransfer command plan accounts = Inr (True, fe, accounts')"
proof -
  let ?b = "tp_booking plan" and ?tr = "tp_transaction plan" and ?G = "TrimSpace (tc_FeeAccountID command)" and ?ids = "set (planAccounts command plan)"
  let ?F = "tb_FromAccountID ?b" and ?T = "tb_ToAccountID ?b" and ?cur = "ToUpper (TrimSpace (tc_Currency command))"
  let ?out = "OpTransferToAccount (lt_TransactionID ?tr) ?T (lt_Currency ?tr) (tb_Amount ?b) (lt_CreatedAt ?tr)"
  let ?in = "OpReceiveTransfer (lt_TransactionID ?tr) ?F (lt_Currency ?tr) (tb_Amount ?b) (lt_CreatedAt ?tr)"
  let ?ops1 = "(\<lambda>_. [])(?F := [?out])"
  note f = planTransfer_facts [OF plan]
  note F = inv [OF f(3)] and T = inv [OF f(4)]
  have tr: "TrimSpace ?F = ?F" "TrimSpace ?T = ?T" using f(3,4) by (simp_all add: validID_def trimmed_iff)
  have ids: "?F \<in> ?ids" "?T \<in> ?ids" by (simp_all add: planAccounts_def)
  have n: "PostedTransactions (st ?F) (lt_TransactionID ?tr) = None" "PostedTransactions (st ?T) (lt_TransactionID ?tr) = None"
    using new by (simp_all add: planTxs_def)
  from planTransfer_postings [OF plan] obtain p q where p: "outPosting ?F ?tr ?T (tb_Amount ?b) = Inr p" "inPosting ?T ?tr ?F (tb_Amount ?b) = Inr q"
    by auto
  have feepos: "0 \<le> sint (tc_FeeAmount command)" using planTransfer_fields(4) [OF plan] .
  from outPosting_runs [of "st ?F" ?tr ?T "tb_Amount ?b" p] p(1) F n(1) f funds feepos
  obtain b where b: "runOp (st ?F) ?out = (Inr True, b)" by auto
  from onAccount_applies [OF acc ids(1) tr(1), of ?out] b obtain a1 where
    1: "onAccount accounts ?F (\<lambda>a. runOp a ?out) = Inr (True, a1)" "runsOn ?ids st ?ops1 a1" by auto
  from inPosting_runs [of "st ?T" ?tr ?F "tb_Amount ?b" q] p(2) T n(2) f obtain c where c: "runOp (st ?T) ?in = (Inr True, c)" by auto
  let ?ops2 = "?ops1(?T := ?ops1 ?T @ [?in])"
  have "\<exists>b. runOp (runOps (st ?T) (?ops1 ?T)) ?in = (Inr True, b)" using c f(5) by simp
  from onAccount_applies [OF 1(2) ids(2) tr(2) this] obtain a2 where
    2: "onAccount a1 ?T (\<lambda>a. runOp a ?in) = Inr (True, a2)" "runsOn ?ids st ?ops2 a2" by blast
  show ?thesis
  proof (cases "tp_fee plan")
    case None
    with 1(1) 2(1) show ?thesis by (auto simp: applyTransfer_def)
  next
    case (Some feeTr)
    let ?fout = "OpTransferToAccount (lt_TransactionID feeTr) ?G (lt_Currency feeTr) (tc_FeeAmount command) (lt_CreatedAt feeTr)"
    let ?fin = "OpReceiveTransfer (lt_TransactionID feeTr) (tc_FromAccountID command) (lt_Currency feeTr) (tc_FeeAmount command) (lt_CreatedAt feeTr)"
    note g = f(10) [OF Some]
    from planTransfer_postings [OF plan] Some f(1) obtain r s where
      rs: "outPosting ?F feeTr ?G (tc_FeeAmount command) = Inr r" "inPosting ?G feeTr (tc_FromAccountID command) (tc_FeeAmount command) = Inr s"
      by auto
    have nf: "PostedTransactions (st ?F) (lt_TransactionID feeTr) = None" "PostedTransactions (st ?G) (lt_TransactionID feeTr) = None"
      using new Some f(1) by (simp_all add: planTxs_def)
    have "runOps (st ?F) (?ops2 ?F) = b" using f(5) b by (simp add: runOps_Cons)
    moreover have "\<exists>b'. runOp b ?fout = (Inr True, b')"
    proof (rule outPosting_runs)
      show "ledger_inv b" using runOp_inv [OF _ b] F by simp
      note ta = transfer_applied [OF _ _ b]
      show "outPosting (aggregateID b) feeTr ?G (tc_FeeAmount command) = Inr r" using ta(3) F rs(1) by simp
      show "PostedTransactions b (TrimSpace (lt_TransactionID feeTr)) = None" using ta(2) [of "lt_TransactionID feeTr"] F nf(1) g f(6) by simp
      show "0 < sint (tc_FeeAmount command)" using g by simp
      show "sint (tc_FeeAmount command) \<le> sint (balanceIn b (ToUpper (TrimSpace (lt_Currency feeTr))))"
        using ta(1) [of ?cur] F f g funds sint_minus64_funds [of "tc_Amount command" "tc_FeeAmount command" "balanceIn (st ?F) ?cur"] by simp
    qed
    ultimately have "\<exists>b'. runOp (runOps (st ?F) (?ops2 ?F)) ?fout = (Inr True, b')" by simp
    from onAccount_applies [OF 2(2) ids(1) tr(1) this] obtain a3 where
      3: "onAccount a2 ?F (\<lambda>a. runOp a ?fout) = Inr (True, a3)" "runsOn ?ids st (?ops2(?F := ?ops2 ?F @ [?fout])) a3" by blast
    let ?ops3 = "?ops2(?F := ?ops2 ?F @ [?fout])"
    have G: "?G \<in> ?ids" using Some by (simp add: planAccounts_def)
    have "\<exists>b'. runOp (runOps (st ?G) (?ops3 ?G)) ?fin = (Inr True, b')"
    proof (rule inPosting_runs)
      have st: "runOps (st ?G) (?ops3 ?G) = (if ?G = ?T then c else st ?G)" using g c f(5) by (auto simp: runOps_Cons)
      note tc = transfer_applied [OF _ _ c]
      show "ledger_inv (runOps (st ?G) (?ops3 ?G))" using runOps_inv inv g by blast
      show "inPosting (aggregateID (runOps (st ?G) (?ops3 ?G))) feeTr (tc_FromAccountID command) (tc_FeeAmount command) = Inr s"
        unfolding st using tc(3) T inv [of ?G] g rs(2) by (cases "?G = ?T") auto
      show "PostedTransactions (runOps (st ?G) (?ops3 ?G)) (TrimSpace (lt_TransactionID feeTr)) = None"
        unfolding st using tc(2) [of "lt_TransactionID feeTr"] T nf(2) g f(6) by (cases "?G = ?T") auto
      show "0 < sint (tc_FeeAmount command)" using g by simp
    qed
    from onAccount_applies [of ?ids st ?ops3 a3 ?G ?fin, OF 3(2) G TrimSpace_idem this] obtain a4 where "onAccount a3 ?G (\<lambda>a. runOp a ?fin) = Inr (True, a4)" by blast
    with 1(1) 2(1) 3(1) Some show ?thesis by (auto simp: applyTransfer_def)
  qed
qed

lemma countMatching_new:
  "\<forall>i\<in>set expected. \<forall>a. accounts (TrimSpace (xp_accountID i)) = Some a \<longrightarrow> PostedTransaction a (p_TransactionID (xp_posting i)) = None \<Longrightarrow>
     countMatching accounts expected = Inr 0"
  by (induction expected) (auto split: option.splits)

context account_repository
begin

lemma transferBody_runs:
  assumes db: "ok db" and plan: "planTransfer t command = Inr plan"
    and new: "\<And>k tx. (k, tx) \<in> set (planTxs command plan) \<Longrightarrow> PostedTransactions (stored db k) tx = None"
    and funds: "sint (tc_Amount command) + sint (tc_FeeAmount command) \<le>
      sint (balanceIn (stored db (TrimSpace (tc_FromAccountID command))) (ToUpper (TrimSpace (tc_Currency command))))"
  shows "\<exists>db'. transferBody repos now command plan db = Inr ((), db') \<and>
    allApplied (stored db (TrimSpace (tc_FromAccountID command))) (transferOps command plan (TrimSpace (tc_FromAccountID command))) \<and>
    stored db' (TrimSpace (tc_FromAccountID command)) = MarkPersisted (runOps (stored db (TrimSpace (tc_FromAccountID command)))
      (transferOps command plan (TrimSpace (tc_FromAccountID command))))"
proof -
  let ?ids = "set (planAccounts command plan)"
  from loadPlan [OF db plan] obtain accounts where load: "loadLedgerAccounts repos db Map.empty (planAccounts command plan) = Inr accounts"
    and acc: "runsOn ?ids (stored db) (\<lambda>_. []) accounts" by blast
  have "\<forall>i\<in>set (tp_expected plan). \<forall>a. accounts (TrimSpace (xp_accountID i)) = Some a \<longrightarrow> PostedTransaction a (p_TransactionID (xp_posting i)) = None"
  proof (intro ballI allI impI)
    fix i a assume i: "i \<in> set (tp_expected plan)" "accounts (TrimSpace (xp_accountID i)) = Some a"
    from acc i(2) have "a = stored db (TrimSpace (xp_accountID i))" by (auto simp: runsOn_def split: if_splits)
    moreover from i(1) have "(TrimSpace (xp_accountID i), TrimSpace (p_TransactionID (xp_posting i))) \<in> set (planTxs command plan)"
      by (force simp flip: planTransfer_expected [OF plan])
    ultimately show "PostedTransaction a (p_TransactionID (xp_posting i)) = None" using new by (simp add: PostedTransaction_def)
  qed
  note cnt = countMatching_new [OF this]
  from applyTransfer_ok [OF plan acc _ new funds] stored_inv [OF db] obtain fe accounts' where
    ap: "applyTransfer command plan accounts = Inr (True, fe, accounts')" by blast
  from applyTransfer_runs [OF plan acc _ new ap] stored_inv [OF db]
  have runs: "runsOn ?ids (stored db) (transferOps command plan) accounts'" by blast
  have "allApplied (stored db (TrimSpace (tc_FromAccountID command))) (transferOps command plan (TrimSpace (tc_FromAccountID command)))"
    using runsOn_applied [OF runs, of "TrimSpace (tc_FromAccountID command)"] planTransfer_facts(1) [OF plan] by (simp add: planAccounts_def)
  moreover from saveTransfer_stored [OF db plan runs, of now] planTransfer_facts(1,3) [OF plan] obtain db' where
    "saveTransfer repos now command plan db accounts' = Inr ((), db')"
    "stored db' (TrimSpace (tc_FromAccountID command)) = MarkPersisted (runOps (stored db (TrimSpace (tc_FromAccountID command)))
      (transferOps command plan (TrimSpace (tc_FromAccountID command))))" by auto
  moreover have "transferBody repos now command plan db = saveTransfer repos now command plan db accounts'"
    using load cnt ap by (simp add: transferBody_eq ensureLedgerPostingsState_def)
  ultimately show ?thesis by simp
qed

end

lemma transfer_goes_through:
  assumes db: "db_reachable db" and plan: "planTransfer t command = Inr plan"
    and new: "\<And>k tx. (k, tx) \<in> set (planTxs command plan) \<Longrightarrow> PostedTransactions (storedAccount db k) tx = None"
    and funds: "sint (tc_Amount command) + sint (tc_FeeAmount command) \<le>
      sint (balanceIn (storedAccount db (TrimSpace (tc_FromAccountID command))) (ToUpper (TrimSpace (tc_Currency command))))"
  shows "\<exists>tr db'. ledgerService_TransferToAccount ledgerRepos now t command db = (Inr tr, db') \<and> db' \<noteq> db"
proof -
  let ?F = "TrimSpace (tc_FromAccountID command)"
  let ?ops = "transferOps command plan ?F"
  have F: "validID ?F" "?F \<in> set (planAccounts command plan)"
    using planTransfer_facts(1,3) [OF plan] by (simp_all add: planAccounts_def)
  note f = planTransfer_facts [OF plan]
  let ?cur = "ToUpper (TrimSpace (tc_Currency command))"
  from event_store.transferBody_runs [OF db plan new funds, of now] obtain db' where
    body: "transferBody ledgerRepos now command plan db = Inr ((), db')"
    and ap: "allApplied (storedAccount db ?F) ?ops"
    and st: "storedAccount db' ?F = MarkPersisted (runOps (storedAccount db ?F) ?ops)" by blast
  have "balanceIn (storedAccount db' ?F) ?cur = balanceIn (storedAccount db ?F) ?cur + sum_list (map (transferDelta ?cur) ?ops)"
    using allApplied_effect [OF _ transferOps_small(2) ap] event_store.stored_inv [OF db F(1)] st by (simp add: balanceIn_def MarkPersisted_def)
  then have "balanceIn (storedAccount db' ?F) ?cur = balanceIn (storedAccount db ?F) ?cur - (tc_Amount command + tc_FeeAmount command)"
    by (simp add: transferOps_delta [OF plan] movementDelta_def)
  moreover have "sint (tc_Amount command + tc_FeeAmount command) = sint (tc_Amount command) + sint (tc_FeeAmount command)"
    using funds f(8) planTransfer_fields(4) [OF plan] sint64_range [of "balanceIn (storedAccount db ?F) ?cur"]
    by (intro sint_add64_fits) (auto simp: fits64_def)
  then have "tc_Amount command + tc_FeeAmount command \<noteq> 0" using f(8) planTransfer_fields(4) [OF plan] by (intro notI) simp
  ultimately have "db' \<noteq> db" by (auto simp: neg_eq_iff_add_eq_0)
  with body plan show ?thesis by (auto simp: ledgerService_TransferToAccount_def WithTransaction_def split: option.splits)
qed

text \<open>The transfer of the witnesses: paid from the account that the sample payment has credited.\<close>

definition sampleTransfer :: TransferToAccountCommand where
  "sampleTransfer = \<lparr>tc_TransactionID = ''t1'', tc_FromAccountID = '' u1'', tc_ToAccountID = ''u2'', tc_Currency = ''usd'',
     tc_Amount = 400, tc_FeeAmount = 10, tc_FeeAccountID = ''platform''\<rparr>"

definition afterSample :: "string \<Rightarrow> LedgerAccountAggregate" where
  "afterSample k = runOps (storedAccount emptyDB k) (opsFor k sampleEvents)"

lemma afterSample_sender:
  "PostedTransactions (afterSample ''u1'') ''t1'' = None"
  by code_simp

lemma afterSample_sender_fee:
  "PostedTransactions (afterSample ''u1'') ''t1:fee'' = None"
  by code_simp

lemma afterSample_balance:
  "balanceIn (afterSample ''u1'') ''USD'' = 1500"
  by code_simp

lemma sampleEvents_accounts: "map (\<lambda>e. TrimSpace (ev_AggregateID e)) sampleEvents = [''ledger:clearing:stripe'', ''u1'']"
  by code_simp

lemma afterSample_others:
  "PostedTransactions (afterSample ''u2'') ''t1'' = None" "PostedTransactions (afterSample ''platform'') ''t1:fee'' = None"
  "balanceIn (afterSample ''u2'') ''USD'' = 0"
proof -
  have "opsFor k sampleEvents = []" if "k \<notin> {''ledger:clearing:stripe'', ''u1''}" for k
    using that arg_cong [OF sampleEvents_accounts, of set] by (auto simp: opsFor_def filter_empty_conv)
  then have "afterSample ''u2'' = storedAccount emptyDB ''u2''" "afterSample ''platform'' = storedAccount emptyDB ''platform''"
    by (simp_all add: afterSample_def)
  moreover have "PostedTransactions (storedAccount emptyDB ''u2'') ''t1'' = None" "balanceIn (storedAccount emptyDB ''u2'') ''USD'' = 0"
    "PostedTransactions (storedAccount emptyDB ''platform'') ''t1:fee'' = None" by code_simp+
  ultimately show "PostedTransactions (afterSample ''u2'') ''t1'' = None" "PostedTransactions (afterSample ''platform'') ''t1:fee'' = None"
    "balanceIn (afterSample ''u2'') ''USD'' = 0" by simp_all
qed

lemma sampleTransfer_values:
  "validID ''u1''" "validID ''u2''" "validID ''platform''" "TrimSpace (tc_FromAccountID sampleTransfer) = ''u1''"
  "ToUpper (TrimSpace (tc_Currency sampleTransfer)) = ''USD''" "sint (tc_Amount sampleTransfer) + sint (tc_FeeAmount sampleTransfer) = 410"
  by code_simp+

lemma sampleTransfer_ready:
  obtains db1 plan where "db_reachable db1" "planTransfer sampleTime sampleTransfer = Inr plan"
    "\<forall>(k, tx)\<in>set (planTxs sampleTransfer plan). PostedTransactions (storedAccount db1 k) tx = None"
    "sint (tc_Amount sampleTransfer) + sint (tc_FeeAmount sampleTransfer) \<le>
      sint (balanceIn (storedAccount db1 (TrimSpace (tc_FromAccountID sampleTransfer))) (ToUpper (TrimSpace (tc_Currency sampleTransfer))))"
    "balanceIn (storedAccount db1 ''u1'') ''USD'' = 1500" "balanceIn (storedAccount db1 ''u2'') ''USD'' = 0"
proof -
  obtain db1 where rec: "RecordLedgerEvents ledgerRepos 7 sampleEvents emptyDB = (Inr (), db1)" and db1: "db_reachable db1"
    by (rule sample_recorded)
  from event_store.RecordLedgerEvents_stored [OF db_empty _ rec] sampleEvents_length
  have st: "storedAccount db1 k = MarkPersisted (afterSample k)" if "validID k" for k using that by (simp add: afterSample_def)
  have bal: "balanceIn (storedAccount db1 k) c = balanceIn (afterSample k) c" "PostedTransactions (storedAccount db1 k) = PostedTransactions (afterSample k)"
    if "validID k" for k c using st [OF that] by (simp_all add: balanceIn_def MarkPersisted_def)
  have "case planTransfer sampleTime sampleTransfer of Inl _ \<Rightarrow> False | Inr plan \<Rightarrow> planTxs sampleTransfer plan =
      [(''u1'', ''t1''), (''u2'', ''t1''), (''u1'', ''t1:fee''), (''platform'', ''t1:fee'')]" by code_simp
  then obtain plan where plan: "planTransfer sampleTime sampleTransfer = Inr plan" "planTxs sampleTransfer plan =
      [(''u1'', ''t1''), (''u2'', ''t1''), (''u1'', ''t1:fee''), (''platform'', ''t1:fee'')]" by (auto split: sum.splits)
  from plan afterSample_sender afterSample_sender_fee afterSample_others afterSample_balance sampleTransfer_values bal db1 show thesis by (intro that [of db1 plan]) auto
qed

text \<open>
  C2 (safety). A transfer is all or nothing and conserves money: whatever the outcome, the database
  is either unchanged or every balance has changed by exactly the transfer, the amount from the
  sender to the receiver and the fee from the sender to the fee account (which may be the
  receiver), in the transfer's currency; in that case the sender's balance is not negative.
\<close>

theorem transfer_conserves:
  assumes "db_reachable db" "ledgerService_TransferToAccount ledgerRepos now t command db = (r, db')"
  shows "db_reachable db' \<and> (db' = db \<or> (\<exists>tr. r = Inr tr) \<and>
    0 \<le>s balanceIn (storedAccount db' (TrimSpace (tc_FromAccountID command))) (ToUpper (TrimSpace (tc_Currency command))) \<and>
    (\<forall>k c. validID k \<longrightarrow> balanceIn (storedAccount db' k) c = balanceIn (storedAccount db k) c +
      movementDelta (TrimSpace (tc_FromAccountID command)) (TrimSpace (tc_ToAccountID command))
        (ToUpper (TrimSpace (tc_Currency command))) (tc_Amount command) k c +
      movementDelta (TrimSpace (tc_FromAccountID command)) (TrimSpace (tc_FeeAccountID command))
        (ToUpper (TrimSpace (tc_Currency command))) (tc_FeeAmount command) k c))"
proof (cases "db' = db")
  case False
  with assms(2) obtain plan u where plan: "planTransfer t command = Inr plan" and body: "transferBody ledgerRepos now command plan db = Inr (u, db')"
    and r: "\<exists>tr. r = Inr tr"
    by (auto simp: ledgerService_TransferToAccount_def WithTransaction_def split: sum.splits)
  from event_store.transferBody_stored [OF assms(1) plan body] False have db': "db_reachable db'"
    and st: "\<And>k. validID k \<Longrightarrow> allApplied (storedAccount db k) (transferOps command plan k)"
      "\<And>k. validID k \<Longrightarrow> storedAccount db' k = MarkPersisted (runOps (storedAccount db k) (transferOps command plan k))" by auto
  have bal: "balanceIn (storedAccount db' k) c = balanceIn (runOps (storedAccount db k) (transferOps command plan k)) c" if "validID k" for k c
    using st(2) [OF that] by (simp add: balanceIn_def MarkPersisted_def)
  note inv = event_store.stored_inv [OF assms(1)]
  have F: "validID (TrimSpace (tc_FromAccountID command))" using planTransfer_facts(1,3) [OF plan] by simp
  from transferOps_funded [OF plan _ st(1) [OF F]] inv [OF F] bal [OF F]
  have "0 \<le>s balanceIn (storedAccount db' (TrimSpace (tc_FromAccountID command))) (ToUpper (TrimSpace (tc_Currency command)))" by simp
  moreover have "balanceIn (storedAccount db' k) c = balanceIn (storedAccount db k) c + sum_list (map (transferDelta c) (transferOps command plan k))"
    if "validID k" for k c
    using allApplied_effect [OF _ transferOps_small(2) st(1) [OF that], of c] inv [OF that] bal [OF that] by simp
  ultimately show ?thesis using db' r by (simp add: transferOps_delta [OF plan] add.assoc)
qed (use assms in simp)


theorem transfer_conserves_witness:
  "\<exists>db1 tr db2. db_reachable db1 \<and> ledgerService_TransferToAccount ledgerRepos 9 sampleTime sampleTransfer db1 = (Inr tr, db2) \<and>
     balanceIn (storedAccount db1 ''u1'') ''USD'' = 1500 \<and> balanceIn (storedAccount db2 ''u1'') ''USD'' = 1090 \<and>
     balanceIn (storedAccount db2 ''u2'') ''USD'' = 400"
proof -
  obtain db1 plan where db1: "db_reachable db1" "planTransfer sampleTime sampleTransfer = Inr plan"
    "\<forall>(k, tx)\<in>set (planTxs sampleTransfer plan). PostedTransactions (storedAccount db1 k) tx = None"
    "sint (tc_Amount sampleTransfer) + sint (tc_FeeAmount sampleTransfer) \<le>
      sint (balanceIn (storedAccount db1 (TrimSpace (tc_FromAccountID sampleTransfer))) (ToUpper (TrimSpace (tc_Currency sampleTransfer))))"
    and bal: "balanceIn (storedAccount db1 ''u1'') ''USD'' = 1500" "balanceIn (storedAccount db1 ''u2'') ''USD'' = 0"
    by (rule sampleTransfer_ready)
  from transfer_goes_through [OF db1(1,2) _ db1(4)] db1(3) obtain tr db2 where
    go: "ledgerService_TransferToAccount ledgerRepos 9 sampleTime sampleTransfer db1 = (Inr tr, db2)" "db2 \<noteq> db1" by blast
  let ?delta = "\<lambda>k. movementDelta (TrimSpace (tc_FromAccountID sampleTransfer)) (TrimSpace (tc_ToAccountID sampleTransfer))
      (ToUpper (TrimSpace (tc_Currency sampleTransfer))) (tc_Amount sampleTransfer) k ''USD'' +
    movementDelta (TrimSpace (tc_FromAccountID sampleTransfer)) (TrimSpace (tc_FeeAccountID sampleTransfer))
      (ToUpper (TrimSpace (tc_Currency sampleTransfer))) (tc_FeeAmount sampleTransfer) k ''USD''"
  have "?delta ''u1'' = - 410" "?delta ''u2'' = 400" "validID ''u1''" "validID ''u2''" by code_simp+
  with transfer_conserves [OF db1(1) go(1)] go(2) bal
  have "balanceIn (storedAccount db2 ''u1'') ''USD'' = 1090" "balanceIn (storedAccount db2 ''u2'') ''USD'' = 400"
    by (simp_all add: add.assoc)
  with db1(1) go(1) bal show ?thesis by blast
qed

text \<open>
  C19 (liveness). A transfer that can be paid goes through: when the command is valid, none of its
  postings exists yet, and the sender has the amount and the fee (as integers, without
  wrap-around), the transfer succeeds and changes the database.
\<close>

theorem transfer_succeeds:
  assumes "db_reachable db" "planTransfer t command = Inr plan"
    and "\<forall>(k, tx)\<in>set (planTxs command plan). PostedTransactions (storedAccount db k) tx = None"
    and "sint (tc_Amount command) + sint (tc_FeeAmount command) \<le>
      sint (balanceIn (storedAccount db (TrimSpace (tc_FromAccountID command))) (ToUpper (TrimSpace (tc_Currency command))))"
  shows "\<exists>tr db'. ledgerService_TransferToAccount ledgerRepos now t command db = (Inr tr, db') \<and> db' \<noteq> db"
  using transfer_goes_through [OF assms(1,2) _ assms(4)] assms(3) by blast

theorem transfer_succeeds_witness:
  "\<exists>db1 tr db2. db_reachable db1 \<and> ledgerService_TransferToAccount ledgerRepos 9 sampleTime sampleTransfer db1 = (Inr tr, db2) \<and> db2 \<noteq> db1"
proof -
  obtain db1 plan where db1: "db_reachable db1" "planTransfer sampleTime sampleTransfer = Inr plan"
    "\<forall>(k, tx)\<in>set (planTxs sampleTransfer plan). PostedTransactions (storedAccount db1 k) tx = None"
    "sint (tc_Amount sampleTransfer) + sint (tc_FeeAmount sampleTransfer) \<le>
      sint (balanceIn (storedAccount db1 (TrimSpace (tc_FromAccountID sampleTransfer))) (ToUpper (TrimSpace (tc_Currency sampleTransfer))))"
    by (rule sampleTransfer_ready)
  from transfer_succeeds [OF db1] db1(1) show ?thesis by blast
qed

end
