(* ===== verification/PaymentEvents.thy ===== *)
theory PaymentEvents
  imports EventSourcing LedgerEntities
begin

text \<open>
  The payment events of \<^verbatim>\<open>core/shared/contracts/events/payment_events.go\<close>, which the payment module
  publishes and the ledger consumes, and the provider state change of
  \<^verbatim>\<open>core/modules/payment/domain/aggregate/payment_intent_aggregate_event.go\<close>. A payload is a value of
  \<open>PaymentEvent\<close>; its event name is the Go type name. JSON encoding and decoding keep the payload.
\<close>

record PaymentCreatedEvent =
  pc_Workflow :: string
  pc_PaymentID :: string
  pc_TransactionID :: string
  pc_Provider :: string
  pc_ClearingAccountKey :: string
  pc_DebitAccountID :: string
  pc_Amount :: int64
  pc_FeeAmount :: int64
  pc_ProviderAmount :: int64
  pc_Currency :: string
  pc_CreditAccountID :: string
  pc_Status :: string
  pc_Metadata :: "string \<rightharpoonup> string"
  pc_CreatedAt :: gotime

record PaymentWithdrawalRequestedEvent =
  pw_PaymentID :: string
  pw_TransactionID :: string
  pw_Provider :: string
  pw_ClearingAccountKey :: string
  pw_DebitAccountID :: string
  pw_DestinationAccountID :: string
  pw_Amount :: int64
  pw_FeeAmount :: int64
  pw_ProviderAmount :: int64
  pw_Currency :: string
  pw_Status :: string
  pw_RequestedAt :: gotime

record PaymentCheckoutSessionCreatedEvent =
  pk_Workflow :: string
  pk_PaymentID :: string
  pk_TransactionID :: string
  pk_Provider :: string
  pk_ProviderPaymentRef :: string
  pk_CheckoutURL :: string
  pk_Amount :: int64
  pk_FeeAmount :: int64
  pk_ProviderAmount :: int64
  pk_Currency :: string
  pk_Status :: string
  pk_OccurredAt :: gotime

record PaymentSucceededEvent =
  ps_Workflow :: string
  ps_PaymentID :: string
  ps_TransactionID :: string
  ps_Provider :: string
  ps_ClearingAccountKey :: string
  ps_DebitAccountID :: string
  ps_ProviderEventID :: string
  ps_ProviderEventType :: string
  ps_ProviderPaymentRef :: string
  ps_Amount :: int64
  ps_FeeAmount :: int64
  ps_ProviderAmount :: int64
  ps_Currency :: string
  ps_CreditAccountID :: string
  ps_IdempotencyKey :: string
  ps_SucceededAt :: gotime

record PaymentFailedEvent =
  pf_Workflow :: string
  pf_PaymentID :: string
  pf_TransactionID :: string
  pf_Provider :: string
  pf_ClearingAccountKey :: string
  pf_DebitAccountID :: string
  pf_ProviderEventID :: string
  pf_ProviderEventType :: string
  pf_ProviderPaymentRef :: string
  pf_Amount :: int64
  pf_FeeAmount :: int64
  pf_ProviderAmount :: int64
  pf_Currency :: string
  pf_CreditAccountID :: string
  pf_Status :: string
  pf_OccurredAt :: gotime

record PaymentRefundedEvent =
  pr_Workflow :: string
  pr_PaymentID :: string
  pr_TransactionID :: string
  pr_Provider :: string
  pr_ClearingAccountKey :: string
  pr_DebitAccountID :: string
  pr_ProviderEventID :: string
  pr_ProviderEventType :: string
  pr_ProviderPaymentRef :: string
  pr_Amount :: int64
  pr_FeeAmount :: int64
  pr_ProviderAmount :: int64
  pr_Currency :: string
  pr_CreditAccountID :: string
  pr_IdempotencyKey :: string
  pr_RefundedAt :: gotime

record PaymentChargebackEvent =
  pb_Workflow :: string
  pb_PaymentID :: string
  pb_TransactionID :: string
  pb_Provider :: string
  pb_ClearingAccountKey :: string
  pb_DebitAccountID :: string
  pb_ProviderEventID :: string
  pb_ProviderEventType :: string
  pb_ProviderPaymentRef :: string
  pb_Amount :: int64
  pb_FeeAmount :: int64
  pb_ProviderAmount :: int64
  pb_Currency :: string
  pb_CreditAccountID :: string
  pb_IdempotencyKey :: string
  pb_ChargedBackAt :: gotime

record PaymentProviderStateChangedEvent =
  pg_TransactionID :: string
  pg_Provider :: string
  pg_ProviderPaymentRef :: string
  pg_PreviousStatus :: string
  pg_Status :: string
  pg_ProviderEventID :: string
  pg_ProviderEventType :: string
  pg_Amount :: int64
  pg_Currency :: string
  pg_OccurredAt :: gotime
  pg_StateChanged :: bool
  pg_ExternalRefChanged :: bool

datatype PaymentEvent =
    PaymentCreated PaymentCreatedEvent
  | PaymentWithdrawalRequested PaymentWithdrawalRequestedEvent
  | PaymentCheckoutSessionCreated PaymentCheckoutSessionCreatedEvent
  | PaymentProviderStateChanged PaymentProviderStateChangedEvent
  | PaymentSucceeded PaymentSucceededEvent
  | PaymentFailed PaymentFailedEvent
  | PaymentRefunded PaymentRefundedEvent
  | PaymentChargeback PaymentChargebackEvent

definition paymentEventName :: "PaymentEvent \<Rightarrow> string" where
  "paymentEventName e = (case e of
      PaymentCreated _ \<Rightarrow> ''PaymentCreatedEvent''
    | PaymentWithdrawalRequested _ \<Rightarrow> ''PaymentWithdrawalRequestedEvent''
    | PaymentCheckoutSessionCreated _ \<Rightarrow> ''PaymentCheckoutSessionCreatedEvent''
    | PaymentProviderStateChanged _ \<Rightarrow> ''PaymentProviderStateChangedEvent''
    | PaymentSucceeded _ \<Rightarrow> EventPaymentSucceeded
    | PaymentFailed _ \<Rightarrow> ''PaymentFailedEvent''
    | PaymentRefunded _ \<Rightarrow> EventPaymentRefunded
    | PaymentChargeback _ \<Rightarrow> EventPaymentChargeback)"

lemma paymentEventName_nonempty [simp]: "paymentEventName e \<noteq> []"
  by (cases e) (simp_all add: paymentEventName_def EventPaymentSucceeded_def EventPaymentRefunded_def EventPaymentChargeback_def)

end
