(* ===== verification/PaymentIntent.thy ===== *)
theory PaymentIntent
  imports PaymentEvents
begin

text \<open>
  \<^verbatim>\<open>core/modules/payment/domain/entity\<close>: payment intents, their status machine, the validation of
  provider results and the payloads built from an intent.

  A pointer receiver that the code tests for \<^verbatim>\<open>nil\<close> is an \<open>option\<close>; methods that change the intent
  return it. The clock that \<^verbatim>\<open>normalizePaymentTime\<close> reads for zero instants is the argument \<open>now\<close>.
  The helpers \<^verbatim>\<open>providerClearingAccountKey\<close>, \<^verbatim>\<open>effectivePaymentClearingAccountKey\<close>,
  \<^verbatim>\<open>normalizePaymentTime\<close>, \<^verbatim>\<open>coalescePaymentValue\<close> and \<^verbatim>\<open>paymentResultAmountOrDefault\<close> have the same
  body in the package of the aggregate, which uses the definitions of this theory.

  The theory shows the status machine, that an accepted top-up never wraps, and what normalising
  an intent does.
\<close>

section \<open>Data\<close>

abbreviation PaymentStatusCreating :: string where "PaymentStatusCreating \<equiv> ''CREATING''"
abbreviation PaymentStatusPending :: string where "PaymentStatusPending \<equiv> ''PENDING''"
abbreviation PaymentStatusSuccess :: string where "PaymentStatusSuccess \<equiv> ''SUCCESS''"
abbreviation PaymentStatusFailed :: string where "PaymentStatusFailed \<equiv> ''FAILED''"
abbreviation PaymentStatusCancelled :: string where "PaymentStatusCancelled \<equiv> ''CANCELLED''"
abbreviation PaymentStatusRefunded :: string where "PaymentStatusRefunded \<equiv> ''REFUNDED''"
abbreviation PaymentStatusChargeback :: string where "PaymentStatusChargeback \<equiv> ''CHARGEBACK''"

definition ValidPaymentStatuses :: "string list" where
  "ValidPaymentStatuses = [PaymentStatusCreating, PaymentStatusPending, PaymentStatusSuccess, PaymentStatusFailed,
     PaymentStatusCancelled, PaymentStatusRefunded, PaymentStatusChargeback]"

abbreviation PaymentWorkflowTopUp :: string where "PaymentWorkflowTopUp \<equiv> ''TOP_UP''"
abbreviation PaymentWorkflowWithdrawal :: string where "PaymentWorkflowWithdrawal \<equiv> ''WITHDRAWAL''"

datatype PaymentTransitionType =
    PaymentTransitionNone
  | PaymentTransitionPending
  | PaymentTransitionSucceeded
  | PaymentTransitionFailed
  | PaymentTransitionCancelled
  | PaymentTransitionRefunded
  | PaymentTransitionChargeback

record PaymentTransition =
  ptr_PreviousStatus :: string
  ptr_CurrentStatus :: string
  ptr_Type :: PaymentTransitionType
  ptr_StateChanged :: bool
  ptr_ExternalRefChanged :: bool
  ptr_Ignored :: bool

record PaymentIntent =
  pin_Workflow :: string
  pin_TransactionID :: string
  pin_Provider :: string
  pin_ExternalRef :: string
  pin_DestinationAccountID :: string
  pin_Amount :: int64
  pin_FeeAmount :: int64
  pin_ProviderAmount :: int64
  pin_Currency :: string
  pin_ClearingAccountKey :: string
  pin_DebitAccountID :: string
  pin_CreditAccountID :: string
  pin_Status :: string
  pin_CreatedAt :: gotime
  pin_UpdatedAt :: gotime

record PaymentProviderResult =
  ppr_TransactionID :: string
  ppr_EventID :: string
  ppr_EventType :: string
  ppr_Status :: string
  ppr_Amount :: int64
  ppr_Currency :: string
  ppr_ExternalRef :: string

record ProcessedPaymentEvent =
  ppe_Provider :: string
  ppe_IdempotencyKey :: string
  ppe_TransactionID :: string
  ppe_CreatedAt :: gotime

abbreviation ErrPaymentProviderRequired :: error where "ErrPaymentProviderRequired \<equiv> Sentinel ''ErrPaymentProviderRequired''"
abbreviation ErrPaymentTransactionIDRequired :: error where
  "ErrPaymentTransactionIDRequired \<equiv> Sentinel ''ErrPaymentTransactionIDRequired''"
abbreviation ErrPaymentWorkflowInvalid :: error where "ErrPaymentWorkflowInvalid \<equiv> Sentinel ''ErrPaymentWorkflowInvalid''"
abbreviation ErrPaymentAmountInvalid :: error where "ErrPaymentAmountInvalid \<equiv> Sentinel ''ErrPaymentAmountInvalid''"
abbreviation ErrPaymentFeeAmountInvalid :: error where "ErrPaymentFeeAmountInvalid \<equiv> Sentinel ''ErrPaymentFeeAmountInvalid''"
abbreviation ErrPaymentProviderAmountInvalid :: error where
  "ErrPaymentProviderAmountInvalid \<equiv> Sentinel ''ErrPaymentProviderAmountInvalid''"
abbreviation ErrPaymentCurrencyRequired :: error where "ErrPaymentCurrencyRequired \<equiv> Sentinel ''ErrPaymentCurrencyRequired''"
abbreviation ErrPaymentClearingAccountKeyMissing :: error where
  "ErrPaymentClearingAccountKeyMissing \<equiv> Sentinel ''ErrPaymentClearingAccountKeyMissing''"
abbreviation ErrPaymentDestinationAccountRequired :: error where
  "ErrPaymentDestinationAccountRequired \<equiv> Sentinel ''ErrPaymentDestinationAccountRequired''"
abbreviation ErrPaymentDebitAccountRequired :: error where
  "ErrPaymentDebitAccountRequired \<equiv> Sentinel ''ErrPaymentDebitAccountRequired''"
abbreviation ErrPaymentCreditAccountRequired :: error where
  "ErrPaymentCreditAccountRequired \<equiv> Sentinel ''ErrPaymentCreditAccountRequired''"
abbreviation ErrPaymentAccountsConflict :: error where "ErrPaymentAccountsConflict \<equiv> Sentinel ''ErrPaymentAccountsConflict''"
abbreviation ErrPaymentStatusInvalid :: error where "ErrPaymentStatusInvalid \<equiv> Sentinel ''ErrPaymentStatusInvalid''"
abbreviation ErrPaymentProviderAmountMismatch :: error where
  "ErrPaymentProviderAmountMismatch \<equiv> Sentinel ''ErrPaymentProviderAmountMismatch''"
abbreviation ErrPaymentProviderCurrencyMismatch :: error where
  "ErrPaymentProviderCurrencyMismatch \<equiv> Sentinel ''ErrPaymentProviderCurrencyMismatch''"
abbreviation ErrPaymentProcessedProviderRequired :: error where
  "ErrPaymentProcessedProviderRequired \<equiv> Sentinel ''ErrPaymentProcessedProviderRequired''"
abbreviation ErrPaymentProcessedKeyRequired :: error where
  "ErrPaymentProcessedKeyRequired \<equiv> Sentinel ''ErrPaymentProcessedKeyRequired''"
abbreviation ErrPaymentProcessedTxnRequired :: error where
  "ErrPaymentProcessedTxnRequired \<equiv> Sentinel ''ErrPaymentProcessedTxnRequired''"

section \<open>Creating an intent\<close>

definition providerClearingAccountKey :: "string \<Rightarrow> string" where
  "providerClearingAccountKey provider =
     (if ToLower (TrimSpace provider) = [] then [] else ''provider:'' @ ToLower (TrimSpace provider))"

definition effectivePaymentClearingAccountKey :: "string \<Rightarrow> string \<Rightarrow> string" where
  "effectivePaymentClearingAccountKey provider clearingAccountKey =
     (if TrimSpace clearingAccountKey \<noteq> [] then TrimSpace clearingAccountKey else providerClearingAccountKey provider)"

definition NormalizePaymentWorkflow :: "string \<Rightarrow> string" where
  "NormalizePaymentWorkflow workflow =
     (let w = ToUpper (TrimSpace workflow)
      in if w = PaymentWorkflowTopUp then PaymentWorkflowTopUp
         else if w = PaymentWorkflowWithdrawal then PaymentWorkflowWithdrawal
         else [])"

definition NormalizePaymentStatus :: "string \<Rightarrow> string" where
  "NormalizePaymentStatus status =
     (let normalized = ToUpper (TrimSpace status)
      in if normalized \<in> set ValidPaymentStatuses then normalized else [])"

definition NormalizePaymentStatusOrPending :: "string \<Rightarrow> string" where
  "NormalizePaymentStatusOrPending status =
     (if NormalizePaymentStatus status \<noteq> [] then NormalizePaymentStatus status else PaymentStatusPending)"

definition normalizePaymentTime :: "gotime \<Rightarrow> gotime \<Rightarrow> gotime" where
  "normalizePaymentTime now value = (if IsZero value then UTC now else UTC value)"

definition newPaymentIntent ::
  "gotime \<Rightarrow> string \<Rightarrow> string \<Rightarrow> string \<Rightarrow> int64 \<Rightarrow> int64 \<Rightarrow> int64 \<Rightarrow> string \<Rightarrow> string \<Rightarrow> string \<Rightarrow> string \<Rightarrow> string
   \<Rightarrow> gotime \<Rightarrow> error + PaymentIntent" where
  "newPaymentIntent clock workflow0 transactionID0 provider0 amount feeAmount providerAmount currency0 clearingAccountKey0
     destinationAccountID0 debitAccountID0 creditAccountID0 now =
     (let workflow = NormalizePaymentWorkflow workflow0;
          transactionID = TrimSpace transactionID0;
          provider = ToLower (TrimSpace provider0);
          currency = ToUpper (TrimSpace currency0);
          clearingAccountKey = effectivePaymentClearingAccountKey provider clearingAccountKey0;
          destinationAccountID = TrimSpace destinationAccountID0;
          debitAccountID = TrimSpace debitAccountID0;
          creditAccountID = TrimSpace creditAccountID0
      in if workflow = [] then Inl ErrPaymentWorkflowInvalid
         else if provider = [] then Inl ErrPaymentProviderRequired
         else if transactionID = [] then Inl ErrPaymentTransactionIDRequired
         else if amount \<le>s 0 then Inl ErrPaymentAmountInvalid
         else if feeAmount <s 0 then Inl ErrPaymentFeeAmountInvalid
         else if providerAmount \<le>s 0 then Inl ErrPaymentProviderAmountInvalid
         else if currency = [] then Inl ErrPaymentCurrencyRequired
         else if clearingAccountKey = [] then Inl ErrPaymentClearingAccountKeyMissing
         else if workflow = PaymentWorkflowTopUp \<and> creditAccountID = [] then Inl ErrPaymentCreditAccountRequired
         else if workflow = PaymentWorkflowWithdrawal \<and> debitAccountID = [] then Inl ErrPaymentDebitAccountRequired
         else if workflow = PaymentWorkflowWithdrawal \<and> destinationAccountID = [] then Inl ErrPaymentDestinationAccountRequired
         else if debitAccountID \<noteq> [] \<and> creditAccountID \<noteq> [] \<and> debitAccountID = creditAccountID then Inl ErrPaymentAccountsConflict
         else Inr \<lparr>pin_Workflow = workflow, pin_TransactionID = transactionID, pin_Provider = provider, pin_ExternalRef = [],
                   pin_DestinationAccountID = destinationAccountID, pin_Amount = amount, pin_FeeAmount = feeAmount,
                   pin_ProviderAmount = providerAmount, pin_Currency = currency, pin_ClearingAccountKey = clearingAccountKey,
                   pin_DebitAccountID = debitAccountID, pin_CreditAccountID = creditAccountID,
                   pin_Status = PaymentStatusCreating, pin_CreatedAt = normalizePaymentTime clock now,
                   pin_UpdatedAt = normalizePaymentTime clock now\<rparr>)"

definition NewProviderTopUpIntent ::
  "gotime \<Rightarrow> string \<Rightarrow> string \<Rightarrow> int64 \<Rightarrow> int64 \<Rightarrow> string \<Rightarrow> string \<Rightarrow> gotime \<Rightarrow> error + PaymentIntent" where
  "NewProviderTopUpIntent clock transactionID provider amount feeAmount currency beneficiaryAccountID now =
     newPaymentIntent clock PaymentWorkflowTopUp transactionID provider amount feeAmount (amount + feeAmount) currency
       (providerClearingAccountKey provider) [] [] beneficiaryAccountID now"

definition NewProviderWithdrawalIntent ::
  "gotime \<Rightarrow> string \<Rightarrow> string \<Rightarrow> int64 \<Rightarrow> int64 \<Rightarrow> string \<Rightarrow> string \<Rightarrow> string \<Rightarrow> gotime \<Rightarrow> error + PaymentIntent" where
  "NewProviderWithdrawalIntent clock transactionID provider amount feeAmount currency destinationAccountID debitAccountID now =
     newPaymentIntent clock PaymentWorkflowWithdrawal transactionID provider amount feeAmount amount currency
       (providerClearingAccountKey provider) destinationAccountID debitAccountID [] now"

section \<open>Status transitions\<close>

definition paymentMoves :: "string \<Rightarrow> string \<Rightarrow> PaymentTransitionType option" where
  "paymentMoves current nextStatus =
     (if current = PaymentStatusCreating then
        (if nextStatus = PaymentStatusPending then Some PaymentTransitionPending
         else if nextStatus = PaymentStatusSuccess then Some PaymentTransitionSucceeded
         else if nextStatus = PaymentStatusFailed then Some PaymentTransitionFailed
         else if nextStatus = PaymentStatusCancelled then Some PaymentTransitionCancelled
         else None)
      else if current = PaymentStatusPending then
        (if nextStatus = PaymentStatusSuccess then Some PaymentTransitionSucceeded
         else if nextStatus = PaymentStatusFailed then Some PaymentTransitionFailed
         else if nextStatus = PaymentStatusCancelled then Some PaymentTransitionCancelled
         else None)
      else if current = PaymentStatusSuccess then
        (if nextStatus = PaymentStatusRefunded then Some PaymentTransitionRefunded
         else if nextStatus = PaymentStatusChargeback then Some PaymentTransitionChargeback
         else None)
      else None)"

definition resolvePaymentTransition :: "string \<Rightarrow> string \<Rightarrow> PaymentTransition" where
  "resolvePaymentTransition previousStatus nextStatus =
     (let current = NormalizePaymentStatusOrPending previousStatus;
          transition = \<lparr>ptr_PreviousStatus = current, ptr_CurrentStatus = current, ptr_Type = PaymentTransitionNone,
            ptr_StateChanged = False, ptr_ExternalRefChanged = False, ptr_Ignored = False\<rparr>
      in if current = nextStatus then transition
         else case paymentMoves current nextStatus of
                Some typ \<Rightarrow> transition\<lparr>ptr_CurrentStatus := nextStatus, ptr_Type := typ, ptr_StateChanged := True\<rparr>
              | None \<Rightarrow> transition\<lparr>ptr_Ignored := True\<rparr>)"

definition ensureWorkflowDefaults :: "PaymentIntent \<Rightarrow> PaymentIntent" where
  "ensureWorkflowDefaults p =
     (let workflow = (if NormalizePaymentWorkflow (pin_Workflow p) = [] then PaymentWorkflowTopUp else NormalizePaymentWorkflow (pin_Workflow p));
          provider = ToLower (TrimSpace (pin_Provider p))
      in p\<lparr>pin_TransactionID := TrimSpace (pin_TransactionID p),
           pin_Workflow := workflow,
           pin_Provider := provider,
           pin_ExternalRef := TrimSpace (pin_ExternalRef p),
           pin_DestinationAccountID := TrimSpace (pin_DestinationAccountID p),
           pin_Currency := ToUpper (TrimSpace (pin_Currency p)),
           pin_ClearingAccountKey := effectivePaymentClearingAccountKey provider (pin_ClearingAccountKey p),
           pin_DebitAccountID := TrimSpace (pin_DebitAccountID p),
           pin_CreditAccountID := TrimSpace (pin_CreditAccountID p),
           pin_ProviderAmount :=
             (if pin_ProviderAmount p \<le>s 0
              then (if workflow = PaymentWorkflowWithdrawal then pin_Amount p else pin_Amount p + pin_FeeAmount p)
              else pin_ProviderAmount p),
           pin_Status := (if NormalizePaymentStatus (pin_Status p) = [] then PaymentStatusCreating else NormalizePaymentStatus (pin_Status p))\<rparr>)"

definition transitionProviderState ::
  "gotime \<Rightarrow> PaymentIntent option \<Rightarrow> string \<Rightarrow> string \<Rightarrow> gotime \<Rightarrow> (error + PaymentTransition) \<times> PaymentIntent option" where
  "transitionProviderState clock receiver externalRef0 status updatedAt =
     (case receiver of
        None \<Rightarrow> (Inl ErrPaymentTransactionIDRequired, None)
      | Some p0 \<Rightarrow>
          let p = ensureWorkflowDefaults p0;
              normalizedStatus = NormalizePaymentStatus status
          in if normalizedStatus = [] then (Inl ErrPaymentStatusInvalid, Some p)
             else
               let transition = resolvePaymentTransition (NormalizePaymentStatusOrPending (pin_Status p)) normalizedStatus;
                   p1 = (if ptr_StateChanged transition then p\<lparr>pin_Status := ptr_CurrentStatus transition\<rparr> else p);
                   externalRef = TrimSpace externalRef0;
                   refChanged = (externalRef \<noteq> [] \<and> externalRef \<noteq> pin_ExternalRef p1);
                   p2 = (if refChanged then p1\<lparr>pin_ExternalRef := externalRef\<rparr> else p1);
                   transition' = (if refChanged then transition\<lparr>ptr_ExternalRefChanged := True\<rparr> else transition);
                   p3 = (if ptr_StateChanged transition' \<or> ptr_ExternalRefChanged transition'
                         then p2\<lparr>pin_UpdatedAt := normalizePaymentTime clock updatedAt\<rparr> else p2)
               in (Inr transition', Some p3))"

definition ValidateProviderResultForStatus :: "PaymentIntent option \<Rightarrow> string \<Rightarrow> int64 \<Rightarrow> string \<Rightarrow> error + unit" where
  "ValidateProviderResultForStatus receiver status amount currency0 =
     (case receiver of
        None \<Rightarrow> Inl ErrPaymentTransactionIDRequired
      | Some p \<Rightarrow>
          let normalizedStatus = (if NormalizePaymentStatus status = [] then NormalizePaymentStatusOrPending status
                                  else NormalizePaymentStatus status);
              currency = TrimSpace currency0
          in if (if normalizedStatus = PaymentStatusRefunded \<or> normalizedStatus = PaymentStatusChargeback
                 then amount \<noteq> 0 \<and> pin_ProviderAmount p <s amount
                 else amount \<noteq> 0 \<and> amount \<noteq> pin_ProviderAmount p)
             then Inl ErrPaymentProviderAmountMismatch
             else if currency \<noteq> [] \<and> \<not> EqualFold currency (pin_Currency p) then Inl ErrPaymentProviderCurrencyMismatch
             else Inr ())"

definition ValidateProviderResult :: "PaymentIntent \<Rightarrow> int64 \<Rightarrow> string \<Rightarrow> error + unit" where
  "ValidateProviderResult p amount currency = ValidateProviderResultForStatus (Some p) (pin_Status p) amount currency"

definition TransitionProviderResult ::
  "gotime \<Rightarrow> PaymentIntent option \<Rightarrow> PaymentProviderResult \<Rightarrow> gotime \<Rightarrow> (error + PaymentTransition) \<times> PaymentIntent option" where
  "TransitionProviderResult clock receiver result updatedAt =
     (let p = map_option ensureWorkflowDefaults receiver;
          nextStatus = NormalizePaymentStatusOrPending (ppr_Status result)
      in case ValidateProviderResultForStatus p nextStatus (ppr_Amount result) (ppr_Currency result) of
           Inl e \<Rightarrow> (Inl e, p)
         | Inr _ \<Rightarrow> transitionProviderState clock p (ppr_ExternalRef result) nextStatus updatedAt)"

definition ApplyProviderResult ::
  "gotime \<Rightarrow> PaymentIntent option \<Rightarrow> PaymentProviderResult \<Rightarrow> gotime \<Rightarrow> (error + unit) \<times> PaymentIntent option" where
  "ApplyProviderResult clock receiver result updatedAt =
     (case TransitionProviderResult clock receiver result updatedAt of
        (Inl e, p) \<Rightarrow> (Inl e, p) | (Inr _, p) \<Rightarrow> (Inr (), p))"

definition SetProviderState ::
  "gotime \<Rightarrow> PaymentIntent option \<Rightarrow> string \<Rightarrow> string \<Rightarrow> gotime \<Rightarrow> (error + unit) \<times> PaymentIntent option" where
  "SetProviderState clock receiver externalRef status updatedAt =
     (case transitionProviderState clock receiver externalRef status updatedAt of
        (Inl e, p) \<Rightarrow> (Inl e, p) | (Inr _, p) \<Rightarrow> (Inr (), p))"

definition MarkCreateFailed ::
  "gotime \<Rightarrow> PaymentIntent option \<Rightarrow> gotime \<Rightarrow> (error + PaymentTransition) \<times> PaymentIntent option" where
  "MarkCreateFailed clock receiver updatedAt = transitionProviderState clock receiver [] PaymentStatusFailed updatedAt"

section \<open>Questions about an intent\<close>

definition IsSucceeded :: "PaymentIntent option \<Rightarrow> bool" where
  "IsSucceeded p = (case p of None \<Rightarrow> False | Some q \<Rightarrow> pin_Status q = PaymentStatusSuccess)"

definition IsTopUp :: "PaymentIntent option \<Rightarrow> bool" where
  "IsTopUp p = (case p of None \<Rightarrow> False | Some q \<Rightarrow> pin_Workflow q = PaymentWorkflowTopUp)"

definition IsWithdrawal :: "PaymentIntent option \<Rightarrow> bool" where
  "IsWithdrawal p = (case p of None \<Rightarrow> False | Some q \<Rightarrow> pin_Workflow q = PaymentWorkflowWithdrawal)"

definition IsFailed :: "PaymentIntent option \<Rightarrow> bool" where
  "IsFailed p = (case p of None \<Rightarrow> False | Some q \<Rightarrow> pin_Status q = PaymentStatusFailed)"

definition IsCancelled :: "PaymentIntent option \<Rightarrow> bool" where
  "IsCancelled p = (case p of None \<Rightarrow> False | Some q \<Rightarrow> pin_Status q = PaymentStatusCancelled)"

definition IsRefunded :: "PaymentIntent option \<Rightarrow> bool" where
  "IsRefunded p = (case p of None \<Rightarrow> False | Some q \<Rightarrow> pin_Status q = PaymentStatusRefunded)"

definition IsChargeback :: "PaymentIntent option \<Rightarrow> bool" where
  "IsChargeback p = (case p of None \<Rightarrow> False | Some q \<Rightarrow> pin_Status q = PaymentStatusChargeback)"

definition IsTerminal :: "PaymentIntent option \<Rightarrow> bool" where
  "IsTerminal p = (case p of None \<Rightarrow> False | Some q \<Rightarrow> pin_Status q \<in> {PaymentStatusSuccess, PaymentStatusFailed,
     PaymentStatusCancelled, PaymentStatusRefunded, PaymentStatusChargeback})"

definition IsFinalized :: "PaymentIntent option \<Rightarrow> bool" where
  "IsFinalized p \<longleftrightarrow> p \<noteq> None \<and> (IsSucceeded p \<or> IsRefunded p \<or> IsChargeback p)"

definition ShouldEmitCheckoutSessionCreated :: "PaymentIntent option \<Rightarrow> string \<Rightarrow> bool" where
  "ShouldEmitCheckoutSessionCreated p checkoutURL = (case p of None \<Rightarrow> False | Some q \<Rightarrow>
     if pin_Workflow q \<noteq> PaymentWorkflowTopUp then False
     else TrimSpace checkoutURL \<noteq> [] \<or> TrimSpace (pin_ExternalRef q) \<noteq> [])"

section \<open>Keys and payloads\<close>

definition coalescePaymentValue :: "string list \<Rightarrow> string" where
  "coalescePaymentValue values = (case filter (\<lambda>v. v \<noteq> []) (map TrimSpace values) of [] \<Rightarrow> [] | v # _ \<Rightarrow> v)"

definition paymentResultAmountOrDefault :: "int64 \<Rightarrow> int64 \<Rightarrow> int64" where
  "paymentResultAmountOrDefault amount fallback = (if amount \<noteq> 0 then amount else fallback)"

definition CurrentProviderResult :: "PaymentIntent option \<Rightarrow> PaymentProviderResult \<Rightarrow> PaymentProviderResult" where
  "CurrentProviderResult receiver source =
     (case receiver of
        None \<Rightarrow> \<lparr>ppr_TransactionID = [], ppr_EventID = [], ppr_EventType = [], ppr_Status = [], ppr_Amount = 0, ppr_Currency = [], ppr_ExternalRef = []\<rparr>
      | Some p \<Rightarrow>
          \<lparr>ppr_TransactionID = coalescePaymentValue [ppr_TransactionID source, pin_TransactionID p],
           ppr_EventID = TrimSpace (ppr_EventID source),
           ppr_EventType = TrimSpace (ppr_EventType source),
           ppr_Status = NormalizePaymentStatusOrPending (coalescePaymentValue [ppr_Status source, pin_Status p]),
           ppr_Amount = (if ppr_Amount source = 0 then pin_ProviderAmount p else ppr_Amount source),
           ppr_Currency = coalescePaymentValue [ppr_Currency source, pin_Currency p],
           ppr_ExternalRef = coalescePaymentValue [ppr_ExternalRef source, pin_ExternalRef p]\<rparr>)"

definition PaymentIdempotencyKey :: "PaymentIntent \<Rightarrow> string \<Rightarrow> string \<Rightarrow> string" where
  "PaymentIdempotencyKey p eventID externalRef =
     (if TrimSpace eventID \<noteq> [] then TrimSpace eventID
      else if TrimSpace externalRef \<noteq> [] then TrimSpace externalRef
      else if TrimSpace (pin_ExternalRef p) \<noteq> [] then TrimSpace (pin_ExternalRef p)
      else TrimSpace (pin_TransactionID p))"

definition TransitionIdempotencyKey :: "PaymentIntent \<Rightarrow> string \<Rightarrow> string" where
  "TransitionIdempotencyKey p eventName = TrimSpace eventName @ '':'' @ TrimSpace (pin_TransactionID p)"

definition NewProcessedPaymentEvent :: "gotime \<Rightarrow> string \<Rightarrow> string \<Rightarrow> string \<Rightarrow> gotime \<Rightarrow> error + ProcessedPaymentEvent" where
  "NewProcessedPaymentEvent clock provider idempotencyKey transactionID createdAt =
     (if TrimSpace provider = [] then Inl ErrPaymentProcessedProviderRequired
      else if TrimSpace idempotencyKey = [] then Inl ErrPaymentProcessedKeyRequired
      else if TrimSpace transactionID = [] then Inl ErrPaymentProcessedTxnRequired
      else Inr \<lparr>ppe_Provider = TrimSpace provider, ppe_IdempotencyKey = TrimSpace idempotencyKey,
                ppe_TransactionID = TrimSpace transactionID, ppe_CreatedAt = normalizePaymentTime clock createdAt\<rparr>)"

definition NewProcessedEvent :: "gotime \<Rightarrow> PaymentIntent \<Rightarrow> PaymentProviderResult \<Rightarrow> gotime \<Rightarrow> error + ProcessedPaymentEvent" where
  "NewProcessedEvent clock p result createdAt = NewProcessedPaymentEvent clock (pin_Provider p)
     (PaymentIdempotencyKey p (ppr_EventID result) (ppr_ExternalRef result)) (pin_TransactionID p) createdAt"

definition NewProcessedTransitionEvent :: "gotime \<Rightarrow> PaymentIntent \<Rightarrow> string \<Rightarrow> gotime \<Rightarrow> error + ProcessedPaymentEvent" where
  "NewProcessedTransitionEvent clock p eventName createdAt = NewProcessedPaymentEvent clock (pin_Provider p)
     (TransitionIdempotencyKey p eventName) (pin_TransactionID p) createdAt"

definition BuildWithdrawalRequestedEventData :: "gotime \<Rightarrow> PaymentIntent \<Rightarrow> gotime \<Rightarrow> PaymentWithdrawalRequestedEvent" where
  "BuildWithdrawalRequestedEventData clock p occurredAt =
     \<lparr>pw_PaymentID = pin_TransactionID p, pw_TransactionID = pin_TransactionID p, pw_Provider = pin_Provider p,
      pw_ClearingAccountKey = pin_ClearingAccountKey p, pw_DebitAccountID = pin_DebitAccountID p,
      pw_DestinationAccountID = pin_DestinationAccountID p, pw_Amount = pin_Amount p, pw_FeeAmount = pin_FeeAmount p,
      pw_ProviderAmount = pin_ProviderAmount p, pw_Currency = pin_Currency p, pw_Status = pin_Status p,
      pw_RequestedAt = normalizePaymentTime clock occurredAt\<rparr>"

text \<open>The builders below normalise their receiver first and return it with the payload.\<close>

definition BuildCreatedEventData ::
  "gotime \<Rightarrow> PaymentIntent \<Rightarrow> (string \<rightharpoonup> string) \<Rightarrow> gotime \<Rightarrow> PaymentCreatedEvent \<times> PaymentIntent" where
  "BuildCreatedEventData clock p0 metadata createdAt =
     (let p = ensureWorkflowDefaults p0
      in (\<lparr>pc_Workflow = pin_Workflow p, pc_PaymentID = pin_TransactionID p, pc_TransactionID = pin_TransactionID p,
           pc_Provider = pin_Provider p, pc_ClearingAccountKey = pin_ClearingAccountKey p, pc_DebitAccountID = pin_DebitAccountID p,
           pc_Amount = pin_Amount p, pc_FeeAmount = pin_FeeAmount p, pc_ProviderAmount = pin_ProviderAmount p,
           pc_Currency = pin_Currency p, pc_CreditAccountID = pin_CreditAccountID p, pc_Status = pin_Status p,
           pc_Metadata = metadata, pc_CreatedAt = normalizePaymentTime clock createdAt\<rparr>, p))"

definition BuildCheckoutSessionCreatedEventData ::
  "gotime \<Rightarrow> PaymentIntent \<Rightarrow> string \<Rightarrow> gotime \<Rightarrow> PaymentCheckoutSessionCreatedEvent \<times> PaymentIntent" where
  "BuildCheckoutSessionCreatedEventData clock p0 checkoutURL occurredAt =
     (let p = ensureWorkflowDefaults p0
      in (\<lparr>pk_Workflow = pin_Workflow p, pk_PaymentID = pin_TransactionID p, pk_TransactionID = pin_TransactionID p,
           pk_Provider = pin_Provider p, pk_ProviderPaymentRef = pin_ExternalRef p, pk_CheckoutURL = TrimSpace checkoutURL,
           pk_Amount = pin_Amount p, pk_FeeAmount = pin_FeeAmount p, pk_ProviderAmount = pin_ProviderAmount p,
           pk_Currency = pin_Currency p, pk_Status = pin_Status p, pk_OccurredAt = normalizePaymentTime clock occurredAt\<rparr>, p))"

definition BuildSucceededEventData ::
  "gotime \<Rightarrow> PaymentIntent \<Rightarrow> PaymentProviderResult \<Rightarrow> gotime \<Rightarrow> PaymentSucceededEvent \<times> PaymentIntent" where
  "BuildSucceededEventData clock p0 result occurredAt =
     (let p = ensureWorkflowDefaults p0
      in (\<lparr>ps_Workflow = pin_Workflow p, ps_PaymentID = pin_TransactionID p, ps_TransactionID = pin_TransactionID p,
           ps_Provider = pin_Provider p, ps_ClearingAccountKey = pin_ClearingAccountKey p, ps_DebitAccountID = pin_DebitAccountID p,
           ps_ProviderEventID = TrimSpace (ppr_EventID result), ps_ProviderEventType = TrimSpace (ppr_EventType result),
           ps_ProviderPaymentRef = coalescePaymentValue [ppr_ExternalRef result, pin_ExternalRef p],
           ps_Amount = pin_Amount p, ps_FeeAmount = pin_FeeAmount p, ps_ProviderAmount = pin_ProviderAmount p,
           ps_Currency = pin_Currency p, ps_CreditAccountID = pin_CreditAccountID p,
           ps_IdempotencyKey = TransitionIdempotencyKey p EventPaymentSucceeded,
           ps_SucceededAt = normalizePaymentTime clock occurredAt\<rparr>, p))"

definition BuildFailedEventData ::
  "gotime \<Rightarrow> PaymentIntent \<Rightarrow> PaymentProviderResult \<Rightarrow> gotime \<Rightarrow> PaymentFailedEvent \<times> PaymentIntent" where
  "BuildFailedEventData clock p0 result occurredAt =
     (let p = ensureWorkflowDefaults p0
      in (\<lparr>pf_Workflow = pin_Workflow p, pf_PaymentID = pin_TransactionID p, pf_TransactionID = pin_TransactionID p,
           pf_Provider = pin_Provider p, pf_ClearingAccountKey = pin_ClearingAccountKey p, pf_DebitAccountID = pin_DebitAccountID p,
           pf_ProviderEventID = TrimSpace (ppr_EventID result), pf_ProviderEventType = TrimSpace (ppr_EventType result),
           pf_ProviderPaymentRef = coalescePaymentValue [ppr_ExternalRef result, pin_ExternalRef p],
           pf_Amount = pin_Amount p, pf_FeeAmount = pin_FeeAmount p, pf_ProviderAmount = pin_ProviderAmount p,
           pf_Currency = pin_Currency p, pf_CreditAccountID = pin_CreditAccountID p,
           pf_Status = NormalizePaymentStatusOrPending (ppr_Status result),
           pf_OccurredAt = normalizePaymentTime clock occurredAt\<rparr>, p))"

definition BuildRefundedEventData ::
  "gotime \<Rightarrow> PaymentIntent \<Rightarrow> PaymentProviderResult \<Rightarrow> gotime \<Rightarrow> PaymentRefundedEvent \<times> PaymentIntent" where
  "BuildRefundedEventData clock p0 result occurredAt =
     (let p = ensureWorkflowDefaults p0; current = CurrentProviderResult (Some p) result
      in (\<lparr>pr_Workflow = pin_Workflow p, pr_PaymentID = pin_TransactionID p, pr_TransactionID = pin_TransactionID p,
           pr_Provider = pin_Provider p, pr_ClearingAccountKey = pin_ClearingAccountKey p, pr_DebitAccountID = pin_DebitAccountID p,
           pr_ProviderEventID = TrimSpace (ppr_EventID current), pr_ProviderEventType = TrimSpace (ppr_EventType current),
           pr_ProviderPaymentRef = coalescePaymentValue [ppr_ExternalRef current, pin_ExternalRef p],
           pr_Amount = paymentResultAmountOrDefault (ppr_Amount current) (pin_Amount p),
           pr_FeeAmount = pin_FeeAmount p, pr_ProviderAmount = pin_ProviderAmount p,
           pr_Currency = pin_Currency p, pr_CreditAccountID = pin_CreditAccountID p,
           pr_IdempotencyKey = TransitionIdempotencyKey p EventPaymentRefunded,
           pr_RefundedAt = normalizePaymentTime clock occurredAt\<rparr>, p))"

definition BuildChargebackEventData ::
  "gotime \<Rightarrow> PaymentIntent \<Rightarrow> PaymentProviderResult \<Rightarrow> gotime \<Rightarrow> PaymentChargebackEvent \<times> PaymentIntent" where
  "BuildChargebackEventData clock p0 result occurredAt =
     (let p = ensureWorkflowDefaults p0; current = CurrentProviderResult (Some p) result
      in (\<lparr>pb_Workflow = pin_Workflow p, pb_PaymentID = pin_TransactionID p, pb_TransactionID = pin_TransactionID p,
           pb_Provider = pin_Provider p, pb_ClearingAccountKey = pin_ClearingAccountKey p, pb_DebitAccountID = pin_DebitAccountID p,
           pb_ProviderEventID = TrimSpace (ppr_EventID current), pb_ProviderEventType = TrimSpace (ppr_EventType current),
           pb_ProviderPaymentRef = coalescePaymentValue [ppr_ExternalRef current, pin_ExternalRef p],
           pb_Amount = paymentResultAmountOrDefault (ppr_Amount current) (pin_Amount p),
           pb_FeeAmount = pin_FeeAmount p, pb_ProviderAmount = pin_ProviderAmount p,
           pb_Currency = pin_Currency p, pb_CreditAccountID = pin_CreditAccountID p,
           pb_IdempotencyKey = TransitionIdempotencyKey p EventPaymentChargeback,
           pb_ChargedBackAt = normalizePaymentTime clock occurredAt\<rparr>, p))"

section \<open>Normalised values\<close>

lemma ToUpper_status: "s \<in> set ValidPaymentStatuses \<Longrightarrow> ToUpper s = s \<and> TrimSpace s = s \<and> s \<noteq> []"
proof -
  have "\<forall>s\<in>set ValidPaymentStatuses. ToUpper s = s \<and> TrimSpace s = s \<and> s \<noteq> []" by code_simp
  then show "s \<in> set ValidPaymentStatuses \<Longrightarrow> ToUpper s = s \<and> TrimSpace s = s \<and> s \<noteq> []" by blast
qed

lemma NormalizePaymentStatus_valid [simp]: "s \<in> set ValidPaymentStatuses \<Longrightarrow> NormalizePaymentStatus s = s"
  by (simp add: NormalizePaymentStatus_def Let_def ToUpper_status)

lemma NormalizePaymentStatus_set: "NormalizePaymentStatus s = [] \<or> NormalizePaymentStatus s \<in> set ValidPaymentStatuses"
  by (simp add: NormalizePaymentStatus_def Let_def)

lemma NormalizePaymentStatusOrPending_set [simp]: "NormalizePaymentStatusOrPending s \<in> set ValidPaymentStatuses"
  using NormalizePaymentStatus_set [of s] by (auto simp: NormalizePaymentStatusOrPending_def ValidPaymentStatuses_def)

lemma NormalizePaymentStatusOrPending_valid [simp]: "s \<in> set ValidPaymentStatuses \<Longrightarrow> NormalizePaymentStatusOrPending s = s"
  using ToUpper_status [of s] by (simp add: NormalizePaymentStatusOrPending_def)

lemma NormalizePaymentStatus_idem [simp]: "NormalizePaymentStatus (NormalizePaymentStatus s) = NormalizePaymentStatus s"
proof (cases "NormalizePaymentStatus s = []")
  case True
  moreover have "NormalizePaymentStatus [] = []" by code_simp
  ultimately show ?thesis by simp
qed (use NormalizePaymentStatus_set [of s] in simp)

lemma NormalizePaymentWorkflow_fixed [simp]:
  "NormalizePaymentWorkflow PaymentWorkflowTopUp = PaymentWorkflowTopUp"
  "NormalizePaymentWorkflow PaymentWorkflowWithdrawal = PaymentWorkflowWithdrawal"
  by code_simp+

lemma NormalizePaymentWorkflow_Nil [simp]: "NormalizePaymentWorkflow [] = []"
  by code_simp

lemma NormalizePaymentWorkflow_set:
  "NormalizePaymentWorkflow w \<in> {[], PaymentWorkflowTopUp, PaymentWorkflowWithdrawal}"
  by (simp add: NormalizePaymentWorkflow_def Let_def)


lemma NormalizePaymentWorkflow_idem [simp]: "NormalizePaymentWorkflow (NormalizePaymentWorkflow w) = NormalizePaymentWorkflow w"
  using NormalizePaymentWorkflow_set [of w] by auto

lemma coalesce_FirstNonEmpty: "coalescePaymentValue vs = FirstNonEmpty vs"
  by (induction vs) (simp_all add: coalescePaymentValue_def)

lemma providerClearingAccountKey_trimmed [simp]:
  "TrimSpace (providerClearingAccountKey provider) = providerClearingAccountKey provider"
  "providerClearingAccountKey (ToLower (TrimSpace provider)) = providerClearingAccountKey provider"
proof -
  have "trimmed (''provider:'' @ ToLower (TrimSpace provider))" if "ToLower (TrimSpace provider) \<noteq> []"
    using that trimmed_prefixed [of "ToLower (TrimSpace provider)" "CHR ''p''" "CHR '':''" "''rovider''"]
    by (simp add: visible_def)
  then show "TrimSpace (providerClearingAccountKey provider) = providerClearingAccountKey provider"
    by (simp add: providerClearingAccountKey_def trimmed_iff)
  show "providerClearingAccountKey (ToLower (TrimSpace provider)) = providerClearingAccountKey provider"
    by (simp add: providerClearingAccountKey_def go_norm)
qed

lemma effectiveKey_idem [simp]:
  "effectivePaymentClearingAccountKey provider (effectivePaymentClearingAccountKey provider key) =
     effectivePaymentClearingAccountKey provider key"
  by (simp add: effectivePaymentClearingAccountKey_def go_norm)

lemma effectiveKey_provider:
  "effectivePaymentClearingAccountKey (ToLower (TrimSpace provider)) key = effectivePaymentClearingAccountKey provider key"
  by (simp add: effectivePaymentClearingAccountKey_def)

section \<open>The status machine\<close>

text \<open>The moves a payment may make.\<close>

inductive payment_step :: "string \<Rightarrow> string \<Rightarrow> bool" where
  creating_pending: "payment_step PaymentStatusCreating PaymentStatusPending"
| creating_success: "payment_step PaymentStatusCreating PaymentStatusSuccess"
| creating_failed: "payment_step PaymentStatusCreating PaymentStatusFailed"
| creating_cancelled: "payment_step PaymentStatusCreating PaymentStatusCancelled"
| pending_success: "payment_step PaymentStatusPending PaymentStatusSuccess"
| pending_failed: "payment_step PaymentStatusPending PaymentStatusFailed"
| pending_cancelled: "payment_step PaymentStatusPending PaymentStatusCancelled"
| success_refunded: "payment_step PaymentStatusSuccess PaymentStatusRefunded"
| success_chargeback: "payment_step PaymentStatusSuccess PaymentStatusChargeback"

inductive_simps payment_step_iff: "payment_step s t"

inductive_cases payment_step_E: "payment_step s t"

lemma paymentMoves_step: "(paymentMoves s t \<noteq> None) = payment_step s t"
  by (auto simp: paymentMoves_def payment_step_iff)

lemma paymentMoves_type:
  assumes "paymentMoves s t = Some typ"
  shows "typ \<noteq> PaymentTransitionNone" "typ = PaymentTransitionSucceeded \<longleftrightarrow> t = PaymentStatusSuccess"
    "typ = PaymentTransitionFailed \<longleftrightarrow> t = PaymentStatusFailed"
    "typ = PaymentTransitionRefunded \<longleftrightarrow> t = PaymentStatusRefunded"
    "typ = PaymentTransitionChargeback \<longleftrightarrow> t = PaymentStatusChargeback"
  using assms by (auto simp: paymentMoves_def split: if_splits)

lemma payment_step_irrefl: "\<not> payment_step s s"
  by (auto elim: payment_step_E)

text \<open>A rank that every move increases: the machine has no cycles and a payment moves at most three times.\<close>

definition paymentRank :: "string \<Rightarrow> nat" where
  "paymentRank s = (if s = PaymentStatusCreating then 0 else if s = PaymentStatusPending then 1
     else if s = PaymentStatusSuccess then 2 else 3)"

lemma payment_step_rank: "payment_step s t \<Longrightarrow> paymentRank s < paymentRank t"
  by (induction rule: payment_step.induct) (simp_all add: paymentRank_def)

lemma payment_steps_rank: "payment_step\<^sup>*\<^sup>* s t \<Longrightarrow> paymentRank s \<le> paymentRank t"
proof (induction rule: rtranclp_induct)
  case (step t u)
  from payment_step_rank [OF step(2)] step(3) show ?case by simp
qed simp

lemma payment_step_final: "payment_step s t \<Longrightarrow> paymentRank s \<noteq> 3"
  by (induction rule: payment_step.induct) (simp_all add: paymentRank_def)

lemma payment_steps_absorbing: "payment_step\<^sup>*\<^sup>* s t \<Longrightarrow> paymentRank s = 3 \<Longrightarrow> t = s"
  by (erule converse_rtranclpE) (auto dest: payment_step_final)

lemma payment_step_success: "payment_step s t \<Longrightarrow> s = PaymentStatusSuccess \<Longrightarrow> t \<in> {PaymentStatusRefunded, PaymentStatusChargeback}"
  by (induction rule: payment_step.induct) simp_all

lemma success_steps:
  assumes "payment_step\<^sup>*\<^sup>* s t" "s = PaymentStatusSuccess"
  shows "t \<in> {PaymentStatusSuccess, PaymentStatusRefunded, PaymentStatusChargeback}"
  using assms(1)
proof (rule converse_rtranclpE)
  fix u
  assume u: "payment_step s u" "payment_step\<^sup>*\<^sup>* u t"
  from payment_step_success [OF u(1) assms(2)] payment_steps_absorbing [OF u(2)] show ?thesis
    by (auto simp: paymentRank_def)
qed (use assms(2) in simp)

lemma resolve_fields:
  fixes s nxt :: string
  assumes "s \<in> set ValidPaymentStatuses"
  defines "t \<equiv> resolvePaymentTransition s nxt"
  shows "ptr_PreviousStatus t = s" "ptr_StateChanged t \<longleftrightarrow> payment_step s nxt"
    "ptr_CurrentStatus t = (if payment_step s nxt then nxt else s)"
    "ptr_Ignored t \<longleftrightarrow> s \<noteq> nxt \<and> \<not> payment_step s nxt"
    "ptr_Type t = (case paymentMoves s nxt of None \<Rightarrow> PaymentTransitionNone | Some typ \<Rightarrow> typ)"
    "\<not> ptr_ExternalRefChanged t"
  using paymentMoves_step [of s nxt] payment_step_irrefl [of s] assms(1)
  by (auto simp: t_def resolvePaymentTransition_def Let_def split: option.splits)

section \<open>Well-formed intents\<close>

definition intent_ok :: "PaymentIntent \<Rightarrow> bool" where
  "intent_ok p \<longleftrightarrow> ensureWorkflowDefaults p = p \<and> pin_TransactionID p \<noteq> [] \<and> pin_Provider p \<noteq> [] \<and> pin_Currency p \<noteq> [] \<and>
     pin_ClearingAccountKey p \<noteq> [] \<and> 0 < sint (pin_Amount p) \<and> 0 \<le> sint (pin_FeeAmount p) \<and> 0 < sint (pin_ProviderAmount p) \<and>
     (pin_Workflow p = PaymentWorkflowTopUp \<longrightarrow> pin_CreditAccountID p \<noteq> []) \<and>
     (pin_Workflow p = PaymentWorkflowWithdrawal \<longrightarrow> pin_DebitAccountID p \<noteq> [] \<and> pin_DestinationAccountID p \<noteq> [])"

lemma defaults_status: "pin_Status (ensureWorkflowDefaults p) \<in> set ValidPaymentStatuses"
  using NormalizePaymentStatus_set [of "pin_Status p"]
  by (auto simp: ensureWorkflowDefaults_def Let_def ValidPaymentStatuses_def)

lemma defaults_idem [simp]: "ensureWorkflowDefaults (ensureWorkflowDefaults p) = ensureWorkflowDefaults p"
proof -
  have s: "NormalizePaymentStatus PaymentStatusCreating = PaymentStatusCreating"
    by (rule NormalizePaymentStatus_valid) (simp add: ValidPaymentStatuses_def)
  show ?thesis
    by (cases p) (simp add: ensureWorkflowDefaults_def Let_def go_norm s)
qed


lemma intent_ok_with:
  assumes "intent_ok p" "st \<in> set ValidPaymentStatuses" "TrimSpace ref = ref"
  shows "intent_ok (p\<lparr>pin_Status := st, pin_ExternalRef := ref, pin_UpdatedAt := t\<rparr>)"
  using assms by (cases p) (auto simp: intent_ok_def ensureWorkflowDefaults_def Let_def dest: ToUpper_status)

lemma intent_ok_fields:
  assumes "intent_ok p"
  shows "ensureWorkflowDefaults p = p" "pin_Status p \<in> set ValidPaymentStatuses" "TrimSpace (pin_ExternalRef p) = pin_ExternalRef p"
    "TrimSpace (pin_TransactionID p) = pin_TransactionID p" "TrimSpace (pin_Provider p) = pin_Provider p"
    "pin_Workflow p \<in> {PaymentWorkflowTopUp, PaymentWorkflowWithdrawal}"
proof -
  from assms show e: "ensureWorkflowDefaults p = p" by (simp add: intent_ok_def)
  from defaults_status [of p] e show "pin_Status p \<in> set ValidPaymentStatuses" by simp
  from e have "pin_ExternalRef (ensureWorkflowDefaults p) = pin_ExternalRef p"
    "pin_TransactionID (ensureWorkflowDefaults p) = pin_TransactionID p"
    "pin_Provider (ensureWorkflowDefaults p) = pin_Provider p"
    "pin_Workflow (ensureWorkflowDefaults p) = pin_Workflow p" by simp_all
  then have pr: "ToLower (TrimSpace (pin_Provider p)) = pin_Provider p"
    and *: "TrimSpace (pin_ExternalRef p) = pin_ExternalRef p" "TrimSpace (pin_TransactionID p) = pin_TransactionID p"
      "pin_Workflow p \<in> {PaymentWorkflowTopUp, PaymentWorkflowWithdrawal}"
    using NormalizePaymentWorkflow_set [of "pin_Workflow p"]
    by (auto simp: ensureWorkflowDefaults_def Let_def split: if_splits)
  from * show "TrimSpace (pin_ExternalRef p) = pin_ExternalRef p" "TrimSpace (pin_TransactionID p) = pin_TransactionID p"
      "pin_Workflow p \<in> {PaymentWorkflowTopUp, PaymentWorkflowWithdrawal}" by simp_all
  have "TrimSpace (ToLower (TrimSpace (pin_Provider p))) = ToLower (TrimSpace (pin_Provider p))" by (simp add: go_norm)
  with pr show "TrimSpace (pin_Provider p) = pin_Provider p" by simp
qed

lemma intent_ok_normal:
  assumes "intent_ok p"
  shows "NormalizePaymentWorkflow (pin_Workflow p) = pin_Workflow p" "pin_Workflow p \<noteq> []"
    "ToLower (TrimSpace (pin_Provider p)) = pin_Provider p" "ToUpper (TrimSpace (pin_Currency p)) = pin_Currency p"
    "TrimSpace (pin_DebitAccountID p) = pin_DebitAccountID p" "TrimSpace (pin_CreditAccountID p) = pin_CreditAccountID p"
    "TrimSpace (pin_DestinationAccountID p) = pin_DestinationAccountID p"
    "effectivePaymentClearingAccountKey (pin_Provider p) (pin_ClearingAccountKey p) = pin_ClearingAccountKey p"
proof -
  note e = intent_ok_fields(1) [OF assms]
  show "NormalizePaymentWorkflow (pin_Workflow p) = pin_Workflow p" "pin_Workflow p \<noteq> []"
    using intent_ok_fields(6) [OF assms] by auto
  have "pin_Provider (ensureWorkflowDefaults p) = pin_Provider p" "pin_Currency (ensureWorkflowDefaults p) = pin_Currency p"
    "pin_DebitAccountID (ensureWorkflowDefaults p) = pin_DebitAccountID p" "pin_CreditAccountID (ensureWorkflowDefaults p) = pin_CreditAccountID p"
    "pin_DestinationAccountID (ensureWorkflowDefaults p) = pin_DestinationAccountID p"
    "pin_ClearingAccountKey (ensureWorkflowDefaults p) = pin_ClearingAccountKey p" by (simp_all add: e)
  then show pr: "ToLower (TrimSpace (pin_Provider p)) = pin_Provider p" and "ToUpper (TrimSpace (pin_Currency p)) = pin_Currency p"
    "TrimSpace (pin_DebitAccountID p) = pin_DebitAccountID p" "TrimSpace (pin_CreditAccountID p) = pin_CreditAccountID p"
    "TrimSpace (pin_DestinationAccountID p) = pin_DestinationAccountID p"
    "effectivePaymentClearingAccountKey (pin_Provider p) (pin_ClearingAccountKey p) = pin_ClearingAccountKey p"
    by (simp_all add: ensureWorkflowDefaults_def Let_def)
qed

text \<open>What a method may do to an intent: its status makes at most one move, its reference and time may be replaced, nothing else changes.\<close>

definition intent_moved :: "PaymentIntent \<Rightarrow> PaymentIntent \<Rightarrow> bool" where
  "intent_moved p q \<longleftrightarrow> (payment_step (pin_Status p) (pin_Status q) \<or> pin_Status p = pin_Status q) \<and>
     q = p\<lparr>pin_Status := pin_Status q, pin_ExternalRef := pin_ExternalRef q, pin_UpdatedAt := pin_UpdatedAt q\<rparr>"

lemma intent_moved_refl [simp]: "intent_moved p p"
  by (simp add: intent_moved_def)

lemma transitionProviderState_ok:
  assumes "intent_ok p" "transitionProviderState clock (Some p) ref st t = (r, q)"
  obtains p' where "q = Some p'" "intent_ok p'" "intent_moved p p'"
    "\<And>tr. r = Inr tr \<Longrightarrow> pin_Status p' = ptr_CurrentStatus tr \<and> ptr_PreviousStatus tr = pin_Status p \<and>
       ptr_StateChanged tr = payment_step (pin_Status p) (NormalizePaymentStatus st) \<and>
       ptr_Ignored tr = (pin_Status p \<noteq> NormalizePaymentStatus st \<and> \<not> payment_step (pin_Status p) (NormalizePaymentStatus st))"
proof -
  note f = intent_ok_fields [OF assms(1)]
  show thesis
  proof (cases "NormalizePaymentStatus st = []")
    case True
    with assms f have "q = Some p" "\<exists>e. r = Inl e" by (auto simp: transitionProviderState_def Let_def)
    with assms(1) show thesis by (intro that [of p]) auto
  next
    case False
    define tr where "tr = resolvePaymentTransition (pin_Status p) (NormalizePaymentStatus st)"
    note rf = resolve_fields [OF f(2), of "NormalizePaymentStatus st", folded tr_def]
    define p' where "p' = the q"
    have st: "NormalizePaymentStatus st \<in> set ValidPaymentStatuses" using False NormalizePaymentStatus_set [of st] by simp
    have eq: "q = Some p'" "p' = p\<lparr>pin_Status := ptr_CurrentStatus tr, pin_ExternalRef := pin_ExternalRef p',
        pin_UpdatedAt := pin_UpdatedAt p'\<rparr>" "TrimSpace (pin_ExternalRef p') = pin_ExternalRef p'"
      using assms(2) False f(1,2,3) rf(2,3)
      by (auto simp: transitionProviderState_def Let_def p'_def go_norm simp flip: tr_def split: if_splits)
    have cs: "ptr_CurrentStatus tr \<in> set ValidPaymentStatuses" using rf(3) st f(2) by simp
    have r: "\<exists>b. r = Inr (tr\<lparr>ptr_ExternalRefChanged := b\<rparr>) \<or> r = Inr tr"
      using assms(2) False f(1,2) by (auto simp: transitionProviderState_def Let_def simp flip: tr_def split: if_splits)
    have "intent_ok p'" using intent_ok_with [OF assms(1) cs eq(3)] eq(2) by metis
    moreover have cur: "pin_Status p' = ptr_CurrentStatus tr" by (subst eq(2)) simp
    moreover have "intent_moved p p'" using eq(2) cur rf(3) by (auto simp: intent_moved_def)
    ultimately show thesis using eq(1) r rf by (intro that [of p']) auto
  qed
qed


lemma TransitionProviderResult_ok:
  assumes "intent_ok p" "TransitionProviderResult clock (Some p) res t = (r, q)"
  obtains p' where "q = Some p'" "intent_ok p'" "intent_moved p p'"
proof (cases "ValidateProviderResultForStatus (Some p) (NormalizePaymentStatusOrPending (ppr_Status res)) (ppr_Amount res) (ppr_Currency res)")
  case (Inl e)
  with assms have "q = Some p" by (simp add: TransitionProviderResult_def intent_ok_fields(1))
  with assms(1) show thesis by (intro that [of p]) simp_all
next
  case (Inr u)
  with assms have "transitionProviderState clock (Some p) (ppr_ExternalRef res) (NormalizePaymentStatusOrPending (ppr_Status res)) t = (r, q)"
    by (simp add: TransitionProviderResult_def intent_ok_fields(1) Let_def)
  from transitionProviderState_ok [OF assms(1) this] show thesis by (metis that)
qed

text \<open>
  The intents the entity package can produce: a created intent, and one whose state was changed by any
  of its mutating methods, whether the method reports an error or not. \<open>history\<close> is the sequence of
  statuses it has had.
\<close>

inductive intent_history :: "PaymentIntent \<Rightarrow> string list \<Rightarrow> bool" where
  topup: "NewProviderTopUpIntent clock txid prov amt fee cur acc now = Inr p \<Longrightarrow> intent_history p [pin_Status p]"
| withdrawal: "NewProviderWithdrawalIntent clock txid prov amt fee cur dest acc now = Inr p \<Longrightarrow> intent_history p [pin_Status p]"
| applied_result: "intent_history p h \<Longrightarrow> ApplyProviderResult clock (Some p) res t = (r, Some q) \<Longrightarrow> intent_history q (h @ [pin_Status q])"
| set_state: "intent_history p h \<Longrightarrow> SetProviderState clock (Some p) ref st t = (r, Some q) \<Longrightarrow> intent_history q (h @ [pin_Status q])"
| create_failed: "intent_history p h \<Longrightarrow> PaymentIntent.MarkCreateFailed clock (Some p) t = (rt, Some q) \<Longrightarrow> intent_history q (h @ [pin_Status q])"

text \<open>Every pair of adjacent statuses is a move of the machine or a repetition.\<close>

fun path :: "('a \<Rightarrow> 'a \<Rightarrow> bool) \<Rightarrow> 'a list \<Rightarrow> bool" where
  "path R (x # y # ys) \<longleftrightarrow> (R x y \<or> x = y) \<and> path R (y # ys)"
| "path R _ \<longleftrightarrow> True"

lemma path_snoc: "path R (xs @ [y]) \<longleftrightarrow> path R xs \<and> (xs = [] \<or> R (last xs) y \<or> last xs = y)"
  by (induction R xs rule: path.induct) auto


lemma newPaymentIntent_ok:
  assumes "newPaymentIntent clock w txid prov amt fee pamt cur key dest deb cred now = Inr p"
  shows "intent_ok p \<and> pin_Status p = PaymentStatusCreating \<and> pin_Amount p = amt \<and> pin_FeeAmount p = fee \<and> pin_ProviderAmount p = pamt"
proof -
  have s: "NormalizePaymentStatus PaymentStatusCreating = PaymentStatusCreating"
    by (rule NormalizePaymentStatus_valid) (simp add: ValidPaymentStatuses_def)
  have p: "p = \<lparr>pin_Workflow = NormalizePaymentWorkflow w, pin_TransactionID = TrimSpace txid, pin_Provider = ToLower (TrimSpace prov),
      pin_ExternalRef = [], pin_DestinationAccountID = TrimSpace dest, pin_Amount = amt, pin_FeeAmount = fee,
      pin_ProviderAmount = pamt, pin_Currency = ToUpper (TrimSpace cur),
      pin_ClearingAccountKey = effectivePaymentClearingAccountKey (ToLower (TrimSpace prov)) key,
      pin_DebitAccountID = TrimSpace deb, pin_CreditAccountID = TrimSpace cred,
      pin_Status = PaymentStatusCreating, pin_CreatedAt = normalizePaymentTime clock now, pin_UpdatedAt = normalizePaymentTime clock now\<rparr>"
    and g: "NormalizePaymentWorkflow w \<noteq> []" "ToLower (TrimSpace prov) \<noteq> []" "TrimSpace txid \<noteq> []" "\<not> amt \<le>s 0" "\<not> fee <s 0" "\<not> pamt \<le>s 0"
      "ToUpper (TrimSpace cur) \<noteq> []" "effectivePaymentClearingAccountKey (ToLower (TrimSpace prov)) key \<noteq> []"
      "\<not> (NormalizePaymentWorkflow w = PaymentWorkflowTopUp \<and> TrimSpace cred = [])"
      "\<not> (NormalizePaymentWorkflow w = PaymentWorkflowWithdrawal \<and> TrimSpace deb = [])"
      "\<not> (NormalizePaymentWorkflow w = PaymentWorkflowWithdrawal \<and> TrimSpace dest = [])"
    using assms by (simp_all add: newPaymentIntent_def Let_def del: de_Morgan_conj split: if_split_asm)
  have "ensureWorkflowDefaults p = p"
    using g(1,6) by (simp add: p ensureWorkflowDefaults_def Let_def go_norm s)
  moreover have "0 < sint amt" "0 \<le> sint fee" "0 < sint pamt" using g(4-6) by (simp_all add: word_sless_alt word_sle_eq not_le not_less)
  ultimately show ?thesis using g by (simp add: intent_ok_def p)
qed

lemma intent_history_ok: "intent_history p h \<Longrightarrow> intent_ok p \<and> h \<noteq> [] \<and> last h = pin_Status p \<and> hd h = PaymentStatusCreating \<and> path payment_step h"
proof (induction rule: intent_history.induct)
  case (topup clock txid prov amt fee cur acc now p)
  with newPaymentIntent_ok show ?case unfolding NewProviderTopUpIntent_def by fastforce
next
  case (withdrawal clock txid prov amt fee cur dest acc now p)
  with newPaymentIntent_ok show ?case unfolding NewProviderWithdrawalIntent_def by fastforce
next
  case (applied_result p h clock res t r q)
  then obtain r' where "TransitionProviderResult clock (Some p) res t = (r', Some q)"
    by (auto simp: ApplyProviderResult_def split: prod.splits sum.splits)
  from applied_result.IH TransitionProviderResult_ok [OF _ this] have "intent_ok q" "intent_moved p q" by auto
  with applied_result.IH show ?case by (auto simp: path_snoc intent_moved_def)
next
  case (set_state p h clock ref st t r q)
  then obtain r' where "transitionProviderState clock (Some p) ref st t = (r', Some q)"
    by (auto simp: SetProviderState_def split: prod.splits sum.splits)
  from set_state.IH transitionProviderState_ok [OF _ this] have "intent_ok q" "intent_moved p q" by auto
  with set_state.IH show ?case by (auto simp: path_snoc intent_moved_def)
next
  case (create_failed p h clock t rt q)
  then have "transitionProviderState clock (Some p) [] PaymentStatusFailed t = (rt, Some q)"
    by (simp add: MarkCreateFailed_def)
  from create_failed.IH transitionProviderState_ok [OF _ this] have "intent_ok q" "intent_moved p q" by auto
  with create_failed.IH show ?case by (auto simp: path_snoc intent_moved_def)
qed


lemma path_steps: "path R xs \<Longrightarrow> i \<le> j \<Longrightarrow> j < length xs \<Longrightarrow> R\<^sup>*\<^sup>* (xs ! i) (xs ! j)"
proof (induction xs arbitrary: j rule: rev_induct)
  case (snoc y ys)
  show ?case
  proof (cases "j < length ys")
    case True
    with snoc show ?thesis by (simp add: path_snoc nth_append)
  next
    case False
    with snoc.prems have j: "j = length ys" by simp
    show ?thesis
    proof (cases "i = j")
      case False
      with j snoc.prems have i: "i < length ys" by simp
      then have "ys \<noteq> []" by auto
      with snoc i have "R\<^sup>*\<^sup>* (ys ! i) (last ys)" by (simp add: path_snoc last_conv_nth)
      with snoc.prems(1) i j \<open>ys \<noteq> []\<close> show ?thesis
        by (auto simp: path_snoc nth_append intro: rtranclp.rtrancl_into_rtrancl)
    qed simp
  qed
qed simp

lemma sum_wraps_negative:
  assumes "0 < sint (x :: int64)" "0 \<le> sint y" "0 < sint (x + y)"
  shows "sint (x + y) = sint x + sint y"
proof (rule ccontr)
  assume "sint (x + y) \<noteq> sint x + sint y"
  then have "\<not> fits64 (sint x + sint y)" using sint_add64_fits by blast
  with assms sint64_range [of x] sint64_range [of y] have b: "2 ^ 63 \<le> sint x + sint y" "sint x + sint y < 2 ^ 64"
    by (simp_all add: fits64_def)
  then have "fits64 (sint x + sint y - 2 ^ 64)" by (simp add: fits64_def)
  moreover have "signed_take_bit 63 (sint x + sint y - 2 ^ 64) = signed_take_bit 63 (sint x + sint y :: int)"
    by (rule signed_take_bit_eq_iff_take_bit_eq [THEN iffD2]) (simp add: take_bit_eq_mod mod_diff_right_eq)
  ultimately have "sint (x + y) = sint x + sint y - 2 ^ 64" by (simp add: sint_add64 signed_take_bit_fits64)
  with b assms(3) show False by simp
qed

section \<open>Properties\<close>

definition sampleIntent :: PaymentIntent where
  "sampleIntent = \<lparr>pin_Workflow = PaymentWorkflowTopUp, pin_TransactionID = ''tx-1'', pin_Provider = ''stripe'', pin_ExternalRef = [],
     pin_DestinationAccountID = [], pin_Amount = 1000, pin_FeeAmount = 30, pin_ProviderAmount = 1030, pin_Currency = ''VND'',
     pin_ClearingAccountKey = ''provider:stripe'', pin_DebitAccountID = [], pin_CreditAccountID = ''acc-1'',
     pin_Status = PaymentStatusCreating, pin_CreatedAt = GoTime 5 ''UTC'', pin_UpdatedAt = GoTime 5 ''UTC''\<rparr>"

lemma sampleIntent_created:
  "NewProviderTopUpIntent (GoTime 9 ''UTC'') '' tx-1 '' ''Stripe'' 1000 30 ''vnd'' ''acc-1 '' (GoTime 5 ''UTC'') = Inr sampleIntent"
  by code_simp

text \<open>A settled payment: the provider reports success and then a refund; a later success report is ignored.\<close>

definition sampleResult :: "string \<Rightarrow> PaymentProviderResult" where
  "sampleResult st = \<lparr>ppr_TransactionID = ''tx-1'', ppr_EventID = ''evt-1'', ppr_EventType = ''payment'', ppr_Status = st,
     ppr_Amount = 1030, ppr_Currency = ''VND'', ppr_ExternalRef = ''pi_9''\<rparr>"

definition sampleMoved :: "string \<Rightarrow> int \<Rightarrow> PaymentIntent" where
  "sampleMoved st t = sampleIntent\<lparr>pin_Status := st, pin_ExternalRef := ''pi_9'', pin_UpdatedAt := GoTime t ''UTC''\<rparr>"

lemma sample_success:
  "ApplyProviderResult (GoTime 9 ''UTC'') (Some sampleIntent) (sampleResult PaymentStatusSuccess) (GoTime 6 ''UTC'') =
     (Inr (), Some (sampleMoved PaymentStatusSuccess 6))"
  by code_simp

lemma sample_refund:
  "ApplyProviderResult (GoTime 9 ''UTC'') (Some (sampleMoved PaymentStatusSuccess 6)) (sampleResult PaymentStatusRefunded) (GoTime 7 ''UTC'') =
     (Inr (), Some (sampleMoved PaymentStatusRefunded 7))"
  by code_simp

lemma sample_late_success:
  "ApplyProviderResult (GoTime 9 ''UTC'') (Some (sampleMoved PaymentStatusRefunded 7)) (sampleResult PaymentStatusSuccess) (GoTime 8 ''UTC'') =
     (Inr (), Some (sampleMoved PaymentStatusRefunded 7))"
  by code_simp

lemma sample_statuses:
  "pin_Status sampleIntent = PaymentStatusCreating" "pin_Status (sampleMoved st t) = st"
  by (simp_all add: sampleIntent_def sampleMoved_def)

lemma sampleIntent_history: "intent_history (sampleMoved PaymentStatusRefunded 7)
    [PaymentStatusCreating, PaymentStatusSuccess, PaymentStatusRefunded, PaymentStatusRefunded]"
  using applied_result [OF applied_result [OF applied_result [OF topup [OF sampleIntent_created] sample_success] sample_refund] sample_late_success]
  by (simp add: sample_statuses)

text \<open>
  C16 (invariant): in whatever order provider results, state changes and creation failures arrive, and whether they are
  accepted or refused, an intent starts in CREATING, each change of its status is a move of the
  machine, and once it has failed, been cancelled, refunded or charged back it keeps that status.
\<close>

theorem payment_status_machine:
  assumes "intent_history p h"
  shows "hd h = PaymentStatusCreating \<and> last h = pin_Status p \<and> path payment_step h \<and>
    (\<forall>i j. i \<le> j \<and> j < length h \<and> h ! i \<in> {PaymentStatusFailed, PaymentStatusCancelled, PaymentStatusRefunded, PaymentStatusChargeback}
       \<longrightarrow> h ! j = h ! i) \<and>
    (\<forall>i j. i \<le> j \<and> j < length h \<and> h ! i = PaymentStatusSuccess
       \<longrightarrow> h ! j \<in> {PaymentStatusSuccess, PaymentStatusRefunded, PaymentStatusChargeback})"
proof -
  note ok = intent_history_ok [OF assms]
  then have st: "payment_step\<^sup>*\<^sup>* (h ! i) (h ! j)" if "i \<le> j" "j < length h" for i j using that by (simp add: path_steps)
  have "h ! j = h ! i" if "i \<le> j" "j < length h"
    "h ! i \<in> {PaymentStatusFailed, PaymentStatusCancelled, PaymentStatusRefunded, PaymentStatusChargeback}" for i j
    by (rule payment_steps_absorbing [OF st [OF that(1,2)]]) (use that(3) in \<open>auto simp: paymentRank_def\<close>)
  moreover have "h ! j \<in> {PaymentStatusSuccess, PaymentStatusRefunded, PaymentStatusChargeback}"
    if "i \<le> j" "j < length h" "h ! i = PaymentStatusSuccess" for i j
    using success_steps [OF st [OF that(1,2)] that(3)] .
  ultimately show ?thesis using ok by blast
qed

theorem payment_status_machine_witness:
  "path payment_step [PaymentStatusCreating, PaymentStatusSuccess, PaymentStatusRefunded, PaymentStatusRefunded]"
  using payment_status_machine [OF sampleIntent_history] by blast

text \<open>
  C28 (type): every intent the package hands out is well formed: normalised, with a known status and
  workflow, positive amounts, and the accounts its workflow needs.
\<close>

theorem payment_intent_ok:
  assumes "intent_history p h"
  shows "intent_ok p"
  using intent_history_ok [OF assms] by simp

theorem payment_intent_ok_witness: "intent_ok (sampleMoved PaymentStatusRefunded 7)"
  by (rule payment_intent_ok [OF sampleIntent_history])

text \<open>
  C29 (bounds): a top-up is accepted only if its amount and fee add up without wrapping, and the
  provider is asked for exactly that sum; any request whose sum leaves the 64-bit range is refused.
\<close>

theorem topup_amount_exact:
  assumes "NewProviderTopUpIntent clock txid prov amt fee cur acc now = Inr p"
  shows "sint (pin_ProviderAmount p) = sint amt + sint fee \<and> fits64 (sint amt + sint fee) \<and>
    pin_Amount p = amt \<and> pin_FeeAmount p = fee \<and> pin_CreditAccountID p = TrimSpace acc"
proof -
  note n = assms [unfolded NewProviderTopUpIntent_def]
  from newPaymentIntent_ok [OF n] have ok: "intent_ok p" "pin_Amount p = amt" "pin_FeeAmount p = fee" "pin_ProviderAmount p = amt + fee"
    by simp_all
  then have "sint (amt + fee) = sint amt + sint fee" by (intro sum_wraps_negative) (auto simp: intent_ok_def)
  moreover have "pin_CreditAccountID p = TrimSpace acc"
    using n by (auto simp: newPaymentIntent_def Let_def split: if_split_asm)
  ultimately show ?thesis using ok sint64_range [of "amt + fee"] by simp
qed


theorem topup_amount_exact_witness:
  "sint (pin_ProviderAmount sampleIntent) = sint (1000 :: int64) + sint (30 :: int64) \<and>
   NewProviderTopUpIntent (GoTime 9 ''UTC'') ''tx'' ''stripe'' (2 ^ 62) (2 ^ 62) ''VND'' ''acc'' (GoTime 5 ''UTC'') = Inl ErrPaymentProviderAmountInvalid"
proof
  from topup_amount_exact [OF sampleIntent_created]
  show "sint (pin_ProviderAmount sampleIntent) = sint (1000 :: int64) + sint (30 :: int64)" by (elim conjE)
qed code_simp

end
