(* ===== verification/PaymentAggregate.thy ===== *)
theory PaymentAggregate
  imports PaymentIntent
begin

text \<open>
  \<^verbatim>\<open>core/modules/payment/domain/aggregate/payment_intent_aggregate.go\<close>: the event-sourced payment intent.

  The record extends the aggregate root by the intent (a pointer, so an \<open>option\<close>) and the processed
  events not yet stored. Methods that change the aggregate return it beside their result; the
  receiver itself is never \<^verbatim>\<open>nil\<close> here, the \<^verbatim>\<open>nil\<close> intent the methods guard against is \<open>None\<close>.
  Names that another package of the payment module uses too carry the prefix \<open>agg\<close>. The clock read by
  \<^verbatim>\<open>normalizePaymentTime\<close> is the argument \<open>clock\<close>.

  The theory shows that the package's own transition code agrees with the entity's, that the recorded
  events replay to the aggregate's state, and which payment events can ever be recorded.
\<close>

section \<open>The aggregate\<close>

record PaymentIntentAggregate = "PaymentEvent AggregateRoot" +
  pa_intent :: "PaymentIntent option"
  pa_processedEvents :: "ProcessedPaymentEvent list"

record PaymentIntentMutation =
  pim_Duplicate :: bool
  pim_Persist :: bool

abbreviation ErrPaymentIntentOccurredAtRequired :: error where
  "ErrPaymentIntentOccurredAtRequired \<equiv> Sentinel ''ErrPaymentIntentOccurredAtRequired''"

definition AggregateTypePaymentIntent :: string where "AggregateTypePaymentIntent = ''PaymentIntentAggregate''"

definition normalizePaymentIntentOccurredAt :: "gotime \<Rightarrow> error + gotime" where
  "normalizePaymentIntentOccurredAt value = (if IsZero value then Inl ErrPaymentIntentOccurredAtRequired else Inr (UTC value))"

definition normalizePaymentIntentSnapshot :: "gotime \<Rightarrow> PaymentIntent \<Rightarrow> PaymentIntent" where
  "normalizePaymentIntentSnapshot clock i =
     (let workflow = (if NormalizePaymentWorkflow (pin_Workflow i) = [] then PaymentWorkflowTopUp else NormalizePaymentWorkflow (pin_Workflow i));
          provider = ToLower (TrimSpace (pin_Provider i))
      in \<lparr>pin_Workflow = workflow,
          pin_TransactionID = TrimSpace (pin_TransactionID i),
          pin_Provider = provider,
          pin_ExternalRef = TrimSpace (pin_ExternalRef i),
          pin_DestinationAccountID = TrimSpace (pin_DestinationAccountID i),
          pin_Amount = pin_Amount i,
          pin_FeeAmount = pin_FeeAmount i,
          pin_ProviderAmount =
            (if pin_ProviderAmount i \<le>s 0
             then (if workflow = PaymentWorkflowWithdrawal then pin_Amount i else pin_Amount i + pin_FeeAmount i)
             else pin_ProviderAmount i),
          pin_Currency = ToUpper (TrimSpace (pin_Currency i)),
          pin_ClearingAccountKey = effectivePaymentClearingAccountKey provider (pin_ClearingAccountKey i),
          pin_DebitAccountID = TrimSpace (pin_DebitAccountID i),
          pin_CreditAccountID = TrimSpace (pin_CreditAccountID i),
          pin_Status = (if NormalizePaymentStatus (pin_Status i) = [] then PaymentStatusCreating else NormalizePaymentStatus (pin_Status i)),
          pin_CreatedAt = normalizePaymentTime clock (pin_CreatedAt i),
          pin_UpdatedAt = normalizePaymentTime clock (pin_UpdatedAt i)\<rparr>)"

section \<open>Applying events\<close>

definition emptyPaymentIntent :: PaymentIntent where
  "emptyPaymentIntent = \<lparr>pin_Workflow = [], pin_TransactionID = [], pin_Provider = [], pin_ExternalRef = [], pin_DestinationAccountID = [],
     pin_Amount = 0, pin_FeeAmount = 0, pin_ProviderAmount = 0, pin_Currency = [], pin_ClearingAccountKey = [],
     pin_DebitAccountID = [], pin_CreditAccountID = [], pin_Status = [], pin_CreatedAt = zeroTime, pin_UpdatedAt = zeroTime\<rparr>"

definition applyPaymentCreated :: "gotime \<Rightarrow> PaymentIntent option \<Rightarrow> PaymentCreatedEvent \<Rightarrow> PaymentIntent option" where
  "applyPaymentCreated clock i d =
     (let provider = ToLower (TrimSpace (pc_Provider d));
          created = normalizePaymentTime clock (pc_CreatedAt d)
      in Some ((case i of None \<Rightarrow> emptyPaymentIntent | Some p \<Rightarrow> p)
           \<lparr>pin_Workflow := (if NormalizePaymentWorkflow (pc_Workflow d) = [] then PaymentWorkflowTopUp else NormalizePaymentWorkflow (pc_Workflow d)),
            pin_TransactionID := (if TrimSpace (pc_TransactionID d) = [] then TrimSpace (pc_PaymentID d) else TrimSpace (pc_TransactionID d)),
            pin_Provider := provider,
            pin_ClearingAccountKey := effectivePaymentClearingAccountKey provider (pc_ClearingAccountKey d),
            pin_Amount := pc_Amount d,
            pin_FeeAmount := pc_FeeAmount d,
            pin_ProviderAmount := pc_ProviderAmount d,
            pin_Currency := ToUpper (TrimSpace (pc_Currency d)),
            pin_DebitAccountID := TrimSpace (pc_DebitAccountID d),
            pin_CreditAccountID := TrimSpace (pc_CreditAccountID d),
            pin_Status := NormalizePaymentStatusOrPending (pc_Status d),
            pin_CreatedAt := created,
            pin_UpdatedAt := created\<rparr>))"

definition applyWithdrawalRequested :: "gotime \<Rightarrow> PaymentIntent option \<Rightarrow> PaymentWithdrawalRequestedEvent \<Rightarrow> PaymentIntent option" where
  "applyWithdrawalRequested clock i d = map_option (\<lambda>p. p
     \<lparr>pin_DestinationAccountID := TrimSpace (pw_DestinationAccountID d),
      pin_DebitAccountID := TrimSpace (pw_DebitAccountID d),
      pin_UpdatedAt := normalizePaymentTime clock (pw_RequestedAt d)\<rparr>) i"

text \<open>\<^verbatim>\<open>if ref := strings.TrimSpace(...); ref != "" { a.intent.ExternalRef = ref }\<close>, which six handlers share.\<close>

definition setExternalRef :: "string \<Rightarrow> PaymentIntent \<Rightarrow> PaymentIntent" where
  "setExternalRef ref p = (if TrimSpace ref \<noteq> [] then p\<lparr>pin_ExternalRef := TrimSpace ref\<rparr> else p)"

definition applyCheckoutSessionCreated :: "gotime \<Rightarrow> PaymentIntent option \<Rightarrow> PaymentCheckoutSessionCreatedEvent \<Rightarrow> PaymentIntent option" where
  "applyCheckoutSessionCreated clock i d = map_option (\<lambda>p.
     (setExternalRef (pk_ProviderPaymentRef d) p)\<lparr>pin_UpdatedAt := normalizePaymentTime clock (pk_OccurredAt d)\<rparr>) i"

definition applyProviderStateChanged :: "gotime \<Rightarrow> PaymentIntent option \<Rightarrow> PaymentProviderStateChangedEvent \<Rightarrow> PaymentIntent option" where
  "applyProviderStateChanged clock i d = map_option (\<lambda>p.
     let p1 = setExternalRef (pg_ProviderPaymentRef d) p;
         p2 = (if NormalizePaymentStatus (pg_Status d) \<noteq> [] then p1\<lparr>pin_Status := NormalizePaymentStatus (pg_Status d)\<rparr> else p1)
     in p2\<lparr>pin_UpdatedAt := normalizePaymentTime clock (pg_OccurredAt d)\<rparr>) i"

definition applyPaymentSucceeded :: "gotime \<Rightarrow> PaymentIntent option \<Rightarrow> PaymentSucceededEvent \<Rightarrow> PaymentIntent option" where
  "applyPaymentSucceeded clock i d = map_option (\<lambda>p.
     (setExternalRef (ps_ProviderPaymentRef d) (p\<lparr>pin_Status := PaymentStatusSuccess\<rparr>))
       \<lparr>pin_UpdatedAt := normalizePaymentTime clock (ps_SucceededAt d)\<rparr>) i"

definition applyPaymentFailed :: "gotime \<Rightarrow> PaymentIntent option \<Rightarrow> PaymentFailedEvent \<Rightarrow> PaymentIntent option" where
  "applyPaymentFailed clock i d = map_option (\<lambda>p.
     (setExternalRef (pf_ProviderPaymentRef d) (p\<lparr>pin_Status := PaymentStatusFailed\<rparr>))
       \<lparr>pin_UpdatedAt := normalizePaymentTime clock (pf_OccurredAt d)\<rparr>) i"

definition applyPaymentRefunded :: "gotime \<Rightarrow> PaymentIntent option \<Rightarrow> PaymentRefundedEvent \<Rightarrow> PaymentIntent option" where
  "applyPaymentRefunded clock i d = map_option (\<lambda>p.
     (setExternalRef (pr_ProviderPaymentRef d) (p\<lparr>pin_Status := PaymentStatusRefunded\<rparr>))
       \<lparr>pin_UpdatedAt := normalizePaymentTime clock (pr_RefundedAt d)\<rparr>) i"

definition applyPaymentChargeback :: "gotime \<Rightarrow> PaymentIntent option \<Rightarrow> PaymentChargebackEvent \<Rightarrow> PaymentIntent option" where
  "applyPaymentChargeback clock i d = map_option (\<lambda>p.
     (setExternalRef (pb_ProviderPaymentRef d) (p\<lparr>pin_Status := PaymentStatusChargeback\<rparr>))
       \<lparr>pin_UpdatedAt := normalizePaymentTime clock (pb_ChargedBackAt d)\<rparr>) i"

definition applyPaymentEvent :: "gotime \<Rightarrow> PaymentIntent option \<Rightarrow> PaymentEvent \<Rightarrow> PaymentIntent option" where
  "applyPaymentEvent clock i e = (case e of
      PaymentCreated d \<Rightarrow> applyPaymentCreated clock i d
    | PaymentWithdrawalRequested d \<Rightarrow> applyWithdrawalRequested clock i d
    | PaymentCheckoutSessionCreated d \<Rightarrow> applyCheckoutSessionCreated clock i d
    | PaymentProviderStateChanged d \<Rightarrow> applyProviderStateChanged clock i d
    | PaymentSucceeded d \<Rightarrow> applyPaymentSucceeded clock i d
    | PaymentFailed d \<Rightarrow> applyPaymentFailed clock i d
    | PaymentRefunded d \<Rightarrow> applyPaymentRefunded clock i d
    | PaymentChargeback d \<Rightarrow> applyPaymentChargeback clock i d)"

definition paymentTransition :: "gotime \<Rightarrow> PaymentIntentAggregate \<Rightarrow> PaymentEvent Event \<Rightarrow> error + PaymentIntentAggregate" where
  "paymentTransition clock a e = Inr (a\<lparr>pa_intent := applyPaymentEvent clock (pa_intent a) (ev_EventData e)\<rparr>)"

definition paymentRegisterEvents :: "string list" where
  "paymentRegisterEvents = [''PaymentCreatedEvent'', ''PaymentWithdrawalRequestedEvent'', ''PaymentCheckoutSessionCreatedEvent'',
     ''PaymentProviderStateChangedEvent'', ''PaymentSucceededEvent'', ''PaymentFailedEvent'', ''PaymentRefundedEvent'',
     ''PaymentChargebackEvent'']"

definition applyChangeAt :: "gotime \<Rightarrow> PaymentIntentAggregate \<Rightarrow> PaymentEvent \<Rightarrow> gotime \<Rightarrow> (error + unit) \<times> PaymentIntentAggregate" where
  "applyChangeAt clock a d occurredAt =
     (case ApplyChange paymentEventName (paymentTransition clock) a (Some d) of
        (Inl e, a') \<Rightarrow> (Inl e, a')
      | (Inr _, a') \<Rightarrow> (Inr (),
          if events a' = [] then a'
          else a'\<lparr>events := butlast (events a') @ [(last (events a'))\<lparr>ev_CreatedAt := Unix occurredAt\<rparr>]\<rparr>))"

section \<open>Provider transitions\<close>

text \<open>Methods of the aggregate on its intent: each is a copy of the entity's method, with \<open>normalizePaymentIntentSnapshot\<close>
  in place of \<open>ensureWorkflowDefaults\<close>.\<close>

definition aggResolvePaymentTransition :: "string \<Rightarrow> string \<Rightarrow> PaymentTransition" where
  "aggResolvePaymentTransition previousStatus nextStatus =
     (let current = NormalizePaymentStatusOrPending previousStatus;
          transition = \<lparr>ptr_PreviousStatus = current, ptr_CurrentStatus = current, ptr_Type = PaymentTransitionNone,
            ptr_StateChanged = False, ptr_ExternalRefChanged = False, ptr_Ignored = False\<rparr>;
          moved = (\<lambda>typ. transition\<lparr>ptr_CurrentStatus := nextStatus, ptr_Type := typ, ptr_StateChanged := True\<rparr>);
          ignored = transition\<lparr>ptr_Ignored := True\<rparr>
      in if current = nextStatus then transition
         else if current = PaymentStatusCreating then
           (if nextStatus = PaymentStatusPending then moved PaymentTransitionPending
            else if nextStatus = PaymentStatusSuccess then moved PaymentTransitionSucceeded
            else if nextStatus = PaymentStatusFailed then moved PaymentTransitionFailed
            else if nextStatus = PaymentStatusCancelled then moved PaymentTransitionCancelled
            else ignored)
         else if current = PaymentStatusPending then
           (if nextStatus = PaymentStatusSuccess then moved PaymentTransitionSucceeded
            else if nextStatus = PaymentStatusFailed then moved PaymentTransitionFailed
            else if nextStatus = PaymentStatusCancelled then moved PaymentTransitionCancelled
            else ignored)
         else if current = PaymentStatusSuccess then
           (if nextStatus = PaymentStatusRefunded then moved PaymentTransitionRefunded
            else if nextStatus = PaymentStatusChargeback then moved PaymentTransitionChargeback
            else ignored)
         else ignored)"

definition aggTransitionProviderState ::
  "gotime \<Rightarrow> PaymentIntentAggregate \<Rightarrow> string \<Rightarrow> string \<Rightarrow> gotime \<Rightarrow> (error + PaymentTransition) \<times> PaymentIntentAggregate" where
  "aggTransitionProviderState clock a externalRef0 status updatedAt =
     (case pa_intent a of
        None \<Rightarrow> (Inl ErrPaymentTransactionIDRequired, a)
      | Some i0 \<Rightarrow>
          let i = normalizePaymentIntentSnapshot clock i0;
              normalizedStatus = NormalizePaymentStatus status
          in if normalizedStatus = [] then (Inl ErrPaymentStatusInvalid, a\<lparr>pa_intent := Some i\<rparr>)
             else
               let transition = aggResolvePaymentTransition (NormalizePaymentStatusOrPending (pin_Status i)) normalizedStatus;
                   i1 = (if ptr_StateChanged transition then i\<lparr>pin_Status := ptr_CurrentStatus transition\<rparr> else i);
                   externalRef = TrimSpace externalRef0;
                   refChanged = (externalRef \<noteq> [] \<and> externalRef \<noteq> pin_ExternalRef i1);
                   i2 = (if refChanged then i1\<lparr>pin_ExternalRef := externalRef\<rparr> else i1);
                   transition' = (if refChanged then transition\<lparr>ptr_ExternalRefChanged := True\<rparr> else transition);
                   i3 = (if ptr_StateChanged transition' \<or> ptr_ExternalRefChanged transition'
                         then i2\<lparr>pin_UpdatedAt := normalizePaymentTime clock updatedAt\<rparr> else i2)
               in (Inr transition', a\<lparr>pa_intent := Some i3\<rparr>))"

definition aggValidateProviderResultForStatus :: "PaymentIntentAggregate \<Rightarrow> string \<Rightarrow> int64 \<Rightarrow> string \<Rightarrow> error + unit" where
  "aggValidateProviderResultForStatus a status amount currency0 =
     (case pa_intent a of
        None \<Rightarrow> Inl ErrPaymentTransactionIDRequired
      | Some i \<Rightarrow>
          let normalizedStatus = (if NormalizePaymentStatus status = [] then NormalizePaymentStatusOrPending status
                                  else NormalizePaymentStatus status);
              currency = TrimSpace currency0
          in if (if normalizedStatus = PaymentStatusRefunded \<or> normalizedStatus = PaymentStatusChargeback
                 then amount \<noteq> 0 \<and> pin_ProviderAmount i <s amount
                 else amount \<noteq> 0 \<and> amount \<noteq> pin_ProviderAmount i)
             then Inl ErrPaymentProviderAmountMismatch
             else if currency \<noteq> [] \<and> \<not> EqualFold currency (pin_Currency i) then Inl ErrPaymentProviderCurrencyMismatch
             else Inr ())"

definition aggTransitionProviderResult ::
  "gotime \<Rightarrow> PaymentIntentAggregate \<Rightarrow> PaymentProviderResult \<Rightarrow> gotime \<Rightarrow> (error + PaymentTransition) \<times> PaymentIntentAggregate" where
  "aggTransitionProviderResult clock a result updatedAt =
     (let a1 = a\<lparr>pa_intent := map_option (normalizePaymentIntentSnapshot clock) (pa_intent a)\<rparr>;
          nextStatus = NormalizePaymentStatusOrPending (ppr_Status result)
      in case aggValidateProviderResultForStatus a1 nextStatus (ppr_Amount result) (ppr_Currency result) of
           Inl e \<Rightarrow> (Inl e, a1)
         | Inr _ \<Rightarrow> aggTransitionProviderState clock a1 (ppr_ExternalRef result) nextStatus updatedAt)"

definition aggTransitionIdempotencyKey :: "PaymentIntentAggregate \<Rightarrow> string \<Rightarrow> string" where
  "aggTransitionIdempotencyKey a eventName = (case pa_intent a of
     None \<Rightarrow> TrimSpace eventName @ '':''
   | Some i \<Rightarrow> TrimSpace eventName @ '':'' @ TrimSpace (pin_TransactionID i))"

text \<open>The methods below read the intent without testing it; on a \<^verbatim>\<open>nil\<close> intent Go panics, which is an error value here.\<close>

abbreviation nilDereference :: error where "nilDereference \<equiv> Errorf ''panic: nil pointer dereference'' []"

definition newProcessedTransitionEvent :: "gotime \<Rightarrow> PaymentIntentAggregate \<Rightarrow> string \<Rightarrow> gotime \<Rightarrow> error + ProcessedPaymentEvent" where
  "newProcessedTransitionEvent clock a eventName createdAt = (case pa_intent a of
     None \<Rightarrow> Inl nilDereference
   | Some i \<Rightarrow> NewProcessedPaymentEvent clock (pin_Provider i) (aggTransitionIdempotencyKey a eventName) (pin_TransactionID i) createdAt)"

definition currentProviderResult :: "PaymentIntentAggregate \<Rightarrow> PaymentProviderResult \<Rightarrow> PaymentProviderResult" where
  "currentProviderResult a source =
     (case pa_intent a of
        None \<Rightarrow> \<lparr>ppr_TransactionID = [], ppr_EventID = [], ppr_EventType = [], ppr_Status = [], ppr_Amount = 0, ppr_Currency = [], ppr_ExternalRef = []\<rparr>
      | Some i \<Rightarrow>
          \<lparr>ppr_TransactionID = coalescePaymentValue [ppr_TransactionID source, pin_TransactionID i],
           ppr_EventID = TrimSpace (ppr_EventID source),
           ppr_EventType = TrimSpace (ppr_EventType source),
           ppr_Status = NormalizePaymentStatusOrPending (coalescePaymentValue [ppr_Status source, pin_Status i]),
           ppr_Amount = (if ppr_Amount source = 0 then pin_ProviderAmount i else ppr_Amount source),
           ppr_Currency = coalescePaymentValue [ppr_Currency source, pin_Currency i],
           ppr_ExternalRef = coalescePaymentValue [ppr_ExternalRef source, pin_ExternalRef i]\<rparr>)"

definition shouldEmitCheckoutSessionCreated :: "PaymentIntentAggregate \<Rightarrow> string \<Rightarrow> bool" where
  "shouldEmitCheckoutSessionCreated a checkoutURL = (case pa_intent a of None \<Rightarrow> False | Some i \<Rightarrow>
     if pin_Workflow i \<noteq> PaymentWorkflowTopUp then False
     else TrimSpace checkoutURL \<noteq> [] \<or> TrimSpace (pin_ExternalRef i) \<noteq> [])"


section \<open>Recording events\<close>

definition withIntent ::
  "PaymentIntentAggregate \<Rightarrow> (PaymentIntent \<Rightarrow> (error + 'r) \<times> PaymentIntentAggregate) \<Rightarrow> (error + 'r) \<times> PaymentIntentAggregate" where
  "withIntent a f = (case pa_intent a of None \<Rightarrow> (Inl nilDereference, a) | Some i \<Rightarrow> f i)"

definition recordProcessedEvent :: "PaymentIntentAggregate \<Rightarrow> ProcessedPaymentEvent \<Rightarrow> PaymentIntentAggregate" where
  "recordProcessedEvent a evt = a\<lparr>pa_processedEvents := pa_processedEvents a @ [evt]\<rparr>"

definition recordPaymentCreated ::
  "gotime \<Rightarrow> PaymentIntentAggregate \<Rightarrow> (string \<rightharpoonup> string) \<Rightarrow> gotime \<Rightarrow> (error + unit) \<times> PaymentIntentAggregate" where
  "recordPaymentCreated clock a metadata occurredAt = withIntent a (\<lambda>i. applyChangeAt clock a (PaymentCreated
     \<lparr>pc_Workflow = pin_Workflow i, pc_PaymentID = pin_TransactionID i, pc_TransactionID = pin_TransactionID i,
      pc_Provider = pin_Provider i, pc_ClearingAccountKey = pin_ClearingAccountKey i, pc_DebitAccountID = pin_DebitAccountID i,
      pc_Amount = pin_Amount i, pc_FeeAmount = pin_FeeAmount i, pc_ProviderAmount = pin_ProviderAmount i,
      pc_Currency = pin_Currency i, pc_CreditAccountID = pin_CreditAccountID i, pc_Status = pin_Status i,
      pc_Metadata = metadata, pc_CreatedAt = occurredAt\<rparr>) occurredAt)"

definition recordWithdrawalRequested :: "gotime \<Rightarrow> PaymentIntentAggregate \<Rightarrow> gotime \<Rightarrow> (error + unit) \<times> PaymentIntentAggregate" where
  "recordWithdrawalRequested clock a occurredAt = withIntent a (\<lambda>i. applyChangeAt clock a (PaymentWithdrawalRequested
     \<lparr>pw_PaymentID = pin_TransactionID i, pw_TransactionID = pin_TransactionID i, pw_Provider = pin_Provider i,
      pw_ClearingAccountKey = pin_ClearingAccountKey i, pw_DebitAccountID = pin_DebitAccountID i,
      pw_DestinationAccountID = pin_DestinationAccountID i, pw_Amount = pin_Amount i, pw_FeeAmount = pin_FeeAmount i,
      pw_ProviderAmount = pin_ProviderAmount i, pw_Currency = pin_Currency i, pw_Status = pin_Status i,
      pw_RequestedAt = occurredAt\<rparr>) occurredAt)"

definition recordProviderStateChanged ::
  "gotime \<Rightarrow> PaymentIntentAggregate \<Rightarrow> PaymentTransition \<Rightarrow> PaymentProviderResult \<Rightarrow> gotime \<Rightarrow> (error + unit) \<times> PaymentIntentAggregate" where
  "recordProviderStateChanged clock a transition result occurredAt =
     (let current = currentProviderResult a result
      in withIntent a (\<lambda>i. applyChangeAt clock a (PaymentProviderStateChanged
           \<lparr>pg_TransactionID = pin_TransactionID i, pg_Provider = pin_Provider i, pg_ProviderPaymentRef = ppr_ExternalRef current,
            pg_PreviousStatus = ptr_PreviousStatus transition, pg_Status = ptr_CurrentStatus transition,
            pg_ProviderEventID = TrimSpace (ppr_EventID current), pg_ProviderEventType = TrimSpace (ppr_EventType current),
            pg_Amount = ppr_Amount current, pg_Currency = ppr_Currency current, pg_OccurredAt = occurredAt,
            pg_StateChanged = ptr_StateChanged transition, pg_ExternalRefChanged = ptr_ExternalRefChanged transition\<rparr>) occurredAt))"

definition recordCheckoutSessionEvent ::
  "gotime \<Rightarrow> PaymentIntentAggregate \<Rightarrow> string \<Rightarrow> bool \<Rightarrow> gotime \<Rightarrow> (error + unit) \<times> PaymentIntentAggregate" where
  "recordCheckoutSessionEvent clock a checkoutURL emitCheckoutEvent occurredAt =
     (case pa_intent a of
        None \<Rightarrow> (Inr (), a)
      | Some i \<Rightarrow>
          if \<not> emitCheckoutEvent \<or> \<not> shouldEmitCheckoutSessionCreated a checkoutURL then (Inr (), a)
          else applyChangeAt clock a (PaymentCheckoutSessionCreated
            \<lparr>pk_Workflow = pin_Workflow i, pk_PaymentID = pin_TransactionID i, pk_TransactionID = pin_TransactionID i,
             pk_Provider = pin_Provider i, pk_ProviderPaymentRef = pin_ExternalRef i, pk_CheckoutURL = TrimSpace checkoutURL,
             pk_Amount = pin_Amount i, pk_FeeAmount = pin_FeeAmount i, pk_ProviderAmount = pin_ProviderAmount i,
             pk_Currency = pin_Currency i, pk_Status = pin_Status i, pk_OccurredAt = occurredAt\<rparr>) occurredAt)"

definition recordPaymentSucceeded ::
  "gotime \<Rightarrow> PaymentIntentAggregate \<Rightarrow> PaymentProviderResult \<Rightarrow> gotime \<Rightarrow> (error + unit) \<times> PaymentIntentAggregate" where
  "recordPaymentSucceeded clock a result occurredAt = withIntent a (\<lambda>i. applyChangeAt clock a (PaymentSucceeded
     \<lparr>ps_Workflow = pin_Workflow i, ps_PaymentID = pin_TransactionID i, ps_TransactionID = pin_TransactionID i,
      ps_Provider = pin_Provider i, ps_ClearingAccountKey = pin_ClearingAccountKey i, ps_DebitAccountID = pin_DebitAccountID i,
      ps_ProviderEventID = TrimSpace (ppr_EventID result), ps_ProviderEventType = TrimSpace (ppr_EventType result),
      ps_ProviderPaymentRef = coalescePaymentValue [ppr_ExternalRef result, pin_ExternalRef i],
      ps_Amount = pin_Amount i, ps_FeeAmount = pin_FeeAmount i, ps_ProviderAmount = pin_ProviderAmount i,
      ps_Currency = pin_Currency i, ps_CreditAccountID = pin_CreditAccountID i,
      ps_IdempotencyKey = aggTransitionIdempotencyKey a EventPaymentSucceeded, ps_SucceededAt = occurredAt\<rparr>) occurredAt)"

definition recordPaymentFailed ::
  "gotime \<Rightarrow> PaymentIntentAggregate \<Rightarrow> PaymentProviderResult \<Rightarrow> gotime \<Rightarrow> (error + unit) \<times> PaymentIntentAggregate" where
  "recordPaymentFailed clock a result occurredAt = withIntent a (\<lambda>i. applyChangeAt clock a (PaymentFailed
     \<lparr>pf_Workflow = pin_Workflow i, pf_PaymentID = pin_TransactionID i, pf_TransactionID = pin_TransactionID i,
      pf_Provider = pin_Provider i, pf_ClearingAccountKey = pin_ClearingAccountKey i, pf_DebitAccountID = pin_DebitAccountID i,
      pf_ProviderEventID = TrimSpace (ppr_EventID result), pf_ProviderEventType = TrimSpace (ppr_EventType result),
      pf_ProviderPaymentRef = coalescePaymentValue [ppr_ExternalRef result, pin_ExternalRef i],
      pf_Amount = pin_Amount i, pf_FeeAmount = pin_FeeAmount i, pf_ProviderAmount = pin_ProviderAmount i,
      pf_Currency = pin_Currency i, pf_CreditAccountID = pin_CreditAccountID i,
      pf_Status = NormalizePaymentStatusOrPending (ppr_Status result), pf_OccurredAt = occurredAt\<rparr>) occurredAt)"

definition recordPaymentRefunded ::
  "gotime \<Rightarrow> PaymentIntentAggregate \<Rightarrow> PaymentProviderResult \<Rightarrow> gotime \<Rightarrow> (error + unit) \<times> PaymentIntentAggregate" where
  "recordPaymentRefunded clock a result occurredAt = withIntent a (\<lambda>i. applyChangeAt clock a (PaymentRefunded
     \<lparr>pr_Workflow = pin_Workflow i, pr_PaymentID = pin_TransactionID i, pr_TransactionID = pin_TransactionID i,
      pr_Provider = pin_Provider i, pr_ClearingAccountKey = pin_ClearingAccountKey i, pr_DebitAccountID = pin_DebitAccountID i,
      pr_ProviderEventID = TrimSpace (ppr_EventID result), pr_ProviderEventType = TrimSpace (ppr_EventType result),
      pr_ProviderPaymentRef = coalescePaymentValue [ppr_ExternalRef result, pin_ExternalRef i],
      pr_Amount = paymentResultAmountOrDefault (ppr_Amount result) (pin_Amount i),
      pr_FeeAmount = pin_FeeAmount i, pr_ProviderAmount = pin_ProviderAmount i,
      pr_Currency = pin_Currency i, pr_CreditAccountID = pin_CreditAccountID i,
      pr_IdempotencyKey = aggTransitionIdempotencyKey a EventPaymentRefunded, pr_RefundedAt = occurredAt\<rparr>) occurredAt)"

definition recordPaymentChargeback ::
  "gotime \<Rightarrow> PaymentIntentAggregate \<Rightarrow> PaymentProviderResult \<Rightarrow> gotime \<Rightarrow> (error + unit) \<times> PaymentIntentAggregate" where
  "recordPaymentChargeback clock a result occurredAt = withIntent a (\<lambda>i. applyChangeAt clock a (PaymentChargeback
     \<lparr>pb_Workflow = pin_Workflow i, pb_PaymentID = pin_TransactionID i, pb_TransactionID = pin_TransactionID i,
      pb_Provider = pin_Provider i, pb_ClearingAccountKey = pin_ClearingAccountKey i, pb_DebitAccountID = pin_DebitAccountID i,
      pb_ProviderEventID = TrimSpace (ppr_EventID result), pb_ProviderEventType = TrimSpace (ppr_EventType result),
      pb_ProviderPaymentRef = coalescePaymentValue [ppr_ExternalRef result, pin_ExternalRef i],
      pb_Amount = paymentResultAmountOrDefault (ppr_Amount result) (pin_Amount i),
      pb_FeeAmount = pin_FeeAmount i, pb_ProviderAmount = pin_ProviderAmount i,
      pb_Currency = pin_Currency i, pb_CreditAccountID = pin_CreditAccountID i,
      pb_IdempotencyKey = aggTransitionIdempotencyKey a EventPaymentChargeback, pb_ChargedBackAt = occurredAt\<rparr>) occurredAt)"

section \<open>Operations\<close>

text \<open>Sequencing of calls that return a result and the changed aggregate.\<close>

definition thenDo ::
  "(error + 'r) \<times> 'a \<Rightarrow> ('r \<Rightarrow> 'a \<Rightarrow> (error + 's) \<times> 'a) \<Rightarrow> (error + 's) \<times> 'a" where
  "thenDo m f = (case m of (Inl e, a) \<Rightarrow> (Inl e, a) | (Inr x, a) \<Rightarrow> f x a)"

abbreviation mutation :: "bool \<Rightarrow> bool \<Rightarrow> PaymentIntentMutation" where
  "mutation dup persist \<equiv> \<lparr>pim_Duplicate = dup, pim_Persist = persist\<rparr>"

definition applyNonFinalOutcome ::
  "gotime \<Rightarrow> PaymentIntentAggregate \<Rightarrow> PaymentProviderResult \<Rightarrow> string \<Rightarrow> bool \<Rightarrow> gotime \<Rightarrow> (error + PaymentIntentMutation) \<times> PaymentIntentAggregate" where
  "applyNonFinalOutcome clock a result checkoutURL emitCheckoutEvent occurredAt =
     thenDo (aggTransitionProviderResult clock a result occurredAt) (\<lambda>transition a1.
       if ptr_Ignored transition \<or> (\<not> ptr_StateChanged transition \<and> \<not> ptr_ExternalRefChanged transition)
       then (Inr (mutation True False), a1)
       else
         thenDo (recordProviderStateChanged clock a1 transition result occurredAt) (\<lambda>_ a2.
         thenDo (recordCheckoutSessionEvent clock a2 checkoutURL emitCheckoutEvent occurredAt) (\<lambda>_ a3.
         thenDo (if ptr_Type transition = PaymentTransitionFailed
                 then recordPaymentFailed clock a3 (currentProviderResult a3 result) occurredAt else (Inr (), a3)) (\<lambda>_ a4.
         (Inr (mutation False True), a4)))))"

definition applySuccessfulOutcome ::
  "gotime \<Rightarrow> PaymentIntentAggregate \<Rightarrow> PaymentProviderResult \<Rightarrow> string \<Rightarrow> bool \<Rightarrow> gotime \<Rightarrow> (error + PaymentIntentMutation) \<times> PaymentIntentAggregate" where
  "applySuccessfulOutcome clock a result checkoutURL emitCheckoutEvent occurredAt =
     thenDo (aggTransitionProviderResult clock a result occurredAt) (\<lambda>transition a1.
       if ptr_Ignored transition \<or> ptr_Type transition = PaymentTransitionNone then
         (if ptr_ExternalRefChanged transition then
            thenDo (recordProviderStateChanged clock a1 transition result occurredAt) (\<lambda>_ a2.
            thenDo (recordCheckoutSessionEvent clock a2 checkoutURL emitCheckoutEvent occurredAt) (\<lambda>_ a3.
            (Inr (mutation True True), a3)))
          else (Inr (mutation True False), a1))
       else if ptr_Type transition \<noteq> PaymentTransitionSucceeded then (Inr (mutation True False), a1)
       else
         case newProcessedTransitionEvent clock a1 EventPaymentSucceeded occurredAt of
           Inl e \<Rightarrow> (Inl e, a1)
         | Inr processedEvent \<Rightarrow>
             let a2 = recordProcessedEvent a1 processedEvent
             in thenDo (recordPaymentSucceeded clock a2 (currentProviderResult a2 result) occurredAt) (\<lambda>_ a3.
                thenDo (recordCheckoutSessionEvent clock a3 checkoutURL emitCheckoutEvent occurredAt) (\<lambda>_ a4.
                (Inr (mutation False True), a4))))"

definition applyReversedOutcome ::
  "gotime \<Rightarrow> PaymentIntentAggregate \<Rightarrow> PaymentProviderResult \<Rightarrow> string \<Rightarrow> bool \<Rightarrow> gotime \<Rightarrow> (error + PaymentIntentMutation) \<times> PaymentIntentAggregate" where
  "applyReversedOutcome clock a result checkoutURL emitCheckoutEvent occurredAt =
     thenDo (aggTransitionProviderResult clock a result occurredAt) (\<lambda>transition a1.
       if ptr_Ignored transition \<or> ptr_Type transition = PaymentTransitionNone then (Inr (mutation True False), a1)
       else
         let finish = (\<lambda>a3. thenDo (recordCheckoutSessionEvent clock a3 checkoutURL emitCheckoutEvent occurredAt) (\<lambda>_ a4.
                               (Inr (mutation False True), a4)))
         in case ptr_Type transition of
              PaymentTransitionRefunded \<Rightarrow>
                (case newProcessedTransitionEvent clock a1 EventPaymentRefunded occurredAt of
                   Inl e \<Rightarrow> (Inl e, a1)
                 | Inr processedEvent \<Rightarrow>
                     let a2 = recordProcessedEvent a1 processedEvent
                     in thenDo (recordPaymentRefunded clock a2 (currentProviderResult a2 result) occurredAt) (\<lambda>_ a3. finish a3))
            | PaymentTransitionChargeback \<Rightarrow>
                (case newProcessedTransitionEvent clock a1 EventPaymentChargeback occurredAt of
                   Inl e \<Rightarrow> (Inl e, a1)
                 | Inr processedEvent \<Rightarrow>
                     let a2 = recordProcessedEvent a1 processedEvent
                     in thenDo (recordPaymentChargeback clock a2 (currentProviderResult a2 result) occurredAt) (\<lambda>_ a3. finish a3))
            | _ \<Rightarrow> (Inr (mutation True False), a1))"

definition ApplyProviderOutcome ::
  "gotime \<Rightarrow> PaymentIntentAggregate \<Rightarrow> PaymentProviderResult \<Rightarrow> string \<Rightarrow> bool \<Rightarrow> gotime \<Rightarrow> (error + PaymentIntentMutation) \<times> PaymentIntentAggregate" where
  "ApplyProviderOutcome clock a result checkoutURL emitCheckoutEvent occurredAt0 =
     (if pa_intent a = None then (Inl ErrPaymentTransactionIDRequired, a)
      else case normalizePaymentIntentOccurredAt occurredAt0 of
        Inl e \<Rightarrow> (Inl e, a)
      | Inr occurredAt \<Rightarrow>
          let st = NormalizePaymentStatus (ppr_Status result)
          in if st = PaymentStatusSuccess then applySuccessfulOutcome clock a result checkoutURL emitCheckoutEvent occurredAt
             else if st = PaymentStatusRefunded \<or> st = PaymentStatusChargeback
             then applyReversedOutcome clock a result checkoutURL emitCheckoutEvent occurredAt
             else applyNonFinalOutcome clock a result checkoutURL emitCheckoutEvent occurredAt)"

definition aggMarkCreateFailed ::
  "gotime \<Rightarrow> PaymentIntentAggregate \<Rightarrow> gotime \<Rightarrow> (error + PaymentIntentMutation) \<times> PaymentIntentAggregate" where
  "aggMarkCreateFailed clock a occurredAt0 =
     (if pa_intent a = None then (Inl ErrPaymentTransactionIDRequired, a)
      else case normalizePaymentIntentOccurredAt occurredAt0 of
        Inl e \<Rightarrow> (Inl e, a)
      | Inr occurredAt \<Rightarrow>
          thenDo (aggTransitionProviderState clock a [] PaymentStatusFailed occurredAt) (\<lambda>transition a1.
            if ptr_Ignored transition \<or> \<not> ptr_StateChanged transition then (Inr (mutation True False), a1)
            else
              let failedResult = currentProviderResult a1 \<lparr>ppr_TransactionID = [], ppr_EventID = [], ppr_EventType = [],
                    ppr_Status = PaymentStatusFailed, ppr_Amount = 0, ppr_Currency = [], ppr_ExternalRef = []\<rparr>
              in withIntent a1 (\<lambda>i. thenDo (recordPaymentFailed clock a1 failedResult (pin_UpdatedAt i)) (\<lambda>_ a2.
                   (Inr (mutation False True), a2)))))"

section \<open>Creating and restoring\<close>

definition emptyPaymentAggregate :: PaymentIntentAggregate where
  "emptyPaymentAggregate = \<lparr>aggregateID = [], aggregateType = [], version = 0, baseVersion = 0, events = [], pa_intent = None, pa_processedEvents = []\<rparr>"

definition newPaymentIntentAggregate :: "PaymentIntent \<Rightarrow> error + PaymentIntentAggregate" where
  "newPaymentIntentAggregate i = InitAggregate AggregateTypePaymentIntent (emptyPaymentAggregate\<lparr>pa_intent := Some i\<rparr>) (pin_TransactionID i)"

definition NewProviderTopUpAggregate ::
  "gotime \<Rightarrow> string \<Rightarrow> string \<Rightarrow> int64 \<Rightarrow> int64 \<Rightarrow> string \<Rightarrow> string \<Rightarrow> (string \<rightharpoonup> string) \<Rightarrow> gotime \<Rightarrow> error + PaymentIntentAggregate" where
  "NewProviderTopUpAggregate clock transactionID provider amount feeAmount currency creditAccountID metadata now0 =
     andThen (normalizePaymentIntentOccurredAt now0) (\<lambda>now.
     andThen (NewProviderTopUpIntent clock transactionID provider amount feeAmount currency creditAccountID now) (\<lambda>i.
     andThen (newPaymentIntentAggregate i) (\<lambda>agg.
     case recordPaymentCreated clock agg metadata now of (Inl e, _) \<Rightarrow> Inl e | (Inr _, agg') \<Rightarrow> Inr agg')))"

definition NewProviderWithdrawalAggregate ::
  "gotime \<Rightarrow> string \<Rightarrow> string \<Rightarrow> int64 \<Rightarrow> int64 \<Rightarrow> string \<Rightarrow> string \<Rightarrow> string \<Rightarrow> (string \<rightharpoonup> string) \<Rightarrow> gotime \<Rightarrow> error + PaymentIntentAggregate" where
  "NewProviderWithdrawalAggregate clock transactionID provider amount feeAmount currency destinationAccountID debitAccountID metadata now0 =
     andThen (normalizePaymentIntentOccurredAt now0) (\<lambda>now.
     andThen (NewProviderWithdrawalIntent clock transactionID provider amount feeAmount currency destinationAccountID debitAccountID now) (\<lambda>i.
     andThen (newPaymentIntentAggregate i) (\<lambda>agg.
     case recordPaymentCreated clock agg metadata now of
       (Inl e, _) \<Rightarrow> Inl e
     | (Inr _, agg1) \<Rightarrow>
         (case recordWithdrawalRequested clock agg1 now of (Inl e, _) \<Rightarrow> Inl e | (Inr _, agg2) \<Rightarrow> Inr agg2))))"

definition RestorePaymentIntentAggregateWithVersion :: "gotime \<Rightarrow> PaymentIntent option \<Rightarrow> int \<Rightarrow> error + PaymentIntentAggregate" where
  "RestorePaymentIntentAggregateWithVersion clock intent v0 =
     (case intent of
        None \<Rightarrow> Inl ErrPaymentTransactionIDRequired
      | Some i \<Rightarrow>
          let clone = normalizePaymentIntentSnapshot clock i; v = (if v0 < 0 then 0 else v0)
          in Inr (SetInternal (SetAggregateType (emptyPaymentAggregate\<lparr>pa_intent := Some clone\<rparr>) AggregateTypePaymentIntent)
                    (pin_TransactionID clone) v v))"

definition RestorePaymentIntentAggregate :: "gotime \<Rightarrow> PaymentIntent option \<Rightarrow> error + PaymentIntentAggregate" where
  "RestorePaymentIntentAggregate clock intent = RestorePaymentIntentAggregateWithVersion clock intent 0"

definition Snapshot :: "PaymentIntentAggregate \<Rightarrow> PaymentIntent option" where
  "Snapshot a = pa_intent a"

definition aggTransactionID :: "PaymentIntentAggregate \<Rightarrow> string" where
  "aggTransactionID a = (case pa_intent a of None \<Rightarrow> [] | Some i \<Rightarrow> pin_TransactionID i)"

definition aggProvider :: "PaymentIntentAggregate \<Rightarrow> string" where
  "aggProvider a = (case pa_intent a of None \<Rightarrow> [] | Some i \<Rightarrow> pin_Provider i)"

definition aggWorkflow :: "PaymentIntentAggregate \<Rightarrow> string" where
  "aggWorkflow a = (case pa_intent a of None \<Rightarrow> [] | Some i \<Rightarrow> pin_Workflow i)"

definition aggExternalRef :: "PaymentIntentAggregate \<Rightarrow> string" where
  "aggExternalRef a = (case pa_intent a of None \<Rightarrow> [] | Some i \<Rightarrow> pin_ExternalRef i)"

definition aggStatus :: "PaymentIntentAggregate \<Rightarrow> string" where
  "aggStatus a = (case pa_intent a of None \<Rightarrow> [] | Some i \<Rightarrow> pin_Status i)"

definition PendingProcessedEvents :: "PaymentIntentAggregate \<Rightarrow> ProcessedPaymentEvent list" where
  "PendingProcessedEvents a = pa_processedEvents a"

definition PendingOutboxEvents :: "PaymentIntentAggregate \<Rightarrow> PaymentEvent Event list" where
  "PendingOutboxEvents a = CloneEvents a"

definition aggMarkPersisted :: "PaymentIntentAggregate \<Rightarrow> PaymentIntentAggregate" where
  "aggMarkPersisted a = MarkPersisted (a\<lparr>pa_processedEvents := []\<rparr>)"


section \<open>The aggregate's copies of the entity's methods\<close>

lemma more_payment_iff: "AggregateRoot.more (a :: PaymentIntentAggregate) = AggregateRoot.more b \<longleftrightarrow>
    pa_intent a = pa_intent b \<and> pa_processedEvents a = pa_processedEvents b"
  by (cases a; cases b) auto

interpretation payment: aggregate paymentEventName "paymentTransition clock"
  by unfold_locales (auto simp: paymentTransition_def AggregateRoot.truncate_def more_payment_iff)

lemma aggResolve_eq: "aggResolvePaymentTransition = resolvePaymentTransition"
  by (intro ext) (simp add: aggResolvePaymentTransition_def resolvePaymentTransition_def paymentMoves_def Let_def)

lemma aggValidate_eq: "aggValidateProviderResultForStatus a = ValidateProviderResultForStatus (pa_intent a)"
  by (intro ext) (simp add: aggValidateProviderResultForStatus_def ValidateProviderResultForStatus_def)

lemma currentProviderResult_eq: "currentProviderResult a = CurrentProviderResult (pa_intent a)"
  by (intro ext) (simp add: currentProviderResult_def CurrentProviderResult_def)

text \<open>A time the package has normalised: in UTC and not the zero time.\<close>

definition time_ok :: "gotime \<Rightarrow> bool" where
  "time_ok t \<longleftrightarrow> UTC t = t \<and> \<not> IsZero t"

lemma time_ok_normalized [simp]: "time_ok t \<Longrightarrow> normalizePaymentTime clock t = t"
  by (simp add: time_ok_def normalizePaymentTime_def)

lemma occurredAt_ok: "normalizePaymentIntentOccurredAt t0 = Inr t \<longleftrightarrow> \<not> IsZero t0 \<and> t = UTC t0"
  by (auto simp: normalizePaymentIntentOccurredAt_def)

lemma time_ok_UTC: "\<not> IsZero t \<Longrightarrow> time_ok (UTC t)"
  by (simp add: time_ok_def)

definition snapshot_ok :: "PaymentIntent \<Rightarrow> bool" where
  "snapshot_ok i \<longleftrightarrow> intent_ok i \<and> time_ok (pin_CreatedAt i) \<and> time_ok (pin_UpdatedAt i)"

lemma normalizeSnapshot_defaults: "normalizePaymentIntentSnapshot clock i =
    (ensureWorkflowDefaults i)\<lparr>pin_CreatedAt := normalizePaymentTime clock (pin_CreatedAt i), pin_UpdatedAt := normalizePaymentTime clock (pin_UpdatedAt i)\<rparr>"
  by (cases i) (simp add: normalizePaymentIntentSnapshot_def ensureWorkflowDefaults_def Let_def)

lemma normalizeSnapshot_times:
  "time_ok (pin_CreatedAt i) \<Longrightarrow> time_ok (pin_UpdatedAt i) \<Longrightarrow> normalizePaymentIntentSnapshot clock i = ensureWorkflowDefaults i"
  by (cases i) (simp add: normalizeSnapshot_defaults ensureWorkflowDefaults_def Let_def)

lemma snapshot_ok_fixed [simp]: "snapshot_ok i \<Longrightarrow> normalizePaymentIntentSnapshot clock i = i"
  by (simp add: snapshot_ok_def normalizeSnapshot_times intent_ok_fields(1))

lemma aggTransitionState_eq:
  assumes "pa_intent a = Some i" "time_ok (pin_CreatedAt i)" "time_ok (pin_UpdatedAt i)"
  shows "aggTransitionProviderState clock a ref st t =
    (let (r, q) = transitionProviderState clock (Some i) ref st t in (r, a\<lparr>pa_intent := q\<rparr>))"
  using assms by (simp add: aggTransitionProviderState_def transitionProviderState_def normalizeSnapshot_times aggResolve_eq Let_def)

lemma aggTransitionResult_eq:
  assumes "pa_intent a = Some i" "time_ok (pin_CreatedAt i)" "time_ok (pin_UpdatedAt i)"
  shows "aggTransitionProviderResult clock a res t =
    (let (r, q) = TransitionProviderResult clock (Some i) res t in (r, a\<lparr>pa_intent := q\<rparr>))"
proof -
  have e: "pin_CreatedAt (ensureWorkflowDefaults i) = pin_CreatedAt i" "pin_UpdatedAt (ensureWorkflowDefaults i) = pin_UpdatedAt i"
    by (simp_all add: ensureWorkflowDefaults_def Let_def)
  show ?thesis
    using assms aggTransitionState_eq [of "a\<lparr>pa_intent := Some (ensureWorkflowDefaults i)\<rparr>" "ensureWorkflowDefaults i"] e
    by (auto simp: aggTransitionProviderResult_def TransitionProviderResult_def aggValidate_eq normalizeSnapshot_times Let_def
        split: sum.splits prod.splits)
qed

section \<open>What a provider transition does\<close>

text \<open>\<open>refAfter i ref\<close>: the reference an intent has after a result that carries \<open>ref\<close>.\<close>

definition refAfter :: "PaymentIntent \<Rightarrow> string \<Rightarrow> string" where
  "refAfter i ref = (if TrimSpace ref \<noteq> [] then TrimSpace ref else pin_ExternalRef i)"

definition settle :: "PaymentIntent \<Rightarrow> string \<Rightarrow> string \<Rightarrow> gotime \<Rightarrow> PaymentIntent" where
  "settle i st ref t = i\<lparr>pin_Status := st, pin_ExternalRef := ref, pin_UpdatedAt := t\<rparr>"

lemma settle_fields [simp]:
  "pin_Status (settle i st ref t) = st" "pin_ExternalRef (settle i st ref t) = ref" "pin_UpdatedAt (settle i st ref t) = t"
  "pin_TransactionID (settle i st ref t) = pin_TransactionID i" "pin_Workflow (settle i st ref t) = pin_Workflow i"
  "pin_Provider (settle i st ref t) = pin_Provider i" "pin_Amount (settle i st ref t) = pin_Amount i"
  "pin_FeeAmount (settle i st ref t) = pin_FeeAmount i" "pin_ProviderAmount (settle i st ref t) = pin_ProviderAmount i"
  "pin_Currency (settle i st ref t) = pin_Currency i" "pin_ClearingAccountKey (settle i st ref t) = pin_ClearingAccountKey i"
  "pin_DebitAccountID (settle i st ref t) = pin_DebitAccountID i" "pin_CreditAccountID (settle i st ref t) = pin_CreditAccountID i"
  "pin_DestinationAccountID (settle i st ref t) = pin_DestinationAccountID i" "pin_CreatedAt (settle i st ref t) = pin_CreatedAt i"
  "settle (settle i st ref t) st' ref' t' = settle i st' ref' t'"
  by (simp_all add: settle_def)

lemma settle_same_ref: "settle i st (pin_ExternalRef i) t = i\<lparr>pin_Status := st, pin_UpdatedAt := t\<rparr>"
  by (cases i) (simp add: settle_def)

lemma settle_same_status: "settle i (pin_Status i) ref t = i\<lparr>pin_ExternalRef := ref, pin_UpdatedAt := t\<rparr>"
  by (cases i) (simp add: settle_def)

lemma settle_ok:
  assumes "snapshot_ok i" "st \<in> set ValidPaymentStatuses" "TrimSpace ref = ref" "time_ok t"
  shows "snapshot_ok (settle i st ref t)"
  using assms intent_ok_with [of i st ref t] by (simp add: snapshot_ok_def settle_def)

lemma refAfter_trimmed [simp]: "snapshot_ok i \<Longrightarrow> TrimSpace (refAfter i ref) = refAfter i ref"
  by (simp add: refAfter_def snapshot_ok_def intent_ok_fields(3))

lemma TransitionResult_explicit:
  assumes "snapshot_ok i" "time_ok t" "TransitionProviderResult clock (Some i) res t = (Inr tr, q)"
  defines "nxt \<equiv> NormalizePaymentStatusOrPending (ppr_Status res)"
  shows "tr = (resolvePaymentTransition (pin_Status i) nxt)\<lparr>ptr_ExternalRefChanged := refAfter i (ppr_ExternalRef res) \<noteq> pin_ExternalRef i\<rparr>"
    and "q = Some (if ptr_StateChanged tr \<or> ptr_ExternalRefChanged tr
                   then settle i (ptr_CurrentStatus tr) (refAfter i (ppr_ExternalRef res)) t else i)"
proof -
  from assms(1) have ok: "intent_ok i" by (simp add: snapshot_ok_def)
  note f = intent_ok_fields [OF ok]
  have nxt: "NormalizePaymentStatus nxt = nxt" "nxt \<noteq> []" using ToUpper_status [of nxt] by (simp_all add: nxt_def)
  define R where "R = resolvePaymentTransition (pin_Status i) nxt"
  define ref where "ref = ppr_ExternalRef res"
  note rf = resolve_fields [OF f(2), of nxt, folded R_def]
  have R: "R\<lparr>ptr_ExternalRefChanged := False\<rparr> = R" using rf(6) by (cases R) simp
  have cur: "\<not> ptr_StateChanged R \<Longrightarrow> ptr_CurrentStatus R = pin_Status i" using rf by simp
  from assms(3) f(1) have t: "transitionProviderState clock (Some i) ref nxt t = (Inr tr, q)"
    by (auto simp: TransitionProviderResult_def nxt_def ref_def Let_def split: sum.splits)
  have *: "tr = R\<lparr>ptr_ExternalRefChanged := refAfter i ref \<noteq> pin_ExternalRef i\<rparr> \<and>
      q = Some (if ptr_StateChanged R \<or> refAfter i ref \<noteq> pin_ExternalRef i then settle i (ptr_CurrentStatus R) (refAfter i ref) t else i)"
    using t rf(6) cur R assms(2)
    by (cases "ptr_StateChanged R"; cases "TrimSpace ref = []"; cases "TrimSpace ref = pin_ExternalRef i")
      (auto simp: transitionProviderState_def Let_def refAfter_def settle_same_ref settle_same_status settle_def f(1,2) nxt simp flip: R_def)
  then show "tr = (resolvePaymentTransition (pin_Status i) nxt)\<lparr>ptr_ExternalRefChanged := refAfter i (ppr_ExternalRef res) \<noteq> pin_ExternalRef i\<rparr>"
    and "q = Some (if ptr_StateChanged tr \<or> ptr_ExternalRefChanged tr
                   then settle i (ptr_CurrentStatus tr) (refAfter i (ppr_ExternalRef res)) t else i)"
    by (simp_all add: R_def ref_def)
qed


section \<open>Recorded events\<close>

fun payRows :: "PaymentIntentAggregate \<Rightarrow> int \<Rightarrow> gotime \<Rightarrow> PaymentEvent list \<Rightarrow> PaymentEvent Event list" where
  "payRows a v t [] = []"
| "payRows a v t (d # ds) =
     \<lparr>ev_ID = 0, ev_AggregateID = aggregateID a, ev_AggregateType = aggregateType a, ev_Version = v,
      ev_EventName = paymentEventName d, ev_EventData = d, ev_CreatedAt = Unix t\<rparr> # payRows a (v + 1) t ds"

definition appendRows :: "PaymentIntentAggregate \<Rightarrow> gotime \<Rightarrow> PaymentEvent list \<Rightarrow> PaymentIntentAggregate" where
  "appendRows a t ds = a\<lparr>events := events a @ payRows a (Version a + 1) t ds\<rparr>"

lemma payRows_append: "payRows a v t (ds @ es) = payRows a v t ds @ payRows a (v + int (length ds)) t es"
  by (induction ds arbitrary: v) (simp_all add: add.assoc add.commute)

lemma payRows_data [simp]: "map ev_EventData (payRows a v t ds) = ds"
  by (induction ds arbitrary: v) simp_all

lemma length_payRows [simp]: "length (payRows a v t ds) = length ds"
  by (induction ds arbitrary: v) simp_all

lemma payRows_Nil_iff [simp]: "payRows a v t ds = [] \<longleftrightarrow> ds = []"
  by (cases ds) simp_all

lemma payRows_versions: "map ev_Version (payRows a v t ds) = map (\<lambda>k. v + int k) [0..<length ds]"
  by (induction ds rule: rev_induct) (simp_all add: payRows_append)

lemma payRows_root: "aggregateID a = aggregateID b \<Longrightarrow> aggregateType a = aggregateType b \<Longrightarrow> payRows a v t ds = payRows b v t ds"
  by (induction ds arbitrary: v) simp_all

lemma payRows_last: "ds \<noteq> [] \<Longrightarrow> ev_Version (last (payRows a v t ds)) = v + int (length ds) - 1"
  by (cases ds rule: rev_cases) (simp_all add: payRows_append)

lemma appendRows_fields [simp]:
  "aggregateID (appendRows a t ds) = aggregateID a" "aggregateType (appendRows a t ds) = aggregateType a"
  "version (appendRows a t ds) = version a" "baseVersion (appendRows a t ds) = baseVersion a"
  "pa_intent (appendRows a t ds) = pa_intent a" "pa_processedEvents (appendRows a t ds) = pa_processedEvents a"
  "events (appendRows a t ds) = events a @ payRows a (Version a + 1) t ds"
  by (simp_all add: appendRows_def)

lemma appendRows_Version: "Version (appendRows a t ds) = Version a + int (length ds)"
proof (cases "ds = []")
  case False
  with payRows_last [of ds a "Version a + 1" t] show ?thesis by (simp add: Version_def [of "appendRows a t ds"])
qed (simp add: Version_def appendRows_def)

lemma appendRows_Nil [simp]: "appendRows a t [] = a"
  by (simp add: appendRows_def)

lemma appendRows_append: "appendRows (appendRows a t ds) t es = appendRows a t (ds @ es)"
  using payRows_root [of "appendRows a t ds" a] appendRows_Version [of a t ds]
  by (simp add: appendRows_def payRows_append algebra_simps)

text \<open>\<open>applyChangeAt\<close> on an event that leaves the intent as it is.\<close>

lemma applyChangeAt_row:
  assumes "aggregateID a \<noteq> []"
  shows "applyChangeAt clock a d t = (Inr (), (appendRows a t [d])\<lparr>pa_intent := applyPaymentEvent clock (pa_intent a) d\<rparr>)"
  using assms
  by (simp add: applyChangeAt_def apply_change_defs paymentTransition_def newEvent_def nextVersion_def appendRows_def Let_def)

lemma applyChangeAt_fixed:
  assumes "aggregateID a \<noteq> []" "applyPaymentEvent clock (pa_intent a) d = pa_intent a"
  shows "applyChangeAt clock a d t = (Inr (), appendRows a t [d])"
  using applyChangeAt_row [OF assms(1), of clock d t] assms(2) by (simp add: appendRows_def)

section \<open>Effects of the recorded events\<close>

text \<open>
  The terms of a payment never change after its creation: \<open>terms\<close>. The events that follow the creation bill
  the payment's own accounts, in its own currency: \<open>billed\<close>; the amount of a refund or a chargeback is the provider's.
\<close>

definition terms :: "PaymentIntent \<Rightarrow> string \<times> string \<times> string \<times> string \<times> string \<times> int64 \<times> int64" where
  "terms i = (pin_Workflow i, pin_ClearingAccountKey i, pin_DebitAccountID i, pin_CreditAccountID i, pin_Currency i, pin_Amount i, pin_FeeAmount i)"

definition billed :: "PaymentIntent \<Rightarrow> PaymentEvent \<Rightarrow> bool" where
  "billed i d = (case d of
      PaymentCreated _ \<Rightarrow> False
    | PaymentWithdrawalRequested _ \<Rightarrow> False
    | PaymentSucceeded p \<Rightarrow> terms i = (ps_Workflow p, ps_ClearingAccountKey p, ps_DebitAccountID p, ps_CreditAccountID p,
        ps_Currency p, ps_Amount p, ps_FeeAmount p)
    | PaymentFailed p \<Rightarrow> terms i = (pf_Workflow p, pf_ClearingAccountKey p, pf_DebitAccountID p, pf_CreditAccountID p,
        pf_Currency p, pf_Amount p, pf_FeeAmount p)
    | PaymentRefunded p \<Rightarrow> terms i = (pr_Workflow p, pr_ClearingAccountKey p, pr_DebitAccountID p, pr_CreditAccountID p,
        pr_Currency p, pin_Amount i, pr_FeeAmount p)
    | PaymentChargeback p \<Rightarrow> terms i = (pb_Workflow p, pb_ClearingAccountKey p, pb_DebitAccountID p, pb_CreditAccountID p,
        pb_Currency p, pin_Amount i, pb_FeeAmount p)
    | _ \<Rightarrow> True)"

lemma terms_settle [simp]: "terms (settle i st ref t) = terms i"
  by (simp add: terms_def settle_def)

lemma billed_terms: "terms i = terms j \<Longrightarrow> billed i d = billed j d"
  by (cases d) (auto simp: billed_def terms_def)

lemma billed_settle [simp]: "billed (settle i st ref t) d = billed i d"
  by (rule billed_terms) simp

text \<open>
  An event explains a move from \<open>i\<close> to \<open>i'\<close> when applying it to either of them gives \<open>i'\<close>, whatever
  the clock.
\<close>

definition explains :: "PaymentIntent \<Rightarrow> PaymentIntent \<Rightarrow> PaymentEvent \<Rightarrow> bool" where
  "explains i i' d \<longleftrightarrow> terms i' = terms i \<and> billed i d \<and> (\<forall>clock. applyPaymentEvent clock (Some i) d = Some i' \<and> applyPaymentEvent clock (Some i') d = Some i')"

definition keeps :: "PaymentIntent \<Rightarrow> PaymentEvent \<Rightarrow> bool" where
  "keeps i d \<longleftrightarrow> billed i d \<and> (\<forall>clock. applyPaymentEvent clock (Some i) d = Some i)"

lemma explains_keeps: "explains i i' d \<Longrightarrow> keeps i' d"
  by (auto simp: explains_def keeps_def billed_terms [of i' i])

lemma setExternalRef_after:
  assumes "TrimSpace ref = ref" "ref = [] \<longrightarrow> pin_ExternalRef i = []"
  shows "setExternalRef ref i = i\<lparr>pin_ExternalRef := ref\<rparr>"
  using assms by (cases i) (auto simp: setExternalRef_def)

definition isCheckout :: "PaymentEvent \<Rightarrow> bool" where
  "isCheckout d = (case d of PaymentCheckoutSessionCreated _ \<Rightarrow> True | _ \<Rightarrow> False)"

text \<open>The settlement an event reports: the events that the ledger books.\<close>

definition settlement :: "PaymentEvent \<Rightarrow> string list" where
  "settlement d = (case d of PaymentSucceeded _ \<Rightarrow> [PaymentStatusSuccess] | PaymentFailed _ \<Rightarrow> [PaymentStatusFailed]
     | PaymentRefunded _ \<Rightarrow> [PaymentStatusRefunded] | PaymentChargeback _ \<Rightarrow> [PaymentStatusChargeback] | _ \<Rightarrow> [])"

definition settlements :: "PaymentEvent list \<Rightarrow> string list" where
  "settlements ds = concat (map settlement ds)"

lemma settlements_simps [simp]: "settlements [] = []" "settlements (d # ds) = settlement d @ settlements ds"
  "settlements (ds @ es) = settlements ds @ settlements es"
  by (simp_all add: settlements_def)


lemma moved_explained:
  assumes "TrimSpace ref = ref" "ref = [] \<longrightarrow> pin_ExternalRef i = []" "time_ok t" "st \<in> set ValidPaymentStatuses"
  shows "pg_ProviderPaymentRef g = ref \<Longrightarrow> pg_Status g = st \<Longrightarrow> pg_OccurredAt g = t \<Longrightarrow> billed i (PaymentProviderStateChanged g) \<Longrightarrow> explains i (settle i st ref t) (PaymentProviderStateChanged g)"
    and "ps_ProviderPaymentRef s = ref \<Longrightarrow> st = PaymentStatusSuccess \<Longrightarrow> ps_SucceededAt s = t \<Longrightarrow> billed i (PaymentSucceeded s) \<Longrightarrow> explains i (settle i st ref t) (PaymentSucceeded s)"
    and "pf_ProviderPaymentRef f = ref \<Longrightarrow> st = PaymentStatusFailed \<Longrightarrow> pf_OccurredAt f = t \<Longrightarrow> billed i (PaymentFailed f) \<Longrightarrow> explains i (settle i st ref t) (PaymentFailed f)"
    and "pr_ProviderPaymentRef r = ref \<Longrightarrow> st = PaymentStatusRefunded \<Longrightarrow> pr_RefundedAt r = t \<Longrightarrow> billed i (PaymentRefunded r) \<Longrightarrow> explains i (settle i st ref t) (PaymentRefunded r)"
    and "pb_ProviderPaymentRef c = ref \<Longrightarrow> st = PaymentStatusChargeback \<Longrightarrow> pb_ChargedBackAt c = t \<Longrightarrow> billed i (PaymentChargeback c) \<Longrightarrow> explains i (settle i st ref t) (PaymentChargeback c)"
    and "pk_ProviderPaymentRef k = ref \<Longrightarrow> pk_OccurredAt k = t \<Longrightarrow> keeps (settle i st ref t) (PaymentCheckoutSessionCreated k)"
  using assms ToUpper_status [OF assms(4)]
  by (simp_all add: explains_def keeps_def applyPaymentEvent_def applyProviderStateChanged_def applyPaymentSucceeded_def
      applyPaymentFailed_def applyPaymentRefunded_def applyPaymentChargeback_def applyCheckoutSessionCreated_def
      setExternalRef_after settle_def Let_def) (simp_all add: billed_def terms_def)

text \<open>The reference that the recorded events carry is the one the intent has after the transition.\<close>

lemma coalesce_ref:
  assumes "snapshot_ok i" "pin_ExternalRef i' = refAfter i ref"
  shows "coalescePaymentValue [ref, pin_ExternalRef i'] = refAfter i ref"
    "coalescePaymentValue [coalescePaymentValue [ref, pin_ExternalRef i'], pin_ExternalRef i'] = refAfter i ref"
  using assms by (auto simp: coalesce_FirstNonEmpty refAfter_def snapshot_ok_def intent_ok_fields(3))

lemma refAfter_Nil: "snapshot_ok i \<Longrightarrow> refAfter i ref = [] \<longrightarrow> pin_ExternalRef i = []"
  by (simp add: refAfter_def)

text \<open>An aggregate between two calls: its intent is normalised and it is identified by its transaction.\<close>

definition agg_ok :: "PaymentIntentAggregate \<Rightarrow> PaymentIntent \<Rightarrow> bool" where
  "agg_ok a i \<longleftrightarrow> pa_intent a = Some i \<and> snapshot_ok i \<and> aggregateID a = pin_TransactionID i"

lemma agg_ok_id: "agg_ok a i \<Longrightarrow> aggregateID a \<noteq> []"
  by (simp add: agg_ok_def snapshot_ok_def intent_ok_def)

text \<open>\<open>records clock i i' ds\<close>: the payloads recorded for a move from \<open>i\<close> to \<open>i'\<close>.\<close>

definition records :: "PaymentIntent \<Rightarrow> PaymentIntent \<Rightarrow> PaymentEvent list \<Rightarrow> bool" where
  "records i i' ds \<longleftrightarrow> ds \<noteq> [] \<and> explains i i' (hd ds) \<and> (\<forall>d\<in>set (tl ds). keeps i' d) \<and>
     (payment_step (pin_Status i) (pin_Status i') \<or> pin_Status i = pin_Status i') \<and>
     settlements ds = (if payment_step (pin_Status i) (pin_Status i') \<and>
         pin_Status i' \<in> {PaymentStatusSuccess, PaymentStatusFailed, PaymentStatusRefunded, PaymentStatusChargeback}
       then [pin_Status i'] else [])"

lemma checkout_step:
  assumes "aggregateID a \<noteq> []" "pa_intent a = Some (settle i st ref t)" "TrimSpace ref = ref" "time_ok t"
  obtains ds where "recordCheckoutSessionEvent clock a url emit t = (Inr (), appendRows a t ds)" "\<forall>d\<in>set ds. keeps (settle i st ref t) d"
    "settlements ds = []"
proof -
  let ?i = "settle i st ref t"
  let ?k = "\<lparr>pk_Workflow = pin_Workflow ?i, pk_PaymentID = pin_TransactionID ?i, pk_TransactionID = pin_TransactionID ?i,
             pk_Provider = pin_Provider ?i, pk_ProviderPaymentRef = pin_ExternalRef ?i, pk_CheckoutURL = TrimSpace url,
             pk_Amount = pin_Amount ?i, pk_FeeAmount = pin_FeeAmount ?i, pk_ProviderAmount = pin_ProviderAmount ?i,
             pk_Currency = pin_Currency ?i, pk_Status = pin_Status ?i, pk_OccurredAt = t\<rparr>"
  have k: "keeps ?i (PaymentCheckoutSessionCreated ?k)"
    using assms(3,4) by (cases i) (simp add: keeps_def billed_def applyPaymentEvent_def applyCheckoutSessionCreated_def setExternalRef_def settle_def)
  show thesis
  proof (cases "\<not> emit \<or> \<not> shouldEmitCheckoutSessionCreated a url")
    case True
    with assms(2) show thesis by (intro that [of "[]"]) (simp_all add: recordCheckoutSessionEvent_def)
  next
    case False
    from k have "applyPaymentEvent clock (pa_intent a) (PaymentCheckoutSessionCreated ?k) = pa_intent a" by (simp add: keeps_def assms(2))
    with False k assms show thesis
      by (intro that [of "[PaymentCheckoutSessionCreated ?k]"])
        (simp_all add: recordCheckoutSessionEvent_def applyChangeAt_fixed settlement_def)
  qed
qed


lemma applyChangeAt_explained:
  assumes "aggregateID a \<noteq> []" "pa_intent a = Some i'" "explains i i' d"
  shows "applyChangeAt clock a d t = (Inr (), appendRows a t [d])"
  using assms by (simp add: applyChangeAt_fixed explains_def)

lemma record_steps:
  fixes i ref t st
  defines "i' \<equiv> settle i st (refAfter i ref) t"
  assumes a: "aggregateID a \<noteq> []" "pa_intent a = Some i'"
    and ok: "snapshot_ok i" "time_ok t" "st \<in> set ValidPaymentStatuses" "ppr_ExternalRef res = ref"
  shows "ptr_CurrentStatus tr = st \<Longrightarrow> \<exists>d. recordProviderStateChanged clock a tr res t = (Inr (), appendRows a t [d]) \<and>
      explains i i' d \<and> settlement d = []"
    and "st = PaymentStatusSuccess \<Longrightarrow> \<exists>d. recordPaymentSucceeded clock a (currentProviderResult a res) t = (Inr (), appendRows a t [d]) \<and>
      explains i i' d \<and> settlement d = [st]"
    and "st = PaymentStatusFailed \<Longrightarrow> \<exists>d. recordPaymentFailed clock a (currentProviderResult a res) t = (Inr (), appendRows a t [d]) \<and>
      explains i i' d \<and> settlement d = [st]"
    and "st = PaymentStatusRefunded \<Longrightarrow> \<exists>d. recordPaymentRefunded clock a (currentProviderResult a res) t = (Inr (), appendRows a t [d]) \<and>
      explains i i' d \<and> settlement d = [st]"
    and "st = PaymentStatusChargeback \<Longrightarrow> \<exists>d. recordPaymentChargeback clock a (currentProviderResult a res) t = (Inr (), appendRows a t [d]) \<and>
      explains i i' d \<and> settlement d = [st]"
proof -
  have c: "coalescePaymentValue [ref, pin_ExternalRef i'] = refAfter i ref"
    "coalescePaymentValue [coalescePaymentValue [ref, pin_ExternalRef i'], pin_ExternalRef i'] = refAfter i ref"
    using coalesce_ref [OF ok(1), of i' ref] by (simp_all add: i'_def)
  have cur: "ppr_ExternalRef (currentProviderResult a res) = refAfter i ref"
    using c(1) a(2) ok(4) by (simp add: currentProviderResult_def)
  have c3: "coalescePaymentValue [refAfter i ref, pin_ExternalRef i'] = refAfter i ref" using c by simp
  note ex = moved_explained [OF refAfter_trimmed [OF ok(1), of ref] refAfter_Nil [OF ok(1)] ok(2,3), folded i'_def]
  have ch: "\<exists>d'. applyChangeAt clock a d t = (Inr (), appendRows a t [d']) \<and> explains i i' d' \<and> settlement d' = x"
    if "explains i i' d" "settlement d = x" for d x
    using applyChangeAt_explained [OF a that(1)] that by blast
  have w: "withIntent a f = f i'" for f :: "PaymentIntent \<Rightarrow> (error + unit) \<times> PaymentIntentAggregate"
    by (simp add: withIntent_def a(2))
  show "\<exists>d. recordProviderStateChanged clock a tr res t = (Inr (), appendRows a t [d]) \<and> explains i i' d \<and> settlement d = []"
    if "ptr_CurrentStatus tr = st"
    unfolding recordProviderStateChanged_def w Let_def cur
    by (rule ch, rule ex(1)) (use that in \<open>simp_all add: settlement_def billed_def terms_def i'_def\<close>)
  show "\<exists>d. recordPaymentSucceeded clock a (currentProviderResult a res) t = (Inr (), appendRows a t [d]) \<and> explains i i' d \<and> settlement d = [st]"
    if "st = PaymentStatusSuccess"
    unfolding recordPaymentSucceeded_def w cur c3
    by (rule ch, rule ex(2)) (use that in \<open>simp_all add: settlement_def billed_def terms_def i'_def\<close>)
  show "\<exists>d. recordPaymentFailed clock a (currentProviderResult a res) t = (Inr (), appendRows a t [d]) \<and> explains i i' d \<and> settlement d = [st]"
    if "st = PaymentStatusFailed"
    unfolding recordPaymentFailed_def w cur c3
    by (rule ch, rule ex(3)) (use that in \<open>simp_all add: settlement_def billed_def terms_def i'_def\<close>)
  show "\<exists>d. recordPaymentRefunded clock a (currentProviderResult a res) t = (Inr (), appendRows a t [d]) \<and> explains i i' d \<and> settlement d = [st]"
    if "st = PaymentStatusRefunded"
    unfolding recordPaymentRefunded_def w cur c3
    by (rule ch, rule ex(4)) (use that in \<open>simp_all add: settlement_def billed_def terms_def i'_def\<close>)
  show "\<exists>d. recordPaymentChargeback clock a (currentProviderResult a res) t = (Inr (), appendRows a t [d]) \<and> explains i i' d \<and> settlement d = [st]"
    if "st = PaymentStatusChargeback"
    unfolding recordPaymentChargeback_def w cur c3
    by (rule ch, rule ex(5)) (use that in \<open>simp_all add: settlement_def billed_def terms_def i'_def\<close>)
qed


text \<open>\<open>transitioned i nxt ref t tr i'\<close>: a transition towards the status \<open>nxt\<close> reported \<open>tr\<close> and left the intent \<open>i'\<close>.\<close>

definition transitioned :: "PaymentIntent \<Rightarrow> string \<Rightarrow> string \<Rightarrow> gotime \<Rightarrow> PaymentTransition \<Rightarrow> PaymentIntent \<Rightarrow> bool" where
  "transitioned i nxt ref t tr i' \<longleftrightarrow>
     ptr_StateChanged tr = payment_step (pin_Status i) nxt \<and>
     ptr_CurrentStatus tr = (if payment_step (pin_Status i) nxt then nxt else pin_Status i) \<and>
     ptr_Ignored tr = (pin_Status i \<noteq> nxt \<and> \<not> payment_step (pin_Status i) nxt) \<and>
     ptr_Type tr = (case paymentMoves (pin_Status i) nxt of None \<Rightarrow> PaymentTransitionNone | Some typ \<Rightarrow> typ) \<and>
     ptr_CurrentStatus tr \<in> set ValidPaymentStatuses \<and>
     ptr_ExternalRefChanged tr = (refAfter i ref \<noteq> pin_ExternalRef i) \<and>
     i' = (if ptr_StateChanged tr \<or> ptr_ExternalRefChanged tr then settle i (ptr_CurrentStatus tr) (refAfter i ref) t else i)"

lemma transition_facts:
  assumes "agg_ok a i" "time_ok t" "aggTransitionProviderResult clock a res t = (Inr tr, a1)"
  defines "nxt \<equiv> NormalizePaymentStatusOrPending (ppr_Status res)"
  obtains i' where "a1 = a\<lparr>pa_intent := Some i'\<rparr>" "agg_ok a1 i'" "transitioned i nxt (ppr_ExternalRef res) t tr i'"
proof -
  from assms(1) have i: "pa_intent a = Some i" "snapshot_ok i" "aggregateID a = pin_TransactionID i" by (simp_all add: agg_ok_def)
  then have st: "pin_Status i \<in> set ValidPaymentStatuses" by (simp add: snapshot_ok_def intent_ok_fields(2))
  obtain q where q: "TransitionProviderResult clock (Some i) res t = (Inr tr, q)" and a1: "a1 = a\<lparr>pa_intent := q\<rparr>"
    using assms(3) aggTransitionResult_eq [of a i clock res t] i by (auto simp: snapshot_ok_def split: prod.splits)
  note tr = TransitionResult_explicit [OF i(2) assms(2) q]
  note rf = resolve_fields [OF st, of nxt]
  have v: "ptr_CurrentStatus tr \<in> set ValidPaymentStatuses" using tr(1) rf(3) st by (simp add: nxt_def)
  define i' where "i' = (if ptr_StateChanged tr \<or> ptr_ExternalRefChanged tr
                   then settle i (ptr_CurrentStatus tr) (refAfter i (ppr_ExternalRef res)) t else i)"
  have "snapshot_ok i'" "pin_TransactionID i' = pin_TransactionID i"
    using settle_ok [OF i(2) v refAfter_trimmed [OF i(2)] assms(2)] i(2) by (simp_all add: i'_def)
  with a1 tr(2) i(3) have "a1 = a\<lparr>pa_intent := Some i'\<rparr>" "agg_ok a1 i'" by (simp_all add: agg_ok_def i'_def)
  then show thesis by (rule that) (use tr(1) rf v in \<open>simp add: nxt_def i'_def transitioned_def\<close>)
qed

lemma transitioned_type:
  assumes "transitioned i nxt ref t tr i'"
  shows "ptr_Type tr = PaymentTransitionNone \<longleftrightarrow> \<not> payment_step (pin_Status i) nxt"
    "ptr_Type tr = PaymentTransitionSucceeded \<longleftrightarrow> payment_step (pin_Status i) nxt \<and> nxt = PaymentStatusSuccess"
    "ptr_Type tr = PaymentTransitionFailed \<longleftrightarrow> payment_step (pin_Status i) nxt \<and> nxt = PaymentStatusFailed"
    "ptr_Type tr = PaymentTransitionRefunded \<longleftrightarrow> payment_step (pin_Status i) nxt \<and> nxt = PaymentStatusRefunded"
    "ptr_Type tr = PaymentTransitionChargeback \<longleftrightarrow> payment_step (pin_Status i) nxt \<and> nxt = PaymentStatusChargeback"
  using assms paymentMoves_type [of "pin_Status i" nxt] paymentMoves_step [of "pin_Status i" nxt]
  by (auto simp: transitioned_def split: option.splits)

lemma transitioned_changed:
  assumes "transitioned i nxt ref t tr i'"
  shows "ptr_CurrentStatus tr = (if payment_step (pin_Status i) nxt then nxt else pin_Status i)"
    "ptr_CurrentStatus tr \<in> set ValidPaymentStatuses"
    "ptr_StateChanged tr = payment_step (pin_Status i) nxt"
    "ptr_Ignored tr = (pin_Status i \<noteq> nxt \<and> \<not> payment_step (pin_Status i) nxt)"
  using assms unfolding transitioned_def by blast+

lemma transitioned_settle:
  assumes "transitioned i nxt ref t tr i'" "ptr_StateChanged tr \<or> ptr_ExternalRefChanged tr"
  shows "i' = settle i (ptr_CurrentStatus tr) (refAfter i ref) t"
  using assms by (simp add: transitioned_def)

lemma records_intro:
  assumes "explains i i' d" "\<forall>e\<in>set ds. keeps i' e" "payment_step (pin_Status i) (pin_Status i') \<or> pin_Status i = pin_Status i'"
    "settlements (d # ds) = (if payment_step (pin_Status i) (pin_Status i') \<and>
         pin_Status i' \<in> {PaymentStatusSuccess, PaymentStatusFailed, PaymentStatusRefunded, PaymentStatusChargeback}
       then [pin_Status i'] else [])"
  shows "records i i' (d # ds)"
  using assms unfolding records_def by simp

text \<open>What a call that changed the aggregate did: \<open>recorded a i i' b\<close>.\<close>

definition recorded :: "PaymentIntentAggregate \<Rightarrow> PaymentIntent \<Rightarrow> PaymentIntent \<Rightarrow> PaymentIntentAggregate \<Rightarrow> bool" where
  "recorded a i i' b \<longleftrightarrow> (\<exists>ds ps t. agg_ok b i' \<and> records i i' ds \<and> time_ok t \<and>
     b = appendRows (a\<lparr>pa_intent := Some i', pa_processedEvents := pa_processedEvents a @ ps\<rparr>) t ds)"

lemma recorded_intro:
  assumes "records i i' ds" "agg_ok (a\<lparr>pa_intent := Some i'\<rparr>) i'" "time_ok t"
  shows "recorded a i i' (appendRows (a\<lparr>pa_intent := Some i', pa_processedEvents := pa_processedEvents a @ ps\<rparr>) t ds)"
  using assms unfolding recorded_def agg_ok_def by (intro exI [of _ ds] exI [of _ ps] exI [of _ t]) simp

lemma thenDo_simps [simp]: "thenDo (Inl e, a) f = (Inl e, a)" "thenDo (Inr x, a) f = f x a"
  by (simp_all add: thenDo_def)

lemma thenDo_Inr: "thenDo m f = (Inr y, b) \<longleftrightarrow> (\<exists>x a. m = (Inr x, a) \<and> f x a = (Inr y, b))"
  by (cases m; cases "fst m") auto

text \<open>An event and the checkout event after it.\<close>

lemma record_then_checkout:
  assumes "aggregateID a \<noteq> []" "pa_intent a = Some i'" "i' = settle i st (refAfter i ref) t" "snapshot_ok i" "time_ok t"
  obtains ds where "recordCheckoutSessionEvent clock (appendRows a t [d]) url emit t = (Inr (), appendRows a t (d # ds))"
    "\<forall>e\<in>set ds. keeps i' e" "settlements ds = []"
proof -
  obtain ds where "recordCheckoutSessionEvent clock (appendRows a t [d]) url emit t = (Inr (), appendRows (appendRows a t [d]) t ds)"
    "\<forall>e\<in>set ds. keeps i' e" "settlements ds = []"
    by (rule checkout_step [of "appendRows a t [d]" i st "refAfter i ref" t clock url emit]) (use assms in simp_all)
  then show thesis by (intro that [of ds]) (simp_all add: appendRows_append)
qed

text \<open>The intent after a result: \<open>intentAfter\<close>.\<close>

definition intentAfter :: "PaymentIntent \<Rightarrow> PaymentProviderResult \<Rightarrow> PaymentIntent \<Rightarrow> bool" where
  "intentAfter i res i' \<longleftrightarrow>
     (\<exists>tr t. transitioned i (NormalizePaymentStatusOrPending (ppr_Status res)) (ppr_ExternalRef res) t tr i') \<and>
     ValidateProviderResultForStatus (Some i) (NormalizePaymentStatusOrPending (ppr_Status res)) (ppr_Amount res) (ppr_Currency res) = Inr ()"

lemma transition_valid:
  assumes "agg_ok a i" "aggTransitionProviderResult clock a res t = (Inr tr, a1)"
  shows "ValidateProviderResultForStatus (Some i) (NormalizePaymentStatusOrPending (ppr_Status res)) (ppr_Amount res) (ppr_Currency res) = Inr ()"
  using assms by (auto simp: aggTransitionProviderResult_def aggValidate_eq agg_ok_def Let_def split: sum.splits)

lemma nonFinal_step:
  assumes ok: "agg_ok a i" "time_ok t" and run: "applyNonFinalOutcome clock a res url emit t = (Inr m, b)"
    and fin: "NormalizePaymentStatusOrPending (ppr_Status res) \<notin> {PaymentStatusSuccess, PaymentStatusRefunded, PaymentStatusChargeback}"
  shows "\<exists>i'. intentAfter i res i' \<and> (if pim_Persist m then recorded a i i' b else events b = events a)"
proof -
  define nxt where "nxt = NormalizePaymentStatusOrPending (ppr_Status res)"
  from run obtain tr a1 where tr: "aggTransitionProviderResult clock a res t = (Inr tr, a1)"
    by (auto simp: applyNonFinalOutcome_def thenDo_Inr)
  from ok tr obtain i' where a1: "a1 = a\<lparr>pa_intent := Some i'\<rparr>" "agg_ok a1 i'" and tf: "transitioned i nxt (ppr_ExternalRef res) t tr i'"
    unfolding nxt_def by (rule transition_facts)
  have "if pim_Persist m then recorded a i i' b else events b = events a"
  proof (cases "ptr_Ignored tr \<or> (\<not> ptr_StateChanged tr \<and> \<not> ptr_ExternalRefChanged tr)")
    case True
    with run tr a1 show ?thesis by (auto simp: applyNonFinalOutcome_def)
  next
    case False
    from ok(1) have i: "snapshot_ok i" by (simp add: agg_ok_def)
    from False have i': "i' = settle i (ptr_CurrentStatus tr) (refAfter i (ppr_ExternalRef res)) t" by (intro transitioned_settle [OF tf]) simp
    have pa: "aggregateID a1 \<noteq> []" "pa_intent a1 = Some (settle i (ptr_CurrentStatus tr) (refAfter i (ppr_ExternalRef res)) t)"
      using a1 i' agg_ok_id [OF a1(2)] by simp_all
    note v = transitioned_changed(2) [OF tf]
    obtain d where d: "recordProviderStateChanged clock a1 tr res t = (Inr (), appendRows a1 t [d])" "explains i i' d" "settlement d = []"
      using record_steps(1) [OF pa i ok(2) v refl refl, of clock] i' by auto
    obtain ds where ds: "recordCheckoutSessionEvent clock (appendRows a1 t [d]) url emit t = (Inr (), appendRows a1 t (d # ds))"
      "\<forall>e\<in>set ds. keeps i' e" "settlements ds = []"
      by (rule record_then_checkout [OF pa(1) _ i' i ok(2)]) (use pa(2) i' in auto)
    note run' = run [unfolded applyNonFinalOutcome_def tr thenDo_simps if_not_P [OF False] d(1) ds(1)]
    note tt = transitioned_type [OF tf] and tc = transitioned_changed [OF tf]
    show ?thesis
    proof (cases "ptr_Type tr = PaymentTransitionFailed")
      case True
      then have st: "ptr_CurrentStatus tr = PaymentStatusFailed" "payment_step (pin_Status i) PaymentStatusFailed"
        using tt tc by auto
      obtain d3 where d3: "recordPaymentFailed clock (appendRows a1 t (d # ds)) (currentProviderResult (appendRows a1 t (d # ds)) res) t =
          (Inr (), appendRows (appendRows a1 t (d # ds)) t [d3])" "explains i i' d3" "settlement d3 = [PaymentStatusFailed]"
        using record_steps(3) [of "appendRows a1 t (d # ds)" i "ptr_CurrentStatus tr" "ppr_ExternalRef res" t res clock] pa i ok(2) v st(1) i' by auto
      from run' d3 True have b: "b = appendRows a1 t (d # ds @ [d3])" "pim_Persist m" by (auto simp: appendRows_append)
      have "records i i' (d # ds @ [d3])"
        by (rule records_intro) (use d ds(2,3) d3 st i' in \<open>auto dest: explains_keeps\<close>)
      from recorded_intro [OF this _ ok(2), of a "[]"] a1 b show ?thesis by simp
    next
      case nf: False
      from run' nf have b: "b = appendRows a1 t (d # ds)" "pim_Persist m" by auto
      have "nxt \<notin> {PaymentStatusSuccess, PaymentStatusRefunded, PaymentStatusChargeback}" using fin by (simp add: nxt_def)
      then have "records i i' (d # ds)"
        using d ds(2,3) payment_step_irrefl [of "pin_Status i"] nf tt(3) tc(1) i' by (intro records_intro) auto
      from recorded_intro [OF this _ ok(2), of a "[]"] a1 b show ?thesis by simp
    qed
  qed
  moreover have "intentAfter i res i'" using tf transition_valid [OF ok(1) tr] by (auto simp: intentAfter_def nxt_def)
  ultimately show ?thesis by blast
qed


text \<open>A settling move: the processed event, the settlement event and the checkout event are recorded.\<close>

lemma settling_step:
  fixes clock url emit pe
  assumes ok: "agg_ok a i" "time_ok t" and tf: "transitioned i nxt (ppr_ExternalRef res) t tr i'" "payment_step (pin_Status i) nxt"
    and nxt: "nxt \<in> {PaymentStatusSuccess, PaymentStatusRefunded, PaymentStatusChargeback}"
    and a1: "a1 = a\<lparr>pa_intent := Some i'\<rparr>" "agg_ok a1 i'"
  defines "a2 \<equiv> recordProcessedEvent a1 pe"
  obtains d ds where "recorded a i i' (appendRows a2 t (d # ds))"
    "recordCheckoutSessionEvent clock (appendRows a2 t [d]) url emit t = (Inr (), appendRows a2 t (d # ds))"
    "nxt = PaymentStatusSuccess \<longrightarrow> recordPaymentSucceeded clock a2 (currentProviderResult a2 res) t = (Inr (), appendRows a2 t [d])"
    "nxt = PaymentStatusRefunded \<longrightarrow> recordPaymentRefunded clock a2 (currentProviderResult a2 res) t = (Inr (), appendRows a2 t [d])"
    "nxt = PaymentStatusChargeback \<longrightarrow> recordPaymentChargeback clock a2 (currentProviderResult a2 res) t = (Inr (), appendRows a2 t [d])"
proof -
  from ok(1) have i: "snapshot_ok i" by (simp add: agg_ok_def)
  from tf have cur: "ptr_CurrentStatus tr = nxt" "nxt \<in> set ValidPaymentStatuses" "ptr_StateChanged tr"
    using transitioned_changed [OF tf(1)] by simp_all
  then have i': "i' = settle i nxt (refAfter i (ppr_ExternalRef res)) t" using transitioned_settle [OF tf(1)] by simp
  have pa: "aggregateID a2 \<noteq> []" "pa_intent a2 = Some (settle i nxt (refAfter i (ppr_ExternalRef res)) t)"
    using a1 i' agg_ok_id [OF a1(2)] by (simp_all add: a2_def recordProcessedEvent_def)
  note rs = record_steps(2,4,5) [OF pa i ok(2) cur(2) refl, of clock, folded i']
  consider (s) "nxt = PaymentStatusSuccess" | (r) "nxt = PaymentStatusRefunded" | (c) "nxt = PaymentStatusChargeback" using nxt by blast
  then have "\<exists>d. explains i i' d \<and> settlement d = [nxt] \<and>
    (nxt = PaymentStatusSuccess \<longrightarrow> recordPaymentSucceeded clock a2 (currentProviderResult a2 res) t = (Inr (), appendRows a2 t [d])) \<and>
    (nxt = PaymentStatusRefunded \<longrightarrow> recordPaymentRefunded clock a2 (currentProviderResult a2 res) t = (Inr (), appendRows a2 t [d])) \<and>
    (nxt = PaymentStatusChargeback \<longrightarrow> recordPaymentChargeback clock a2 (currentProviderResult a2 res) t = (Inr (), appendRows a2 t [d]))"
  proof cases
    case s
    from rs(1) [OF s] obtain d where "explains i i' d \<and> settlement d = [nxt] \<and>
      recordPaymentSucceeded clock a2 (currentProviderResult a2 res) t = (Inr (), appendRows a2 t [d])" by blast
    then show ?thesis by (intro exI [of _ d]) (simp add: s)
  next
    case r
    from rs(2) [OF r] obtain d where "explains i i' d \<and> settlement d = [nxt] \<and>
      recordPaymentRefunded clock a2 (currentProviderResult a2 res) t = (Inr (), appendRows a2 t [d])" by blast
    then show ?thesis by (intro exI [of _ d]) (simp add: r)
  next
    case c
    from rs(3) [OF c] obtain d where "explains i i' d \<and> settlement d = [nxt] \<and>
      recordPaymentChargeback clock a2 (currentProviderResult a2 res) t = (Inr (), appendRows a2 t [d])" by blast
    then show ?thesis by (intro exI [of _ d]) (simp add: c)
  qed
  then obtain d where d: "explains i i' d" "settlement d = [nxt]"
    "nxt = PaymentStatusSuccess \<longrightarrow> recordPaymentSucceeded clock a2 (currentProviderResult a2 res) t = (Inr (), appendRows a2 t [d])"
    "nxt = PaymentStatusRefunded \<longrightarrow> recordPaymentRefunded clock a2 (currentProviderResult a2 res) t = (Inr (), appendRows a2 t [d])"
    "nxt = PaymentStatusChargeback \<longrightarrow> recordPaymentChargeback clock a2 (currentProviderResult a2 res) t = (Inr (), appendRows a2 t [d])"
    by blast
  obtain ds where ds: "recordCheckoutSessionEvent clock (appendRows a2 t [d]) url emit t = (Inr (), appendRows a2 t (d # ds))"
    "\<forall>e\<in>set ds. keeps i' e" "settlements ds = []"
    by (rule record_then_checkout [OF pa(1) _ i' i ok(2)]) (use pa(2) i' in auto)
  have "records i i' (d # ds)"
    by (rule records_intro) (use d ds tf(2) nxt i' in auto)
  from recorded_intro [OF this a1(2) [unfolded a1(1)] ok(2), of "[pe]"]
  have "recorded a i i' (appendRows a2 t (d # ds))" by (simp add: a2_def recordProcessedEvent_def a1(1))
  from that [OF this ds(1) d(3-5)] show thesis .
qed

lemma successful_step:
  assumes ok: "agg_ok a i" "time_ok t" and run: "applySuccessfulOutcome clock a res url emit t = (Inr m, b)"
    and fin: "NormalizePaymentStatusOrPending (ppr_Status res) = PaymentStatusSuccess"
  shows "\<exists>i'. intentAfter i res i' \<and> (if pim_Persist m then recorded a i i' b else events b = events a)"
proof -
  from run obtain tr a1 where tr: "aggTransitionProviderResult clock a res t = (Inr tr, a1)"
    by (auto simp: applySuccessfulOutcome_def thenDo_Inr)
  from ok tr obtain i' where a1: "a1 = a\<lparr>pa_intent := Some i'\<rparr>" "agg_ok a1 i'"
    and tf: "transitioned i PaymentStatusSuccess (ppr_ExternalRef res) t tr i'"
    unfolding fin [symmetric] by (rule transition_facts)
  note tt = transitioned_type [OF tf] and tc = transitioned_changed [OF tf]
  have "if pim_Persist m then recorded a i i' b else events b = events a"
  proof (cases "payment_step (pin_Status i) PaymentStatusSuccess")
    case step: True
    with tt tc have ty: "ptr_Type tr = PaymentTransitionSucceeded" "\<not> ptr_Ignored tr" by simp_all
    with run tr obtain pe where pe: "newProcessedTransitionEvent clock a1 EventPaymentSucceeded t = Inr pe"
      by (auto simp: applySuccessfulOutcome_def split: sum.splits)
    obtain d ds where d: "recorded a i i' (appendRows (recordProcessedEvent a1 pe) t (d # ds))"
      "recordCheckoutSessionEvent clock (appendRows (recordProcessedEvent a1 pe) t [d]) url emit t =
         (Inr (), appendRows (recordProcessedEvent a1 pe) t (d # ds))"
      "recordPaymentSucceeded clock (recordProcessedEvent a1 pe) (currentProviderResult (recordProcessedEvent a1 pe) res) t =
         (Inr (), appendRows (recordProcessedEvent a1 pe) t [d])"
      by (rule settling_step [OF ok tf step _ a1, of pe clock url emit]) auto
    with run tr ty pe show ?thesis by (auto simp: applySuccessfulOutcome_def)
  next
    case nostep: False
    show ?thesis
    proof (cases "ptr_ExternalRefChanged tr")
      case False
      with nostep run tr tt a1 show ?thesis by (auto simp: applySuccessfulOutcome_def)
    next
      case True
      from ok(1) have i: "snapshot_ok i" by (simp add: agg_ok_def)
      from True have i': "i' = settle i (ptr_CurrentStatus tr) (refAfter i (ppr_ExternalRef res)) t" by (intro transitioned_settle [OF tf]) simp
      have pa: "aggregateID a1 \<noteq> []" "pa_intent a1 = Some (settle i (ptr_CurrentStatus tr) (refAfter i (ppr_ExternalRef res)) t)"
        using a1 i' agg_ok_id [OF a1(2)] by simp_all
      obtain d where d: "recordProviderStateChanged clock a1 tr res t = (Inr (), appendRows a1 t [d])" "explains i i' d" "settlement d = []"
        using record_steps(1) [OF pa i ok(2) tc(2) refl refl, of clock] i' by auto
      obtain ds where ds: "recordCheckoutSessionEvent clock (appendRows a1 t [d]) url emit t = (Inr (), appendRows a1 t (d # ds))"
        "\<forall>e\<in>set ds. keeps i' e" "settlements ds = []"
        by (rule record_then_checkout [OF pa(1) _ i' i ok(2)]) (use pa(2) i' in auto)
      from run tr d(1) ds(1) nostep tt True have b: "b = appendRows a1 t (d # ds)" "pim_Persist m"
        by (auto simp: applySuccessfulOutcome_def)
      have "records i i' (d # ds)"
        by (rule records_intro) (use d ds(2,3) tc nostep i' payment_step_irrefl [of "pin_Status i"] in auto)
      from recorded_intro [OF this _ ok(2), of a "[]"] a1 b show ?thesis by simp
    qed
  qed
  moreover have "intentAfter i res i'" using tf transition_valid [OF ok(1) tr] by (auto simp: intentAfter_def fin)
  ultimately show ?thesis by blast
qed

lemma reversed_step:
  assumes ok: "agg_ok a i" "time_ok t" and run: "applyReversedOutcome clock a res url emit t = (Inr m, b)"
    and fin: "NormalizePaymentStatusOrPending (ppr_Status res) \<in> {PaymentStatusRefunded, PaymentStatusChargeback}"
  shows "\<exists>i'. intentAfter i res i' \<and> (if pim_Persist m then recorded a i i' b else events b = events a)"
proof -
  define nxt where "nxt = NormalizePaymentStatusOrPending (ppr_Status res)"
  from run obtain tr a1 where tr: "aggTransitionProviderResult clock a res t = (Inr tr, a1)"
    by (auto simp: applyReversedOutcome_def thenDo_Inr)
  from ok tr obtain i' where a1: "a1 = a\<lparr>pa_intent := Some i'\<rparr>" "agg_ok a1 i'"
    and tf: "transitioned i nxt (ppr_ExternalRef res) t tr i'"
    unfolding nxt_def by (rule transition_facts)
  note tt = transitioned_type [OF tf] and tc = transitioned_changed [OF tf]
  have "if pim_Persist m then recorded a i i' b else events b = events a"
  proof (cases "payment_step (pin_Status i) nxt")
    case False
    with tt(1) run tr a1 show ?thesis by (auto simp: applyReversedOutcome_def)
  next
    case step: True
    define name where "name = (if nxt = PaymentStatusRefunded then EventPaymentRefunded else EventPaymentChargeback)"
    have ty: "\<not> ptr_Ignored tr" "ptr_Type tr = (if nxt = PaymentStatusRefunded then PaymentTransitionRefunded else PaymentTransitionChargeback)"
      using tt tc step fin by (auto simp: nxt_def)
    with run tr obtain pe where pe: "newProcessedTransitionEvent clock a1 name t = Inr pe"
      by (auto simp: applyReversedOutcome_def name_def split: sum.splits if_splits)
    obtain d ds where d: "recorded a i i' (appendRows (recordProcessedEvent a1 pe) t (d # ds))"
      "recordCheckoutSessionEvent clock (appendRows (recordProcessedEvent a1 pe) t [d]) url emit t =
         (Inr (), appendRows (recordProcessedEvent a1 pe) t (d # ds))"
      "nxt = PaymentStatusRefunded \<longrightarrow> recordPaymentRefunded clock (recordProcessedEvent a1 pe) (currentProviderResult (recordProcessedEvent a1 pe) res) t =
         (Inr (), appendRows (recordProcessedEvent a1 pe) t [d])"
      "nxt = PaymentStatusChargeback \<longrightarrow> recordPaymentChargeback clock (recordProcessedEvent a1 pe) (currentProviderResult (recordProcessedEvent a1 pe) res) t =
         (Inr (), appendRows (recordProcessedEvent a1 pe) t [d])"
      by (rule settling_step [OF ok tf step _ a1, of pe clock url emit]) (use fin in \<open>auto simp: nxt_def\<close>)
    show ?thesis
    proof (cases "nxt = PaymentStatusRefunded")
      case True
      with run tr ty pe d show ?thesis by (auto simp: applyReversedOutcome_def name_def)
    next
      case False
      then have "nxt = PaymentStatusChargeback" using fin by (auto simp: nxt_def)
      with False run tr ty pe d show ?thesis by (auto simp: applyReversedOutcome_def name_def)
    qed
  qed
  moreover have "intentAfter i res i'" using tf transition_valid [OF ok(1) tr] by (auto simp: intentAfter_def nxt_def)
  ultimately show ?thesis by blast
qed


lemma outcome_step:
  assumes "agg_ok a i" "ApplyProviderOutcome clock a res url emit t0 = (Inr m, b)"
  shows "\<exists>i'. intentAfter i res i' \<and> (if pim_Persist m then recorded a i i' b else events b = events a)"
proof -
  let ?st = "NormalizePaymentStatus (ppr_Status res)"
  from assms obtain t where t: "time_ok t" and run: "(if ?st = PaymentStatusSuccess then applySuccessfulOutcome clock a res url emit t
      else if ?st = PaymentStatusRefunded \<or> ?st = PaymentStatusChargeback then applyReversedOutcome clock a res url emit t
      else applyNonFinalOutcome clock a res url emit t) = (Inr m, b)"
    by (auto simp: ApplyProviderOutcome_def agg_ok_def occurredAt_ok Let_def intro: time_ok_UTC split: sum.splits if_splits)
  consider (s) "?st = PaymentStatusSuccess" | (r) "?st \<noteq> PaymentStatusSuccess" "?st = PaymentStatusRefunded \<or> ?st = PaymentStatusChargeback"
    | (n) "?st \<noteq> PaymentStatusSuccess" "\<not> (?st = PaymentStatusRefunded \<or> ?st = PaymentStatusChargeback)" by blast
  then show ?thesis
  proof cases
    case s
    show ?thesis by (rule successful_step [OF assms(1) t]) (use s run in \<open>auto simp: NormalizePaymentStatusOrPending_def\<close>)
  next
    case r
    show ?thesis by (rule reversed_step [OF assms(1) t]) (use r run in \<open>auto simp: NormalizePaymentStatusOrPending_def\<close>)
  next
    case n
    show ?thesis by (rule nonFinal_step [OF assms(1) t]) (use n run in \<open>auto simp: NormalizePaymentStatusOrPending_def\<close>)
  qed
qed

lemma createFailed_step:
  assumes "agg_ok a i" "aggMarkCreateFailed clock a t0 = (Inr m, b)"
  shows "\<exists>i'. if pim_Persist m then recorded a i i' b else events b = events a"
proof -
  define res where "res = \<lparr>ppr_TransactionID = [], ppr_EventID = [], ppr_EventType = [], ppr_Status = PaymentStatusFailed,
    ppr_Amount = 0, ppr_Currency = [], ppr_ExternalRef = []\<rparr>"
  from assms have i: "pa_intent a = Some i" "snapshot_ok i" by (simp_all add: agg_ok_def)
  have nxt: "NormalizePaymentStatusOrPending PaymentStatusFailed = PaymentStatusFailed"
    by (rule NormalizePaymentStatusOrPending_valid) (simp add: ValidPaymentStatuses_def)
  obtain t where t: "time_ok t" "normalizePaymentIntentOccurredAt t0 = Inr t"
    using assms(2) i(1) by (auto simp: aggMarkCreateFailed_def occurredAt_ok intro: time_ok_UTC split: sum.splits)
  have eq: "aggTransitionProviderState clock a [] PaymentStatusFailed t = aggTransitionProviderResult clock a res t"
    using i nxt by (cases a) (simp add: aggTransitionProviderResult_def aggValidateProviderResultForStatus_def res_def Let_def)
  from assms(2) i(1) t obtain tr a1 where tr: "aggTransitionProviderResult clock a res t = (Inr tr, a1)"
    by (auto simp: aggMarkCreateFailed_def thenDo_Inr eq)
  from assms(1) t(1) tr obtain i' where a1: "a1 = a\<lparr>pa_intent := Some i'\<rparr>" "agg_ok a1 i'"
    and tf: "transitioned i PaymentStatusFailed [] t tr i'"
    by (rule transition_facts) (simp add: res_def nxt)
  note tt = transitioned_type [OF tf] and tc = transitioned_changed [OF tf]
  have "if pim_Persist m then recorded a i i' b else events b = events a"
  proof (cases "payment_step (pin_Status i) PaymentStatusFailed")
    case False
    with assms(2) i(1) t tr tc a1 show ?thesis by (auto simp: aggMarkCreateFailed_def eq)
  next
    case True
    with tc transitioned_settle [OF tf] have i': "i' = settle i PaymentStatusFailed (refAfter i []) t" by simp
    have pa: "aggregateID a1 \<noteq> []" "pa_intent a1 = Some (settle i PaymentStatusFailed (refAfter i []) t)"
      using a1 i' agg_ok_id [OF a1(2)] by simp_all
    obtain d where d: "recordPaymentFailed clock a1 (currentProviderResult a1 res) t = (Inr (), appendRows a1 t [d])" "explains i i' d"
      "settlement d = [PaymentStatusFailed]"
      using record_steps(3) [OF pa i(2) t(1), of res clock] i' by (auto simp: res_def ValidPaymentStatuses_def)
    have b: "b = appendRows a1 t [d]" "pim_Persist m"
      using assms(2) i(1) t(2) tr tc True d(1) a1 i' by (auto simp: aggMarkCreateFailed_def eq withIntent_def res_def)
    have "records i i' [d]" by (rule records_intro) (use d True i' in auto)
    from recorded_intro [OF this _ t(1), of a "[]"] a1 b show ?thesis by simp
  qed
  then show ?thesis by blast
qed

section \<open>Histories\<close>

text \<open>
  \<open>pay_log a es\<close>: the aggregate \<open>a\<close> was created and then changed by calls that the services persist, with
  \<open>es\<close> all the events recorded since its creation. Between two calls it may be saved and restored
  from its stored snapshot.
\<close>

inductive pay_log :: "PaymentIntentAggregate \<Rightarrow> PaymentEvent Event list \<Rightarrow> bool" where
  new_topup: "NewProviderTopUpAggregate clock txid prov amt fee cur acc meta now = Inr a \<Longrightarrow> pay_log a (events a)"
| new_withdrawal: "NewProviderWithdrawalAggregate clock txid prov amt fee cur dest acc meta now = Inr a \<Longrightarrow> pay_log a (events a)"
| outcome: "pay_log a es \<Longrightarrow> ApplyProviderOutcome clock a res url emit t = (Inr m, b) \<Longrightarrow> pim_Persist m \<Longrightarrow>
    pay_log b (es @ drop (length (events a)) (events b))"
| create_failure: "pay_log a es \<Longrightarrow> aggMarkCreateFailed clock a t = (Inr m, b) \<Longrightarrow> pim_Persist m \<Longrightarrow>
    pay_log b (es @ drop (length (events a)) (events b))"
| saved_and_restored: "pay_log a es \<Longrightarrow>
    RestorePaymentIntentAggregateWithVersion clock (Snapshot (aggMarkPersisted a)) (version (aggMarkPersisted a)) = Inr b \<Longrightarrow> pay_log b es"

text \<open>The settlements a payment with a given status has had.\<close>

definition settledBy :: "string \<Rightarrow> string list" where
  "settledBy st =
     (if st = PaymentStatusSuccess then [PaymentStatusSuccess]
      else if st = PaymentStatusFailed then [PaymentStatusFailed]
      else if st = PaymentStatusRefunded then [PaymentStatusSuccess, PaymentStatusRefunded]
      else if st = PaymentStatusChargeback then [PaymentStatusSuccess, PaymentStatusChargeback]
      else [])"

lemma settledBy_step: "payment_step s s' \<Longrightarrow> settledBy s' = settledBy s @
    (if s' \<in> {PaymentStatusSuccess, PaymentStatusFailed, PaymentStatusRefunded, PaymentStatusChargeback} then [s'] else [])"
  by (induction rule: payment_step.induct) (simp_all add: settledBy_def)

text \<open>The events of a creation.\<close>

definition opened :: "PaymentIntent \<Rightarrow> PaymentEvent list \<Rightarrow> bool" where
  "opened i os \<longleftrightarrow>
     (if pin_Workflow i = PaymentWorkflowWithdrawal then \<exists>c r. os = [PaymentCreated c, PaymentWithdrawalRequested r] \<and>
        (pw_ClearingAccountKey r, pw_DebitAccountID r, pw_Currency r, pw_Amount r, pw_FeeAmount r) =
        (pin_ClearingAccountKey i, pin_DebitAccountID i, pin_Currency i, pin_Amount i, pin_FeeAmount i)
      else \<exists>c. os = [PaymentCreated c])"

lemma opened_new:
  "pin_Workflow i \<noteq> PaymentWorkflowWithdrawal \<Longrightarrow> \<exists>os ds. [PaymentCreated c] = os @ ds \<and> opened i os \<and> (\<forall>d\<in>set ds. billed i d)"
  "pin_Workflow i = PaymentWorkflowWithdrawal \<Longrightarrow> (pw_ClearingAccountKey r, pw_DebitAccountID r, pw_Currency r, pw_Amount r, pw_FeeAmount r) =
      (pin_ClearingAccountKey i, pin_DebitAccountID i, pin_Currency i, pin_Amount i, pin_FeeAmount i) \<Longrightarrow>
    \<exists>os ds. [PaymentCreated c, PaymentWithdrawalRequested r] = os @ ds \<and> opened i os \<and> (\<forall>d\<in>set ds. billed i d)"
  by (rule exI [of _ "[PaymentCreated c]"], simp add: opened_def)
    (rule exI [of _ "[PaymentCreated c, PaymentWithdrawalRequested r]"], simp add: opened_def)

lemma opened_terms: "terms i = terms j \<Longrightarrow> opened i os = opened j os"
  by (simp add: opened_def terms_def)

definition log_ok :: "PaymentIntentAggregate \<Rightarrow> PaymentEvent Event list \<Rightarrow> bool" where
  "log_ok a es \<longleftrightarrow> (\<exists>i. agg_ok a i \<and> (\<forall>clock. foldl (applyPaymentEvent clock) None (map ev_EventData es) = Some i) \<and>
     settlements (map ev_EventData es) = settledBy (pin_Status i) \<and>
     (\<exists>os ds. map ev_EventData es = os @ ds \<and> opened i os \<and> (\<forall>d\<in>set ds. billed i d)) \<and>
     map ev_Version es = map (\<lambda>k. 1 + int k) [0..<length es] \<and> Version a = int (length es))"

text \<open>The first event of a payment.\<close>

definition createdPayload :: "PaymentIntent \<Rightarrow> (string \<rightharpoonup> string) \<Rightarrow> gotime \<Rightarrow> PaymentCreatedEvent" where
  "createdPayload i meta t = \<lparr>pc_Workflow = pin_Workflow i, pc_PaymentID = pin_TransactionID i, pc_TransactionID = pin_TransactionID i,
      pc_Provider = pin_Provider i, pc_ClearingAccountKey = pin_ClearingAccountKey i, pc_DebitAccountID = pin_DebitAccountID i,
      pc_Amount = pin_Amount i, pc_FeeAmount = pin_FeeAmount i, pc_ProviderAmount = pin_ProviderAmount i,
      pc_Currency = pin_Currency i, pc_CreditAccountID = pin_CreditAccountID i, pc_Status = pin_Status i,
      pc_Metadata = meta, pc_CreatedAt = t\<rparr>"

lemma created_intent_ok:
  assumes "newPaymentIntent clock w txid prov amt fee pamt cur key dest deb cred now = Inr i" "time_ok now"
  shows "snapshot_ok i" "pin_CreatedAt i = now" "pin_UpdatedAt i = now" "pin_ExternalRef i = [] \<and> pin_DestinationAccountID i = TrimSpace dest"
    "pin_Status i = PaymentStatusCreating" "pin_Workflow i = NormalizePaymentWorkflow w"
proof -
  from newPaymentIntent_ok [OF assms(1)] show "pin_Status i = PaymentStatusCreating" by simp
  show "pin_Workflow i = NormalizePaymentWorkflow w" using assms(1) by (auto simp: newPaymentIntent_def Let_def split: if_split_asm)
  show c: "pin_CreatedAt i = now" "pin_UpdatedAt i = now" "pin_ExternalRef i = [] \<and> pin_DestinationAccountID i = TrimSpace dest"
    using assms by (auto simp: newPaymentIntent_def Let_def split: if_split_asm)
  show "snapshot_ok i" using newPaymentIntent_ok [OF assms(1)] c assms(2) by (simp add: snapshot_ok_def)
qed

lemma created_applied:
  assumes "snapshot_ok i" "pin_CreatedAt i = t" "pin_UpdatedAt i = t"
  shows "applyPaymentEvent c (Some i) (PaymentCreated (createdPayload i meta t)) = Some i"
    "pin_ExternalRef i = [] \<Longrightarrow> applyPaymentEvent c None (PaymentCreated (createdPayload i meta t)) = Some (i\<lparr>pin_DestinationAccountID := []\<rparr>)"
proof -
  from assms(1) have ok: "intent_ok i" "time_ok t" using assms(2) by (simp_all add: snapshot_ok_def)
  then have e: "NormalizePaymentStatusOrPending (pin_Status i) = pin_Status i" "pin_TransactionID i \<noteq> []"
    using intent_ok_fields [OF ok(1)] by (simp_all add: intent_ok_def)
  note n = intent_ok_normal [OF ok(1)] intent_ok_fields(4) [OF ok(1)] e time_ok_normalized [OF ok(2), of c]
  show "applyPaymentEvent c (Some i) (PaymentCreated (createdPayload i meta t)) = Some i"
    using assms(2,3) by (simp add: applyPaymentEvent_def applyPaymentCreated_def createdPayload_def Let_def n)
  show "applyPaymentEvent c None (PaymentCreated (createdPayload i meta t)) = Some (i\<lparr>pin_DestinationAccountID := []\<rparr>)" if "pin_ExternalRef i = []"
    using assms(2,3) that by (simp add: applyPaymentEvent_def applyPaymentCreated_def createdPayload_def emptyPaymentIntent_def Let_def n)
qed

lemma keeps_fold: "\<forall>d\<in>set ds. keeps i d \<Longrightarrow> foldl (applyPaymentEvent clock) (Some i) ds = Some i"
  by (induction ds) (simp_all add: keeps_def)

lemma records_fold: "records i i' ds \<Longrightarrow> foldl (applyPaymentEvent clock) (Some i) ds = Some i'"
  by (cases ds) (auto simp: records_def explains_def keeps_fold)

lemma records_settled: "records i i' ds \<Longrightarrow> settledBy (pin_Status i') = settledBy (pin_Status i) @ settlements ds"
  using settledBy_step [of "pin_Status i" "pin_Status i'"] payment_step_irrefl by (auto simp: records_def)

lemma records_terms: "records i i' ds \<Longrightarrow> terms i' = terms i \<and> (\<forall>d\<in>set ds. billed i' d)"
  by (cases ds) (auto simp: records_def explains_def keeps_def billed_terms [of i' i])

lemma recorded_log_ok:
  assumes "log_ok a es" "agg_ok a i \<Longrightarrow> recorded a i i' b" "pa_intent a = Some i"
  shows "log_ok b (es @ drop (length (events a)) (events b))"
proof -
  from assms(1,3) have a: "agg_ok a i" "\<forall>clock. foldl (applyPaymentEvent clock) None (map ev_EventData es) = Some i"
    "settlements (map ev_EventData es) = settledBy (pin_Status i)"
    "map ev_Version es = map (\<lambda>k. 1 + int k) [0..<length es]" "Version a = int (length es)"
    and "\<exists>os ds. map ev_EventData es = os @ ds \<and> opened i os \<and> (\<forall>d\<in>set ds. billed i d)"
    by (auto simp: log_ok_def agg_ok_def)
  then obtain os ds0 where os: "map ev_EventData es = os @ ds0" "opened i os" "\<forall>d\<in>set ds0. billed i d" by blast
  from assms(2) [OF a(1)] obtain ds ps t where b: "agg_ok b i'" "records i i' ds"
    "b = appendRows (a\<lparr>pa_intent := Some i', pa_processedEvents := pa_processedEvents a @ ps\<rparr>) t ds"
    unfolding recorded_def by blast
  let ?a = "a\<lparr>pa_intent := Some i', pa_processedEvents := pa_processedEvents a @ ps\<rparr>"
  have va: "Version ?a = Version a" by (simp add: Version_def)
  have new: "drop (length (events a)) (events b) = payRows ?a (Version a + 1) t ds" by (simp add: b(3) va)
  have "Version b = Version a + int (length ds)" using appendRows_Version [of ?a t ds] va b(3) by simp
  moreover have "map ev_Version (payRows ?a (Version a + 1) t ds) = map (\<lambda>k. 1 + int k) [length es..<length es + length ds]"
    by (rule nth_equalityI) (simp_all add: payRows_versions a(5))
  ultimately have v: "Version b = int (length (es @ payRows ?a (Version a + 1) t ds))"
    "map ev_Version (es @ payRows ?a (Version a + 1) t ds) = map (\<lambda>k. 1 + int k) [0..<length (es @ payRows ?a (Version a + 1) t ds)]"
    using a(4,5) upt_add_eq_append [of 0 "length es" "length ds"] by simp_all
  have f: "foldl (applyPaymentEvent clock) None (map ev_EventData (es @ payRows ?a (Version a + 1) t ds)) = Some i'" for clock
    using a(2) records_fold [OF b(2), of clock] by simp
  have "settlements (map ev_EventData (es @ payRows ?a (Version a + 1) t ds)) = settledBy (pin_Status i')"
    using a(3) records_settled [OF b(2)] by simp
  moreover have "map ev_EventData (es @ payRows ?a (Version a + 1) t ds) = os @ (ds0 @ ds)" "opened i' os" "\<forall>d\<in>set (ds0 @ ds). billed i' d"
    using os records_terms [OF b(2)] billed_terms [of i' i] opened_terms [of i' i] by auto
  ultimately show ?thesis using b(1) f v unfolding log_ok_def new by blast
qed

lemma result_aggregate:
  "(case m of (Inl e, _) \<Rightarrow> Inl e | (Inr (u :: unit), x) \<Rightarrow> f x) = Inr a \<longleftrightarrow> (\<exists>x. m = (Inr (), x) \<and> f x = Inr a)"
  by (cases m; cases "fst m") auto

lemma newAggregate_eq:
  assumes "snapshot_ok i" "newPaymentIntentAggregate i = Inr agg"
  shows "agg = emptyPaymentAggregate\<lparr>aggregateType := AggregateTypePaymentIntent, aggregateID := pin_TransactionID i, pa_intent := Some i\<rparr>"
  using assms by (simp add: newPaymentIntentAggregate_def InitAggregate_def SetID_Inr SetAggregateType_def AggregateTypePaymentIntent_def
      emptyPaymentAggregate_def snapshot_ok_def intent_ok_fields(4))

lemma created_row:
  assumes "snapshot_ok i" "pin_CreatedAt i = t" "pin_UpdatedAt i = t" "newPaymentIntentAggregate i = Inr agg"
    "recordPaymentCreated clock agg meta t = (Inr (), a)"
  shows "a = appendRows agg t [PaymentCreated (createdPayload i meta t)]"
  using assms(5) newAggregate_eq [OF assms(1,4)] created_applied(1) [OF assms(1-3)] assms(1)
  by (simp add: recordPaymentCreated_def withIntent_def applyChangeAt_fixed snapshot_ok_def intent_ok_def
      emptyPaymentAggregate_def flip: createdPayload_def)

lemma workflow_names: "NormalizePaymentWorkflow PaymentWorkflowTopUp = PaymentWorkflowTopUp"
  "NormalizePaymentWorkflow PaymentWorkflowWithdrawal = PaymentWorkflowWithdrawal" "PaymentWorkflowTopUp \<noteq> PaymentWorkflowWithdrawal"
  by code_simp+

lemma topup_log_ok:
  assumes "NewProviderTopUpAggregate clock txid prov amt fee cur acc meta now0 = Inr a"
  shows "log_ok a (events a)"
proof -
  from assms obtain now i agg where now: "time_ok now" and i: "NewProviderTopUpIntent clock txid prov amt fee cur acc now = Inr i"
    and agg: "newPaymentIntentAggregate i = Inr agg" and a: "recordPaymentCreated clock agg meta now = (Inr (), a)"
    by (auto simp: NewProviderTopUpAggregate_def occurredAt_ok result_aggregate intro: time_ok_UTC)
  note ok = created_intent_ok [OF i [unfolded NewProviderTopUpIntent_def] now]
  note agg' = newAggregate_eq [OF ok(1) agg]
  have "applyPaymentEvent c None (PaymentCreated (createdPayload i meta now)) = Some i" for c
    using created_applied(2) [OF ok(1-3)] ok(4) by simp
  moreover have "pin_Workflow i \<noteq> PaymentWorkflowWithdrawal" using ok(6) workflow_names by simp
  ultimately show ?thesis using ok agg' created_row [OF ok(1-3) agg a]
    by (simp add: log_ok_def agg_ok_def emptyPaymentAggregate_def settlement_def settledBy_def appendRows_Version opened_new(1)) (simp add: Version_def)
qed

definition requestedPayload :: "PaymentIntent \<Rightarrow> gotime \<Rightarrow> PaymentWithdrawalRequestedEvent" where
  "requestedPayload i t = \<lparr>pw_PaymentID = pin_TransactionID i, pw_TransactionID = pin_TransactionID i, pw_Provider = pin_Provider i,
      pw_ClearingAccountKey = pin_ClearingAccountKey i, pw_DebitAccountID = pin_DebitAccountID i,
      pw_DestinationAccountID = pin_DestinationAccountID i, pw_Amount = pin_Amount i, pw_FeeAmount = pin_FeeAmount i,
      pw_ProviderAmount = pin_ProviderAmount i, pw_Currency = pin_Currency i, pw_Status = pin_Status i, pw_RequestedAt = t\<rparr>"

lemma requested_applied:
  assumes "snapshot_ok i" "pin_UpdatedAt i = t" "j = i \<or> j = i\<lparr>pin_DestinationAccountID := []\<rparr>"
  shows "applyPaymentEvent c (Some j) (PaymentWithdrawalRequested (requestedPayload i t)) = Some i"
proof -
  from assms(1,2) have ok: "intent_ok i" "time_ok t" by (auto simp: snapshot_ok_def)
  from assms(2,3) show ?thesis
    by (auto simp: applyPaymentEvent_def applyWithdrawalRequested_def requestedPayload_def ok(2) intent_ok_normal(5,7) [OF ok(1)])
qed

lemma withdrawal_log_ok:
  assumes "NewProviderWithdrawalAggregate clock txid prov amt fee cur dest acc meta now0 = Inr a"
  shows "log_ok a (events a)"
proof -
  from assms obtain now i agg a1 where now: "time_ok now" and i: "NewProviderWithdrawalIntent clock txid prov amt fee cur dest acc now = Inr i"
    and agg: "newPaymentIntentAggregate i = Inr agg" and a1: "recordPaymentCreated clock agg meta now = (Inr (), a1)"
    and a: "recordWithdrawalRequested clock a1 now = (Inr (), a)"
    by (auto simp: NewProviderWithdrawalAggregate_def occurredAt_ok result_aggregate) (blast intro: time_ok_UTC)
  note ok = created_intent_ok [OF i [unfolded NewProviderWithdrawalIntent_def] now]
  note agg' = newAggregate_eq [OF ok(1) agg]
  let ?c = "PaymentCreated (createdPayload i meta now)" and ?r = "PaymentWithdrawalRequested (requestedPayload i now)"
  have ap: "applyPaymentEvent c None ?c = Some (i\<lparr>pin_DestinationAccountID := []\<rparr>)"
    "applyPaymentEvent c (Some (i\<lparr>pin_DestinationAccountID := []\<rparr>)) ?r = Some i" "applyPaymentEvent c (Some i) ?r = Some i" for c
    using created_applied(2) [OF ok(1-3)] requested_applied [OF ok(1,3)] ok(4) by auto
  note a1' = created_row [OF ok(1-3) agg a1]
  have "a = appendRows a1 now [?r]"
    using a a1' agg' ap(3) ok(1)
    by (simp add: recordWithdrawalRequested_def withIntent_def applyChangeAt_fixed snapshot_ok_def intent_ok_def
        flip: requestedPayload_def)
  then have "a = appendRows agg now [?c, ?r]" by (simp add: a1' appendRows_append)
  moreover have "pin_Workflow i = PaymentWorkflowWithdrawal" using ok(6) workflow_names by simp
  ultimately show ?thesis using ok ap agg' opened_new(2) [of i "requestedPayload i now"]
    by (simp add: log_ok_def agg_ok_def emptyPaymentAggregate_def settlement_def settledBy_def appendRows_Version) (simp add: Version_def requestedPayload_def)
qed

lemma pay_log_ok: "pay_log a es \<Longrightarrow> log_ok a es"
proof (induction rule: pay_log.induct)
  case (new_topup clock txid prov amt fee cur acc meta now a)
  then show ?case by (rule topup_log_ok)
next
  case (new_withdrawal clock txid prov amt fee cur dest acc meta now a)
  then show ?case by (rule withdrawal_log_ok)
next
  case (outcome a es clock res url emit t m b)
  then obtain i where i: "agg_ok a i" by (auto simp: log_ok_def)
  from outcome_step [OF i outcome.hyps(2)] outcome.hyps(3) obtain i' where "recorded a i i' b" by auto
  with recorded_log_ok [OF outcome.IH, of i i' b] i show ?case by (simp add: agg_ok_def)
next
  case (create_failure a es clock t m b)
  then obtain i where i: "agg_ok a i" by (auto simp: log_ok_def)
  from createFailed_step [OF i create_failure.hyps(2)] create_failure.hyps(3) obtain i' where "recorded a i i' b" by auto
  with recorded_log_ok [OF create_failure.IH, of i i' b] i show ?case by (simp add: agg_ok_def)
next
  case (saved_and_restored a es clock b)
  then obtain i where i: "agg_ok a i" "Version a = int (length es)" by (auto simp: log_ok_def)
  have m: "pa_intent (aggMarkPersisted a) = Some i" "version (aggMarkPersisted a) = int (length es)"
    using i by (auto simp: aggMarkPersisted_def agg_ok_def MarkPersisted_def Version_def)
  have "b = SetInternal (SetAggregateType (emptyPaymentAggregate\<lparr>pa_intent := Some i\<rparr>) AggregateTypePaymentIntent) (pin_TransactionID i) (int (length es)) (int (length es))"
    using saved_and_restored(2) m i(1) by (simp add: RestorePaymentIntentAggregateWithVersion_def Snapshot_def Let_def agg_ok_def)
  then have b: "agg_ok b i" "Version b = int (length es)"
    using i(1) by (simp_all add: agg_ok_def SetInternal_def SetAggregateType_def emptyPaymentAggregate_def Version_def)
  from saved_and_restored(3) obtain j where j: "agg_ok a j" "\<forall>clock. foldl (applyPaymentEvent clock) None (map ev_EventData es) = Some j"
    "settlements (map ev_EventData es) = settledBy (pin_Status j)" "map ev_Version es = map (\<lambda>k. 1 + int k) [0..<length es]"
    "\<exists>os ds. map ev_EventData es = os @ ds \<and> opened j os \<and> (\<forall>d\<in>set ds. billed j d)"
    unfolding log_ok_def by blast
  from i j(1) have "j = i" by (simp add: agg_ok_def)
  with j b show ?case unfolding log_ok_def by blast
qed

lemma LoadFromHistory_intent: "\<exists>b. LoadFromHistory (paymentTransition clock) a es = Inr b \<and>
    pa_intent b = foldl (applyPaymentEvent clock) (pa_intent a) (map ev_EventData es)"
proof (induction es arbitrary: a)
  case (Cons e es)
  from Cons [of "(a\<lparr>pa_intent := applyPaymentEvent clock (pa_intent a) (ev_EventData e)\<rparr>)\<lparr>aggregateID := ev_AggregateID e, version := ev_Version e, baseVersion := ev_Version e\<rparr>"]
  show ?case by (simp add: paymentTransition_def)
qed simp


text \<open>A result that was applied changes nothing when it is applied again.\<close>

lemma repeated_transition:
  assumes "agg_ok b i'" "intentAfter i res i'" "time_ok t"
  obtains tr where "aggTransitionProviderResult clock b res t = (Inr tr, b)" "\<not> ptr_StateChanged tr" "\<not> ptr_ExternalRefChanged tr"
    "ptr_Type tr = PaymentTransitionNone"
proof -
  let ?nxt = "NormalizePaymentStatusOrPending (ppr_Status res)"
  from assms(2) obtain tr0 t0 where t0: "transitioned i ?nxt (ppr_ExternalRef res) t0 tr0 i'"
    and v: "ValidateProviderResultForStatus (Some i) ?nxt (ppr_Amount res) (ppr_Currency res) = Inr ()"
    by (auto simp: intentAfter_def)
  from t0 have i': "i' = i \<or> i' = settle i (ptr_CurrentStatus tr0) (refAfter i (ppr_ExternalRef res)) t0"
    by (auto simp: transitioned_def)
  then have f: "pin_ProviderAmount i' = pin_ProviderAmount i" "pin_Currency i' = pin_Currency i" by auto
  have "ValidateProviderResultForStatus (Some i') ?nxt (ppr_Amount res) (ppr_Currency res) = Inr ()"
    using v unfolding ValidateProviderResultForStatus_def option.case f .
  with assms(1) obtain tr a1 where tr: "aggTransitionProviderResult clock b res t = (Inr tr, a1)"
    using ToUpper_status [of ?nxt]
    by (auto simp: aggTransitionProviderResult_def aggValidate_eq agg_ok_def Let_def aggTransitionProviderState_def)
  from assms(1,3) tr obtain i'' where a1: "a1 = b\<lparr>pa_intent := Some i''\<rparr>" "agg_ok a1 i''"
    and tf: "transitioned i' ?nxt (ppr_ExternalRef res) t tr i''" by (rule transition_facts)
  have st: "pin_Status i' = (if payment_step (pin_Status i) ?nxt then ?nxt else pin_Status i)"
    using t0 by (auto simp: transitioned_def)
  have "refAfter i' (ppr_ExternalRef res) = pin_ExternalRef i'"
    using t0 by (auto simp: transitioned_def refAfter_def)
  moreover have n: "\<not> payment_step (pin_Status i') ?nxt" using st payment_step_irrefl by (cases "payment_step (pin_Status i) ?nxt") auto
  ultimately have ch: "\<not> ptr_StateChanged tr" "\<not> ptr_ExternalRefChanged tr" "i'' = i'" using tf by (auto simp: transitioned_def)
  have "b\<lparr>pa_intent := Some i'\<rparr> = b" using assms(1) by (simp add: agg_ok_def)
  with ch tr a1(1) n transitioned_type(1) [OF tf] show thesis by (intro that [of tr]) simp_all
qed

lemma repeated_outcome:
  assumes "agg_ok b i'" "intentAfter i res i'" "\<not> IsZero t"
  shows "ApplyProviderOutcome clock b res url emit t = (Inr (mutation True False), b)"
proof -
  from assms(3) have t: "time_ok (UTC t)" by (rule time_ok_UTC)
  obtain tr where "aggTransitionProviderResult clock b res (UTC t) = (Inr tr, b)" "\<not> ptr_StateChanged tr" "\<not> ptr_ExternalRefChanged tr"
    "ptr_Type tr = PaymentTransitionNone"
    using assms(1,2) t by (rule repeated_transition)
  with assms show ?thesis
    by (simp add: ApplyProviderOutcome_def agg_ok_def normalizePaymentIntentOccurredAt_def applySuccessfulOutcome_def
        applyReversedOutcome_def applyNonFinalOutcome_def Let_def)
qed

section \<open>Properties\<close>

definition sampleAggregate :: PaymentIntentAggregate where
  "sampleAggregate = (case NewProviderTopUpAggregate (GoTime 9 ''UTC'') '' tx-1 '' ''Stripe'' 1000 30 ''vnd'' ''acc-1 '' Map.empty (GoTime 5 ''UTC'')
     of Inr a \<Rightarrow> a | Inl e \<Rightarrow> emptyPaymentAggregate)"

lemma sampleAggregate_created:
  "NewProviderTopUpAggregate (GoTime 9 ''UTC'') '' tx-1 '' ''Stripe'' 1000 30 ''vnd'' ''acc-1 '' Map.empty (GoTime 5 ''UTC'') = Inr sampleAggregate"
proof -
  have "isl (NewProviderTopUpAggregate (GoTime 9 ''UTC'') '' tx-1 '' ''Stripe'' 1000 30 ''vnd'' ''acc-1 '' Map.empty (GoTime 5 ''UTC'')) = False"
    by code_simp
  then show ?thesis by (auto simp: sampleAggregate_def split: sum.splits)
qed

definition sampleSettled :: PaymentIntentAggregate where
  "sampleSettled = snd (ApplyProviderOutcome (GoTime 9 ''UTC'') sampleAggregate (sampleResult PaymentStatusSuccess) ''url'' True (GoTime 6 ''UTC''))"

lemma sampleSettled_outcome:
  "ApplyProviderOutcome (GoTime 9 ''UTC'') sampleAggregate (sampleResult PaymentStatusSuccess) ''url'' True (GoTime 6 ''UTC'') =
     (Inr (mutation False True), sampleSettled)"
proof -
  have "fst (ApplyProviderOutcome (GoTime 9 ''UTC'') sampleAggregate (sampleResult PaymentStatusSuccess) ''url'' True (GoTime 6 ''UTC'')) =
     Inr (mutation False True)" by code_simp
  then show ?thesis by (simp add: sampleSettled_def prod_eq_iff)
qed

lemma sampleSettled_log:
  "pay_log sampleSettled (events sampleAggregate @ drop (length (events sampleAggregate)) (events sampleSettled))"
  by (rule outcome [OF new_topup [OF sampleAggregate_created] sampleSettled_outcome]) simp


text \<open>
  C17 (roundtrip): whatever results a payment has received, and however often it was saved and restored between them, replaying
  all the events it recorded, on an empty aggregate and at any time, rebuilds its intent; their versions count from one without gaps.
\<close>

theorem payment_events_replay:
  assumes "pay_log a es"
  shows "\<exists>b. LoadFromHistory (paymentTransition clock) emptyPaymentAggregate es = Inr b \<and> pa_intent b = pa_intent a \<and>
    map ev_Version es = map (\<lambda>k. 1 + int k) [0..<length es] \<and> Version a = int (length es)"
proof -
  from pay_log_ok [OF assms] obtain i where i: "agg_ok a i"
    "\<forall>clock. foldl (applyPaymentEvent clock) None (map ev_EventData es) = Some i"
    "map ev_Version es = map (\<lambda>k. 1 + int k) [0..<length es]" "Version a = int (length es)"
    unfolding log_ok_def by blast
  from LoadFromHistory_intent [of clock emptyPaymentAggregate es] obtain b where
    "LoadFromHistory (paymentTransition clock) emptyPaymentAggregate es = Inr b"
    "pa_intent b = foldl (applyPaymentEvent clock) None (map ev_EventData es)"
    by (auto simp: emptyPaymentAggregate_def)
  with i show ?thesis by (auto simp: agg_ok_def)
qed

theorem payment_events_replay_witness:
  "\<exists>b. LoadFromHistory (paymentTransition zeroTime) emptyPaymentAggregate
      (events sampleAggregate @ drop (length (events sampleAggregate)) (events sampleSettled)) = Inr b \<and> pa_intent b = pa_intent sampleSettled"
  using payment_events_replay [OF sampleSettled_log, of zeroTime] by blast

text \<open>
  C9 (safety): the settlement events a payment has ever published are determined by its status: none before it settles,
  one success or one failure, and a refund or a chargeback at most once, only after the success and never both.
\<close>

theorem payment_settled_once:
  assumes "pay_log a es"
  shows "settlements (map ev_EventData es) = settledBy (aggStatus a) \<and>
    settlements (map ev_EventData es) \<in> {[], [PaymentStatusSuccess], [PaymentStatusFailed],
      [PaymentStatusSuccess, PaymentStatusRefunded], [PaymentStatusSuccess, PaymentStatusChargeback]}"
proof -
  from pay_log_ok [OF assms] have "settlements (map ev_EventData es) = settledBy (aggStatus a)"
    by (auto simp: log_ok_def agg_ok_def aggStatus_def)
  then show ?thesis by (simp add: settledBy_def)
qed

theorem payment_settled_once_witness:
  "settlements (map ev_EventData (events sampleAggregate @ drop (length (events sampleAggregate)) (events sampleSettled))) = [PaymentStatusSuccess]"
proof -
  have "settledBy (aggStatus sampleSettled) = [PaymentStatusSuccess]" by code_simp
  with payment_settled_once [OF sampleSettled_log] show ?thesis by simp
qed

text \<open>
  C24 (functional): a provider result that was applied to a payment and is delivered again, at any later time, is reported as a
  duplicate that need not be persisted: it records no event and leaves the aggregate as it was.
\<close>

theorem redelivered_outcome_ignored:
  assumes "pay_log a es" "ApplyProviderOutcome clock a res url emit t = (Inr m, b)" "pim_Persist m" "\<not> IsZero t'"
  shows "ApplyProviderOutcome clock' b res url' emit' t' = (Inr \<lparr>pim_Duplicate = True, pim_Persist = False\<rparr>, b)"
proof -
  from pay_log_ok [OF assms(1)] obtain i where "agg_ok a i" unfolding log_ok_def by blast
  from outcome_step [OF this assms(2)] assms(3) obtain i' where "intentAfter i res i'" "recorded a i i' b" by auto
  then show ?thesis using assms(4) by (intro repeated_outcome) (auto simp: recorded_def)
qed

theorem redelivered_outcome_ignored_witness:
  "ApplyProviderOutcome (GoTime 9 ''UTC'') sampleSettled (sampleResult PaymentStatusSuccess) ''url'' True (GoTime 7 ''UTC'') =
     (Inr \<lparr>pim_Duplicate = True, pim_Persist = False\<rparr>, sampleSettled)"
  by (rule redelivered_outcome_ignored [OF new_topup [OF sampleAggregate_created] sampleSettled_outcome]) (simp_all add: IsZero_def)

text \<open>
  C26 (equivalence): the aggregate package repeats the entity's transition, validation and payload code; on an intent whose times
  are normalised, its copies of the transition return what the entity's methods return and leave the same intent, and on a
  well-formed aggregate the payloads it records for a provider result are the ones the entity builds.
\<close>

theorem aggregate_agrees_with_entity:
  assumes "pa_intent a = Some i" "time_ok (pin_CreatedAt i)" "time_ok (pin_UpdatedAt i)"
  shows "aggTransitionProviderState clock a ref st t =
      (let (r, q) = transitionProviderState clock (Some i) ref st t in (r, a\<lparr>pa_intent := q\<rparr>)) \<and>
    aggTransitionProviderResult clock a res t =
      (let (r, q) = TransitionProviderResult clock (Some i) res t in (r, a\<lparr>pa_intent := q\<rparr>)) \<and>
    (intent_ok i \<and> time_ok t \<longrightarrow>
      recordPaymentSucceeded clock a res t = applyChangeAt clock a (PaymentSucceeded (fst (BuildSucceededEventData clock i res t))) t \<and>
      recordPaymentFailed clock a res t = applyChangeAt clock a (PaymentFailed (fst (BuildFailedEventData clock i res t))) t \<and>
      recordPaymentRefunded clock a (currentProviderResult a res) t =
        applyChangeAt clock a (PaymentRefunded (fst (BuildRefundedEventData clock i res t))) t \<and>
      recordPaymentChargeback clock a (currentProviderResult a res) t =
        applyChangeAt clock a (PaymentChargeback (fst (BuildChargebackEventData clock i res t))) t)"
proof -
  have "recordPaymentSucceeded clock a res t = applyChangeAt clock a (PaymentSucceeded (fst (BuildSucceededEventData clock i res t))) t \<and>
      recordPaymentFailed clock a res t = applyChangeAt clock a (PaymentFailed (fst (BuildFailedEventData clock i res t))) t \<and>
      recordPaymentRefunded clock a (currentProviderResult a res) t =
        applyChangeAt clock a (PaymentRefunded (fst (BuildRefundedEventData clock i res t))) t \<and>
      recordPaymentChargeback clock a (currentProviderResult a res) t =
        applyChangeAt clock a (PaymentChargeback (fst (BuildChargebackEventData clock i res t))) t"
    if ok: "intent_ok i" "time_ok t"
    using assms(1) ok(2) unfolding currentProviderResult_eq
    by (simp add: recordPaymentSucceeded_def recordPaymentFailed_def recordPaymentRefunded_def recordPaymentChargeback_def
        BuildSucceededEventData_def BuildFailedEventData_def BuildRefundedEventData_def BuildChargebackEventData_def
        withIntent_def aggTransitionIdempotencyKey_def TransitionIdempotencyKey_def intent_ok_fields(1) [OF ok(1)] Let_def)
  with aggTransitionState_eq [OF assms] aggTransitionResult_eq [OF assms] show ?thesis by blast
qed

theorem aggregate_agrees_with_entity_witness:
  "aggTransitionProviderResult zeroTime (emptyPaymentAggregate\<lparr>pa_intent := Some sampleIntent\<rparr>) (sampleResult PaymentStatusSuccess) (GoTime 6 ''UTC'') =
    (let (r, q) = TransitionProviderResult zeroTime (Some sampleIntent) (sampleResult PaymentStatusSuccess) (GoTime 6 ''UTC'')
     in (r, (emptyPaymentAggregate\<lparr>pa_intent := Some sampleIntent\<rparr>)\<lparr>pa_intent := q\<rparr>))"
proof -
  have "time_ok (pin_CreatedAt sampleIntent)" "time_ok (pin_UpdatedAt sampleIntent)" by (simp_all add: time_ok_def sampleIntent_def UTC_def IsZero_def)
  from aggregate_agrees_with_entity [OF _ this, of "emptyPaymentAggregate\<lparr>pa_intent := Some sampleIntent\<rparr>"] show ?thesis by simp
qed

end
