(* ===== verification/PaymentLedger.thy ===== *)
theory PaymentLedger
  imports LedgerService Locks PaymentIntent
begin

text \<open>
  How the ledger books payments: the event service of
  \<^verbatim>\<open>core/modules/ledger/application/service/payment_event_service.go\<close> and the consumer of the payment outbox
  of \<^verbatim>\<open>core/modules/ledger/application/messaging/message_handler_payment_intent.go\<close>.

  The two files turn payment events into ledger events with code of their own; both are modelled (the
  consumer's builders carry the prefix \<open>h_\<close>) and shown to agree. Functions that have the same
  text in both files are modelled once. \<^verbatim>\<open>newPaymentPosting\<close> panics on an invalid posting: a panic is
  the error \<open>panicked\<close>. Decoding JSON, the service the consumer calls and the text of an error are
  arguments of the consumer.
\<close>

section \<open>Postings and events of a payment\<close>

definition panicked :: "error \<Rightarrow> error" where
  "panicked e = Errorf ''panic'' [e]"

definition newPaymentPosting ::
  "string \<Rightarrow> string \<Rightarrow> string \<Rightarrow> string \<Rightarrow> string \<Rightarrow> string \<Rightarrow> int64 \<Rightarrow> gotime \<Rightarrow> error + LedgerAccountPosting" where
  "newPaymentPosting accountID transactionID referenceType referenceID counterpartyAccountID currency amountDelta bookedAt =
     wrapErr panicked (NewLedgerAccountPaymentPosting
       \<lparr>pi_AccountID = accountID, pi_TransactionID = transactionID, pi_ReferenceType = referenceType, pi_ReferenceID = referenceID,
        pi_CounterpartyAccountID = counterpartyAccountID, pi_Currency = currency, pi_AmountDelta = amountDelta, pi_BookedAt = bookedAt\<rparr>)"

text \<open>
  \<^verbatim>\<open>paymentLedgerEventsFromPostings\<close> is the function that \<open>ledgerPaymentEventsFromPostings\<close> models; its
  callers pass a literal of two postings, which are evaluated first.
\<close>

definition postingPair ::
  "string \<Rightarrow> string \<Rightarrow> string \<Rightarrow> string \<Rightarrow> string \<Rightarrow> string \<Rightarrow> string \<Rightarrow> int64 \<Rightarrow> int64 \<Rightarrow> gotime \<Rightarrow> error + LedgerEvent Event list" where
  "postingPair firstAcc secondAcc transactionID firstRef secondRef paymentID currency firstDelta secondDelta bookedAt =
     andThen (newPaymentPosting firstAcc transactionID firstRef paymentID secondAcc currency firstDelta bookedAt) (\<lambda>p.
     andThen (newPaymentPosting secondAcc transactionID secondRef paymentID firstAcc currency secondDelta bookedAt) (\<lambda>q.
     ledgerPaymentEventsFromPostings
       [\<lparr>pei_accountID = firstAcc, pei_posting = p\<rparr>, \<lparr>pei_accountID = secondAcc, pei_posting = q\<rparr>]))"

definition paymentLedgerEventsFromBooking ::
  "gotime \<Rightarrow> string \<Rightarrow> string \<Rightarrow> string \<Rightarrow> int64 \<Rightarrow> string \<Rightarrow> string \<Rightarrow> string \<Rightarrow> string \<Rightarrow> gotime \<Rightarrow> error + LedgerEvent Event list" where
  "paymentLedgerEventsFromBooking clock transactionID paymentID currency amount debitAccountID creditAccountID
     debitEventName creditEventName bookedAt0 =
     (let bookedAt = (if IsZero bookedAt0 then UTC clock else bookedAt0)
      in andThen (NewLedgerAccountPaymentPosting
           \<lparr>pi_AccountID = debitAccountID, pi_TransactionID = transactionID, pi_ReferenceType = debitEventName, pi_ReferenceID = paymentID,
            pi_CounterpartyAccountID = creditAccountID, pi_Currency = currency, pi_AmountDelta = - amount, pi_BookedAt = bookedAt\<rparr>) (\<lambda>debitPosting.
         andThen (NewLedgerAccountPaymentPosting
           \<lparr>pi_AccountID = creditAccountID, pi_TransactionID = transactionID, pi_ReferenceType = creditEventName, pi_ReferenceID = paymentID,
            pi_CounterpartyAccountID = debitAccountID, pi_Currency = currency, pi_AmountDelta = amount, pi_BookedAt = bookedAt\<rparr>) (\<lambda>creditPosting.
         case NewLedgerAccountEventFromPosting debitAccountID debitPosting of
           None \<Rightarrow> Inl (Errorf ''unsupported debit ledger event reference_type=%s'' [])
         | Some debitEvent \<Rightarrow>
             (case NewLedgerAccountEventFromPosting creditAccountID creditPosting of
                None \<Rightarrow> Inl (Errorf ''unsupported credit ledger event reference_type=%s'' [])
              | Some creditEvent \<Rightarrow> Inr [debitEvent, creditEvent]))))"

definition debitLedgerEventNameForReversal :: "string \<Rightarrow> string" where
  "debitLedgerEventNameForReversal eventName =
     (if TrimSpace eventName = EventPaymentRefunded then EventNameLedgerAccountWithdrawFromRefund
      else if TrimSpace eventName = EventPaymentChargeback then EventNameLedgerAccountWithdrawFromChargeback
      else [])"

definition creditLedgerEventNameForReversal :: "string \<Rightarrow> string" where
  "creditLedgerEventNameForReversal eventName =
     (if TrimSpace eventName = EventPaymentRefunded then EventNameLedgerAccountDepositFromRefund
      else if TrimSpace eventName = EventPaymentChargeback then EventNameLedgerAccountDepositFromChargeback
      else [])"

definition reversalSuffix :: "string \<Rightarrow> string" where
  "reversalSuffix reversalType =
     (if TrimSpace reversalType = EventPaymentRefunded then ''refunded''
      else if TrimSpace reversalType = EventPaymentChargeback then ''chargeback''
      else ''reversed'')"

definition resolvePaymentEventID :: "string \<Rightarrow> string \<Rightarrow> string" where
  "resolvePaymentEventID paymentID transactionID = FirstNonEmpty [TrimSpace paymentID, TrimSpace transactionID]"

section \<open>The payment event service\<close>

text \<open>\<open>feeAccountID\<close> is the service's field, which its constructor trims.\<close>

definition NewPaymentEventService_feeAccountID :: "string \<Rightarrow> string" where
  "NewPaymentEventService_feeAccountID feeAccountID = TrimSpace feeAccountID"

definition paymentWithdrawalRequestedLedgerEvents :: "string \<Rightarrow> PaymentWithdrawalRequestedEvent \<Rightarrow> error + LedgerEvent Event list" where
  "paymentWithdrawalRequestedLedgerEvents feeAccountID payload =
     (let clearingAccountID = ledgerClearingAccountID
            (FirstNonEmpty [TrimSpace (pw_ClearingAccountKey payload), providerClearingAccountKey (pw_Provider payload)]);
          paymentID = resolvePaymentEventID (pw_PaymentID payload) (pw_TransactionID payload);
          debitAccountID = TrimSpace (pw_DebitAccountID payload)
      in andThen (postingPair debitAccountID clearingAccountID (''payment:'' @ paymentID @ '':withdrawal:principal'')
           EventNameLedgerAccountReserveWithdrawal EventNameLedgerAccountReceiveWithdrawalHold paymentID (pw_Currency payload)
           (- pw_Amount payload) (pw_Amount payload) (pw_RequestedAt payload)) (\<lambda>principalEvents.
         if 0 <s pw_FeeAmount payload \<and> feeAccountID \<noteq> [] then
           andThen (postingPair debitAccountID feeAccountID (''payment:'' @ paymentID @ '':withdrawal:fee'')
             EventNameLedgerAccountReserveWithdrawal EventNameLedgerAccountReceiveWithdrawalHold paymentID (pw_Currency payload)
             (- pw_FeeAmount payload) (pw_FeeAmount payload) (pw_RequestedAt payload)) (\<lambda>feeEvents.
           Inr (principalEvents @ feeEvents))
         else Inr principalEvents))"

definition paymentSucceededLedgerEvents :: "gotime \<Rightarrow> string \<Rightarrow> PaymentSucceededEvent \<Rightarrow> error + LedgerEvent Event list" where
  "paymentSucceededLedgerEvents clock feeAccountID payload =
     (if NormalizePaymentWorkflow (ps_Workflow payload) = PaymentWorkflowWithdrawal then Inr []
      else
        andThen (NewPaymentSucceededBooking
          \<lparr>psi_PaymentID = resolvePaymentEventID (ps_PaymentID payload) (ps_TransactionID payload), psi_TransactionID = ps_TransactionID payload,
           psi_ClearingAccountKey = ps_ClearingAccountKey payload, psi_CreditAccountID = ps_CreditAccountID payload,
           psi_Currency = ps_Currency payload, psi_Amount = ps_Amount payload\<rparr>) (\<lambda>booking.
        andThen (paymentLedgerEventsFromBooking clock (SucceededBooking_LedgerTransactionID booking) (psb_PaymentID booking)
          (psb_Currency booking) (psb_Amount booking) (psb_DebitAccountID booking) (psb_CreditAccountID booking)
          EventNameLedgerAccountWithdrawFromIntent EventNameLedgerAccountDepositFromIntent (ps_SucceededAt payload)) (\<lambda>evts.
        if 0 <s ps_FeeAmount payload \<and> feeAccountID \<noteq> [] then
          andThen (paymentLedgerEventsFromBooking clock (''payment:'' @ psb_PaymentID booking @ '':succeeded:fee'') (psb_PaymentID booking)
            (psb_Currency booking) (ps_FeeAmount payload) (ledgerClearingAccountID (ps_ClearingAccountKey payload)) feeAccountID
            EventNameLedgerAccountWithdrawFromIntent EventNameLedgerAccountDepositFromIntent (ps_SucceededAt payload)) (\<lambda>feeEvents.
          Inr (evts @ feeEvents))
        else Inr evts)))"

definition paymentFailedLedgerEvents :: "string \<Rightarrow> PaymentFailedEvent \<Rightarrow> error + LedgerEvent Event list" where
  "paymentFailedLedgerEvents feeAccountID payload =
     (if NormalizePaymentWorkflow (pf_Workflow payload) \<noteq> PaymentWorkflowWithdrawal then Inr []
      else
        let paymentID = resolvePaymentEventID (pf_PaymentID payload) (pf_TransactionID payload);
            clearingAccountID = ledgerClearingAccountID (pf_ClearingAccountKey payload);
            debitAccountID = TrimSpace (pf_DebitAccountID payload)
        in andThen (postingPair debitAccountID clearingAccountID (''payment:'' @ paymentID @ '':withdrawal:principal:failed'')
             EventNameLedgerAccountReleaseWithdrawal EventNameLedgerAccountWithdrawReleasedHold paymentID (pf_Currency payload)
             (pf_Amount payload) (- pf_Amount payload) (pf_OccurredAt payload)) (\<lambda>principalEvents.
           if 0 <s pf_FeeAmount payload \<and> feeAccountID \<noteq> [] then
             andThen (postingPair debitAccountID feeAccountID (''payment:'' @ paymentID @ '':withdrawal:fee:failed'')
               EventNameLedgerAccountReleaseWithdrawal EventNameLedgerAccountWithdrawReleasedHold paymentID (pf_Currency payload)
               (pf_FeeAmount payload) (- pf_FeeAmount payload) (pf_OccurredAt payload)) (\<lambda>feeEvents.
             Inr (principalEvents @ feeEvents))
           else Inr principalEvents))"

definition paymentReversedLedgerEvents ::
  "gotime \<Rightarrow> string \<Rightarrow> string \<Rightarrow> string \<Rightarrow> string \<Rightarrow> string \<Rightarrow> string \<Rightarrow> int64 \<Rightarrow> int64 \<Rightarrow> string \<Rightarrow> gotime \<Rightarrow> error + LedgerEvent Event list" where
  "paymentReversedLedgerEvents clock feeAccountID paymentID transactionID clearingAccountKey creditAccountID currency amount feeAmount
     reversalType bookedAt =
     andThen (NewPaymentReversalBooking
       \<lparr>pri_PaymentID = paymentID, pri_TransactionID = transactionID, pri_ClearingAccountKey = clearingAccountKey,
        pri_CreditAccountID = creditAccountID, pri_Currency = currency, pri_Amount = amount, pri_ReversalType = reversalType\<rparr>) (\<lambda>booking.
     andThen (paymentLedgerEventsFromBooking clock (ReversalBooking_LedgerTransactionID booking) (prb_PaymentID booking)
       (prb_Currency booking) (prb_Amount booking) (prb_DebitAccountID booking) (prb_CreditAccountID booking)
       (debitLedgerEventNameForReversal (prb_ReversalType booking)) (creditLedgerEventNameForReversal (prb_ReversalType booking)) bookedAt) (\<lambda>evts.
     if 0 <s feeAmount \<and> feeAccountID \<noteq> [] then
       andThen (paymentLedgerEventsFromBooking clock (''payment:'' @ prb_PaymentID booking @ '':'' @ reversalSuffix reversalType @ '':fee'')
         (prb_PaymentID booking) (prb_Currency booking) feeAmount feeAccountID (ledgerClearingAccountID clearingAccountKey)
         (debitLedgerEventNameForReversal reversalType) (creditLedgerEventNameForReversal reversalType) bookedAt) (\<lambda>feeEvents.
       Inr (evts @ feeEvents))
     else Inr evts))"

text \<open>The service's methods; \<open>recordEvents\<close> is the ledger service's \<^verbatim>\<open>RecordLedgerEvents\<close>.\<close>

type_synonym 's recordFn = "LedgerEvent Event list \<Rightarrow> 's \<Rightarrow> (error + unit) \<times> 's"

definition recordBuilt :: "'s recordFn \<Rightarrow> error + LedgerEvent Event list \<Rightarrow> 's \<Rightarrow> (error + unit) \<times> 's" where
  "recordBuilt recordEvents built s = (case built of Inl e \<Rightarrow> (Inl e, s) | Inr evts \<Rightarrow> recordEvents evts s)"

definition recordBuiltUnlessEmpty :: "'s recordFn \<Rightarrow> error + LedgerEvent Event list \<Rightarrow> 's \<Rightarrow> (error + unit) \<times> 's" where
  "recordBuiltUnlessEmpty recordEvents built s =
     (case built of Inl e \<Rightarrow> (Inl e, s) | Inr evts \<Rightarrow> if evts = [] then (Inr (), s) else recordEvents evts s)"

definition HandleWithdrawalRequested :: "'s recordFn \<Rightarrow> string \<Rightarrow> PaymentWithdrawalRequestedEvent \<Rightarrow> 's \<Rightarrow> (error + unit) \<times> 's" where
  "HandleWithdrawalRequested recordEvents feeAccountID payload =
     recordBuilt recordEvents (paymentWithdrawalRequestedLedgerEvents feeAccountID payload)"

definition HandleSucceeded :: "'s recordFn \<Rightarrow> gotime \<Rightarrow> string \<Rightarrow> PaymentSucceededEvent \<Rightarrow> 's \<Rightarrow> (error + unit) \<times> 's" where
  "HandleSucceeded recordEvents clock feeAccountID payload =
     recordBuiltUnlessEmpty recordEvents (paymentSucceededLedgerEvents clock feeAccountID payload)"

definition HandleFailed :: "'s recordFn \<Rightarrow> string \<Rightarrow> PaymentFailedEvent \<Rightarrow> 's \<Rightarrow> (error + unit) \<times> 's" where
  "HandleFailed recordEvents feeAccountID payload =
     recordBuiltUnlessEmpty recordEvents (paymentFailedLedgerEvents feeAccountID payload)"

definition HandleRefunded :: "'s recordFn \<Rightarrow> gotime \<Rightarrow> string \<Rightarrow> PaymentRefundedEvent \<Rightarrow> 's \<Rightarrow> (error + unit) \<times> 's" where
  "HandleRefunded recordEvents clock feeAccountID payload = recordBuilt recordEvents
     (paymentReversedLedgerEvents clock feeAccountID (resolvePaymentEventID (pr_PaymentID payload) (pr_TransactionID payload))
        (pr_TransactionID payload) (pr_ClearingAccountKey payload) (pr_CreditAccountID payload) (pr_Currency payload) (pr_Amount payload)
        (pr_FeeAmount payload) EventPaymentRefunded (pr_RefundedAt payload))"

definition HandleChargeback :: "'s recordFn \<Rightarrow> gotime \<Rightarrow> string \<Rightarrow> PaymentChargebackEvent \<Rightarrow> 's \<Rightarrow> (error + unit) \<times> 's" where
  "HandleChargeback recordEvents clock feeAccountID payload = recordBuilt recordEvents
     (paymentReversedLedgerEvents clock feeAccountID (resolvePaymentEventID (pb_PaymentID payload) (pb_TransactionID payload))
        (pb_TransactionID payload) (pb_ClearingAccountKey payload) (pb_CreditAccountID payload) (pb_Currency payload) (pb_Amount payload)
        (pb_FeeAmount payload) EventPaymentChargeback (pb_ChargedBackAt payload))"


section \<open>The consumer of the payment outbox\<close>

record 'raw OutboxMessage =
  om_AggregateID :: string
  om_EventName :: string
  om_EventData :: 'raw

text \<open>\<^verbatim>\<open>contracts.UnmarshalEventData\<close> into the five payload types.\<close>

record 'raw PayloadDecoders =
  unmarshalWithdrawalRequested :: "'raw \<Rightarrow> error + PaymentWithdrawalRequestedEvent"
  unmarshalSucceeded :: "'raw \<Rightarrow> error + PaymentSucceededEvent"
  unmarshalFailed :: "'raw \<Rightarrow> error + PaymentFailedEvent"
  unmarshalRefunded :: "'raw \<Rightarrow> error + PaymentRefundedEvent"
  unmarshalChargeback :: "'raw \<Rightarrow> error + PaymentChargebackEvent"

text \<open>The five functions \<^verbatim>\<open>unmarshalPayment...Payload\<close>, each with its own message.\<close>

definition unmarshalPaymentPayload :: "string \<Rightarrow> ('raw \<Rightarrow> error + 'p) \<Rightarrow> 'raw \<Rightarrow> error + 'p" where
  "unmarshalPaymentPayload msg decode data = wrapErr (\<lambda>e. Errorf msg [e]) (decode data)"

text \<open>The five functions \<^verbatim>\<open>resolvePayment...ID\<close>.\<close>

definition resolvePaymentID :: "string \<Rightarrow> string \<Rightarrow> string \<Rightarrow> string" where
  "resolvePaymentID aggID paymentID transactionID = FirstNonEmpty [TrimSpace paymentID, TrimSpace aggID, TrimSpace transactionID]"

definition h_paymentWithdrawalRequestedLedgerEvents :: "string \<Rightarrow> PaymentWithdrawalRequestedEvent \<Rightarrow> error + LedgerEvent Event list" where
  "h_paymentWithdrawalRequestedLedgerEvents feeAccountID payload =
     (let clearingAccountID = ledgerClearingAccountID
            (FirstNonEmpty [TrimSpace (pw_ClearingAccountKey payload), providerClearingAccountKey (pw_Provider payload)]);
          paymentID = TrimSpace (pw_PaymentID payload);
          debitAccountID = TrimSpace (pw_DebitAccountID payload)
      in andThen (postingPair debitAccountID clearingAccountID (''payment:'' @ paymentID @ '':withdrawal:principal'')
           EventNameLedgerAccountReserveWithdrawal EventNameLedgerAccountReceiveWithdrawalHold paymentID (pw_Currency payload)
           (- pw_Amount payload) (pw_Amount payload) (pw_RequestedAt payload)) (\<lambda>principalEvents.
         if 0 <s pw_FeeAmount payload \<and> TrimSpace feeAccountID \<noteq> [] then
           andThen (postingPair debitAccountID (TrimSpace feeAccountID) (''payment:'' @ paymentID @ '':withdrawal:fee'')
             EventNameLedgerAccountReserveWithdrawal EventNameLedgerAccountReceiveWithdrawalHold paymentID (pw_Currency payload)
             (- pw_FeeAmount payload) (pw_FeeAmount payload) (pw_RequestedAt payload)) (\<lambda>feeEvents.
           Inr (principalEvents @ feeEvents))
         else Inr principalEvents))"

definition h_paymentSucceededLedgerEvents :: "gotime \<Rightarrow> string \<Rightarrow> PaymentSucceededEvent \<Rightarrow> error + LedgerEvent Event list" where
  "h_paymentSucceededLedgerEvents clock feeAccountID payload =
     (if NormalizePaymentWorkflow (ps_Workflow payload) = PaymentWorkflowWithdrawal then Inr []
      else
        andThen (NewPaymentSucceededBooking
          \<lparr>psi_PaymentID = ps_PaymentID payload, psi_TransactionID = ps_TransactionID payload,
           psi_ClearingAccountKey = ps_ClearingAccountKey payload, psi_CreditAccountID = ps_CreditAccountID payload,
           psi_Currency = ps_Currency payload, psi_Amount = ps_Amount payload\<rparr>) (\<lambda>booking.
        andThen (paymentLedgerEventsFromBooking clock (SucceededBooking_LedgerTransactionID booking) (psb_PaymentID booking)
          (psb_Currency booking) (psb_Amount booking) (psb_DebitAccountID booking) (psb_CreditAccountID booking)
          EventNameLedgerAccountWithdrawFromIntent EventNameLedgerAccountDepositFromIntent (ps_SucceededAt payload)) (\<lambda>evts.
        if 0 <s ps_FeeAmount payload \<and> TrimSpace feeAccountID \<noteq> [] then
          andThen (paymentLedgerEventsFromBooking clock (''payment:'' @ TrimSpace (psb_PaymentID booking) @ '':succeeded:fee'') (psb_PaymentID booking)
            (psb_Currency booking) (ps_FeeAmount payload) (ledgerClearingAccountID (ps_ClearingAccountKey payload)) (TrimSpace feeAccountID)
            EventNameLedgerAccountWithdrawFromIntent EventNameLedgerAccountDepositFromIntent (ps_SucceededAt payload)) (\<lambda>feeEvents.
          Inr (evts @ feeEvents))
        else Inr evts)))"

definition h_paymentFailedLedgerEvents :: "string \<Rightarrow> PaymentFailedEvent \<Rightarrow> error + LedgerEvent Event list" where
  "h_paymentFailedLedgerEvents feeAccountID payload =
     (if NormalizePaymentWorkflow (pf_Workflow payload) \<noteq> PaymentWorkflowWithdrawal then Inr []
      else
        let paymentID = TrimSpace (pf_PaymentID payload);
            clearingAccountID = ledgerClearingAccountID (pf_ClearingAccountKey payload);
            debitAccountID = TrimSpace (pf_DebitAccountID payload)
        in andThen (postingPair debitAccountID clearingAccountID (''payment:'' @ paymentID @ '':withdrawal:principal:failed'')
             EventNameLedgerAccountReleaseWithdrawal EventNameLedgerAccountWithdrawReleasedHold paymentID (pf_Currency payload)
             (pf_Amount payload) (- pf_Amount payload) (pf_OccurredAt payload)) (\<lambda>principalEvents.
           if 0 <s pf_FeeAmount payload \<and> TrimSpace feeAccountID \<noteq> [] then
             andThen (postingPair debitAccountID (TrimSpace feeAccountID) (''payment:'' @ paymentID @ '':withdrawal:fee:failed'')
               EventNameLedgerAccountReleaseWithdrawal EventNameLedgerAccountWithdrawReleasedHold paymentID (pf_Currency payload)
               (pf_FeeAmount payload) (- pf_FeeAmount payload) (pf_OccurredAt payload)) (\<lambda>feeEvents.
             Inr (principalEvents @ feeEvents))
           else Inr principalEvents))"

definition h_paymentReversedLedgerEvents ::
  "gotime \<Rightarrow> string \<Rightarrow> string \<Rightarrow> string \<Rightarrow> string \<Rightarrow> string \<Rightarrow> string \<Rightarrow> int64 \<Rightarrow> int64 \<Rightarrow> string \<Rightarrow> gotime \<Rightarrow> error + LedgerEvent Event list" where
  "h_paymentReversedLedgerEvents clock feeAccountID paymentID transactionID clearingAccountKey creditAccountID currency amount feeAmount
     reversalType bookedAt =
     andThen (NewPaymentReversalBooking
       \<lparr>pri_PaymentID = paymentID, pri_TransactionID = transactionID, pri_ClearingAccountKey = clearingAccountKey,
        pri_CreditAccountID = creditAccountID, pri_Currency = currency, pri_Amount = amount, pri_ReversalType = reversalType\<rparr>) (\<lambda>booking.
     andThen (paymentLedgerEventsFromBooking clock (ReversalBooking_LedgerTransactionID booking) (prb_PaymentID booking)
       (prb_Currency booking) (prb_Amount booking) (prb_DebitAccountID booking) (prb_CreditAccountID booking)
       (debitLedgerEventNameForReversal (prb_ReversalType booking)) (creditLedgerEventNameForReversal (prb_ReversalType booking)) bookedAt) (\<lambda>evts.
     if 0 <s feeAmount \<and> TrimSpace feeAccountID \<noteq> [] then
       andThen (paymentLedgerEventsFromBooking clock
         (''payment:'' @ TrimSpace (prb_PaymentID booking) @ '':'' @ reversalSuffix reversalType @ '':fee'')
         (prb_PaymentID booking) (prb_Currency booking) feeAmount (TrimSpace feeAccountID) (ledgerClearingAccountID clearingAccountKey)
         (debitLedgerEventNameForReversal reversalType) (creditLedgerEventNameForReversal reversalType) bookedAt) (\<lambda>feeEvents.
       Inr (evts @ feeEvents))
     else Inr evts))"

fun lockKeysFrom :: "string list \<Rightarrow> LedgerEvent Event list \<Rightarrow> string list" where
  "lockKeysFrom keys [] = keys"
| "lockKeysFrom keys (evt # evts) =
     (let key = TrimSpace (ev_AggregateID evt)
      in if key = [] then lockKeysFrom keys evts
         else if key \<in> set keys then lockKeysFrom keys evts
         else lockKeysFrom (keys @ [key]) evts)"

definition ledgerEventLockKeys :: "LedgerEvent Event list \<Rightarrow> string list" where
  "ledgerEventLockKeys evts = lockKeysFrom [] evts"

definition LedgerAccountLockKeyPrefix :: string where
  "LedgerAccountLockKeyPrefix = ''ledger-account''"

text \<open>\<open>lockValue\<close> is the fresh value that identifies the holder.\<close>

definition withLedgerAccountLocks ::
  "('s acquireFn \<times> 's releaseFn) option \<Rightarrow> string \<Rightarrow> string list \<Rightarrow> ('s \<Rightarrow> (error + unit) \<times> 's) \<Rightarrow> 's \<Rightarrow> (error + unit) \<times> 's" where
  "withLedgerAccountLocks locker lockValue lockKeys fn =
     WithLocks locker lockValue lockKeys (DefaultMultiLockOptions\<lparr>KeyPrefix := LedgerAccountLockKeyPrefix\<rparr>) fn"

text \<open>
  The handler's fields and what it calls: \<open>mh_record\<close> and \<open>mh_reconcile\<close> are the ledger service's
  \<^verbatim>\<open>RecordLedgerEvents\<close> and \<^verbatim>\<open>RecordPaymentReconciliationFailed\<close>, \<open>mh_errorText\<close> is the method \<^verbatim>\<open>Error\<close>.
\<close>

record 's messageHandler =
  mh_record :: "'s recordFn"
  mh_reconcile :: "RecordPaymentReconciliationFailedCommand \<Rightarrow> 's \<Rightarrow> (error + unit) \<times> 's"
  mh_locker :: "('s acquireFn \<times> 's releaseFn) option"
  mh_feeAccountID :: string
  mh_errorText :: "error \<Rightarrow> string"

definition emitPaymentReconciliationFailed :: "'s messageHandler \<Rightarrow> PaymentSucceededEvent \<Rightarrow> error \<Rightarrow> 's \<Rightarrow> (error + unit) \<times> 's" where
  "emitPaymentReconciliationFailed h payload cause = mh_reconcile h
     \<lparr>rf_PaymentID = resolvePaymentID (ps_PaymentID payload) (ps_PaymentID payload) (ps_TransactionID payload),
      rf_TransactionID = TrimSpace (ps_TransactionID payload), rf_Provider = TrimSpace (ps_Provider payload),
      rf_ClearingAccountKey = TrimSpace (ps_ClearingAccountKey payload), rf_CreditAccountID = TrimSpace (ps_CreditAccountID payload),
      rf_Currency = TrimSpace (ps_Currency payload), rf_Amount = ps_Amount payload, rf_FeeAmount = ps_FeeAmount payload,
      rf_ProviderAmount = ps_ProviderAmount payload, rf_Reason = TrimSpace (mh_errorText h cause), rf_FailedAt = zeroTime\<rparr>"

definition recordLocked :: "'s messageHandler \<Rightarrow> string \<Rightarrow> LedgerEvent Event list \<Rightarrow> 's \<Rightarrow> (error + unit) \<times> 's" where
  "recordLocked h lockValue evts s =
     (if evts = [] then (Inr (), s)
      else withLedgerAccountLocks (mh_locker h) lockValue (ledgerEventLockKeys evts) (mh_record h evts) s)"

definition handlePaymentOutboxEvent ::
  "'s messageHandler \<Rightarrow> 'raw PayloadDecoders \<Rightarrow> gotime \<Rightarrow> string \<Rightarrow> 'raw OutboxMessage \<Rightarrow> 's \<Rightarrow> (error + unit) \<times> 's" where
  "handlePaymentOutboxEvent h dec clock lockValue event s =
     (let finish = (\<lambda>built. case built of Inl e \<Rightarrow> (Inl e, s) | Inr evts \<Rightarrow> recordLocked h lockValue evts s);
          fee = mh_feeAccountID h
      in if om_EventName event = ''PaymentWithdrawalRequestedEvent'' then
           (case unmarshalPaymentPayload ''unmarshal payment withdrawal requested payload failed: %w''
                   (unmarshalWithdrawalRequested dec) (om_EventData event) of
              Inl e \<Rightarrow> (Inl e, s)
            | Inr payload \<Rightarrow> finish (h_paymentWithdrawalRequestedLedgerEvents fee
                (payload\<lparr>pw_PaymentID := resolvePaymentID (om_AggregateID event) (pw_PaymentID payload) (pw_TransactionID payload)\<rparr>)))
         else if om_EventName event = ''PaymentCreatedEvent'' then (Inr (), s)
         else if om_EventName event = EventPaymentSucceeded then
           (case unmarshalPaymentPayload ''unmarshal payment succeeded payload failed: %w'' (unmarshalSucceeded dec) (om_EventData event) of
              Inl e \<Rightarrow> (Inl e, s)
            | Inr payload0 \<Rightarrow>
                let payload = payload0\<lparr>ps_PaymentID := resolvePaymentID (om_AggregateID event) (ps_PaymentID payload0) (ps_TransactionID payload0)\<rparr>
                in case h_paymentSucceededLedgerEvents clock fee payload of
                     Inl e \<Rightarrow> emitPaymentReconciliationFailed h payload e s
                   | Inr evts \<Rightarrow> finish (Inr evts))
         else if om_EventName event = ''PaymentFailedEvent'' then
           (case unmarshalPaymentPayload ''unmarshal payment failed payload failed: %w'' (unmarshalFailed dec) (om_EventData event) of
              Inl e \<Rightarrow> (Inl e, s)
            | Inr payload \<Rightarrow> finish (h_paymentFailedLedgerEvents fee
                (payload\<lparr>pf_PaymentID := resolvePaymentID (om_AggregateID event) (pf_PaymentID payload) (pf_TransactionID payload)\<rparr>)))
         else if om_EventName event = EventPaymentRefunded then
           (case unmarshalPaymentPayload ''unmarshal payment refunded payload failed: %w'' (unmarshalRefunded dec) (om_EventData event) of
              Inl e \<Rightarrow> (Inl e, s)
            | Inr payload \<Rightarrow> finish (h_paymentReversedLedgerEvents clock fee
                (resolvePaymentID (om_AggregateID event) (pr_PaymentID payload) (pr_TransactionID payload))
                (pr_TransactionID payload) (pr_ClearingAccountKey payload) (pr_CreditAccountID payload) (pr_Currency payload)
                (pr_Amount payload) (pr_FeeAmount payload) EventPaymentRefunded (pr_RefundedAt payload)))
         else if om_EventName event = EventPaymentChargeback then
           (case unmarshalPaymentPayload ''unmarshal payment chargeback payload failed: %w'' (unmarshalChargeback dec) (om_EventData event) of
              Inl e \<Rightarrow> (Inl e, s)
            | Inr payload \<Rightarrow> finish (h_paymentReversedLedgerEvents clock fee
                (resolvePaymentID (om_AggregateID event) (pb_PaymentID payload) (pb_TransactionID payload))
                (pb_TransactionID payload) (pb_ClearingAccountKey payload) (pb_CreditAccountID payload) (pb_Currency payload)
                (pb_Amount payload) (pb_FeeAmount payload) EventPaymentChargeback (pb_ChargedBackAt payload)))
         else (Inr (), s))"


section \<open>The two copies agree\<close>

lemma resolvePaymentEventID_trimmed [simp]: "TrimSpace (resolvePaymentEventID pid tx) = resolvePaymentEventID pid tx"
  by (simp add: resolvePaymentEventID_def)

lemma resolvePaymentID_eq:
  assumes "TrimSpace pid \<noteq> [] \<or> TrimSpace aid = [] \<or> TrimSpace aid = TrimSpace tx"
  shows "resolvePaymentID aid pid tx = resolvePaymentEventID pid tx"
  using assms by (auto simp: resolvePaymentID_def resolvePaymentEventID_def)

lemma resolvePaymentID_again:
  "resolvePaymentEventID (resolvePaymentID aid pid tx) tx = resolvePaymentID aid pid tx"
  "TrimSpace (resolvePaymentID aid pid tx) = resolvePaymentID aid pid tx"
  by (auto simp: resolvePaymentID_def resolvePaymentEventID_def)

text \<open>The consumer's builders on a resolved payment id are the service's.\<close>

lemma h_requested: "h_paymentWithdrawalRequestedLedgerEvents fee (p\<lparr>pw_PaymentID := resolvePaymentID aid pid (pw_TransactionID p)\<rparr>) =
    paymentWithdrawalRequestedLedgerEvents (TrimSpace fee) (p\<lparr>pw_PaymentID := resolvePaymentID aid pid (pw_TransactionID p)\<rparr>)"
  by (simp add: h_paymentWithdrawalRequestedLedgerEvents_def paymentWithdrawalRequestedLedgerEvents_def resolvePaymentID_again)

lemma h_failed: "h_paymentFailedLedgerEvents fee (p\<lparr>pf_PaymentID := resolvePaymentID aid pid (pf_TransactionID p)\<rparr>) =
    paymentFailedLedgerEvents (TrimSpace fee) (p\<lparr>pf_PaymentID := resolvePaymentID aid pid (pf_TransactionID p)\<rparr>)"
  by (simp add: h_paymentFailedLedgerEvents_def paymentFailedLedgerEvents_def resolvePaymentID_again)

lemma andThen_cong: "(\<And>x. m = Inr x \<Longrightarrow> f x = g x) \<Longrightarrow> andThen m f = andThen m g"
  by (cases m) simp_all

lemma h_succeeded: "h_paymentSucceededLedgerEvents clock fee (p\<lparr>ps_PaymentID := resolvePaymentID aid pid (ps_TransactionID p)\<rparr>) =
    paymentSucceededLedgerEvents clock (TrimSpace fee) (p\<lparr>ps_PaymentID := resolvePaymentID aid pid (ps_TransactionID p)\<rparr>)"
proof -
  have pid: "TrimSpace (psb_PaymentID b) = psb_PaymentID b" if "NewPaymentSucceededBooking i = Inr b" for i b
    using SucceededBooking_fields(11) [OF that] by (simp add: trimmed_iff)
  show ?thesis
    unfolding h_paymentSucceededLedgerEvents_def paymentSucceededLedgerEvents_def
    by (auto simp: resolvePaymentID_again pid intro!: andThen_cong)
qed

lemma h_reversed: "h_paymentReversedLedgerEvents clock fee pid tx key acc cur amt f typ t =
    paymentReversedLedgerEvents clock (TrimSpace fee) pid tx key acc cur amt f typ t"
proof -
  have p: "TrimSpace (prb_PaymentID b) = prb_PaymentID b" if "NewPaymentReversalBooking i = Inr b" for i b
    using ReversalBooking_fields(11) [OF that] by (simp add: trimmed_iff)
  show ?thesis
    unfolding h_paymentReversedLedgerEvents_def paymentReversedLedgerEvents_def
    by (auto simp: p intro!: andThen_cong)
qed

section \<open>What the events add to the balances\<close>

lemma batchDelta_append: "batchDelta k c (es @ fs) = batchDelta k c es + batchDelta k c fs"
  by (simp add: batchDelta_def)

lemma pair_delta:
  assumes p: "paymentPosting A tx ra pid B cur da t = Inr p" and q: "paymentPosting B tx rb pid A cur db t = Inr q"
    and AB: "trimmed A" "trimmed B"
    and sgn: "ra \<in> set creditTypes \<and> 0 \<le>s da \<or> ra \<in> set debitTypes \<and> da <s 0"
      "rb \<in> set creditTypes \<and> 0 \<le>s db \<or> rb \<in> set debitTypes \<and> db <s 0"
    and evts: "NewLedgerAccountEventFromPosting A p = Some e" "NewLedgerAccountEventFromPosting B q = Some f"
  shows "batchDelta k c [e, f] = (if c = ToUpper (TrimSpace cur) then (if k = A then da else if k = B then db else 0) else 0)"
    "validID A" "validID B" "A \<noteq> B"
proof -
  from AB have t: "TrimSpace A = A" "TrimSpace B = B" by (simp_all add: trimmed_iff)
  from paymentPosting_fields [OF p] paymentPosting_fields [OF q] t
  show v: "validID A" "validID B" and ne: "A \<noteq> B" by (auto simp: posting_ok_def validID_def)
  from posting_event_delta [OF p v(1) sgn(1), of c] evts(1) obtain d where d: "e = NewLedgerAccountEvent A ledgerType d"
    "deltaOf A c d = (if c = ToUpper (TrimSpace cur) then da else 0)" by auto
  from posting_event_delta [OF q v(2) sgn(2), of c] evts(2) obtain d' where d': "f = NewLedgerAccountEvent B ledgerType d'"
    "deltaOf B c d' = (if c = ToUpper (TrimSpace cur) then db else 0)" by auto
  show "batchDelta k c [e, f] = (if c = ToUpper (TrimSpace cur) then (if k = A then da else if k = B then db else 0) else 0)"
    using d d' t ne by (auto simp: batchDelta_def NewLedgerAccountEvent_def)
qed

lemma postingPair_events:
  assumes "postingPair A B tx ra rb pid cur da db t = Inr evts"
  obtains p q e f where "paymentPosting A tx ra pid B cur da t = Inr p" "paymentPosting B tx rb pid A cur db t = Inr q"
    "NewLedgerAccountEventFromPosting A p = Some e" "NewLedgerAccountEventFromPosting B q = Some f" "evts = [e, f]"
  using assms by (auto simp: postingPair_def newPaymentPosting_def paymentPosting_def split: option.splits)

lemma booking_events:
  assumes "paymentLedgerEventsFromBooking clock tx pid cur amt D C dref cref t0 = Inr evts"
  obtains t p q e f where "paymentPosting D tx dref pid C cur (- amt) t = Inr p" "paymentPosting C tx cref pid D cur amt t = Inr q"
    "NewLedgerAccountEventFromPosting D p = Some e" "NewLedgerAccountEventFromPosting C q = Some f" "evts = [e, f]"
  using assms by (auto simp: paymentLedgerEventsFromBooking_def paymentPosting_def Let_def split: option.splits)

lemma signs:
  assumes "0 < sint (amt :: int64)"
  shows "0 \<le>s amt" "- amt <s 0"
  using assms sint_neg64_fits [of amt] sint64_range [of amt] by (auto simp: word_sle_eq word_sless_alt fits64_def)

text \<open>A pair of postings that takes \<open>amt\<close> from one account to the other.\<close>

lemma pair_moves:
  assumes pair: "postingPair A B tx ra rb pid cur da db t = Inr evts" and AB: "trimmed A" "trimmed B" and amt: "0 < sint amt"
    and dir: "ra \<in> set debitTypes \<and> rb \<in> set creditTypes \<and> da = - amt \<and> db = amt \<and> D = A \<and> C = B \<or>
      ra \<in> set creditTypes \<and> rb \<in> set debitTypes \<and> da = amt \<and> db = - amt \<and> D = B \<and> C = A"
  shows "length evts = 2 \<and> D \<noteq> C \<and> batchDelta k c evts = movementDelta D C (ToUpper (TrimSpace cur)) amt k c"
proof -
  from signs [OF amt] dir have sgn: "ra \<in> set creditTypes \<and> 0 \<le>s da \<or> ra \<in> set debitTypes \<and> da <s 0"
    "rb \<in> set creditTypes \<and> 0 \<le>s db \<or> rb \<in> set debitTypes \<and> db <s 0" by auto
  from pair obtain p q e f where pq: "paymentPosting A tx ra pid B cur da t = Inr p" "paymentPosting B tx rb pid A cur db t = Inr q"
    "NewLedgerAccountEventFromPosting A p = Some e" "NewLedgerAccountEventFromPosting B q = Some f" and evts: "evts = [e, f]"
    by (rule postingPair_events)
  from pair_delta(1) [OF pq(1,2) AB sgn pq(3,4), of k c] pair_delta(4) [OF pq(1,2) AB sgn pq(3,4)] dir show ?thesis by (auto simp: evts movementDelta_def)
qed

lemma booking_moves:
  assumes b: "paymentLedgerEventsFromBooking clock tx pid cur amt D C dref cref t = Inr evts" and DC: "trimmed D" "trimmed C"
    and amt: "0 < sint amt" and ref: "dref \<in> set debitTypes" "cref \<in> set creditTypes"
  shows "length evts = 2 \<and> D \<noteq> C \<and> batchDelta k c evts = movementDelta D C (ToUpper (TrimSpace cur)) amt k c"
proof -
  from b obtain t' p q e f where pq: "paymentPosting D tx dref pid C cur (- amt) t' = Inr p" "paymentPosting C tx cref pid D cur amt t' = Inr q"
    "NewLedgerAccountEventFromPosting D p = Some e" "NewLedgerAccountEventFromPosting C q = Some f" and evts: "evts = [e, f]"
    by (rule booking_events)
  from signs [OF amt] ref have sgn: "dref \<in> set creditTypes \<and> 0 \<le>s - amt \<or> dref \<in> set debitTypes \<and> - amt <s 0"
    "cref \<in> set creditTypes \<and> 0 \<le>s amt \<or> cref \<in> set debitTypes \<and> amt <s 0" by auto
  from pair_delta(1) [OF pq(1,2) DC sgn pq(3,4), of k c] pair_delta(4) [OF pq(1,2) DC sgn pq(3,4)] show ?thesis by (auto simp: evts movementDelta_def)
qed

text \<open>The fee of a payment, when there is an account for it.\<close>

definition feeDelta :: "string \<Rightarrow> int64 \<Rightarrow> string \<Rightarrow> string \<Rightarrow> string \<Rightarrow> string \<Rightarrow> string \<Rightarrow> int64" where
  "feeDelta feeAcc fee D C cur k c = (if 0 <s fee \<and> feeAcc \<noteq> [] then movementDelta D C cur fee k c else 0)"


lemma sless_sint: "0 <s (fee :: int64) \<longleftrightarrow> 0 < sint fee"
  by (simp add: word_sless_alt)

lemma hold_types:
  "EventNameLedgerAccountReserveWithdrawal \<in> set debitTypes" "EventNameLedgerAccountReceiveWithdrawalHold \<in> set creditTypes"
  "EventNameLedgerAccountReleaseWithdrawal \<in> set creditTypes" "EventNameLedgerAccountWithdrawReleasedHold \<in> set debitTypes"
  "EventNameLedgerAccountWithdrawFromIntent \<in> set debitTypes" "EventNameLedgerAccountDepositFromIntent \<in> set creditTypes"
  by (simp_all add: debitTypes_def creditTypes_def)

lemma clearing_always_trimmed: "TrimSpace key \<noteq> [] \<Longrightarrow> trimmed (ledgerClearingAccountID key)"
  by (rule clearing_trimmed)

lemma withFee:
  "(if P then andThen fee (\<lambda>fs. Inr (es @ fs)) else Inr es) = Inr evts \<longleftrightarrow>
     (\<exists>fs. (if P then fee = Inr fs else fs = []) \<and> evts = es @ fs)"
  by (cases P) auto

text \<open>A withdrawal request holds the amount on the clearing account and the fee on the fee account.\<close>

lemma requested_delta:
  assumes "paymentWithdrawalRequestedLedgerEvents feeAcc p = Inr evts" "trimmed feeAcc" "0 < sint (pw_Amount p)"
    "TrimSpace (pw_ClearingAccountKey p) \<noteq> []"
  shows "length evts \<le> 4 \<and> TrimSpace (pw_DebitAccountID p) \<noteq> ledgerClearingAccountID (pw_ClearingAccountKey p) \<and>
    (0 <s pw_FeeAmount p \<and> feeAcc \<noteq> [] \<longrightarrow> TrimSpace (pw_DebitAccountID p) \<noteq> feeAcc) \<and> batchDelta k c evts =
    movementDelta (TrimSpace (pw_DebitAccountID p)) (ledgerClearingAccountID (pw_ClearingAccountKey p)) (ToUpper (TrimSpace (pw_Currency p))) (pw_Amount p) k c +
    feeDelta feeAcc (pw_FeeAmount p) (TrimSpace (pw_DebitAccountID p)) feeAcc (ToUpper (TrimSpace (pw_Currency p))) k c"
proof -
  let ?pid = "resolvePaymentEventID (pw_PaymentID p) (pw_TransactionID p)" and ?D = "TrimSpace (pw_DebitAccountID p)"
    and ?K = "ledgerClearingAccountID (pw_ClearingAccountKey p)"
  have K: "ledgerClearingAccountID (FirstNonEmpty [TrimSpace (pw_ClearingAccountKey p), providerClearingAccountKey (pw_Provider p)]) = ?K"
    using assms(4) by (simp add: ledgerClearingAccountID_def)
  from assms(1) obtain pr fs where pr: "postingPair ?D ?K (''payment:'' @ ?pid @ '':withdrawal:principal'') EventNameLedgerAccountReserveWithdrawal
      EventNameLedgerAccountReceiveWithdrawalHold ?pid (pw_Currency p) (- pw_Amount p) (pw_Amount p) (pw_RequestedAt p) = Inr pr"
    and fs: "if 0 <s pw_FeeAmount p \<and> feeAcc \<noteq> [] then postingPair ?D feeAcc (''payment:'' @ ?pid @ '':withdrawal:fee'')
      EventNameLedgerAccountReserveWithdrawal EventNameLedgerAccountReceiveWithdrawalHold ?pid (pw_Currency p)
      (- pw_FeeAmount p) (pw_FeeAmount p) (pw_RequestedAt p) = Inr fs else fs = []"
    and evts: "evts = pr @ fs"
    unfolding paymentWithdrawalRequestedLedgerEvents_def K Let_def andThen_eq_Inr withFee by blast
  have "length pr = 2 \<and> ?D \<noteq> ?K \<and> batchDelta k c pr = movementDelta ?D ?K (ToUpper (TrimSpace (pw_Currency p))) (pw_Amount p) k c"
    by (rule pair_moves [OF pr _ _ assms(3)]) (use clearing_always_trimmed [OF assms(4)] in \<open>simp_all add: hold_types\<close>)
  moreover have "length fs \<le> 2 \<and> (0 <s pw_FeeAmount p \<and> feeAcc \<noteq> [] \<longrightarrow> ?D \<noteq> feeAcc) \<and> batchDelta k c fs = feeDelta feeAcc (pw_FeeAmount p) ?D feeAcc (ToUpper (TrimSpace (pw_Currency p))) k c"
  proof (cases "0 <s pw_FeeAmount p \<and> feeAcc \<noteq> []")
    case True
    with fs have "postingPair ?D feeAcc (''payment:'' @ ?pid @ '':withdrawal:fee'') EventNameLedgerAccountReserveWithdrawal
      EventNameLedgerAccountReceiveWithdrawalHold ?pid (pw_Currency p) (- pw_FeeAmount p) (pw_FeeAmount p) (pw_RequestedAt p) = Inr fs" by simp
    from pair_moves [OF this _ assms(2), of "pw_FeeAmount p" ?D feeAcc k c] True show ?thesis
      by (simp add: hold_types sless_sint feeDelta_def)
  qed (use fs in \<open>auto simp: feeDelta_def batchDelta_def\<close>)
  ultimately show ?thesis by (simp add: evts batchDelta_append)
qed

text \<open>A failed withdrawal takes both back.\<close>

lemma failed_delta:
  assumes "paymentFailedLedgerEvents feeAcc p = Inr evts" "trimmed feeAcc" "0 < sint (pf_Amount p)"
    "TrimSpace (pf_ClearingAccountKey p) \<noteq> []" "NormalizePaymentWorkflow (pf_Workflow p) = PaymentWorkflowWithdrawal"
  shows "length evts \<le> 4 \<and> batchDelta k c evts =
    movementDelta (ledgerClearingAccountID (pf_ClearingAccountKey p)) (TrimSpace (pf_DebitAccountID p)) (ToUpper (TrimSpace (pf_Currency p))) (pf_Amount p) k c +
    feeDelta feeAcc (pf_FeeAmount p) feeAcc (TrimSpace (pf_DebitAccountID p)) (ToUpper (TrimSpace (pf_Currency p))) k c"
proof -
  let ?pid = "resolvePaymentEventID (pf_PaymentID p) (pf_TransactionID p)" and ?D = "TrimSpace (pf_DebitAccountID p)"
    and ?K = "ledgerClearingAccountID (pf_ClearingAccountKey p)"
  from assms(1,5) obtain pr fs where pr: "postingPair ?D ?K (''payment:'' @ ?pid @ '':withdrawal:principal:failed'') EventNameLedgerAccountReleaseWithdrawal
      EventNameLedgerAccountWithdrawReleasedHold ?pid (pf_Currency p) (pf_Amount p) (- pf_Amount p) (pf_OccurredAt p) = Inr pr"
    and fs: "if 0 <s pf_FeeAmount p \<and> feeAcc \<noteq> [] then postingPair ?D feeAcc (''payment:'' @ ?pid @ '':withdrawal:fee:failed'')
      EventNameLedgerAccountReleaseWithdrawal EventNameLedgerAccountWithdrawReleasedHold ?pid (pf_Currency p)
      (pf_FeeAmount p) (- pf_FeeAmount p) (pf_OccurredAt p) = Inr fs else fs = []"
    and evts: "evts = pr @ fs"
    unfolding paymentFailedLedgerEvents_def Let_def assms(5) not_True_eq_False simp_thms if_False andThen_eq_Inr withFee by blast
  have "length pr = 2 \<and> ?K \<noteq> ?D \<and> batchDelta k c pr = movementDelta ?K ?D (ToUpper (TrimSpace (pf_Currency p))) (pf_Amount p) k c"
    by (rule pair_moves [OF pr _ _ assms(3)]) (use clearing_always_trimmed [OF assms(4)] in \<open>simp_all add: hold_types\<close>)
  moreover have "length fs \<le> 2 \<and> batchDelta k c fs = feeDelta feeAcc (pf_FeeAmount p) feeAcc ?D (ToUpper (TrimSpace (pf_Currency p))) k c"
  proof (cases "0 <s pf_FeeAmount p \<and> feeAcc \<noteq> []")
    case True
    with fs have "postingPair ?D feeAcc (''payment:'' @ ?pid @ '':withdrawal:fee:failed'') EventNameLedgerAccountReleaseWithdrawal
      EventNameLedgerAccountWithdrawReleasedHold ?pid (pf_Currency p) (pf_FeeAmount p) (- pf_FeeAmount p) (pf_OccurredAt p) = Inr fs" by simp
    from pair_moves [OF this _ assms(2), of "pf_FeeAmount p" feeAcc ?D k c] True show ?thesis
      by (simp add: hold_types sless_sint feeDelta_def)
  qed (use fs in \<open>auto simp: feeDelta_def batchDelta_def\<close>)
  ultimately show ?thesis by (simp add: evts batchDelta_append)
qed

lemma movement_back: "movementDelta D C cur amt k c + movementDelta C D cur amt k c = 0" if "D \<noteq> C"
  using that by (auto simp: movementDelta_def)


text \<open>A succeeded top-up moves the amount and the fee out of the clearing account.\<close>

lemma succeeded_delta:
  assumes "paymentSucceededLedgerEvents clock feeAcc p = Inr evts" "trimmed feeAcc"
    "NormalizePaymentWorkflow (ps_Workflow p) \<noteq> PaymentWorkflowWithdrawal"
  shows "length evts \<in> {2, 4} \<and> batchDelta k c evts =
    movementDelta (ledgerClearingAccountID (ps_ClearingAccountKey p)) (TrimSpace (ps_CreditAccountID p)) (ToUpper (TrimSpace (ps_Currency p))) (ps_Amount p) k c +
    feeDelta feeAcc (ps_FeeAmount p) (ledgerClearingAccountID (ps_ClearingAccountKey p)) feeAcc (ToUpper (TrimSpace (ps_Currency p))) k c"
proof -
  from assms(1,3) obtain b pr fs where b: "NewPaymentSucceededBooking
      \<lparr>psi_PaymentID = resolvePaymentEventID (ps_PaymentID p) (ps_TransactionID p), psi_TransactionID = ps_TransactionID p,
       psi_ClearingAccountKey = ps_ClearingAccountKey p, psi_CreditAccountID = ps_CreditAccountID p,
       psi_Currency = ps_Currency p, psi_Amount = ps_Amount p\<rparr> = Inr b"
    and pr: "paymentLedgerEventsFromBooking clock (SucceededBooking_LedgerTransactionID b) (psb_PaymentID b)
          (psb_Currency b) (psb_Amount b) (psb_DebitAccountID b) (psb_CreditAccountID b)
          EventNameLedgerAccountWithdrawFromIntent EventNameLedgerAccountDepositFromIntent (ps_SucceededAt p) = Inr pr"
    and fs: "if 0 <s ps_FeeAmount p \<and> feeAcc \<noteq> [] then
          paymentLedgerEventsFromBooking clock (''payment:'' @ psb_PaymentID b @ '':succeeded:fee'') (psb_PaymentID b)
            (psb_Currency b) (ps_FeeAmount p) (ledgerClearingAccountID (ps_ClearingAccountKey p)) feeAcc
            EventNameLedgerAccountWithdrawFromIntent EventNameLedgerAccountDepositFromIntent (ps_SucceededAt p) = Inr fs else fs = []"
    and evts: "evts = pr @ fs"
    unfolding paymentSucceededLedgerEvents_def if_not_P [OF assms(3)] andThen_eq_Inr withFee by blast
  note f = SucceededBooking_fields [OF b, simplified]
  have K: "trimmed (ledgerClearingAccountID (ps_ClearingAccountKey p))" using f(5) by (rule clearing_always_trimmed)
  have cur: "ToUpper (TrimSpace (psb_Currency b)) = ToUpper (TrimSpace (ps_Currency p))" using f(3) by simp
  from pr f have "length pr = 2 \<and> batchDelta k c pr = movementDelta (ledgerClearingAccountID (ps_ClearingAccountKey p)) (TrimSpace (ps_CreditAccountID p))
      (ToUpper (TrimSpace (ps_Currency p))) (ps_Amount p) k c"
    using booking_moves [of clock "SucceededBooking_LedgerTransactionID b" "psb_PaymentID b" "psb_Currency b" "psb_Amount b" _ _
      EventNameLedgerAccountWithdrawFromIntent EventNameLedgerAccountDepositFromIntent _ pr k c] K cur by (simp add: hold_types)
  moreover have "length fs \<in> {0, 2} \<and> batchDelta k c fs = feeDelta feeAcc (ps_FeeAmount p) (ledgerClearingAccountID (ps_ClearingAccountKey p)) feeAcc
      (ToUpper (TrimSpace (ps_Currency p))) k c"
  proof (cases "0 <s ps_FeeAmount p \<and> feeAcc \<noteq> []")
    case True
    with fs have "paymentLedgerEventsFromBooking clock (''payment:'' @ psb_PaymentID b @ '':succeeded:fee'') (psb_PaymentID b)
            (psb_Currency b) (ps_FeeAmount p) (ledgerClearingAccountID (ps_ClearingAccountKey p)) feeAcc
            EventNameLedgerAccountWithdrawFromIntent EventNameLedgerAccountDepositFromIntent (ps_SucceededAt p) = Inr fs" by simp
    from booking_moves [OF this K assms(2), of k c] True cur show ?thesis by (simp add: hold_types sless_sint feeDelta_def)
  qed (use fs in \<open>auto simp: feeDelta_def batchDelta_def\<close>)
  ultimately show ?thesis by (auto simp: evts batchDelta_append)
qed

lemma reversal_refs:
  assumes "r = EventPaymentRefunded \<or> r = EventPaymentChargeback"
  shows "debitLedgerEventNameForReversal r \<in> set debitTypes" "creditLedgerEventNameForReversal r \<in> set creditTypes"
  using assms by (auto simp: debitLedgerEventNameForReversal_def creditLedgerEventNameForReversal_def debitTypes_def creditTypes_def)

text \<open>A refund or chargeback moves its amount and the fee back.\<close>

lemma reversed_delta:
  assumes "paymentReversedLedgerEvents clock feeAcc pid tx key acc cur amt fee typ t = Inr evts" "trimmed feeAcc"
    "typ = EventPaymentRefunded \<or> typ = EventPaymentChargeback"
  shows "length evts \<in> {2, 4} \<and> batchDelta k c evts =
    movementDelta (TrimSpace acc) (ledgerClearingAccountID key) (ToUpper (TrimSpace cur)) amt k c +
    feeDelta feeAcc fee feeAcc (ledgerClearingAccountID key) (ToUpper (TrimSpace cur)) k c"
proof -
  from assms(1) obtain b pr fs where b: "NewPaymentReversalBooking
      \<lparr>pri_PaymentID = pid, pri_TransactionID = tx, pri_ClearingAccountKey = key, pri_CreditAccountID = acc,
       pri_Currency = cur, pri_Amount = amt, pri_ReversalType = typ\<rparr> = Inr b"
    and pr: "paymentLedgerEventsFromBooking clock (ReversalBooking_LedgerTransactionID b) (prb_PaymentID b)
       (prb_Currency b) (prb_Amount b) (prb_DebitAccountID b) (prb_CreditAccountID b)
       (debitLedgerEventNameForReversal (prb_ReversalType b)) (creditLedgerEventNameForReversal (prb_ReversalType b)) t = Inr pr"
    and fs: "if 0 <s fee \<and> feeAcc \<noteq> [] then
       paymentLedgerEventsFromBooking clock (''payment:'' @ prb_PaymentID b @ '':'' @ reversalSuffix typ @ '':fee'')
         (prb_PaymentID b) (prb_Currency b) fee feeAcc (ledgerClearingAccountID key)
         (debitLedgerEventNameForReversal typ) (creditLedgerEventNameForReversal typ) t = Inr fs else fs = []"
    and evts: "evts = pr @ fs"
    unfolding paymentReversedLedgerEvents_def andThen_eq_Inr withFee by blast
  note f = ReversalBooking_fields [OF b, simplified]
  have K: "trimmed (ledgerClearingAccountID key)" using f(5) by (rule clearing_always_trimmed)
  have cur: "ToUpper (TrimSpace (prb_Currency b)) = ToUpper (TrimSpace cur)" using f(3) by simp
  have rt: "prb_ReversalType b = EventPaymentRefunded \<or> prb_ReversalType b = EventPaymentChargeback" using ReversalBooking_type [OF b] by simp
  from booking_moves [OF pr _ _ _ reversal_refs [OF rt], of k c] f K cur
  have "length pr = 2 \<and> batchDelta k c pr = movementDelta (TrimSpace acc) (ledgerClearingAccountID key) (ToUpper (TrimSpace cur)) amt k c" by simp
  moreover have "length fs \<in> {0, 2} \<and> batchDelta k c fs = feeDelta feeAcc fee feeAcc (ledgerClearingAccountID key) (ToUpper (TrimSpace cur)) k c"
  proof (cases "0 <s fee \<and> feeAcc \<noteq> []")
    case True
    with fs have "paymentLedgerEventsFromBooking clock (''payment:'' @ prb_PaymentID b @ '':'' @ reversalSuffix typ @ '':fee'')
         (prb_PaymentID b) (prb_Currency b) fee feeAcc (ledgerClearingAccountID key)
         (debitLedgerEventNameForReversal typ) (creditLedgerEventNameForReversal typ) t = Inr fs" by simp
    from booking_moves [OF this assms(2) K _ reversal_refs [OF assms(3)], of k c] True cur show ?thesis by (simp add: sless_sint feeDelta_def)
  qed (use fs in \<open>auto simp: feeDelta_def batchDelta_def\<close>)
  ultimately show ?thesis by (auto simp: evts batchDelta_append)
qed


section \<open>Batches of new postings\<close>

lemma settled_MarkPersisted: "settled (MarkPersisted a) d = settled a d"
  by (simp add: settled_def MarkPersisted_def)

text \<open>
  \<open>bookable accounts e tx\<close>: the event posts, under the transaction \<open>tx\<close> that its account does not have yet, with a
  reference type that may overdraw.
\<close>

definition bookable :: "loadedLedgerAccounts \<Rightarrow> LedgerEvent Event \<times> string \<Rightarrow> bool" where
  "bookable accounts e \<longleftrightarrow> (\<exists>a p. accounts (TrimSpace (ev_AggregateID (fst e))) = Some a \<and> account_ok a \<and>
     previewLedgerPostingFromEvent (aggregateID a) (ev_EventData (fst e)) = Inr (Some p) \<and> p_TransactionID p = snd e \<and>
     PostedTransactions a (snd e) = None \<and> \<not> requiresNonNegativeBalance (p_ReferenceType p))"

lemma applyEvents_bookable:
  assumes "\<forall>e\<in>set ets. bookable accounts e" "distinct (map (\<lambda>e. (TrimSpace (ev_AggregateID (fst e)), snd e)) ets)"
  shows "\<exists>order' accounts'. applyEvents accounts seen order n (map fst ets) = Inr (n + length ets, order', accounts')"
  using assms
proof (induction ets arbitrary: accounts seen order n)
  case (Cons e ets)
  let ?k = "TrimSpace (ev_AggregateID (fst e))"
  from Cons.prems(1) obtain a p where a: "accounts ?k = Some a" "account_ok a"
    "previewLedgerPostingFromEvent (aggregateID a) (ev_EventData (fst e)) = Inr (Some p)" "p_TransactionID p = snd e"
    "PostedTransactions a (snd e) = None" "\<not> requiresNonNegativeBalance (p_ReferenceType p)"
    by (auto simp: bookable_def)
  then have ap: "ApplyPostingEvent a (ev_EventData (fst e)) = (Inr True, postTo a (ev_EventData (fst e)) p)"
    using runOp_eq [of a "OpApplyPostingEvent (ev_EventData (fst e))"] by (simp add: opPosting_def postOnce_def overdraws_def)
  let ?accounts = "accounts(?k \<mapsto> postTo a (ev_EventData (fst e)) p)"
  have "\<forall>x\<in>set ets. bookable ?accounts x"
  proof
    fix x assume x: "x \<in> set ets"
    with Cons.prems(1) obtain b q where b: "accounts (TrimSpace (ev_AggregateID (fst x))) = Some b" "account_ok b"
      "previewLedgerPostingFromEvent (aggregateID b) (ev_EventData (fst x)) = Inr (Some q)" "p_TransactionID q = snd x"
      "PostedTransactions b (snd x) = None" "\<not> requiresNonNegativeBalance (p_ReferenceType q)"
      by (auto simp: bookable_def)
    show "bookable ?accounts x"
    proof (cases "TrimSpace (ev_AggregateID (fst x)) = ?k")
      case True
      with Cons.prems(2) x have "snd x \<noteq> snd e" by (auto simp: image_iff)
      with True a b show ?thesis
        unfolding bookable_def by (intro exI [of _ "postTo a (ev_EventData (fst e)) p"] exI [of _ q]) (auto simp: account_ok_def)
    next
      case False
      with b show ?thesis unfolding bookable_def by (intro exI [of _ b] exI [of _ q]) auto
    qed
  qed
  note post = this
  from Cons.prems(2) have "distinct (map (\<lambda>e. (TrimSpace (ev_AggregateID (fst e)), snd e)) ets)" by simp
  from Cons.IH [OF post this, of "seen - {?k}" "if ?k \<in> seen then order @ [?k] else order" "n + 1"]
  obtain order' accounts' where "applyEvents ?accounts (seen - {?k}) (if ?k \<in> seen then order @ [?k] else order) (n + 1) (map fst ets) =
      Inr (n + 1 + length ets, order', accounts')" by blast
  with a(1) ap have "applyEvents accounts seen order n (map fst (e # ets)) = Inr (n + length (e # ets), order', accounts')"
    by (simp add: Let_def)
  then show ?case by blast
qed simp

context account_repository
begin

lemma RecordLedgerEvents_bookable:
  assumes "ok db" "length ets \<le> 100" "distinct (map (\<lambda>e. (TrimSpace (ev_AggregateID (fst e)), snd e)) ets)" "ets \<noteq> []"
    and book: "\<forall>e\<in>set ets. validID (TrimSpace (ev_AggregateID (fst e))) \<and> bookable (\<lambda>k. Some (stored db k)) e"
  shows "\<exists>db'. RecordLedgerEvents repos now (map fst ets) db = (Inr (), db') \<and> ok db' \<and>
    (\<forall>k cur. validID k \<longrightarrow> balanceIn (stored db' k) cur = balanceIn (stored db k) cur + batchDelta k cur (map fst ets))"
proof -
  have app: "\<exists>order accounts'. applyEvents accounts (set ids) [] 0 (map fst ets) = Inr (length (map fst ets), order, accounts')"
    if ids: "set ids = (\<lambda>e. TrimSpace (ev_AggregateID e)) ` set (map fst ets)"
      and acc: "\<forall>k. accounts k = (if k \<in> set ids then Some (stored db k) else None)" for ids accounts
  proof -
    have "bookable accounts e" if e: "e \<in> set ets" for e
    proof -
      from e ids acc have "accounts (TrimSpace (ev_AggregateID (fst e))) = Some (stored db (TrimSpace (ev_AggregateID (fst e))))" by simp
      with book e show ?thesis by (simp add: bookable_def)
    qed
    then have "\<forall>e\<in>set ets. bookable accounts e" by blast
    from applyEvents_bookable [OF this assms(3), of "set ids" "[]" 0] show ?thesis by simp
  qed
  have "\<exists>db'. RecordLedgerEvents repos now (map fst ets) db = (Inr (), db')"
    by (rule RecordLedgerEvents_applied [OF assms(1) _ _ app]) (use assms(2) book in auto)
  then obtain db' where db': "RecordLedgerEvents repos now (map fst ets) db = (Inr (), db')" by blast
  from assms(2) have len: "length (map fst ets) \<le> 100" by simp
  note st = RecordLedgerEvents_stored [OF assms(1) len db']
  from assms(4) obtain e where e: "e \<in> set ets" by (cases ets) auto
  let ?k = "TrimSpace (ev_AggregateID (fst e))"
  have "db' \<noteq> db"
  proof
    assume "db' = db"
    with st book e have same: "stored db ?k = MarkPersisted (runOps (stored db ?k) (opsFor ?k (map fst ets)))" by auto
    from book e stored_inv [OF assms(1), of ?k] have ni: "PostedTransactions (stored db ?k) (snd e) = None" "ledger_inv (stored db ?k)"
      by (auto simp: bookable_def)
    define ids where "ids = map (\<lambda>e. TrimSpace (ev_AggregateID e)) (map fst ets)"
    define accounts where "accounts = (\<lambda>k. if k \<in> set ids then Some (stored db k) else None)"
    have x: "set ids = (\<lambda>e. TrimSpace (ev_AggregateID e)) ` set (map fst ets)" "\<forall>k. accounts k = (if k \<in> set ids then Some (stored db k) else None)"
      by (auto simp: ids_def accounts_def)
    from app [OF this] obtain order accounts' where r: "applyEvents accounts (set ids) [] 0 (map fst ets) = Inr (length (map fst ets), order, accounts')" by blast
    have "accounts' ?k = Some (runOps (stored db ?k) (opsFor ?k (map fst ets)))"
      using applyEvents_runs [OF r, of ?k] x e by simp
    moreover have "\<forall>a\<in>ran accounts. ledger_inv a"
      using x book stored_inv [OF assms(1)] by (auto simp: ran_def split: if_splits)
    ultimately have "settled (runOps (stored db ?k) (opsFor ?k (map fst ets))) (ev_EventData (fst e))"
      using applyEvents_settled [OF r, of "fst e"] e by simp
    with same have "settled (stored db ?k) (ev_EventData (fst e))" by (metis settled_MarkPersisted)
    with ni book e stored_inv [OF assms(1), of ?k] show False by (auto simp: bookable_def settled_def)
  qed
  with RecordLedgerEvents_all_or_nothing [OF assms(1) len db'] st db' show ?thesis by blast
qed

end


text \<open>A booking between two accounts is expressed as two events that can be recorded.\<close>

lemma booking_posting:
  assumes "validID acc" "validID cp" "acc \<noteq> cp" "validID pid" "validID tx" "ref \<in> set postingReferenceTypes" "delta \<noteq> 0"
    "TrimSpace cur \<noteq> []" "\<not> IsZero t"
    and sgn: "ref \<in> set creditTypes \<and> 0 \<le>s delta \<or> ref \<in> set debitTypes \<and> delta <s 0"
  obtains p d where "paymentPosting acc tx ref pid cp cur delta t = Inr p" "p_TransactionID p = tx" "p_ReferenceType p = ref"
    "NewLedgerAccountEventFromPosting acc p = Some (NewLedgerAccountEvent acc ledgerType d)"
    "previewLedgerPostingFromEvent acc d = Inr (Some p)"
proof -
  have "TrimSpace ref = ref" using assms(6) by (intro TrimSpace_trimmed trimmed_referenceType)
  then obtain p where p: "paymentPosting acc tx ref pid cp cur delta t = Inr p"
    using NewLedgerAccountPaymentPosting_ok [OF _ refl, of "\<lparr>pi_AccountID = acc, pi_TransactionID = tx, pi_ReferenceType = ref,
      pi_ReferenceID = pid, pi_CounterpartyAccountID = cp, pi_Currency = cur, pi_AmountDelta = delta, pi_BookedAt = t\<rparr>"] assms
    by (auto simp: posting_ok_def paymentPosting_def validID_def trimmed_iff)
  from paymentPosting_fields [OF p] assms(5) \<open>TrimSpace ref = ref\<close> have f: "p_TransactionID p = tx" "p_ReferenceType p = ref"
    by (simp_all add: validID_def trimmed_iff)
  from preview_payment [OF p _ sgn] assms(1) obtain d where d: "newLedgerPaymentEvent p = Some d"
    "previewLedgerPostingFromEvent acc d = Inr (Some p)" by (auto simp: validID_def)
  from d(1) assms(1) have "NewLedgerAccountEventFromPosting acc p = Some (NewLedgerAccountEvent acc ledgerType d)"
    by (simp add: NewLedgerAccountEventFromPosting_def validID_def)
  from that [OF p f this d(2)] show thesis .
qed

lemma booking_bookable:
  assumes v: "validID D" "validID C" "D \<noteq> C" "validID pid" "validID tx"
    and ref: "dref \<in> set debitTypes" "cref \<in> set creditTypes" "\<not> requiresNonNegativeBalance dref" "\<not> requiresNonNegativeBalance cref"
    and amt: "0 < sint amt" and cur: "TrimSpace cur \<noteq> []" and t: "\<not> IsZero t \<or> \<not> IsZero clock"
    and st: "\<And>k. validID k \<Longrightarrow> account_ok (st k) \<and> aggregateID (st k) = k"
    and new: "PostedTransactions (st D) tx = None" "PostedTransactions (st C) tx = None"
  obtains e f where "paymentLedgerEventsFromBooking clock tx pid cur amt D C dref cref t = Inr [e, f]"
    "TrimSpace (ev_AggregateID e) = D" "TrimSpace (ev_AggregateID f) = C"
    "bookable (\<lambda>k. Some (st k)) (e, tx)" "bookable (\<lambda>k. Some (st k)) (f, tx)"
proof -
  define t' where "t' = (if IsZero t then UTC clock else t)"
  have t': "\<not> IsZero t'" using t by (auto simp: t'_def)
  have rt: "dref \<in> set postingReferenceTypes" "cref \<in> set postingReferenceTypes"
    using ref(1,2) by (auto simp: creditTypes_def debitTypes_def postingReferenceTypes_def)
  have nz: "amt \<noteq> 0" "- amt \<noteq> 0" using amt by auto
  obtain p d where p: "paymentPosting D tx dref pid C cur (- amt) t' = Inr p" "p_TransactionID p = tx" "p_ReferenceType p = dref"
    "NewLedgerAccountEventFromPosting D p = Some (NewLedgerAccountEvent D ledgerType d)" "previewLedgerPostingFromEvent D d = Inr (Some p)"
    by (rule booking_posting [OF v(1-5) rt(1) nz(2) cur t']) (use ref signs [OF amt] in auto)
  obtain q e where q: "paymentPosting C tx cref pid D cur amt t' = Inr q" "p_TransactionID q = tx" "p_ReferenceType q = cref"
    "NewLedgerAccountEventFromPosting C q = Some (NewLedgerAccountEvent C ledgerType e)" "previewLedgerPostingFromEvent C e = Inr (Some q)"
    by (rule booking_posting [OF v(2,1) v(3) [symmetric] v(4,5) rt(2) nz(1) cur t']) (use ref signs [OF amt] in auto)
  have tr: "TrimSpace D = D" "TrimSpace C = C" using v by (simp_all add: validID_def trimmed_iff)
  have "bookable (\<lambda>k. Some (st k)) (NewLedgerAccountEvent D ledgerType d, tx)"
    "bookable (\<lambda>k. Some (st k)) (NewLedgerAccountEvent C ledgerType e, tx)"
    using st [OF v(1)] st [OF v(2)] new p q tr ref(3,4) unfolding bookable_def by (auto simp: NewLedgerAccountEvent_def)
  moreover have "paymentLedgerEventsFromBooking clock tx pid cur amt D C dref cref t =
      Inr [NewLedgerAccountEvent D ledgerType d, NewLedgerAccountEvent C ledgerType e]"
    using p q by (simp add: paymentLedgerEventsFromBooking_def paymentPosting_def t'_def Let_def)
  ultimately show thesis using tr
    by (intro that [of "NewLedgerAccountEvent D ledgerType d" "NewLedgerAccountEvent C ledgerType e"]) (simp_all add: NewLedgerAccountEvent_def)
qed

section \<open>The consumer under the Redis lock\<close>

text \<open>
  The consumer as the program configures it: the ledger service on the event store, the Redis lock beside
  the database. The store of reconciliation failures is not part of this state; \<open>rec\<close> is its answer.
\<close>

definition ledgerConsumer ::
  "nat \<Rightarrow> int \<Rightarrow> (RecordPaymentReconciliationFailedCommand \<Rightarrow> error + unit) \<Rightarrow> string \<Rightarrow> (error \<Rightarrow> string) \<Rightarrow> (keyspace \<times> LedgerDB) messageHandler" where
  "ledgerConsumer n now rec fee errText =
     \<lparr>mh_record = (\<lambda>evts. onSecond (RecordLedgerEvents ledgerRepos now evts)), mh_reconcile = (\<lambda>command s. (rec command, s)),
      mh_locker = redisLock n, mh_feeAccountID = fee, mh_errorText = errText\<rparr>"

text \<open>Messages as the payment module publishes them: decoding gives back what was encoded.\<close>

definition payloadDecoders :: "PaymentEvent PayloadDecoders" where
  "payloadDecoders =
     \<lparr>unmarshalWithdrawalRequested = (\<lambda>d. case d of PaymentWithdrawalRequested p \<Rightarrow> Inr p | _ \<Rightarrow> Inl (Errorf ''json'' [])),
      unmarshalSucceeded = (\<lambda>d. case d of PaymentSucceeded p \<Rightarrow> Inr p | _ \<Rightarrow> Inl (Errorf ''json'' [])),
      unmarshalFailed = (\<lambda>d. case d of PaymentFailed p \<Rightarrow> Inr p | _ \<Rightarrow> Inl (Errorf ''json'' [])),
      unmarshalRefunded = (\<lambda>d. case d of PaymentRefunded p \<Rightarrow> Inr p | _ \<Rightarrow> Inl (Errorf ''json'' [])),
      unmarshalChargeback = (\<lambda>d. case d of PaymentChargeback p \<Rightarrow> Inr p | _ \<Rightarrow> Inl (Errorf ''json'' []))\<rparr>"

definition outboxMessage :: "string \<Rightarrow> PaymentEvent \<Rightarrow> PaymentEvent OutboxMessage" where
  "outboxMessage aid d = \<lparr>om_AggregateID = aid, om_EventName = paymentEventName d, om_EventData = d\<rparr>"

text \<open>The ledger events the consumer builds for a payment event.\<close>

definition builtFor :: "gotime \<Rightarrow> string \<Rightarrow> string \<Rightarrow> PaymentEvent \<Rightarrow> error + LedgerEvent Event list" where
  "builtFor clock fee aid d = (case d of
      PaymentWithdrawalRequested p \<Rightarrow> paymentWithdrawalRequestedLedgerEvents fee
        (p\<lparr>pw_PaymentID := resolvePaymentID aid (pw_PaymentID p) (pw_TransactionID p)\<rparr>)
    | PaymentSucceeded p \<Rightarrow> paymentSucceededLedgerEvents clock fee
        (p\<lparr>ps_PaymentID := resolvePaymentID aid (ps_PaymentID p) (ps_TransactionID p)\<rparr>)
    | PaymentFailed p \<Rightarrow> paymentFailedLedgerEvents fee
        (p\<lparr>pf_PaymentID := resolvePaymentID aid (pf_PaymentID p) (pf_TransactionID p)\<rparr>)
    | PaymentRefunded p \<Rightarrow> paymentReversedLedgerEvents clock fee (resolvePaymentID aid (pr_PaymentID p) (pr_TransactionID p))
        (pr_TransactionID p) (pr_ClearingAccountKey p) (pr_CreditAccountID p) (pr_Currency p) (pr_Amount p) (pr_FeeAmount p)
        EventPaymentRefunded (pr_RefundedAt p)
    | PaymentChargeback p \<Rightarrow> paymentReversedLedgerEvents clock fee (resolvePaymentID aid (pb_PaymentID p) (pb_TransactionID p))
        (pb_TransactionID p) (pb_ClearingAccountKey p) (pb_CreditAccountID p) (pb_Currency p) (pb_Amount p) (pb_FeeAmount p)
        EventPaymentChargeback (pb_ChargedBackAt p)
    | _ \<Rightarrow> Inr [])"

lemma handle_built:
  "handlePaymentOutboxEvent (ledgerConsumer n now rec fee errText) payloadDecoders clock v (outboxMessage aid d) s =
     (case builtFor clock (TrimSpace fee) aid d of
        Inr evts \<Rightarrow> recordLocked (ledgerConsumer n now rec fee errText) v evts s
      | Inl e \<Rightarrow> (case d of
          PaymentSucceeded p \<Rightarrow> emitPaymentReconciliationFailed (ledgerConsumer n now rec fee errText)
            (p\<lparr>ps_PaymentID := resolvePaymentID aid (ps_PaymentID p) (ps_TransactionID p)\<rparr>) e s
        | _ \<Rightarrow> (Inl e, s)))"
  by (cases d)
    (simp_all add: handlePaymentOutboxEvent_def outboxMessage_def payloadDecoders_def builtFor_def ledgerConsumer_def paymentEventName_def
      unmarshalPaymentPayload_def EventPaymentSucceeded_def EventPaymentRefunded_def EventPaymentChargeback_def
      h_requested h_failed h_succeeded h_reversed recordLocked_def Let_def split: sum.splits)

end
