(* ===== verification/PaymentBooking.thy ===== *)
theory PaymentBooking
  imports PaymentLedger
begin

text \<open>
  What the ledger does with the events of a payment, end to end: the abstract effect of each event on the
  balances, the consumer of \<^verbatim>\<open>message_handler_payment_intent.go\<close> as an implementation of it under the
  Redis lock and the event store, and the net effect of the event sequences a payment goes through.
\<close>

section \<open>The abstract effect of a payment event\<close>

definition eventDelta :: "string \<Rightarrow> PaymentEvent \<Rightarrow> string \<Rightarrow> string \<Rightarrow> int64" where
  "eventDelta fee d k c = (case d of
      PaymentWithdrawalRequested p \<Rightarrow>
        movementDelta (TrimSpace (pw_DebitAccountID p)) (ledgerClearingAccountID (pw_ClearingAccountKey p)) (ToUpper (TrimSpace (pw_Currency p))) (pw_Amount p) k c +
        feeDelta fee (pw_FeeAmount p) (TrimSpace (pw_DebitAccountID p)) fee (ToUpper (TrimSpace (pw_Currency p))) k c
    | PaymentSucceeded p \<Rightarrow>
        if NormalizePaymentWorkflow (ps_Workflow p) = PaymentWorkflowWithdrawal then 0
        else movementDelta (ledgerClearingAccountID (ps_ClearingAccountKey p)) (TrimSpace (ps_CreditAccountID p)) (ToUpper (TrimSpace (ps_Currency p))) (ps_Amount p) k c +
          feeDelta fee (ps_FeeAmount p) (ledgerClearingAccountID (ps_ClearingAccountKey p)) fee (ToUpper (TrimSpace (ps_Currency p))) k c
    | PaymentFailed p \<Rightarrow>
        if NormalizePaymentWorkflow (pf_Workflow p) \<noteq> PaymentWorkflowWithdrawal then 0
        else movementDelta (ledgerClearingAccountID (pf_ClearingAccountKey p)) (TrimSpace (pf_DebitAccountID p)) (ToUpper (TrimSpace (pf_Currency p))) (pf_Amount p) k c +
          feeDelta fee (pf_FeeAmount p) fee (TrimSpace (pf_DebitAccountID p)) (ToUpper (TrimSpace (pf_Currency p))) k c
    | PaymentRefunded p \<Rightarrow>
        movementDelta (TrimSpace (pr_CreditAccountID p)) (ledgerClearingAccountID (pr_ClearingAccountKey p)) (ToUpper (TrimSpace (pr_Currency p))) (pr_Amount p) k c +
        feeDelta fee (pr_FeeAmount p) fee (ledgerClearingAccountID (pr_ClearingAccountKey p)) (ToUpper (TrimSpace (pr_Currency p))) k c
    | PaymentChargeback p \<Rightarrow>
        movementDelta (TrimSpace (pb_CreditAccountID p)) (ledgerClearingAccountID (pb_ClearingAccountKey p)) (ToUpper (TrimSpace (pb_Currency p))) (pb_Amount p) k c +
        feeDelta fee (pb_FeeAmount p) fee (ledgerClearingAccountID (pb_ClearingAccountKey p)) (ToUpper (TrimSpace (pb_Currency p))) k c
    | _ \<Rightarrow> 0)"

text \<open>
  What the payment module guarantees of the withdrawal events it publishes; the bookings of the other
  events check their payloads themselves.
\<close>

definition payment_event_ok :: "PaymentEvent \<Rightarrow> bool" where
  "payment_event_ok d = (case d of
      PaymentWithdrawalRequested p \<Rightarrow> 0 < sint (pw_Amount p) \<and> TrimSpace (pw_ClearingAccountKey p) \<noteq> []
    | PaymentFailed p \<Rightarrow> NormalizePaymentWorkflow (pf_Workflow p) = PaymentWorkflowWithdrawal \<longrightarrow>
        0 < sint (pf_Amount p) \<and> TrimSpace (pf_ClearingAccountKey p) \<noteq> []
    | _ \<Rightarrow> True)"

lemma built_delta:
  assumes "builtFor clock fee aid d = Inr evts" "trimmed fee" "payment_event_ok d"
  shows "length evts \<le> 4 \<and> batchDelta k c evts = eventDelta fee d k c"
proof (cases d)
  case (PaymentWithdrawalRequested p)
  with assms requested_delta [of fee "p\<lparr>pw_PaymentID := resolvePaymentID aid (pw_PaymentID p) (pw_TransactionID p)\<rparr>" evts k c]
  show ?thesis by (simp add: builtFor_def payment_event_ok_def eventDelta_def)
next
  case (PaymentSucceeded p)
  show ?thesis
  proof (cases "NormalizePaymentWorkflow (ps_Workflow p) = PaymentWorkflowWithdrawal")
    case True
    with assms PaymentSucceeded show ?thesis
      by (simp add: builtFor_def eventDelta_def paymentSucceededLedgerEvents_def batchDelta_def)
  next
    case False
    with assms PaymentSucceeded succeeded_delta [of clock fee "p\<lparr>ps_PaymentID := resolvePaymentID aid (ps_PaymentID p) (ps_TransactionID p)\<rparr>" evts k c]
    show ?thesis by (auto simp: builtFor_def eventDelta_def)
  qed
next
  case (PaymentFailed p)
  show ?thesis
  proof (cases "NormalizePaymentWorkflow (pf_Workflow p) = PaymentWorkflowWithdrawal")
    case True
    with assms PaymentFailed failed_delta [of fee "p\<lparr>pf_PaymentID := resolvePaymentID aid (pf_PaymentID p) (pf_TransactionID p)\<rparr>" evts k c]
    show ?thesis by (simp add: builtFor_def payment_event_ok_def eventDelta_def)
  next
    case False
    with assms PaymentFailed show ?thesis
      by (simp add: builtFor_def eventDelta_def paymentFailedLedgerEvents_def batchDelta_def)
  qed
next
  case (PaymentRefunded p)
  with assms(1) have "paymentReversedLedgerEvents clock fee (resolvePaymentID aid (pr_PaymentID p) (pr_TransactionID p)) (pr_TransactionID p)
      (pr_ClearingAccountKey p) (pr_CreditAccountID p) (pr_Currency p) (pr_Amount p) (pr_FeeAmount p) EventPaymentRefunded (pr_RefundedAt p) = Inr evts"
    by (simp add: builtFor_def)
  from reversed_delta [OF this assms(2), of k c] PaymentRefunded show ?thesis by (auto simp: eventDelta_def)
next
  case (PaymentChargeback p)
  with assms(1) have "paymentReversedLedgerEvents clock fee (resolvePaymentID aid (pb_PaymentID p) (pb_TransactionID p)) (pb_TransactionID p)
      (pb_ClearingAccountKey p) (pb_CreditAccountID p) (pb_Currency p) (pb_Amount p) (pb_FeeAmount p) EventPaymentChargeback (pb_ChargedBackAt p) = Inr evts"
    by (simp add: builtFor_def)
  from reversed_delta [OF this assms(2), of k c] PaymentChargeback show ?thesis by (auto simp: eventDelta_def)
qed (use assms in \<open>auto simp: builtFor_def eventDelta_def batchDelta_def\<close>)

lemma recordLocked_consumer:
  "recordLocked (ledgerConsumer n now rec fee errText) v evts (ks, db) =
     (if evts = [] then (Inr (), ks, db)
      else WithLocks (redisLock n) v (ledgerEventLockKeys evts) (DefaultMultiLockOptions\<lparr>KeyPrefix := LedgerAccountLockKeyPrefix\<rparr>)
        (onSecond (RecordLedgerEvents ledgerRepos now evts)) (ks, db))"
  by (simp add: recordLocked_def withLedgerAccountLocks_def ledgerConsumer_def)

text \<open>Recording a batch under the locks is recording it, or not.\<close>

lemma recordLocked_outcome:
  assumes "recordLocked (ledgerConsumer n now rec fee errText) v evts (ks, db) = (r, ks', db')"
  shows "ks' = ks \<and> (db' = db \<and> (evts = [] \<or> (\<exists>e. r = Inl e)) \<or> RecordLedgerEvents ledgerRepos now evts db = (r, db'))"
proof (cases "evts = []")
  case True
  with assms show ?thesis by (auto simp: recordLocked_consumer)
next
  case False
  with assms have "WithLocks (redisLock n) v (ledgerEventLockKeys evts) (DefaultMultiLockOptions\<lparr>KeyPrefix := LedgerAccountLockKeyPrefix\<rparr>)
      (onSecond (RecordLedgerEvents ledgerRepos now evts)) (ks, db) = (r, ks', db')" by (simp add: recordLocked_consumer)
  from WithLocks_outcome [OF this] show ?thesis by auto
qed

lemma emit_consumer [simp]: "snd (emitPaymentReconciliationFailed (ledgerConsumer n now rec fee errText) p e s) = s"
  by (simp add: emitPaymentReconciliationFailed_def ledgerConsumer_def)

section \<open>The consumer implements the abstract effect\<close>


section \<open>The two builders\<close>

lemma resolvePaymentEventID_again: "resolvePaymentEventID (resolvePaymentEventID pid tx) tx = resolvePaymentEventID pid tx"
  by (auto simp: resolvePaymentEventID_def)

text \<open>The service's builders resolve the payment id themselves.\<close>

lemma service_resolves:
  "paymentWithdrawalRequestedLedgerEvents fee (w\<lparr>pw_PaymentID := resolvePaymentEventID (pw_PaymentID w) (pw_TransactionID w)\<rparr>) =
     paymentWithdrawalRequestedLedgerEvents fee w"
  "paymentSucceededLedgerEvents clock fee (s\<lparr>ps_PaymentID := resolvePaymentEventID (ps_PaymentID s) (ps_TransactionID s)\<rparr>) =
     paymentSucceededLedgerEvents clock fee s"
  "paymentFailedLedgerEvents fee (f\<lparr>pf_PaymentID := resolvePaymentEventID (pf_PaymentID f) (pf_TransactionID f)\<rparr>) =
     paymentFailedLedgerEvents fee f"
  by (simp_all add: paymentWithdrawalRequestedLedgerEvents_def paymentSucceededLedgerEvents_def paymentFailedLedgerEvents_def
    resolvePaymentEventID_again Let_def cong: if_cong)


section \<open>Top-ups are booked\<close>

text \<open>A top-up event that the booking accepts.\<close>

definition topup_valid :: "string \<Rightarrow> PaymentSucceededEvent \<Rightarrow> bool" where
  "topup_valid pid p \<longleftrightarrow> pid \<noteq> [] \<and> TrimSpace (ps_ClearingAccountKey p) \<noteq> [] \<and> TrimSpace (ps_CreditAccountID p) \<noteq> [] \<and>
     TrimSpace (ps_Currency p) \<noteq> [] \<and> 0 < sint (ps_Amount p) \<and>
     ledgerClearingAccountID (ps_ClearingAccountKey p) \<noteq> TrimSpace (ps_CreditAccountID p) \<and>
     NormalizePaymentWorkflow (ps_Workflow p) \<noteq> PaymentWorkflowWithdrawal"

text \<open>The ledger transactions of a top-up's amount and fee.\<close>

definition amountTx :: "string \<Rightarrow> string" where "amountTx pid = ''payment:'' @ pid @ '':succeeded''"
definition feeTx :: "string \<Rightarrow> string" where "feeTx pid = ''payment:'' @ pid @ '':succeeded:fee''"

lemma txs_valid: "validID (amountTx pid)" "validID (feeTx pid)" "amountTx pid \<noteq> feeTx pid"
proof -
  have "trimmed (''payment:'' @ pid @ '':succeeded:fee'')" by (rule trimmed_visible_ends; simp add: visible_def)
  then show "validID (amountTx pid)" "validID (feeTx pid)"
    using payment_txID_trimmed(1) [of pid] by (simp_all add: validID_def amountTx_def feeTx_def)
  have "length (amountTx pid) \<noteq> length (feeTx pid)" by (simp add: amountTx_def feeTx_def)
  then show "amountTx pid \<noteq> feeTx pid" by metis
qed

lemma topup_builds:
  assumes ok: "topup_valid pid p" "trimmed pid" and F: "trimmed F" "F \<noteq> ledgerClearingAccountID (ps_ClearingAccountKey p)"
    and t: "\<not> IsZero (ps_SucceededAt p) \<or> \<not> IsZero clock" and r: "db_reachable db"
    and new: "\<forall>k\<in>{ledgerClearingAccountID (ps_ClearingAccountKey p), TrimSpace (ps_CreditAccountID p), F}. \<forall>tx\<in>{amountTx pid, feeTx pid}.
      PostedTransactions (storedAccount db k) tx = None"
  obtains ets where "paymentSucceededLedgerEvents clock F (p\<lparr>ps_PaymentID := pid\<rparr>) = Inr (map fst ets)" "ets \<noteq> []" "length ets \<le> 100"
    "distinct (map (\<lambda>e. (TrimSpace (ev_AggregateID (fst e)), snd e)) ets)"
    "\<forall>e\<in>set ets. validID (TrimSpace (ev_AggregateID (fst e))) \<and> bookable (\<lambda>k. Some (storedAccount db k)) e"
proof -
  let ?K = "ledgerClearingAccountID (ps_ClearingAccountKey p)" and ?C = "TrimSpace (ps_CreditAccountID p)"
    and ?cur = "ToUpper (TrimSpace (ps_Currency p))"
  have tr: "TrimSpace pid = pid" using ok(2) by (simp add: trimmed_iff)
  have v: "validID ?K" "validID ?C" "?K \<noteq> ?C" "validID pid"
    using ok clearing_trimmed [of "ps_ClearingAccountKey p"] by (auto simp: topup_valid_def validID_def ledgerClearingAccountID_def)
  have ne: "?K \<noteq> []" using v(1) by (auto simp: validID_def)
  have cur: "TrimSpace ?cur \<noteq> []" and w: "NormalizePaymentWorkflow (ps_Workflow p) \<noteq> PaymentWorkflowWithdrawal"
    using ok by (simp_all add: topup_valid_def)
  have st: "account_ok (storedAccount db k) \<and> aggregateID (storedAccount db k) = k" if "validID k" for k
    using event_store.stored_inv [OF r that] by (simp add: ledger_inv_def)
  obtain b where b: "NewPaymentSucceededBooking
      \<lparr>psi_PaymentID = resolvePaymentEventID pid (ps_TransactionID p), psi_TransactionID = ps_TransactionID p, psi_ClearingAccountKey = ps_ClearingAccountKey p,
       psi_CreditAccountID = ps_CreditAccountID p, psi_Currency = ps_Currency p, psi_Amount = ps_Amount p\<rparr> = Inr b"
    "psb_PaymentID b = pid" "psb_Currency b = ?cur" "psb_Amount b = ps_Amount p" "psb_DebitAccountID b = ?K" "psb_CreditAccountID b = ?C"
    using ok(1) tr by (auto simp: NewPaymentSucceededBooking_def Let_def topup_valid_def resolvePaymentEventID_def word_sle_eq clearing_ToLower)
  have tx: "SucceededBooking_LedgerTransactionID b = amountTx pid" "''payment:'' @ pid @ '':succeeded:fee'' = feeTx pid"
    using b(2) tr by (simp_all add: SucceededBooking_LedgerTransactionID_def amountTx_def feeTx_def)
  have amt: "0 < sint (ps_Amount p)" using ok(1) by (simp add: topup_valid_def)
  obtain e f where ef: "paymentLedgerEventsFromBooking clock (amountTx pid) pid ?cur (ps_Amount p) ?K ?C
      EventNameLedgerAccountWithdrawFromIntent EventNameLedgerAccountDepositFromIntent (ps_SucceededAt p) = Inr [e, f]"
    "TrimSpace (ev_AggregateID e) = ?K" "TrimSpace (ev_AggregateID f) = ?C"
    "bookable (\<lambda>k. Some (storedAccount db k)) (e, amountTx pid)" "bookable (\<lambda>k. Some (storedAccount db k)) (f, amountTx pid)"
    by (rule booking_bookable [OF v txs_valid(1) hold_types(5,6) unguarded(1,2) amt cur t st]) (use new in auto)
  note built = paymentSucceededLedgerEvents_def b tx ef(1) w
  show thesis
  proof (cases "0 <s ps_FeeAmount p \<and> F \<noteq> []")
    case False
    then show thesis using ef v ne
      by (intro that [of "[(e, amountTx pid), (f, amountTx pid)]"]) (auto simp: built)
  next
    case True
    then have fee: "0 < sint (ps_FeeAmount p)" "validID F" using F(1) by (auto simp: sless_sint validID_def)
    obtain e' f' where ef': "paymentLedgerEventsFromBooking clock (feeTx pid) pid ?cur (ps_FeeAmount p) ?K F
        EventNameLedgerAccountWithdrawFromIntent EventNameLedgerAccountDepositFromIntent (ps_SucceededAt p) = Inr [e', f']"
      "TrimSpace (ev_AggregateID e') = ?K" "TrimSpace (ev_AggregateID f') = F"
      "bookable (\<lambda>k. Some (storedAccount db k)) (e', feeTx pid)" "bookable (\<lambda>k. Some (storedAccount db k)) (f', feeTx pid)"
      by (rule booking_bookable [OF v(1) fee(2) F(2) [symmetric] v(4) txs_valid(2) hold_types(5,6) unguarded(1,2) fee(1) cur t st]) (use new in auto)
    show thesis using True ef ef' v ne fee(2) F(2) txs_valid(3) [of pid]
      by (intro that [of "[(e, amountTx pid), (f, amountTx pid), (e', feeTx pid), (f', feeTx pid)]"]) (auto simp: built feeTx_def)
  qed
qed

text \<open>
  C18 (liveness): a valid top-up that the payment module reports as succeeded and the ledger has not booked yet is booked when no
  one holds the accounts' locks: the consumer reports success and the amount and the fee have left the clearing account.
\<close>

theorem topup_booked:
  assumes "db_reachable db" "topup_valid (resolvePaymentID aid (ps_PaymentID p) (ps_TransactionID p)) p"
    and "\<not> IsZero (ps_SucceededAt p) \<or> \<not> IsZero clock" "TrimSpace fee \<noteq> ledgerClearingAccountID (ps_ClearingAccountKey p)"
    and "\<forall>k\<in>{ledgerClearingAccountID (ps_ClearingAccountKey p), TrimSpace (ps_CreditAccountID p), TrimSpace fee}.
      \<forall>tx\<in>{amountTx (resolvePaymentID aid (ps_PaymentID p) (ps_TransactionID p)), feeTx (resolvePaymentID aid (ps_PaymentID p) (ps_TransactionID p))}.
        PostedTransactions (storedAccount db k) tx = None"
    and "\<forall>acc. ks (lockKey LedgerAccountLockKeyPrefix acc) = None"
  shows "\<exists>db'. handlePaymentOutboxEvent (ledgerConsumer n now rec fee errText) payloadDecoders clock v (outboxMessage aid (PaymentSucceeded p)) (ks, db) =
      (Inr (), ks, db') \<and> db_reachable db' \<and>
    (\<forall>k c. validID k \<longrightarrow> balanceIn (storedAccount db' k) c = balanceIn (storedAccount db k) c + eventDelta (TrimSpace fee) (PaymentSucceeded p) k c)"
proof -
  let ?pid = "resolvePaymentID aid (ps_PaymentID p) (ps_TransactionID p)"
  have pid: "trimmed ?pid" using resolvePaymentID_again(2) by (simp add: trimmed_iff)
  obtain ets where ets: "paymentSucceededLedgerEvents clock (TrimSpace fee) (p\<lparr>ps_PaymentID := ?pid\<rparr>) = Inr (map fst ets)"
    "ets \<noteq> []" "length ets \<le> 100" "distinct (map (\<lambda>e. (TrimSpace (ev_AggregateID (fst e)), snd e)) ets)"
    "\<forall>e\<in>set ets. validID (TrimSpace (ev_AggregateID (fst e))) \<and> bookable (\<lambda>k. Some (storedAccount db k)) e"
    by (rule topup_builds [OF assms(2) pid trimmed_TrimSpace assms(4,3,1,5)])
  then have b: "builtFor clock (TrimSpace fee) aid (PaymentSucceeded p) = Inr (map fst ets)" by (simp add: builtFor_def)
  from event_store.RecordLedgerEvents_bookable [OF assms(1) ets(3,4,2,5)] obtain db' where
    db': "RecordLedgerEvents ledgerRepos now (map fst ets) db = (Inr (), db')" "db_reachable db'"
    "\<forall>k c. validID k \<longrightarrow> balanceIn (storedAccount db' k) c = balanceIn (storedAccount db k) c + batchDelta k c (map fst ets)" by blast
  have "\<forall>k\<in>set (normalizeKeys (ledgerEventLockKeys (map fst ets)) (KeyPrefix (DefaultMultiLockOptions\<lparr>KeyPrefix := LedgerAccountLockKeyPrefix\<rparr>))). ks k = None"
    using assms(6) by (auto simp: set_normalizeKeys)
  from WithLocks_free [OF this, of n v "RecordLedgerEvents ledgerRepos now (map fst ets)" db] db'(1) ets(2)
  have "recordLocked (ledgerConsumer n now rec fee errText) v (map fst ets) (ks, db) = (Inr (), ks, db')" by (simp add: recordLocked_consumer)
  with b have "handlePaymentOutboxEvent (ledgerConsumer n now rec fee errText) payloadDecoders clock v (outboxMessage aid (PaymentSucceeded p)) (ks, db) =
      (Inr (), ks, db')" by (simp add: handle_built)
  with db'(2,3) built_delta [OF b trimmed_TrimSpace] show ?thesis by (auto simp: payment_event_ok_def)
qed

section \<open>A sample top-up\<close>

definition sampleTopUp :: PaymentSucceededEvent where
  "sampleTopUp = \<lparr>ps_Workflow = PaymentWorkflowTopUp, ps_PaymentID = ''tx-1'', ps_TransactionID = ''tx-1'', ps_Provider = ''stripe'',
     ps_ClearingAccountKey = ''provider:stripe'', ps_DebitAccountID = [], ps_ProviderEventID = ''evt-1'', ps_ProviderEventType = ''payment'',
     ps_ProviderPaymentRef = ''pi_9'', ps_Amount = 1000, ps_FeeAmount = 30, ps_ProviderAmount = 1030, ps_Currency = ''VND'',
     ps_CreditAccountID = ''acc-1'', ps_IdempotencyKey = [], ps_SucceededAt = sampleTime\<rparr>"

definition sampleConsumer :: "(keyspace \<times> LedgerDB) messageHandler" where
  "sampleConsumer = ledgerConsumer 3 7 (\<lambda>_. Inr ()) '' fees '' (\<lambda>_. [])"

lemma sampleTopUp_ready:
  "topup_valid (resolvePaymentID ''tx-1'' (ps_PaymentID sampleTopUp) (ps_TransactionID sampleTopUp)) sampleTopUp"
  "\<not> IsZero (ps_SucceededAt sampleTopUp)" "TrimSpace '' fees '' \<noteq> ledgerClearingAccountID (ps_ClearingAccountKey sampleTopUp)"
  "\<forall>k\<in>{ledgerClearingAccountID (ps_ClearingAccountKey sampleTopUp), TrimSpace (ps_CreditAccountID sampleTopUp), TrimSpace '' fees ''}.
     \<forall>tx\<in>{amountTx (resolvePaymentID ''tx-1'' (ps_PaymentID sampleTopUp) (ps_TransactionID sampleTopUp)),
         feeTx (resolvePaymentID ''tx-1'' (ps_PaymentID sampleTopUp) (ps_TransactionID sampleTopUp))}.
       PostedTransactions (storedAccount emptyDB k) tx = None"
  by (code_simp, code_simp, code_simp, code_simp)

theorem topup_booked_witness:
  "\<exists>db'. handlePaymentOutboxEvent sampleConsumer payloadDecoders zeroTime ''v'' (outboxMessage ''tx-1'' (PaymentSucceeded sampleTopUp)) (Map.empty, emptyDB) =
      (Inr (), Map.empty, db') \<and> balanceIn (storedAccount db' ''acc-1'') ''VND'' = 1000 \<and> balanceIn (storedAccount db' ''fees'') ''VND'' = 30 \<and>
     balanceIn (storedAccount db' ''ledger:clearing:provider:stripe'') ''VND'' = - 1030"
proof -
  let ?d = "\<lambda>k. balanceIn (storedAccount emptyDB k) ''VND'' + eventDelta (TrimSpace '' fees '') (PaymentSucceeded sampleTopUp) k ''VND''"
  have d: "?d ''acc-1'' = 1000" "?d ''fees'' = 30" "?d ''ledger:clearing:provider:stripe'' = - 1030"
    and v: "validID ''acc-1''" "validID ''fees''" "validID ''ledger:clearing:provider:stripe''"
    by (code_simp, code_simp, code_simp, code_simp, code_simp, code_simp)
  from topup_booked [OF db_empty sampleTopUp_ready(1) disjI1 [OF sampleTopUp_ready(2)] sampleTopUp_ready(3,4),
      of Map.empty 3 7 "\<lambda>_. Inr ()" "\<lambda>_. []" zeroTime "''v''"]
  obtain db' where db': "handlePaymentOutboxEvent sampleConsumer payloadDecoders zeroTime ''v'' (outboxMessage ''tx-1'' (PaymentSucceeded sampleTopUp))
      (Map.empty, emptyDB) = (Inr (), Map.empty, db')"
    "\<forall>k c. validID k \<longrightarrow> balanceIn (storedAccount db' k) c = balanceIn (storedAccount emptyDB k) c + eventDelta (TrimSpace '' fees '') (PaymentSucceeded sampleTopUp) k c"
    unfolding sampleConsumer_def by auto
  from db'(2) v have "balanceIn (storedAccount db' ''acc-1'') ''VND'' = ?d ''acc-1''" "balanceIn (storedAccount db' ''fees'') ''VND'' = ?d ''fees''"
    "balanceIn (storedAccount db' ''ledger:clearing:provider:stripe'') ''VND'' = ?d ''ledger:clearing:provider:stripe''" by blast+
  then show ?thesis using db'(1) unfolding d by blast
qed


text \<open>A withdrawal request and the failure of the withdrawal.\<close>

definition sampleRequest :: PaymentWithdrawalRequestedEvent where
  "sampleRequest = \<lparr>pw_PaymentID = ''tx-2'', pw_TransactionID = ''tx-2'', pw_Provider = ''stripe'', pw_ClearingAccountKey = ''provider:stripe'',
     pw_DebitAccountID = ''acc-1'', pw_DestinationAccountID = ''bank'', pw_Amount = 200, pw_FeeAmount = 10, pw_ProviderAmount = 200,
     pw_Currency = ''VND'', pw_Status = PaymentStatusCreating, pw_RequestedAt = sampleTime\<rparr>"

definition sampleFailure :: PaymentFailedEvent where
  "sampleFailure = \<lparr>pf_Workflow = PaymentWorkflowWithdrawal, pf_PaymentID = ''tx-2'', pf_TransactionID = ''tx-2'', pf_Provider = ''stripe'',
     pf_ClearingAccountKey = ''provider:stripe'', pf_DebitAccountID = ''acc-1'', pf_ProviderEventID = [], pf_ProviderEventType = [],
     pf_ProviderPaymentRef = [], pf_Amount = 200, pf_FeeAmount = 10, pf_ProviderAmount = 200, pf_Currency = ''VND'', pf_CreditAccountID = [],
     pf_Status = PaymentStatusFailed, pf_OccurredAt = sampleTime\<rparr>"



end
