(* ===== verification/PaymentFlow.thy ===== *)
theory PaymentFlow
  imports PaymentBooking PaymentAggregate
begin

text \<open>
  A payment from its creation to its settlement, through both modules: the events the payment aggregate records
  over a whole history, and what they add up to in the ledger.
\<close>

definition logDelta :: "string \<Rightarrow> PaymentEvent list \<Rightarrow> string \<Rightarrow> string \<Rightarrow> int64" where
  "logDelta fee ds k c = (\<Sum>d\<leftarrow>ds. eventDelta fee d k c)"

text \<open>What a withdrawal holds, and what a top-up pays out.\<close>

definition holdDelta :: "string \<Rightarrow> PaymentIntent \<Rightarrow> string \<Rightarrow> string \<Rightarrow> int64" where
  "holdDelta fee i k c =
     movementDelta (pin_DebitAccountID i) (ledgerClearingAccountID (pin_ClearingAccountKey i)) (pin_Currency i) (pin_Amount i) k c +
     feeDelta fee (pin_FeeAmount i) (pin_DebitAccountID i) fee (pin_Currency i) k c"

definition topUpDelta :: "string \<Rightarrow> PaymentIntent \<Rightarrow> string \<Rightarrow> string \<Rightarrow> int64" where
  "topUpDelta fee i k c =
     movementDelta (ledgerClearingAccountID (pin_ClearingAccountKey i)) (pin_CreditAccountID i) (pin_Currency i) (pin_Amount i) k c +
     feeDelta fee (pin_FeeAmount i) (ledgerClearingAccountID (pin_ClearingAccountKey i)) fee (pin_Currency i) k c"

lemma intent_ok_trimmed:
  assumes "intent_ok i"
  shows "TrimSpace (pin_DebitAccountID i) = pin_DebitAccountID i" "TrimSpace (pin_CreditAccountID i) = pin_CreditAccountID i"
    "ToUpper (TrimSpace (pin_Currency i)) = pin_Currency i" "TrimSpace (pin_ClearingAccountKey i) \<noteq> []"
    "NormalizePaymentWorkflow (pin_Workflow i) = pin_Workflow i" "0 < sint (pin_Amount i)"
proof -
  note n = intent_ok_normal [OF assms] and f = intent_ok_fields [OF assms]
  from n show "TrimSpace (pin_DebitAccountID i) = pin_DebitAccountID i" "TrimSpace (pin_CreditAccountID i) = pin_CreditAccountID i"
    "ToUpper (TrimSpace (pin_Currency i)) = pin_Currency i" "NormalizePaymentWorkflow (pin_Workflow i) = pin_Workflow i" by blast+
  from assms show "0 < sint (pin_Amount i)" by (simp add: intent_ok_def)
  have "TrimSpace (effectivePaymentClearingAccountKey (pin_Provider i) (pin_ClearingAccountKey i)) =
      effectivePaymentClearingAccountKey (pin_Provider i) (pin_ClearingAccountKey i)"
    by (simp add: effectivePaymentClearingAccountKey_def go_norm)
  with n(8) assms show "TrimSpace (pin_ClearingAccountKey i) \<noteq> []" by (simp add: intent_ok_def)
qed

text \<open>The effect of each event of a payment, in the payment's own terms.\<close>

lemma billed_delta:
  assumes "intent_ok i" "billed i d"
  shows "settlement d = [] \<Longrightarrow> eventDelta fee d k c = 0"
    "settlement d = [PaymentStatusSuccess] \<Longrightarrow>
       eventDelta fee d k c = (if pin_Workflow i = PaymentWorkflowWithdrawal then 0 else topUpDelta fee i k c)"
    "settlement d = [PaymentStatusFailed] \<Longrightarrow> pin_DebitAccountID i \<noteq> ledgerClearingAccountID (pin_ClearingAccountKey i) \<Longrightarrow>
       pin_DebitAccountID i \<noteq> fee \<Longrightarrow> eventDelta fee d k c = (if pin_Workflow i = PaymentWorkflowWithdrawal then - holdDelta fee i k c else 0)"
    "payment_event_ok d"
  using assms(2) intent_ok_trimmed [OF assms(1)]
  by (cases d; auto simp: billed_def settlement_def eventDelta_def terms_def topUpDelta_def holdDelta_def payment_event_ok_def
      feeDelta_def movementDelta_def)+

lemma logDelta_simps [simp]: "logDelta fee [] k c = 0" "logDelta fee (d # ds) k c = eventDelta fee d k c + logDelta fee ds k c"
  "logDelta fee (ds @ es) k c = logDelta fee ds k c + logDelta fee es k c"
  by (simp_all add: logDelta_def)

lemma settlement_cases: "settlement d \<in> {[], [PaymentStatusSuccess], [PaymentStatusFailed], [PaymentStatusRefunded], [PaymentStatusChargeback]}"
  by (cases d) (simp_all add: settlement_def)

text \<open>The effect of a log is that of its settlements, as long as none of them is a reversal.\<close>

lemma billed_logDelta:
  assumes ok: "intent_ok i" and acc: "pin_DebitAccountID i \<noteq> ledgerClearingAccountID (pin_ClearingAccountKey i)" "pin_DebitAccountID i \<noteq> fee"
  shows "\<forall>d\<in>set ds. billed i d \<Longrightarrow> set (settlements ds) \<subseteq> {PaymentStatusSuccess, PaymentStatusFailed} \<Longrightarrow>
    logDelta fee ds k c = (\<Sum>st\<leftarrow>settlements ds.
      if st = PaymentStatusSuccess then (if pin_Workflow i = PaymentWorkflowWithdrawal then 0 else topUpDelta fee i k c)
      else (if pin_Workflow i = PaymentWorkflowWithdrawal then - holdDelta fee i k c else 0))"
proof (induction ds)
  case (Cons d ds)
  from Cons.prems(1) have "billed i d" by simp
  note bd = billed_delta(1-3) [OF ok this, of fee k c]
  from settlement_cases [of d] Cons.prems(2) consider "settlement d = []" | "settlement d = [PaymentStatusSuccess]" | "settlement d = [PaymentStatusFailed]"
    by force
  then show ?case using Cons bd acc by cases simp_all
qed simp

lemma opened_delta:
  assumes "intent_ok i" "opened i os"
  shows "logDelta fee os k c = (if pin_Workflow i = PaymentWorkflowWithdrawal then holdDelta fee i k c else 0)" "settlements os = []"
    "\<forall>d\<in>set os. payment_event_ok d"
  using assms(2) intent_ok_trimmed [OF assms(1)]
  by (auto simp: opened_def eventDelta_def holdDelta_def settlement_def payment_event_ok_def split: if_splits)

lemma sampleSettled_values: "pa_intent sampleSettled = Some (sampleMoved PaymentStatusSuccess 6)" "version (aggMarkPersisted sampleSettled) = 3"
  by (code_simp, code_simp)

text \<open>
  C6 (functional): over the whole life of a payment, as its events are booked: every event satisfies what the ledger's
  consumer relies on, and together they add to the balances exactly: nothing for a top-up until it succeeds and the
  amount and fee, out of the provider's clearing account, once it has; for a withdrawal, the hold on amount and fee from its request
  on, and nothing once it has failed.
\<close>

theorem payment_net_effect:
  assumes "pay_log a es" "pa_intent a = Some i" "pin_Status i \<notin> {PaymentStatusRefunded, PaymentStatusChargeback}"
    and "pin_DebitAccountID i \<noteq> ledgerClearingAccountID (pin_ClearingAccountKey i)" "pin_DebitAccountID i \<noteq> fee"
  shows "(\<forall>e\<in>set es. payment_event_ok (ev_EventData e)) \<and> logDelta fee (map ev_EventData es) k c =
    (if pin_Workflow i = PaymentWorkflowWithdrawal
     then (if pin_Status i = PaymentStatusFailed then 0 else holdDelta fee i k c)
     else (if pin_Status i = PaymentStatusSuccess then topUpDelta fee i k c else 0))"
proof -
  from pay_log_ok [OF assms(1)] assms(2) obtain os ds where i: "intent_ok i" and st: "settlements (map ev_EventData es) = settledBy (pin_Status i)"
    and es: "map ev_EventData es = os @ ds" and os: "opened i os" and ds: "\<forall>d\<in>set ds. billed i d"
    by (auto simp: log_ok_def agg_ok_def snapshot_ok_def)
  note op = opened_delta [OF i os]
  have sd: "settlements ds = settledBy (pin_Status i)" using st es op(2) by simp
  with assms(3) have "set (settlements ds) \<subseteq> {PaymentStatusSuccess, PaymentStatusFailed}" by (auto simp: settledBy_def)
  from billed_logDelta [OF i assms(4,5) ds this, of k c] sd
  have dd: "logDelta fee ds k c = (if pin_Status i = PaymentStatusSuccess then (if pin_Workflow i = PaymentWorkflowWithdrawal then 0 else topUpDelta fee i k c)
      else if pin_Status i = PaymentStatusFailed then (if pin_Workflow i = PaymentWorkflowWithdrawal then - holdDelta fee i k c else 0) else 0)"
    using assms(3) by (auto simp: settledBy_def)
  have "\<forall>d\<in>set (os @ ds). payment_event_ok d" using op(3) billed_delta(4) [OF i] ds by auto
  then have "\<forall>e\<in>set es. payment_event_ok (ev_EventData e)" unfolding es [symmetric] by simp
  moreover have "logDelta fee (map ev_EventData es) k c = logDelta fee os k c + logDelta fee ds k c" by (simp add: es)
  ultimately show ?thesis using op(1) [of fee k c] dd by simp
qed

theorem payment_net_effect_witness:
  "logDelta ''fees'' (map ev_EventData (events sampleAggregate @ drop (length (events sampleAggregate)) (events sampleSettled))) ''acc-1'' ''VND'' = 1000 \<and>
   logDelta ''fees'' (map ev_EventData (events sampleAggregate @ drop (length (events sampleAggregate)) (events sampleSettled)))
     ''ledger:clearing:provider:stripe'' ''VND'' = - 1030"
proof -
  let ?i = "sampleMoved PaymentStatusSuccess 6"
  note i = sampleSettled_values(1)
  have acc: "pin_DebitAccountID ?i \<noteq> ledgerClearingAccountID (pin_ClearingAccountKey ?i)" "pin_DebitAccountID ?i \<noteq> ''fees''"
    "pin_Status ?i \<notin> {PaymentStatusRefunded, PaymentStatusChargeback}" by (code_simp, code_simp, code_simp)
  have d: "topUpDelta ''fees'' ?i ''acc-1'' ''VND'' = 1000" "topUpDelta ''fees'' ?i ''ledger:clearing:provider:stripe'' ''VND'' = - 1030"
    by (code_simp, code_simp)
  have w: "(pin_Workflow ?i = PaymentWorkflowWithdrawal) = False" "(pin_Status ?i = PaymentStatusSuccess) = True" by (code_simp, code_simp)
  note n = payment_net_effect [OF sampleSettled_log i acc(3,1,2), unfolded w if_True if_False]
  show ?thesis unfolding conjunct2 [OF n] d by simp
qed

section \<open>Reversed top-ups\<close>

definition reversedAmount :: "PaymentEvent \<Rightarrow> int64 option" where
  "reversedAmount d = (case d of PaymentRefunded p \<Rightarrow> Some (pr_Amount p) | PaymentChargeback p \<Rightarrow> Some (pb_Amount p) | _ \<Rightarrow> None)"

lemma settlements_filter: "map settlement (filter (\<lambda>d. settlement d \<noteq> []) ds) = map (\<lambda>st. [st]) (settlements ds)"
proof (induction ds)
  case (Cons d ds)
  with settlement_cases [of d] show ?case by auto
qed simp

lemma logDelta_filter:
  assumes "intent_ok i" "\<forall>d\<in>set ds. billed i d"
  shows "logDelta fee ds k c = logDelta fee (filter (\<lambda>d. settlement d \<noteq> []) ds) k c"
  using assms(2) by (induction ds) (simp_all add: billed_delta(1) [OF assms(1)])

lemma reversal_delta:
  assumes "intent_ok i" "billed i d" "settlement d = [st]" "st \<in> {PaymentStatusRefunded, PaymentStatusChargeback}"
  obtains amt where "reversedAmount d = Some amt" "\<And>k c. eventDelta fee d k c =
    movementDelta (pin_CreditAccountID i) (ledgerClearingAccountID (pin_ClearingAccountKey i)) (pin_Currency i) amt k c +
    feeDelta fee (pin_FeeAmount i) fee (ledgerClearingAccountID (pin_ClearingAccountKey i)) (pin_Currency i) k c"
  using assms(2-4) intent_ok_trimmed [OF assms(1)]
  by (cases d) (auto simp: billed_def settlement_def eventDelta_def terms_def reversedAmount_def)

lemma topUp_and_back:
  assumes "C \<noteq> K" "fee \<noteq> K"
  shows "(movementDelta K C cur amt k c + feeDelta fee f K fee cur k c) + (movementDelta C K cur amt' k c + feeDelta fee f fee K cur k c) =
    movementDelta C K cur (amt' - amt) k c"
  using assms by (auto simp: movementDelta_def feeDelta_def)

text \<open>
  C27 (functional): a top-up that was refunded or charged back gives back its fee and leaves, on the credited account, the difference
  between what was credited and what the provider took back: taking back the whole provider amount, fee included, leaves the account short
  of the fee, which the clearing account keeps.
\<close>

theorem payment_reversal_net_effect:
  assumes "pay_log a es" "pa_intent a = Some i" "pin_Status i \<in> {PaymentStatusRefunded, PaymentStatusChargeback}"
    and "pin_Workflow i \<noteq> PaymentWorkflowWithdrawal"
    and "pin_CreditAccountID i \<noteq> ledgerClearingAccountID (pin_ClearingAccountKey i)" "fee \<noteq> ledgerClearingAccountID (pin_ClearingAccountKey i)"
  shows "\<exists>e\<in>set es. \<exists>amt. reversedAmount (ev_EventData e) = Some amt \<and> (\<forall>k c. logDelta fee (map ev_EventData es) k c =
    movementDelta (pin_CreditAccountID i) (ledgerClearingAccountID (pin_ClearingAccountKey i)) (pin_Currency i) (amt - pin_Amount i) k c)"
proof -
  from pay_log_ok [OF assms(1)] assms(2) obtain os ds where i: "intent_ok i" and st: "settlements (map ev_EventData es) = settledBy (pin_Status i)"
    and es: "map ev_EventData es = os @ ds" and os: "opened i os" and ds: "\<forall>d\<in>set ds. billed i d"
    by (auto simp: log_ok_def agg_ok_def snapshot_ok_def)
  note op = opened_delta [OF i os]
  have "settlements ds = [PaymentStatusSuccess, pin_Status i]" using st es op(2) assms(3) by (auto simp: settledBy_def)
  with settlements_filter [of ds] obtain d r where dr: "filter (\<lambda>d. settlement d \<noteq> []) ds = [d, r]" "settlement d = [PaymentStatusSuccess]"
    "settlement r = [pin_Status i]" by (auto simp: map_eq_Cons_conv)
  have "set [d, r] \<subseteq> set ds" unfolding dr(1) [symmetric] by (rule filter_is_subset)
  then have in_ds: "d \<in> set ds" "r \<in> set ds" by simp_all
  then have b: "billed i d" "billed i r" using ds by blast+
  obtain amt where amt: "reversedAmount r = Some amt" "\<And>k c. eventDelta fee r k c =
    movementDelta (pin_CreditAccountID i) (ledgerClearingAccountID (pin_ClearingAccountKey i)) (pin_Currency i) amt k c +
    feeDelta fee (pin_FeeAmount i) fee (ledgerClearingAccountID (pin_ClearingAccountKey i)) (pin_Currency i) k c"
    using reversal_delta [OF i b(2) dr(3) assms(3), of fee] by metis
  have "logDelta fee (map ev_EventData es) k c = movementDelta (pin_CreditAccountID i) (ledgerClearingAccountID (pin_ClearingAccountKey i))
      (pin_Currency i) (amt - pin_Amount i) k c" for k c
    using op(1) [of fee k c] assms(4) logDelta_filter [OF i ds, of fee k c] billed_delta(2) [OF i b(1) dr(2), of fee k c] amt(2) [of k c]
      topUp_and_back [OF assms(5,6)] by (simp add: es dr(1) topUpDelta_def)
  moreover have "r \<in> ev_EventData ` set es" using in_ds(2) es by (metis Un_iff image_set set_append)
  ultimately show ?thesis using amt(1) by blast
qed

text \<open>The settled sample payment, as it is loaded again for the refund.\<close>

definition sampleRestored :: PaymentIntentAggregate where
  "sampleRestored = SetInternal (SetAggregateType (emptyPaymentAggregate\<lparr>pa_intent := Some (sampleMoved PaymentStatusSuccess 6)\<rparr>) AggregateTypePaymentIntent)
     ''tx-1'' 3 3"

definition sampleRefunded :: PaymentIntentAggregate where
  "sampleRefunded = snd (ApplyProviderOutcome (GoTime 9 ''UTC'') sampleRestored (sampleResult PaymentStatusRefunded) [] False (GoTime 8 ''UTC''))"

definition sampleRefundLog :: "PaymentEvent Event list" where
  "sampleRefundLog = (events sampleAggregate @ drop (length (events sampleAggregate)) (events sampleSettled)) @
     drop (length (events sampleRestored)) (events sampleRefunded)"

lemma sampleRestored_log: "pay_log sampleRestored (events sampleAggregate @ drop (length (events sampleAggregate)) (events sampleSettled))"
proof -
  let ?i = "sampleMoved PaymentStatusSuccess 6"
  have n: "normalizePaymentIntentSnapshot zeroTime ?i = ?i" and id: "pin_TransactionID ?i = ''tx-1''" by (code_simp, code_simp)
  have "RestorePaymentIntentAggregateWithVersion zeroTime (Snapshot (aggMarkPersisted sampleSettled)) (version (aggMarkPersisted sampleSettled)) =
      Inr sampleRestored"
    using sampleSettled_values(1) n id unfolding sampleSettled_values(2)
    by (simp add: RestorePaymentIntentAggregateWithVersion_def Snapshot_def aggMarkPersisted_def MarkPersisted_def sampleRestored_def Let_def)
  from saved_and_restored [OF sampleSettled_log this] show ?thesis .
qed

lemma sampleRefundLog_log: "pay_log sampleRefunded sampleRefundLog"
proof -
  have "fst (ApplyProviderOutcome (GoTime 9 ''UTC'') sampleRestored (sampleResult PaymentStatusRefunded) [] False (GoTime 8 ''UTC'')) =
     Inr (mutation False True)" by code_simp
  then have "ApplyProviderOutcome (GoTime 9 ''UTC'') sampleRestored (sampleResult PaymentStatusRefunded) [] False (GoTime 8 ''UTC'') =
     (Inr (mutation False True), sampleRefunded)" by (simp add: sampleRefunded_def prod_eq_iff)
  from outcome [OF sampleRestored_log this] show ?thesis by (simp add: sampleRefundLog_def)
qed

text \<open>The provider takes back the 1030 it was paid; the account, credited with 1000, ends 30 short.\<close>

theorem payment_reversal_net_effect_witness:
  "logDelta ''fees'' (map ev_EventData sampleRefundLog) ''acc-1'' ''VND'' = - 30 \<and>
   logDelta ''fees'' (map ev_EventData sampleRefundLog) ''ledger:clearing:provider:stripe'' ''VND'' = 30 \<and>
   logDelta ''fees'' (map ev_EventData sampleRefundLog) ''fees'' ''VND'' = 0"
proof -
  let ?i = "sampleMoved PaymentStatusRefunded 8"
  let ?K = "ledgerClearingAccountID (pin_ClearingAccountKey ?i)"
  have i: "pa_intent sampleRefunded = Some ?i" by code_simp
  have h: "pin_Status ?i \<in> {PaymentStatusRefunded, PaymentStatusChargeback}" "pin_Workflow ?i \<noteq> PaymentWorkflowWithdrawal"
    "pin_CreditAccountID ?i \<noteq> ?K" "''fees'' \<noteq> ?K" by (code_simp, code_simp, code_simp, code_simp)
  have "list_all (\<lambda>e. reversedAmount (ev_EventData e) = None) (events sampleAggregate)"
    "list_all (\<lambda>e. reversedAmount (ev_EventData e) = None) (events sampleSettled)"
    "list_all (\<lambda>e. reversedAmount (ev_EventData e) = None \<or> reversedAmount (ev_EventData e) = Some 1030) (events sampleRefunded)"
    by (code_simp, code_simp, code_simp)
  then have amt: "reversedAmount (ev_EventData e) = Some amt \<Longrightarrow> amt = 1030" if "e \<in> set sampleRefundLog" for e amt
    using that by (auto simp: list_all_iff sampleRefundLog_def dest!: in_set_dropD)
  from payment_reversal_net_effect [OF sampleRefundLog_log i h] amt have n: "logDelta ''fees'' (map ev_EventData sampleRefundLog) k c =
      movementDelta (pin_CreditAccountID ?i) ?K (pin_Currency ?i) (1030 - pin_Amount ?i) k c" for k c by blast
  have "movementDelta (pin_CreditAccountID ?i) ?K (pin_Currency ?i) (1030 - pin_Amount ?i) ''acc-1'' ''VND'' = - 30"
    "movementDelta (pin_CreditAccountID ?i) ?K (pin_Currency ?i) (1030 - pin_Amount ?i) ''ledger:clearing:provider:stripe'' ''VND'' = 30"
    "movementDelta (pin_CreditAccountID ?i) ?K (pin_Currency ?i) (1030 - pin_Amount ?i) ''fees'' ''VND'' = 0" by (code_simp, code_simp, code_simp)
  with n show ?thesis by simp
qed

end
