(* ===== verification/RelationshipPair.thy ===== *)
theory RelationshipPair
  imports EventSourcing "HOL-Library.List_Lexorder" "HOL-Library.Char_ord" "HOL-Library.AList"
begin

text \<open>
  The domain of \<^verbatim>\<open>core/modules/relationship\<close>: friend requests, friendships, follows and blocks
  (\<^verbatim>\<open>domain/entity\<close>), the rules between two users (\<^verbatim>\<open>domain/policy/pair_invariants.go\<close>), the friend request
  aggregate and the aggregate of a pair of users as one of them sees it (\<^verbatim>\<open>domain/aggregate\<close>).

  The pair aggregate holds its friend request by reference and its changes refer to the same object, so the model
  keeps the request once, in the state, and the changes only say that it is to be saved. An operation
  returns its result with the aggregate it leaves behind. The map of counter deltas is an association list with distinct keys. Dereferencing a \<^verbatim>\<open>nil\<close> request is the error \<open>nilRequest\<close>.
\<close>

section \<open>Entities\<close>

abbreviation ErrEmpty :: error where "ErrEmpty \<equiv> Sentinel ''ErrEmpty''"
abbreviation ErrInvalidData :: error where "ErrInvalidData \<equiv> Sentinel ''ErrInvalidData''"
abbreviation ErrTargetAccountNotFound :: error where "ErrTargetAccountNotFound \<equiv> Sentinel ''ErrTargetAccountNotFound''"
abbreviation ErrRelationshipBlocked :: error where "ErrRelationshipBlocked \<equiv> Sentinel ''ErrRelationshipBlocked''"
abbreviation ErrFriendRequestNotFound :: error where "ErrFriendRequestNotFound \<equiv> Sentinel ''ErrFriendRequestNotFound''"
abbreviation ErrFriendRequestAlreadyOpen :: error where "ErrFriendRequestAlreadyOpen \<equiv> Sentinel ''ErrFriendRequestAlreadyOpen''"
abbreviation ErrFriendshipAlreadyExists :: error where "ErrFriendshipAlreadyExists \<equiv> Sentinel ''ErrFriendshipAlreadyExists''"
abbreviation ErrFriendshipNotFound :: error where "ErrFriendshipNotFound \<equiv> Sentinel ''ErrFriendshipNotFound''"
abbreviation ErrFollowAlreadyExists :: error where "ErrFollowAlreadyExists \<equiv> Sentinel ''ErrFollowAlreadyExists''"
abbreviation ErrFollowNotFound :: error where "ErrFollowNotFound \<equiv> Sentinel ''ErrFollowNotFound''"
abbreviation ErrBlockAlreadyExists :: error where "ErrBlockAlreadyExists \<equiv> Sentinel ''ErrBlockAlreadyExists''"
abbreviation ErrBlockNotFound :: error where "ErrBlockNotFound \<equiv> Sentinel ''ErrBlockNotFound''"

abbreviation FriendRequestStatusPending :: string where "FriendRequestStatusPending \<equiv> ''PENDING''"
abbreviation FriendRequestStatusAccepted :: string where "FriendRequestStatusAccepted \<equiv> ''ACCEPTED''"
abbreviation FriendRequestStatusRejected :: string where "FriendRequestStatusRejected \<equiv> ''REJECTED''"
abbreviation FriendRequestStatusCancelled :: string where "FriendRequestStatusCancelled \<equiv> ''CANCELLED''"
abbreviation FriendRequestStatusExpired :: string where "FriendRequestStatusExpired \<equiv> ''EXPIRED''"

record FriendRequest =
  fr_ID :: string
  fr_RequesterID :: string
  fr_AddresseeID :: string
  fr_Status :: string
  fr_Message :: "string option"
  fr_CreatedAt :: gotime
  fr_RespondedAt :: "gotime option"
  fr_ExpiredAt :: "gotime option"
  fr_CancelledAt :: "gotime option"
  fr_RejectedReason :: "string option"

definition entityNewFriendRequest :: "string \<Rightarrow> string \<Rightarrow> string \<Rightarrow> string option \<Rightarrow> gotime \<Rightarrow> error + FriendRequest" where
  "entityNewFriendRequest requestID requesterID addresseeID message now =
     (if requestID = [] then Inl (Errorf ''friend request id is required'' [])
      else if requesterID = [] then Inl (Errorf ''requester id is required'' [])
      else if addresseeID = [] then Inl (Errorf ''addressee id is required'' [])
      else if requesterID = addresseeID then Inl (Errorf ''cannot send friend request to self'' [])
      else Inr \<lparr>fr_ID = requestID, fr_RequesterID = requesterID, fr_AddresseeID = addresseeID, fr_Status = FriendRequestStatusPending,
        fr_Message = message, fr_CreatedAt = now, fr_RespondedAt = None, fr_ExpiredAt = None, fr_CancelledAt = None, fr_RejectedReason = None\<rparr>)"

abbreviation notPending :: error where "notPending \<equiv> Errorf ''friend request is not pending'' []"

definition IsPending :: "FriendRequest \<Rightarrow> bool" where
  "IsPending r \<longleftrightarrow> fr_Status r = FriendRequestStatusPending"

definition Accept :: "FriendRequest \<Rightarrow> gotime \<Rightarrow> error + FriendRequest" where
  "Accept r now = (if fr_Status r \<noteq> FriendRequestStatusPending then Inl notPending
     else Inr (r\<lparr>fr_Status := FriendRequestStatusAccepted, fr_RespondedAt := Some now\<rparr>))"

definition Reject :: "FriendRequest \<Rightarrow> string option \<Rightarrow> gotime \<Rightarrow> error + FriendRequest" where
  "Reject r reason now = (if fr_Status r \<noteq> FriendRequestStatusPending then Inl notPending
     else Inr (r\<lparr>fr_Status := FriendRequestStatusRejected, fr_RespondedAt := Some now, fr_RejectedReason := reason\<rparr>))"

definition Cancel :: "FriendRequest \<Rightarrow> gotime \<Rightarrow> error + FriendRequest" where
  "Cancel r now = (if fr_Status r \<noteq> FriendRequestStatusPending then Inl notPending
     else Inr (r\<lparr>fr_Status := FriendRequestStatusCancelled, fr_CancelledAt := Some now\<rparr>))"

definition Expire :: "FriendRequest \<Rightarrow> gotime \<Rightarrow> error + FriendRequest" where
  "Expire r now = (if fr_Status r \<noteq> FriendRequestStatusPending then Inl notPending
     else Inr (r\<lparr>fr_Status := FriendRequestStatusExpired, fr_ExpiredAt := Some now\<rparr>))"

record Friendship =
  fs_ID :: string
  fs_UserLowID :: string
  fs_UserHighID :: string
  fs_CreatedAt :: gotime
  fs_CreatedFromRequestID :: "string option"

text \<open>Three packages order a pair with a function of their own.\<close>

definition entityNormalizePair :: "string \<Rightarrow> string \<Rightarrow> string \<times> string" where
  "entityNormalizePair a b = (if a < b then (a, b) else (b, a))"

definition NewFriendship :: "string \<Rightarrow> string \<Rightarrow> string \<Rightarrow> string option \<Rightarrow> gotime \<Rightarrow> error + Friendship" where
  "NewFriendship friendshipID userA userB createdFromRequestID now =
     (if friendshipID = [] then Inl (Errorf ''friendship id is required'' [])
      else if userA = [] \<or> userB = [] then Inl (Errorf ''friendship users are required'' [])
      else if userA = userB then Inl (Errorf ''cannot create friendship with self'' [])
      else let (low, high) = entityNormalizePair userA userB
           in Inr \<lparr>fs_ID = friendshipID, fs_UserLowID = low, fs_UserHighID = high, fs_CreatedAt = now,
                fs_CreatedFromRequestID = createdFromRequestID\<rparr>)"

definition HasUser :: "Friendship \<Rightarrow> string \<Rightarrow> bool" where
  "HasUser f userID \<longleftrightarrow> fs_UserLowID f = userID \<or> fs_UserHighID f = userID"

definition OtherUserID :: "Friendship \<Rightarrow> string \<Rightarrow> error + string" where
  "OtherUserID f userID =
     (if userID = fs_UserLowID f then Inr (fs_UserHighID f)
      else if userID = fs_UserHighID f then Inr (fs_UserLowID f)
      else Inl (Errorf ''user does not belong to this friendship'' []))"

record BlockRelation =
  br_ID :: string
  br_BlockerID :: string
  br_BlockedID :: string
  br_Reason :: "string option"
  br_CreatedAt :: gotime

definition NewBlockRelation :: "string \<Rightarrow> string \<Rightarrow> string \<Rightarrow> string option \<Rightarrow> gotime \<Rightarrow> error + BlockRelation" where
  "NewBlockRelation blockID blockerID blockedID reason now =
     (if blockID = [] then Inl (Errorf ''block relation id is required'' [])
      else if blockerID = [] then Inl (Errorf ''blocker id is required'' [])
      else if blockedID = [] then Inl (Errorf ''blocked id is required'' [])
      else if blockerID = blockedID then Inl (Errorf ''cannot block self'' [])
      else Inr \<lparr>br_ID = blockID, br_BlockerID = blockerID, br_BlockedID = blockedID, br_Reason = reason, br_CreatedAt = now\<rparr>)"

record FollowRelation =
  fl_ID :: string
  fl_FollowerID :: string
  fl_FolloweeID :: string
  fl_CreatedAt :: gotime

definition NewFollowRelation :: "string \<Rightarrow> string \<Rightarrow> string \<Rightarrow> gotime \<Rightarrow> error + FollowRelation" where
  "NewFollowRelation followID followerID followeeID now =
     (if followID = [] then Inl (Errorf ''follow relation id is required'' [])
      else if followerID = [] then Inl (Errorf ''follower id is required'' [])
      else if followeeID = [] then Inl (Errorf ''followee id is required'' [])
      else if followerID = followeeID then Inl (Errorf ''cannot follow self'' [])
      else Inr \<lparr>fl_ID = followID, fl_FollowerID = followerID, fl_FolloweeID = followeeID, fl_CreatedAt = now\<rparr>)"

record UserRelationshipCounterDelta =
  FriendsCount :: int64
  FollowersCount :: int64
  FollowingCount :: int64
  BlockedCount :: int64
  PendingInCount :: int64
  PendingOutCount :: int64

definition noDelta :: UserRelationshipCounterDelta where
  "noDelta = \<lparr>FriendsCount = 0, FollowersCount = 0, FollowingCount = 0, BlockedCount = 0, PendingInCount = 0, PendingOutCount = 0\<rparr>"

definition deltaIsZero :: "UserRelationshipCounterDelta \<Rightarrow> bool" where
  "deltaIsZero d \<longleftrightarrow> FriendsCount d = 0 \<and> FollowersCount d = 0 \<and> FollowingCount d = 0 \<and> BlockedCount d = 0 \<and>
     PendingInCount d = 0 \<and> PendingOutCount d = 0"

section \<open>The rules between two users\<close>

record PairState =
  ActorID :: string
  TargetID :: string
  TargetExists :: bool
  IsFriend :: bool
  IsFollowing :: bool
  HasOutgoingRequest :: bool
  HasIncomingRequest :: bool
  HasBlockingRelation :: bool
  HasBlockedTarget :: bool

definition ensureTargetExists :: "PairState \<Rightarrow> error + unit" where
  "ensureTargetExists s = (if \<not> TargetExists s then Inl ErrTargetAccountNotFound else Inr ())"

definition ensureNotSelf :: "PairState \<Rightarrow> error + unit" where
  "ensureNotSelf s = (if ActorID s = TargetID s then Inl (Errorf ''cannot %s self'' []) else Inr ())"

definition ensureNotBlocked :: "PairState \<Rightarrow> error + unit" where
  "ensureNotBlocked s = (if HasBlockingRelation s then Inl ErrRelationshipBlocked else Inr ())"

definition EnsureCanSendFriendRequest :: "PairState \<Rightarrow> error + unit" where
  "EnsureCanSendFriendRequest s =
     andThen (ensureTargetExists s) (\<lambda>_. andThen (ensureNotSelf s) (\<lambda>_. andThen (ensureNotBlocked s) (\<lambda>_.
       if IsFriend s then Inl ErrFriendshipAlreadyExists
       else if HasOutgoingRequest s \<or> HasIncomingRequest s then Inl ErrFriendRequestAlreadyOpen
       else Inr ())))"

definition EnsureCanCancelFriendRequest :: "PairState \<Rightarrow> error + unit" where
  "EnsureCanCancelFriendRequest s =
     andThen (ensureNotSelf s) (\<lambda>_. if \<not> HasOutgoingRequest s then Inl ErrFriendRequestNotFound else Inr ())"

definition EnsureCanAcceptFriendRequest :: "PairState \<Rightarrow> error + unit" where
  "EnsureCanAcceptFriendRequest s =
     andThen (ensureNotSelf s) (\<lambda>_.
       if \<not> HasIncomingRequest s then Inl ErrFriendRequestNotFound
       else andThen (ensureNotBlocked s) (\<lambda>_. if IsFriend s then Inl ErrFriendshipAlreadyExists else Inr ()))"

definition EnsureCanRejectFriendRequest :: "PairState \<Rightarrow> error + unit" where
  "EnsureCanRejectFriendRequest s =
     andThen (ensureNotSelf s) (\<lambda>_. if \<not> HasIncomingRequest s then Inl ErrFriendRequestNotFound else Inr ())"

definition EnsureCanFollow :: "PairState \<Rightarrow> error + unit" where
  "EnsureCanFollow s =
     andThen (ensureTargetExists s) (\<lambda>_. andThen (ensureNotSelf s) (\<lambda>_. andThen (ensureNotBlocked s) (\<lambda>_.
       if IsFollowing s then Inl ErrFollowAlreadyExists else Inr ())))"

definition EnsureCanUnfollow :: "PairState \<Rightarrow> error + unit" where
  "EnsureCanUnfollow s = andThen (ensureNotSelf s) (\<lambda>_. if \<not> IsFollowing s then Inl ErrFollowNotFound else Inr ())"

definition EnsureCanUnfriend :: "PairState \<Rightarrow> error + unit" where
  "EnsureCanUnfriend s = andThen (ensureNotSelf s) (\<lambda>_. if \<not> IsFriend s then Inl ErrFriendshipNotFound else Inr ())"

definition EnsureCanBlock :: "PairState \<Rightarrow> error + unit" where
  "EnsureCanBlock s =
     andThen (ensureTargetExists s) (\<lambda>_. andThen (ensureNotSelf s) (\<lambda>_.
       if HasBlockedTarget s then Inl ErrBlockAlreadyExists else Inr ()))"

definition EnsureCanUnblock :: "PairState \<Rightarrow> error + unit" where
  "EnsureCanUnblock s = andThen (ensureNotSelf s) (\<lambda>_. if \<not> HasBlockedTarget s then Inl ErrBlockNotFound else Inr ())"

section \<open>The friend request aggregate\<close>

record EventFriendRequestCreatedData =
  frc_RequesterID :: string
  frc_AddresseeID :: string
  frc_Message :: string
  frc_CreatedAt :: gotime

datatype FriendRequestEvent =
    EventFriendRequestCreated EventFriendRequestCreatedData
  | EventFriendRequestAccept gotime
  | EventFriendRequestReject "string option" gotime
  | EventFriendRequestCancel gotime

definition friendRequestEventName :: "FriendRequestEvent \<Rightarrow> string" where
  "friendRequestEventName d = (case d of
      EventFriendRequestCreated _ \<Rightarrow> ''EventFriendRequestCreated''
    | EventFriendRequestAccept _ \<Rightarrow> ''EventFriendRequestAccept''
    | EventFriendRequestReject _ _ \<Rightarrow> ''EventFriendRequestReject''
    | EventFriendRequestCancel _ \<Rightarrow> ''EventFriendRequestCancel'')"

record FriendRequestAggregate = "FriendRequestEvent AggregateRoot" +
  fra_FriendRequest :: "FriendRequest option"

abbreviation nilRequest :: error where "nilRequest \<equiv> Errorf ''nil pointer dereference'' []"

definition friendRequestType :: string where "friendRequestType = ''FriendRequestAggregate''"

definition NewFriendRequest :: "string \<Rightarrow> error + FriendRequestAggregate" where
  "NewFriendRequest friendRequestID =
     (if friendRequestID = [] then Inl ErrEmpty
      else InitAggregate friendRequestType (AggregateRoot.extend emptyRoot \<lparr>fra_FriendRequest = None\<rparr>) friendRequestID)"

definition friendRequestRegisterEvents :: "string list" where
  "friendRequestRegisterEvents =
     [''EventFriendRequestCreated'', ''EventFriendRequestAccept'', ''EventFriendRequestReject'', ''EventFriendRequestCancel'']"

definition NullableString :: "string \<Rightarrow> string option" where
  "NullableString v = (if v = [] then None else Some v)"

definition onRequest :: "FriendRequestAggregate \<Rightarrow> (FriendRequest \<Rightarrow> error + FriendRequest) \<Rightarrow> error + FriendRequestAggregate" where
  "onRequest a f = (case fra_FriendRequest a of None \<Rightarrow> Inl nilRequest
     | Some r \<Rightarrow> andThen (f r) (\<lambda>r'. Inr (a\<lparr>fra_FriendRequest := Some r'\<rparr>)))"

definition friendRequestTransition :: "FriendRequestAggregate \<Rightarrow> FriendRequestEvent Event \<Rightarrow> error + FriendRequestAggregate" where
  "friendRequestTransition a e = (case ev_EventData e of
      EventFriendRequestCreated data \<Rightarrow>
        if frc_RequesterID data = [] \<or> frc_AddresseeID data = [] then Inl ErrInvalidData
        else Inr (a\<lparr>fra_FriendRequest := Some
          \<lparr>fr_ID = ev_AggregateID e, fr_RequesterID = frc_RequesterID data, fr_AddresseeID = frc_AddresseeID data,
           fr_Status = FriendRequestStatusPending, fr_Message = NullableString (frc_Message data), fr_CreatedAt = frc_CreatedAt data,
           fr_RespondedAt = None, fr_ExpiredAt = None, fr_CancelledAt = None, fr_RejectedReason = None\<rparr>\<rparr>)
    | EventFriendRequestAccept acceptedAt \<Rightarrow> onRequest a (\<lambda>r. Accept r acceptedAt)
    | EventFriendRequestReject reason rejectedAt \<Rightarrow> onRequest a (\<lambda>r. Reject r reason rejectedAt)
    | EventFriendRequestCancel cancelAt \<Rightarrow> onRequest a (\<lambda>r. Cancel r cancelAt))"

definition requestChange :: "FriendRequestAggregate \<Rightarrow> FriendRequestEvent \<Rightarrow> (error + unit) \<times> FriendRequestAggregate" where
  "requestChange a d = ApplyChange friendRequestEventName friendRequestTransition a (Some d)"

definition Create :: "FriendRequestAggregate \<Rightarrow> string \<Rightarrow> string \<Rightarrow> string option \<Rightarrow> gotime \<Rightarrow> (error + unit) \<times> FriendRequestAggregate" where
  "Create a requesterID addresseeID message now = requestChange a (EventFriendRequestCreated
     \<lparr>frc_RequesterID = requesterID, frc_AddresseeID = addresseeID, frc_Message = (case message of None \<Rightarrow> [] | Some m \<Rightarrow> m), frc_CreatedAt = now\<rparr>)"

abbreviation requestEntityRequired :: error where "requestEntityRequired \<equiv> Errorf ''friend request entity is required'' []"

definition AcceptRequest :: "FriendRequestAggregate \<Rightarrow> gotime \<Rightarrow> (error + unit) \<times> FriendRequestAggregate" where
  "AcceptRequest a now = (if fra_FriendRequest a = None then (Inl requestEntityRequired, a)
     else requestChange a (EventFriendRequestAccept now))"

definition RejectRequest :: "FriendRequestAggregate \<Rightarrow> string option \<Rightarrow> gotime \<Rightarrow> (error + unit) \<times> FriendRequestAggregate" where
  "RejectRequest a reason now = (if fra_FriendRequest a = None then (Inl requestEntityRequired, a)
     else requestChange a (EventFriendRequestReject reason now))"

definition CancelRequest :: "FriendRequestAggregate \<Rightarrow> gotime \<Rightarrow> (error + unit) \<times> FriendRequestAggregate" where
  "CancelRequest a now = (if fra_FriendRequest a = None then (Inl requestEntityRequired, a)
     else requestChange a (EventFriendRequestCancel now))"

definition SetFriendRequest :: "FriendRequestAggregate \<Rightarrow> FriendRequest option \<Rightarrow> error + FriendRequestAggregate" where
  "SetFriendRequest a r = (if r = None then Inl ErrEmpty else Inr (a\<lparr>fra_FriendRequest := r\<rparr>))"

section \<open>The state and the changes of a pair\<close>

record RelationshipPairSnapshot =
  sn_ActorID :: string
  sn_TargetID :: string
  sn_TargetExists :: bool
  sn_FriendRequest :: "FriendRequestAggregate option"
  sn_Friendship :: "Friendship option"
  sn_Following :: "FollowRelation option"
  sn_FollowedBy :: "FollowRelation option"
  sn_Blocking :: "BlockRelation option"
  sn_BlockedBy :: "BlockRelation option"
  sn_AggregateVersion :: int

datatype RelationshipChangeKind = RelationshipChangeNone | RelationshipChangeUpsert | RelationshipChangeDelete

record FriendshipPersistenceIntent =
  fsi_Kind :: RelationshipChangeKind
  fsi_Value :: "Friendship option"

record FollowPersistenceIntent =
  fli_Kind :: RelationshipChangeKind
  fli_Value :: "FollowRelation option"
  fli_FollowerID :: string
  fli_FolloweeID :: string

record BlockPersistenceIntent =
  bri_Kind :: RelationshipChangeKind
  bri_Value :: "BlockRelation option"
  bri_BlockerID :: string
  bri_BlockedID :: string

record RelationshipPairChanges =
  ch_FriendRequest :: RelationshipChangeKind
  ch_Friendship :: FriendshipPersistenceIntent
  ch_Following :: FollowPersistenceIntent
  ch_FollowedBy :: FollowPersistenceIntent
  ch_Block :: BlockPersistenceIntent
  ch_CounterDeltas :: "(string \<times> UserRelationshipCounterDelta) list"

record relationshipPairState =
  actorID :: string
  targetID :: string
  targetExists :: bool
  friendRequest :: "FriendRequestAggregate option"
  friendship :: "Friendship option"
  following :: "FollowRelation option"
  followedBy :: "FollowRelation option"
  blocking :: "BlockRelation option"
  blockedBy :: "BlockRelation option"

definition newRelationshipPairState :: "RelationshipPairSnapshot \<Rightarrow> relationshipPairState" where
  "newRelationshipPairState snapshot =
     \<lparr>actorID = sn_ActorID snapshot, targetID = sn_TargetID snapshot, targetExists = sn_TargetExists snapshot,
      friendRequest = sn_FriendRequest snapshot, friendship = sn_Friendship snapshot, following = sn_Following snapshot,
      followedBy = sn_FollowedBy snapshot, blocking = sn_Blocking snapshot, blockedBy = sn_BlockedBy snapshot\<rparr>"

definition noFollowIntent :: FollowPersistenceIntent where
  "noFollowIntent = \<lparr>fli_Kind = RelationshipChangeNone, fli_Value = None, fli_FollowerID = [], fli_FolloweeID = []\<rparr>"

definition newRelationshipPairChanges :: RelationshipPairChanges where
  "newRelationshipPairChanges =
     \<lparr>ch_FriendRequest = RelationshipChangeNone, ch_Friendship = \<lparr>fsi_Kind = RelationshipChangeNone, fsi_Value = None\<rparr>,
      ch_Following = noFollowIntent, ch_FollowedBy = noFollowIntent,
      ch_Block = \<lparr>bri_Kind = RelationshipChangeNone, bri_Value = None, bri_BlockerID = [], bri_BlockedID = []\<rparr>,
      ch_CounterDeltas = []\<rparr>"

definition pendingBetween :: "FriendRequestAggregate option \<Rightarrow> string \<Rightarrow> string \<Rightarrow> bool" where
  "pendingBetween agg requester addressee = (case agg of None \<Rightarrow> False
     | Some a \<Rightarrow> (case fra_FriendRequest a of None \<Rightarrow> False
         | Some r \<Rightarrow> IsPending r \<and> fr_RequesterID r = requester \<and> fr_AddresseeID r = addressee))"

definition hasPendingOutgoingRequest :: "relationshipPairState \<Rightarrow> bool" where
  "hasPendingOutgoingRequest s \<longleftrightarrow> pendingBetween (friendRequest s) (actorID s) (targetID s)"

definition hasPendingIncomingRequest :: "relationshipPairState \<Rightarrow> bool" where
  "hasPendingIncomingRequest s \<longleftrightarrow> pendingBetween (friendRequest s) (targetID s) (actorID s)"

definition toPolicyState :: "relationshipPairState \<Rightarrow> PairState" where
  "toPolicyState s =
     \<lparr>ActorID = actorID s, TargetID = targetID s, TargetExists = targetExists s, IsFriend = (friendship s \<noteq> None),
      IsFollowing = (following s \<noteq> None), HasOutgoingRequest = hasPendingOutgoingRequest s,
      HasIncomingRequest = hasPendingIncomingRequest s,
      HasBlockingRelation = (blocking s \<noteq> None \<or> blockedBy s \<noteq> None), HasBlockedTarget = (blocking s \<noteq> None)\<rparr>"

definition createFriendship :: "Friendship option \<Rightarrow> RelationshipPairChanges \<Rightarrow> RelationshipPairChanges" where
  "createFriendship f c = (if f = None then c else c\<lparr>ch_Friendship := \<lparr>fsi_Kind = RelationshipChangeUpsert, fsi_Value = f\<rparr>\<rparr>)"

definition deleteFriendship :: "Friendship option \<Rightarrow> RelationshipPairChanges \<Rightarrow> RelationshipPairChanges" where
  "deleteFriendship f c = (if f = None then c else c\<lparr>ch_Friendship := \<lparr>fsi_Kind = RelationshipChangeDelete, fsi_Value = f\<rparr>\<rparr>)"

definition createFollowing :: "FollowRelation option \<Rightarrow> RelationshipPairChanges \<Rightarrow> RelationshipPairChanges" where
  "createFollowing r c = (case r of None \<Rightarrow> c | Some x \<Rightarrow> c\<lparr>ch_Following :=
     \<lparr>fli_Kind = RelationshipChangeUpsert, fli_Value = r, fli_FollowerID = fl_FollowerID x, fli_FolloweeID = fl_FolloweeID x\<rparr>\<rparr>)"

definition deleteFollowing :: "FollowRelation option \<Rightarrow> RelationshipPairChanges \<Rightarrow> RelationshipPairChanges" where
  "deleteFollowing r c = (case r of None \<Rightarrow> c | Some x \<Rightarrow> c\<lparr>ch_Following :=
     \<lparr>fli_Kind = RelationshipChangeDelete, fli_Value = r, fli_FollowerID = fl_FollowerID x, fli_FolloweeID = fl_FolloweeID x\<rparr>\<rparr>)"

definition deleteFollowedBy :: "FollowRelation option \<Rightarrow> RelationshipPairChanges \<Rightarrow> RelationshipPairChanges" where
  "deleteFollowedBy r c = (case r of None \<Rightarrow> c | Some x \<Rightarrow> c\<lparr>ch_FollowedBy :=
     \<lparr>fli_Kind = RelationshipChangeDelete, fli_Value = r, fli_FollowerID = fl_FollowerID x, fli_FolloweeID = fl_FolloweeID x\<rparr>\<rparr>)"

definition createBlock :: "BlockRelation option \<Rightarrow> RelationshipPairChanges \<Rightarrow> RelationshipPairChanges" where
  "createBlock r c = (case r of None \<Rightarrow> c | Some x \<Rightarrow> c\<lparr>ch_Block :=
     \<lparr>bri_Kind = RelationshipChangeUpsert, bri_Value = r, bri_BlockerID = br_BlockerID x, bri_BlockedID = br_BlockedID x\<rparr>\<rparr>)"

definition deleteBlock :: "BlockRelation option \<Rightarrow> RelationshipPairChanges \<Rightarrow> RelationshipPairChanges" where
  "deleteBlock r c = (case r of None \<Rightarrow> c | Some x \<Rightarrow> c\<lparr>ch_Block :=
     \<lparr>bri_Kind = RelationshipChangeDelete, bri_Value = r, bri_BlockerID = br_BlockerID x, bri_BlockedID = br_BlockedID x\<rparr>\<rparr>)"

definition addDelta :: "UserRelationshipCounterDelta \<Rightarrow> UserRelationshipCounterDelta \<Rightarrow> UserRelationshipCounterDelta" where
  "addDelta d e =
     \<lparr>FriendsCount = FriendsCount d + FriendsCount e, FollowersCount = FollowersCount d + FollowersCount e,
      FollowingCount = FollowingCount d + FollowingCount e, BlockedCount = BlockedCount d + BlockedCount e,
      PendingInCount = PendingInCount d + PendingInCount e, PendingOutCount = PendingOutCount d + PendingOutCount e\<rparr>"

definition addCounterDelta :: "string \<Rightarrow> UserRelationshipCounterDelta \<Rightarrow> RelationshipPairChanges \<Rightarrow> RelationshipPairChanges" where
  "addCounterDelta userID delta c =
     (if TrimSpace userID = [] \<or> deltaIsZero delta then c
      else c\<lparr>ch_CounterDeltas := AList.update userID
        (addDelta (case map_of (ch_CounterDeltas c) userID of None \<Rightarrow> noDelta | Some d \<Rightarrow> d) delta) (ch_CounterDeltas c)\<rparr>)"

definition normalizePair :: "string \<Rightarrow> string \<Rightarrow> string \<times> string" where
  "normalizePair a b = (if a \<le> b then (a, b) else (b, a))"

definition CanonicalRelationshipPairAggregateID :: "string \<Rightarrow> string \<Rightarrow> string" where
  "CanonicalRelationshipPairAggregateID a b = (let (low, high) = normalizePair a b in low @ '':'' @ high)"

section \<open>The pair aggregate\<close>

record PairRequestData =
  prd_RequestID :: string
  prd_RequesterID :: string
  prd_AddresseeID :: string
  prd_CreatedAt :: gotime

record PairFollowedData =
  pfd_FollowID :: string
  pfd_FollowerID :: string
  pfd_FolloweeID :: string
  pfd_CreatedAt :: gotime

record PairBlockedData =
  pbd_BlockID :: string
  pbd_BlockerID :: string
  pbd_BlockedID :: string
  pbd_Reason :: "string option"
  pbd_CreatedAt :: gotime

text \<open>
  The events about a request share its id, users and creation time; the cancelled one adds the time, the accepted one
  the friendship's id and the time, the rejected one the reason and the time.
\<close>

datatype PairEvent =
    EventRelationshipPairFriendRequestSent PairRequestData
  | EventRelationshipPairFriendRequestCancelled PairRequestData gotime
  | EventRelationshipPairFriendRequestAccepted PairRequestData string gotime
  | EventRelationshipPairFriendRequestRejected PairRequestData "string option" gotime
  | EventRelationshipPairFollowed PairFollowedData
  | EventRelationshipPairUnfollowed string string
  | EventRelationshipPairUnfriended string string
  | EventRelationshipPairBlocked PairBlockedData
  | EventRelationshipPairUnblocked string string

definition pairEventName :: "PairEvent \<Rightarrow> string" where
  "pairEventName d = (case d of
      EventRelationshipPairFriendRequestSent _ \<Rightarrow> ''EventRelationshipPairFriendRequestSent''
    | EventRelationshipPairFriendRequestCancelled _ _ \<Rightarrow> ''EventRelationshipPairFriendRequestCancelled''
    | EventRelationshipPairFriendRequestAccepted _ _ _ \<Rightarrow> ''EventRelationshipPairFriendRequestAccepted''
    | EventRelationshipPairFriendRequestRejected _ _ _ \<Rightarrow> ''EventRelationshipPairFriendRequestRejected''
    | EventRelationshipPairFollowed _ \<Rightarrow> ''EventRelationshipPairFollowed''
    | EventRelationshipPairUnfollowed _ _ \<Rightarrow> ''EventRelationshipPairUnfollowed''
    | EventRelationshipPairUnfriended _ _ \<Rightarrow> ''EventRelationshipPairUnfriended''
    | EventRelationshipPairBlocked _ \<Rightarrow> ''EventRelationshipPairBlocked''
    | EventRelationshipPairUnblocked _ _ \<Rightarrow> ''EventRelationshipPairUnblocked'')"

record RelationshipPairAggregate = "PairEvent AggregateRoot" +
  rp_state :: relationshipPairState
  rp_changes :: RelationshipPairChanges

definition pairType :: string where "pairType = ''RelationshipPairAggregate''"

definition NewRelationshipPair :: "RelationshipPairSnapshot \<Rightarrow> error + RelationshipPairAggregate" where
  "NewRelationshipPair snapshot =
     (if sn_ActorID snapshot = [] \<or> sn_TargetID snapshot = [] then Inl ErrEmpty
      else let pairID = CanonicalRelationshipPairAggregateID (sn_ActorID snapshot) (sn_TargetID snapshot)
           in andThen (InitAggregate pairType (AggregateRoot.extend emptyRoot
                \<lparr>rp_state = newRelationshipPairState snapshot, rp_changes = newRelationshipPairChanges\<rparr>) pairID) (\<lambda>agg.
              Inr (SetInternal agg pairID (sn_AggregateVersion snapshot) (sn_AggregateVersion snapshot))))"

definition pairRegisterEvents :: "string list" where
  "pairRegisterEvents =
     [''EventRelationshipPairFriendRequestSent'', ''EventRelationshipPairFriendRequestCancelled'',
      ''EventRelationshipPairFriendRequestAccepted'', ''EventRelationshipPairFriendRequestRejected'',
      ''EventRelationshipPairFollowed'', ''EventRelationshipPairUnfollowed'', ''EventRelationshipPairUnfriended'',
      ''EventRelationshipPairBlocked'', ''EventRelationshipPairUnblocked'']"

definition inState :: "(relationshipPairState \<Rightarrow> relationshipPairState) \<Rightarrow> RelationshipPairAggregate \<Rightarrow> RelationshipPairAggregate" where
  "inState f a = a\<lparr>rp_state := f (rp_state a)\<rparr>"

definition inChanges :: "(RelationshipPairChanges \<Rightarrow> RelationshipPairChanges) \<Rightarrow> RelationshipPairAggregate \<Rightarrow> RelationshipPairAggregate" where
  "inChanges f a = a\<lparr>rp_changes := f (rp_changes a)\<rparr>"

text \<open>The request that is tracked is always the one the state holds.\<close>

definition trackFriendRequest :: "RelationshipPairAggregate \<Rightarrow> RelationshipPairAggregate" where
  "trackFriendRequest a = (if friendRequest (rp_state a) = None then a
     else inChanges (\<lambda>c. c\<lparr>ch_FriendRequest := RelationshipChangeUpsert\<rparr>) a)"

definition countActor :: "UserRelationshipCounterDelta \<Rightarrow> RelationshipPairAggregate \<Rightarrow> RelationshipPairAggregate" where
  "countActor d a = inChanges (addCounterDelta (actorID (rp_state a)) d) a"

definition countTarget :: "UserRelationshipCounterDelta \<Rightarrow> RelationshipPairAggregate \<Rightarrow> RelationshipPairAggregate" where
  "countTarget d a = inChanges (addCounterDelta (targetID (rp_state a)) d) a"

definition buildFriendRequestAggregate ::
  "PairRequestData \<Rightarrow> string \<Rightarrow> gotime option \<Rightarrow> gotime option \<Rightarrow> string option \<Rightarrow> error + FriendRequestAggregate" where
  "buildFriendRequestAggregate d status respondedAt cancelledAt rejectedReason =
     andThen (NewFriendRequest (prd_RequestID d)) (\<lambda>agg. SetFriendRequest agg (Some
       \<lparr>fr_ID = prd_RequestID d, fr_RequesterID = prd_RequesterID d, fr_AddresseeID = prd_AddresseeID d, fr_Status = status,
        fr_Message = None, fr_CreatedAt = prd_CreatedAt d, fr_RespondedAt = respondedAt, fr_ExpiredAt = None,
        fr_CancelledAt = cancelledAt, fr_RejectedReason = rejectedReason\<rparr>))"

definition ensureFriendRequestAggregate ::
  "RelationshipPairAggregate \<Rightarrow> PairRequestData \<Rightarrow> string \<Rightarrow> gotime option \<Rightarrow> gotime option \<Rightarrow> string option \<Rightarrow> error + FriendRequestAggregate" where
  "ensureFriendRequestAggregate a d status respondedAt cancelledAt rejectedReason =
     (case friendRequest (rp_state a) of Some fr \<Rightarrow> Inr fr
      | None \<Rightarrow> buildFriendRequestAggregate d status respondedAt cancelledAt rejectedReason)"

definition withRequest :: "FriendRequestAggregate \<Rightarrow> RelationshipPairAggregate \<Rightarrow> RelationshipPairAggregate" where
  "withRequest fr a = inState (\<lambda>s. s\<lparr>friendRequest := Some fr\<rparr>) a"

definition applyFriendRequestSent :: "RelationshipPairAggregate \<Rightarrow> PairRequestData \<Rightarrow> error + RelationshipPairAggregate" where
  "applyFriendRequestSent a d =
     andThen (case friendRequest (rp_state a) of
         Some fr \<Rightarrow> if aggregateID fr \<noteq> prd_RequestID d then buildFriendRequestAggregate d FriendRequestStatusPending None None None else Inr fr
       | None \<Rightarrow> buildFriendRequestAggregate d FriendRequestStatusPending None None None) (\<lambda>fr.
     Inr (countTarget (noDelta\<lparr>PendingInCount := 1\<rparr>) (countActor (noDelta\<lparr>PendingOutCount := 1\<rparr>) (trackFriendRequest (withRequest fr a)))))"

definition applyFriendRequestCancelled :: "RelationshipPairAggregate \<Rightarrow> PairRequestData \<Rightarrow> gotime \<Rightarrow> error + RelationshipPairAggregate" where
  "applyFriendRequestCancelled a d cancelledAt =
     andThen (ensureFriendRequestAggregate a d FriendRequestStatusCancelled None (Some cancelledAt) None) (\<lambda>fr.
     Inr (countTarget (noDelta\<lparr>PendingInCount := -1\<rparr>) (countActor (noDelta\<lparr>PendingOutCount := -1\<rparr>) (trackFriendRequest (withRequest fr a)))))"

definition applyFriendRequestAccepted :: "RelationshipPairAggregate \<Rightarrow> PairRequestData \<Rightarrow> string \<Rightarrow> gotime \<Rightarrow> error + RelationshipPairAggregate" where
  "applyFriendRequestAccepted a d friendshipID acceptedAt =
     andThen (ensureFriendRequestAggregate a d FriendRequestStatusAccepted (Some acceptedAt) None None) (\<lambda>fr.
     andThen (NewFriendship friendshipID (actorID (rp_state a)) (targetID (rp_state a)) (Some (prd_RequestID d)) acceptedAt) (\<lambda>f.
     Inr (countActor (noDelta\<lparr>FriendsCount := 1, PendingInCount := -1\<rparr>)
       (countTarget (noDelta\<lparr>FriendsCount := 1, PendingOutCount := -1\<rparr>)
         (inChanges (createFriendship (Some f)) (trackFriendRequest (inState (\<lambda>s. s\<lparr>friendship := Some f\<rparr>) (withRequest fr a))))))))"

definition applyFriendRequestRejected :: "RelationshipPairAggregate \<Rightarrow> PairRequestData \<Rightarrow> string option \<Rightarrow> gotime \<Rightarrow> error + RelationshipPairAggregate" where
  "applyFriendRequestRejected a d reason rejectedAt =
     andThen (ensureFriendRequestAggregate a d FriendRequestStatusRejected (Some rejectedAt) None reason) (\<lambda>fr.
     Inr (countActor (noDelta\<lparr>PendingInCount := -1\<rparr>) (countTarget (noDelta\<lparr>PendingOutCount := -1\<rparr>) (trackFriendRequest (withRequest fr a)))))"

definition applyFollowed :: "RelationshipPairAggregate \<Rightarrow> PairFollowedData \<Rightarrow> error + RelationshipPairAggregate" where
  "applyFollowed a d =
     andThen (NewFollowRelation (pfd_FollowID d) (pfd_FollowerID d) (pfd_FolloweeID d) (pfd_CreatedAt d)) (\<lambda>r.
     Inr (countTarget (noDelta\<lparr>FollowersCount := 1\<rparr>) (countActor (noDelta\<lparr>FollowingCount := 1\<rparr>)
       (inChanges (createFollowing (Some r)) (inState (\<lambda>s. s\<lparr>following := Some r\<rparr>) a)))))"

definition applyUnfollowed :: "RelationshipPairAggregate \<Rightarrow> RelationshipPairAggregate" where
  "applyUnfollowed a =
     countTarget (noDelta\<lparr>FollowersCount := -1\<rparr>) (countActor (noDelta\<lparr>FollowingCount := -1\<rparr>)
       (inState (\<lambda>s. s\<lparr>following := None\<rparr>) (inChanges (deleteFollowing (following (rp_state a))) a)))"

definition applyUnfriended :: "RelationshipPairAggregate \<Rightarrow> RelationshipPairAggregate" where
  "applyUnfriended a =
     countTarget (noDelta\<lparr>FriendsCount := -1\<rparr>) (countActor (noDelta\<lparr>FriendsCount := -1\<rparr>)
       (inState (\<lambda>s. s\<lparr>friendship := None\<rparr>) (inChanges (deleteFriendship (friendship (rp_state a))) a)))"

definition applyBlockRelation :: "RelationshipPairAggregate \<Rightarrow> PairBlockedData \<Rightarrow> error + RelationshipPairAggregate" where
  "applyBlockRelation a d =
     andThen (NewBlockRelation (pbd_BlockID d) (pbd_BlockerID d) (pbd_BlockedID d) (pbd_Reason d) (pbd_CreatedAt d)) (\<lambda>r.
     Inr (countActor (noDelta\<lparr>BlockedCount := 1\<rparr>) (inChanges (createBlock (Some r)) (inState (\<lambda>s. s\<lparr>blocking := Some r\<rparr>) a))))"

definition resolveOutgoingForBlock :: "gotime \<Rightarrow> RelationshipPairAggregate \<Rightarrow> RelationshipPairAggregate" where
  "resolveOutgoingForBlock now a =
     (if \<not> hasPendingOutgoingRequest (rp_state a) then a
      else case CancelRequest (the (friendRequest (rp_state a))) now of
        (Inl _, fr) \<Rightarrow> withRequest fr a
      | (Inr _, fr) \<Rightarrow> countTarget (noDelta\<lparr>PendingInCount := -1\<rparr>) (countActor (noDelta\<lparr>PendingOutCount := -1\<rparr>)
          (trackFriendRequest (withRequest fr a))))"

definition resolveIncomingForBlock :: "gotime \<Rightarrow> RelationshipPairAggregate \<Rightarrow> RelationshipPairAggregate" where
  "resolveIncomingForBlock now a =
     (if \<not> hasPendingIncomingRequest (rp_state a) then a
      else case RejectRequest (the (friendRequest (rp_state a))) (Some ''blocked by user'') now of
        (Inl _, fr) \<Rightarrow> withRequest fr a
      | (Inr _, fr) \<Rightarrow> countActor (noDelta\<lparr>PendingInCount := -1\<rparr>) (countTarget (noDelta\<lparr>PendingOutCount := -1\<rparr>)
          (trackFriendRequest (withRequest fr a))))"

definition resolvePendingRequestForBlock :: "gotime \<Rightarrow> RelationshipPairAggregate \<Rightarrow> RelationshipPairAggregate" where
  "resolvePendingRequestForBlock now a = resolveIncomingForBlock now (resolveOutgoingForBlock now a)"

definition removeFriendshipForBlock :: "RelationshipPairAggregate \<Rightarrow> RelationshipPairAggregate" where
  "removeFriendshipForBlock a =
     (if friendship (rp_state a) = None then a
      else countTarget (noDelta\<lparr>FriendsCount := -1\<rparr>) (countActor (noDelta\<lparr>FriendsCount := -1\<rparr>)
        (inState (\<lambda>s. s\<lparr>friendship := None\<rparr>) (inChanges (deleteFriendship (friendship (rp_state a))) a))))"

definition removeOutgoingFollowForBlock :: "RelationshipPairAggregate \<Rightarrow> RelationshipPairAggregate" where
  "removeOutgoingFollowForBlock a =
     (if following (rp_state a) = None then a
      else countTarget (noDelta\<lparr>FollowersCount := -1\<rparr>) (countActor (noDelta\<lparr>FollowingCount := -1\<rparr>)
        (inState (\<lambda>s. s\<lparr>following := None\<rparr>) (inChanges (deleteFollowing (following (rp_state a))) a))))"

definition removeIncomingFollowForBlock :: "RelationshipPairAggregate \<Rightarrow> RelationshipPairAggregate" where
  "removeIncomingFollowForBlock a =
     (if followedBy (rp_state a) = None then a
      else countActor (noDelta\<lparr>FollowersCount := -1\<rparr>) (countTarget (noDelta\<lparr>FollowingCount := -1\<rparr>)
        (inState (\<lambda>s. s\<lparr>followedBy := None\<rparr>) (inChanges (deleteFollowedBy (followedBy (rp_state a))) a))))"

definition applyBlocked :: "RelationshipPairAggregate \<Rightarrow> PairBlockedData \<Rightarrow> error + RelationshipPairAggregate" where
  "applyBlocked a d =
     andThen (applyBlockRelation a d) (\<lambda>b.
     Inr (removeIncomingFollowForBlock (removeOutgoingFollowForBlock (removeFriendshipForBlock
       (resolvePendingRequestForBlock (pbd_CreatedAt d) b)))))"

definition applyUnblocked :: "RelationshipPairAggregate \<Rightarrow> RelationshipPairAggregate" where
  "applyUnblocked a =
     countActor (noDelta\<lparr>BlockedCount := -1\<rparr>) (inState (\<lambda>s. s\<lparr>blocking := None\<rparr>) (inChanges (deleteBlock (blocking (rp_state a))) a))"

definition pairTransition :: "RelationshipPairAggregate \<Rightarrow> PairEvent Event \<Rightarrow> error + RelationshipPairAggregate" where
  "pairTransition a e = (case ev_EventData e of
      EventRelationshipPairFriendRequestSent d \<Rightarrow> applyFriendRequestSent a d
    | EventRelationshipPairFriendRequestCancelled d t \<Rightarrow> applyFriendRequestCancelled a d t
    | EventRelationshipPairFriendRequestAccepted d fid t \<Rightarrow> applyFriendRequestAccepted a d fid t
    | EventRelationshipPairFriendRequestRejected d reason t \<Rightarrow> applyFriendRequestRejected a d reason t
    | EventRelationshipPairFollowed d \<Rightarrow> applyFollowed a d
    | EventRelationshipPairUnfollowed _ _ \<Rightarrow> Inr (applyUnfollowed a)
    | EventRelationshipPairUnfriended _ _ \<Rightarrow> Inr (applyUnfriended a)
    | EventRelationshipPairBlocked d \<Rightarrow> applyBlocked a d
    | EventRelationshipPairUnblocked _ _ \<Rightarrow> Inr (applyUnblocked a))"

definition pairChange :: "RelationshipPairAggregate \<Rightarrow> PairEvent \<Rightarrow> (error + unit) \<times> RelationshipPairAggregate" where
  "pairChange a d = ApplyChange pairEventName pairTransition a (Some d)"

section \<open>Operations\<close>

type_synonym pairOp = "RelationshipPairAggregate \<Rightarrow> (error + unit) \<times> RelationshipPairAggregate"

text \<open>A rule that must hold before the rest of an operation runs.\<close>

definition guarded :: "(PairState \<Rightarrow> error + unit) \<Rightarrow> pairOp \<Rightarrow> pairOp" where
  "guarded rule op a = (case rule (toPolicyState (rp_state a)) of Inl e \<Rightarrow> (Inl e, a) | Inr _ \<Rightarrow> op a)"

definition SendFriendRequest :: "string \<Rightarrow> gotime \<Rightarrow> pairOp" where
  "SendFriendRequest requestID now = guarded EnsureCanSendFriendRequest (\<lambda>a.
     case NewFriendRequest requestID of Inl e \<Rightarrow> (Inl e, a)
     | Inr fr \<Rightarrow> (case Create fr (actorID (rp_state a)) (targetID (rp_state a)) None now of
         (Inl e, _) \<Rightarrow> (Inl e, a)
       | (Inr _, fr') \<Rightarrow> pairChange (withRequest fr' a) (EventRelationshipPairFriendRequestSent
           \<lparr>prd_RequestID = requestID, prd_RequesterID = actorID (rp_state a), prd_AddresseeID = targetID (rp_state a), prd_CreatedAt = now\<rparr>)))"

text \<open>What the events say of the request that the state holds.\<close>

definition requestData :: "FriendRequestAggregate \<Rightarrow> FriendRequest \<Rightarrow> PairRequestData" where
  "requestData fr r = \<lparr>prd_RequestID = aggregateID fr, prd_RequesterID = fr_RequesterID r, prd_AddresseeID = fr_AddresseeID r,
     prd_CreatedAt = fr_CreatedAt r\<rparr>"

definition resolveRequest ::
  "(FriendRequestAggregate \<Rightarrow> (error + unit) \<times> FriendRequestAggregate) \<Rightarrow> (PairRequestData \<Rightarrow> PairEvent) \<Rightarrow> pairOp" where
  "resolveRequest change mkEvent a = (case friendRequest (rp_state a) of
      None \<Rightarrow> (Inl (Errorf ''friend request aggregate is required'' []), a)
    | Some fr \<Rightarrow> (case change fr of
        (Inl e, fr') \<Rightarrow> (Inl e, withRequest fr' a)
      | (Inr _, fr') \<Rightarrow> (case fra_FriendRequest fr' of
          None \<Rightarrow> (Inl nilRequest, withRequest fr' a)
        | Some r \<Rightarrow> pairChange (withRequest fr' a) (mkEvent (requestData fr' r)))))"

definition CancelFriendRequest :: "gotime \<Rightarrow> pairOp" where
  "CancelFriendRequest now = guarded EnsureCanCancelFriendRequest (resolveRequest (\<lambda>fr. CancelRequest fr now)
     (\<lambda>d. EventRelationshipPairFriendRequestCancelled d now))"

definition AcceptFriendRequest :: "string \<Rightarrow> gotime \<Rightarrow> pairOp" where
  "AcceptFriendRequest friendshipID now = guarded EnsureCanAcceptFriendRequest (resolveRequest (\<lambda>fr. AcceptRequest fr now)
     (\<lambda>d. EventRelationshipPairFriendRequestAccepted d friendshipID now))"

definition RejectFriendRequest :: "string option \<Rightarrow> gotime \<Rightarrow> pairOp" where
  "RejectFriendRequest reason now = guarded EnsureCanRejectFriendRequest (resolveRequest (\<lambda>fr. RejectRequest fr reason now)
     (\<lambda>d. EventRelationshipPairFriendRequestRejected d reason now))"

definition Follow :: "string \<Rightarrow> gotime \<Rightarrow> pairOp" where
  "Follow followID now = guarded EnsureCanFollow (\<lambda>a. pairChange a (EventRelationshipPairFollowed
     \<lparr>pfd_FollowID = followID, pfd_FollowerID = actorID (rp_state a), pfd_FolloweeID = targetID (rp_state a), pfd_CreatedAt = now\<rparr>))"

definition Unfollow :: pairOp where
  "Unfollow = guarded EnsureCanUnfollow (\<lambda>a. pairChange a (EventRelationshipPairUnfollowed (actorID (rp_state a)) (targetID (rp_state a))))"

definition Unfriend :: pairOp where
  "Unfriend = guarded EnsureCanUnfriend (\<lambda>a. pairChange a (EventRelationshipPairUnfriended (actorID (rp_state a)) (targetID (rp_state a))))"

definition Block :: "string \<Rightarrow> string option \<Rightarrow> gotime \<Rightarrow> pairOp" where
  "Block blockID reason now = guarded EnsureCanBlock (\<lambda>a. pairChange a (EventRelationshipPairBlocked
     \<lparr>pbd_BlockID = blockID, pbd_BlockerID = actorID (rp_state a), pbd_BlockedID = targetID (rp_state a), pbd_Reason = reason,
      pbd_CreatedAt = now\<rparr>))"

definition Unblock :: pairOp where
  "Unblock = guarded EnsureCanUnblock (\<lambda>a. pairChange a (EventRelationshipPairUnblocked (actorID (rp_state a)) (targetID (rp_state a))))"

definition FriendshipCreated :: "RelationshipPairAggregate \<Rightarrow> Friendship option" where
  "FriendshipCreated a = (if fsi_Kind (ch_Friendship (rp_changes a)) \<noteq> RelationshipChangeUpsert then None
     else fsi_Value (ch_Friendship (rp_changes a)))"

definition FollowCreated :: "RelationshipPairAggregate \<Rightarrow> FollowRelation option" where
  "FollowCreated a = (if fli_Kind (ch_Following (rp_changes a)) \<noteq> RelationshipChangeUpsert then None
     else fli_Value (ch_Following (rp_changes a)))"

definition BlockCreated :: "RelationshipPairAggregate \<Rightarrow> BlockRelation option" where
  "BlockCreated a = (if bri_Kind (ch_Block (rp_changes a)) \<noteq> RelationshipChangeUpsert then None
     else bri_Value (ch_Block (rp_changes a)))"

definition pairMarkPersisted :: "RelationshipPairAggregate \<Rightarrow> RelationshipPairAggregate" where
  "pairMarkPersisted a = (MarkPersisted a)\<lparr>rp_changes := newRelationshipPairChanges\<rparr>"

section \<open>Both aggregates keep the kernel's contract\<close>

lemma more_request_iff: "AggregateRoot.more (a :: FriendRequestAggregate) = AggregateRoot.more b \<longleftrightarrow> fra_FriendRequest a = fra_FriendRequest b"
  by (cases a; cases b) auto

interpretation request: aggregate friendRequestEventName friendRequestTransition
proof
  fix a b :: FriendRequestAggregate and e
  assume "friendRequestTransition a e = Inr b"
  then show "AggregateRoot.truncate b = AggregateRoot.truncate a"
    by (auto simp: friendRequestTransition_def onRequest_def AggregateRoot.truncate_def
        split: FriendRequestEvent.splits option.splits if_splits)
next
  fix a b a' :: FriendRequestAggregate and e
  assume "friendRequestTransition a e = Inr b" "AggregateRoot.more a' = AggregateRoot.more a"
  then show "\<exists>b'. friendRequestTransition a' e = Inr b' \<and> AggregateRoot.more b' = AggregateRoot.more b"
    by (auto simp: friendRequestTransition_def onRequest_def more_request_iff
        split: FriendRequestEvent.splits option.splits if_splits)
qed

text \<open>An aggregate under another one's root: the operations of a pair do not read the root.\<close>

definition reroot :: "RelationshipPairAggregate \<Rightarrow> RelationshipPairAggregate \<Rightarrow> RelationshipPairAggregate" where
  "reroot r a = AggregateRoot.extend (AggregateRoot.truncate r) \<lparr>rp_state = rp_state a, rp_changes = rp_changes a\<rparr>"

lemma reroot_same: "AggregateRoot.more a' = AggregateRoot.more a \<Longrightarrow> reroot a' a = a'"
  by (cases a; cases a') (simp add: reroot_def AggregateRoot.defs)

lemma reroot_simps [simp]:
  "rp_state (reroot r a) = rp_state a" "rp_changes (reroot r a) = rp_changes a"
  "AggregateRoot.more (reroot r a) = AggregateRoot.more a"
  "inState f (reroot r a) = reroot r (inState f a)" "inChanges g (reroot r a) = reroot r (inChanges g a)"
  by (cases a; cases r; simp add: reroot_def AggregateRoot.defs inState_def inChanges_def)+

lemmas pair_step_defs = applyFriendRequestSent_def applyFriendRequestCancelled_def applyFriendRequestAccepted_def
  applyFriendRequestRejected_def applyFollowed_def applyUnfollowed_def applyUnfriended_def applyBlocked_def applyBlockRelation_def
  applyUnblocked_def resolvePendingRequestForBlock_def resolveOutgoingForBlock_def resolveIncomingForBlock_def
  removeFriendshipForBlock_def removeOutgoingFollowForBlock_def removeIncomingFollowForBlock_def

lemma pair_root [simp]:
  "AggregateRoot.truncate (inState f a) = AggregateRoot.truncate a" "AggregateRoot.truncate (inChanges g a) = AggregateRoot.truncate a"
  "AggregateRoot.truncate (trackFriendRequest a) = AggregateRoot.truncate a" "AggregateRoot.truncate (withRequest fr a) = AggregateRoot.truncate a"
  "AggregateRoot.truncate (countActor d a) = AggregateRoot.truncate a" "AggregateRoot.truncate (countTarget d a) = AggregateRoot.truncate a"
  by (simp_all add: inState_def inChanges_def trackFriendRequest_def withRequest_def countActor_def countTarget_def AggregateRoot.truncate_def)

lemma reroot_steps [simp]:
  "trackFriendRequest (reroot r a) = reroot r (trackFriendRequest a)" "withRequest fr (reroot r a) = reroot r (withRequest fr a)"
  "countActor d (reroot r a) = reroot r (countActor d a)" "countTarget d (reroot r a) = reroot r (countTarget d a)"
  by (simp_all add: trackFriendRequest_def withRequest_def countActor_def countTarget_def)

lemma reroot_block [simp]:
  "resolveOutgoingForBlock t (reroot r a) = reroot r (resolveOutgoingForBlock t a)"
  "resolveIncomingForBlock t (reroot r a) = reroot r (resolveIncomingForBlock t a)"
  "removeFriendshipForBlock (reroot r a) = reroot r (removeFriendshipForBlock a)"
  "removeOutgoingFollowForBlock (reroot r a) = reroot r (removeOutgoingFollowForBlock a)"
  "removeIncomingFollowForBlock (reroot r a) = reroot r (removeIncomingFollowForBlock a)"
  by (simp_all add: pair_step_defs split: prod.splits sum.splits)

lemma root_block [simp]:
  "AggregateRoot.truncate (resolveOutgoingForBlock t a) = AggregateRoot.truncate a"
  "AggregateRoot.truncate (resolveIncomingForBlock t a) = AggregateRoot.truncate a"
  "AggregateRoot.truncate (removeFriendshipForBlock a) = AggregateRoot.truncate a"
  "AggregateRoot.truncate (removeOutgoingFollowForBlock a) = AggregateRoot.truncate a"
  "AggregateRoot.truncate (removeIncomingFollowForBlock a) = AggregateRoot.truncate a"
  by (simp_all add: pair_step_defs split: prod.splits sum.splits)

lemma pairTransition_root: "pairTransition a e = Inr b \<Longrightarrow> AggregateRoot.truncate b = AggregateRoot.truncate a"
  by (auto simp: pairTransition_def applyFriendRequestSent_def applyFriendRequestCancelled_def applyFriendRequestAccepted_def
      applyFriendRequestRejected_def applyFollowed_def applyUnfollowed_def applyUnfriended_def applyBlocked_def applyBlockRelation_def
      applyUnblocked_def resolvePendingRequestForBlock_def split: PairEvent.splits)

lemma pairTransition_reroot: "pairTransition a e = Inr b \<Longrightarrow> pairTransition (reroot r a) e = Inr (reroot r b)"
  by (cases "ev_EventData e")
    (auto simp: pairTransition_def applyFriendRequestSent_def applyFriendRequestCancelled_def applyFriendRequestAccepted_def
      applyFriendRequestRejected_def applyFollowed_def applyUnfollowed_def applyUnfriended_def applyBlocked_def applyBlockRelation_def
      applyUnblocked_def resolvePendingRequestForBlock_def ensureFriendRequestAggregate_def)

interpretation pair: aggregate pairEventName pairTransition
proof
  fix a b :: RelationshipPairAggregate and e
  assume "pairTransition a e = Inr b"
  then show "AggregateRoot.truncate b = AggregateRoot.truncate a" by (rule pairTransition_root)
next
  fix a b a' :: RelationshipPairAggregate and e
  assume b: "pairTransition a e = Inr b" and "AggregateRoot.more a' = AggregateRoot.more a"
  then have "reroot a' a = a'" by (intro reroot_same)
  with pairTransition_reroot [OF b, of a'] show "\<exists>b'. pairTransition a' e = Inr b' \<and> AggregateRoot.more b' = AggregateRoot.more b"
    by (intro exI [of _ "reroot a' b"]) simp
qed

end
