(* ===== verification/RelationshipStore.thy ===== *)
theory RelationshipStore
  imports RelationshipPair
begin

text \<open>
  The tables of \<^verbatim>\<open>core/modules/relationship/infra/persistent/repository\<close> and the command handlers of
  \<^verbatim>\<open>core/modules/relationship/application/command\<close>.

  A table is the list of its rows in the order of their insertion; a row has the fields of its entity (the models have the
  same fields). The unique indexes and the checks are those of \<^verbatim>\<open>migration/000043_relationship_tables.up.sql\<close> and
  \<^verbatim>\<open>migration/000049_strengthen_relationship_write_invariants.up.sql\<close>. A counter column is an
  integer: leaving the range of \<^verbatim>\<open>BIGINT\<close> is not modelled. The row lock that \<open>LockPair\<close> takes makes the transactions on a
  pair run one after the other, so a handler is one step; a failing transaction leaves the tables as they were.
\<close>

section \<open>Tables\<close>

datatype RelationEventData = OfFriendRequest FriendRequestEvent | OfPair PairEvent

record RelationOutboxEvent =
  ro_AggregateID :: string
  ro_AggregateType :: string
  ro_Version :: int
  ro_EventName :: string
  ro_EventData :: RelationEventData

record UserRelationshipCounters =
  uc_Friends :: int
  uc_Followers :: int
  uc_Following :: int
  uc_Blocked :: int
  uc_PendingIn :: int
  uc_PendingOut :: int

record RelationDB =
  friendRequestsT :: "FriendRequest list"
  friendshipsT :: "Friendship list"
  followsT :: "FollowRelation list"
  blocksT :: "BlockRelation list"
  countersT :: "string \<rightharpoonup> UserRelationshipCounters"
  relAccountsT :: "string list"
  guardsT :: "(string \<times> string) list"
  relOutboxT :: "RelationOutboxEvent list"

definition emptyRelationDB :: RelationDB where
  "emptyRelationDB = \<lparr>friendRequestsT = [], friendshipsT = [], followsT = [], blocksT = [], countersT = Map.empty,
     relAccountsT = [], guardsT = [], relOutboxT = []\<rparr>"

definition noCounters :: UserRelationshipCounters where
  "noCounters = \<lparr>uc_Friends = 0, uc_Followers = 0, uc_Following = 0, uc_Blocked = 0, uc_PendingIn = 0, uc_PendingOut = 0\<rparr>"

abbreviation uniqueViolation :: error where "uniqueViolation \<equiv> Sentinel ''unique_violation''"
abbreviation checkViolation :: error where "checkViolation \<equiv> Sentinel ''check_violation''"

definition repoNormalizePair :: "string \<Rightarrow> string \<Rightarrow> string \<times> string" where
  "repoNormalizePair a b = (if a < b then (a, b) else (b, a))"

definition LockPair :: "RelationDB \<Rightarrow> string \<Rightarrow> string \<Rightarrow> error + RelationDB" where
  "LockPair db userA userB =
     (if userA = [] \<or> userB = [] then Inl (Errorf ''pair users are required'' [])
      else let guard = repoNormalizePair userA userB
           in if \<not> fst guard < snd guard then Inl checkViolation
              else Inr (if guard \<in> set (guardsT db) then db else db\<lparr>guardsT := guardsT db @ [guard]\<rparr>))"

definition ExistsAccount :: "RelationDB \<Rightarrow> string \<Rightarrow> bool" where
  "ExistsAccount db accountID \<longleftrightarrow> accountID \<in> set (relAccountsT db)"

definition ProjectAccount :: "RelationDB \<Rightarrow> string \<Rightarrow> RelationDB" where
  "ProjectAccount db accountID = (if accountID \<in> set (relAccountsT db) then db else db\<lparr>relAccountsT := relAccountsT db @ [accountID]\<rparr>)"

section \<open>Friendships, follows, blocks\<close>

definition friendshipCreate :: "RelationDB \<Rightarrow> Friendship \<Rightarrow> error + RelationDB" where
  "friendshipCreate db f =
     (if \<not> fs_UserLowID f < fs_UserHighID f then Inl checkViolation
      else if list_ex (\<lambda>g. fs_ID g = fs_ID f \<or> fs_UserLowID g = fs_UserLowID f \<and> fs_UserHighID g = fs_UserHighID f) (friendshipsT db)
      then Inl uniqueViolation
      else Inr (db\<lparr>friendshipsT := friendshipsT db @ [f]\<rparr>))"

definition isFriendshipOf :: "string \<Rightarrow> string \<Rightarrow> Friendship \<Rightarrow> bool" where
  "isFriendshipOf userA userB f \<longleftrightarrow> (fs_UserLowID f, fs_UserHighID f) = repoNormalizePair userA userB"

definition friendshipDeleteBetween :: "RelationDB \<Rightarrow> string \<Rightarrow> string \<Rightarrow> bool \<times> RelationDB" where
  "friendshipDeleteBetween db userA userB =
     (list_ex (isFriendshipOf userA userB) (friendshipsT db),
      db\<lparr>friendshipsT := filter (\<lambda>f. \<not> isFriendshipOf userA userB f) (friendshipsT db)\<rparr>)"

definition isFollowOf :: "string \<Rightarrow> string \<Rightarrow> FollowRelation \<Rightarrow> bool" where
  "isFollowOf followerID followeeID r \<longleftrightarrow> fl_FollowerID r = followerID \<and> fl_FolloweeID r = followeeID"

definition followCreate :: "RelationDB \<Rightarrow> FollowRelation \<Rightarrow> error + RelationDB" where
  "followCreate db r =
     (if fl_FollowerID r = fl_FolloweeID r then Inl checkViolation
      else if list_ex (\<lambda>g. fl_ID g = fl_ID r \<or> isFollowOf (fl_FollowerID r) (fl_FolloweeID r) g) (followsT db) then Inl uniqueViolation
      else Inr (db\<lparr>followsT := followsT db @ [r]\<rparr>))"

definition followDelete :: "RelationDB \<Rightarrow> string \<Rightarrow> string \<Rightarrow> bool \<times> RelationDB" where
  "followDelete db followerID followeeID =
     (list_ex (isFollowOf followerID followeeID) (followsT db),
      db\<lparr>followsT := filter (\<lambda>r. \<not> isFollowOf followerID followeeID r) (followsT db)\<rparr>)"

definition isBlockOf :: "string \<Rightarrow> string \<Rightarrow> BlockRelation \<Rightarrow> bool" where
  "isBlockOf blockerID blockedID r \<longleftrightarrow> br_BlockerID r = blockerID \<and> br_BlockedID r = blockedID"

definition blockCreate :: "RelationDB \<Rightarrow> BlockRelation \<Rightarrow> error + RelationDB" where
  "blockCreate db r =
     (if br_BlockerID r = br_BlockedID r then Inl checkViolation
      else if list_ex (\<lambda>g. br_ID g = br_ID r \<or> isBlockOf (br_BlockerID r) (br_BlockedID r) g) (blocksT db) then Inl uniqueViolation
      else Inr (db\<lparr>blocksT := blocksT db @ [r]\<rparr>))"

definition blockDelete :: "RelationDB \<Rightarrow> string \<Rightarrow> string \<Rightarrow> bool \<times> RelationDB" where
  "blockDelete db blockerID blockedID =
     (list_ex (isBlockOf blockerID blockedID) (blocksT db),
      db\<lparr>blocksT := filter (\<lambda>r. \<not> isBlockOf blockerID blockedID r) (blocksT db)\<rparr>)"

section \<open>Counters and the outbox\<close>

definition countersAdd :: "UserRelationshipCounters \<Rightarrow> UserRelationshipCounterDelta \<Rightarrow> UserRelationshipCounters" where
  "countersAdd c d =
     \<lparr>uc_Friends = uc_Friends c + sint (FriendsCount d), uc_Followers = uc_Followers c + sint (FollowersCount d),
      uc_Following = uc_Following c + sint (FollowingCount d), uc_Blocked = uc_Blocked c + sint (BlockedCount d),
      uc_PendingIn = uc_PendingIn c + sint (PendingInCount d), uc_PendingOut = uc_PendingOut c + sint (PendingOutCount d)\<rparr>"

definition countersNonnegative :: "UserRelationshipCounters \<Rightarrow> bool" where
  "countersNonnegative c \<longleftrightarrow> 0 \<le> uc_Friends c \<and> 0 \<le> uc_Followers c \<and> 0 \<le> uc_Following c \<and> 0 \<le> uc_Blocked c \<and>
     0 \<le> uc_PendingIn c \<and> 0 \<le> uc_PendingOut c"

text \<open>A row is created with zeros before the delta is added to it.\<close>

fun updateCounters :: "(string \<rightharpoonup> UserRelationshipCounters) \<Rightarrow> (string \<times> UserRelationshipCounterDelta) list \<Rightarrow>
    error + (string \<rightharpoonup> UserRelationshipCounters)" where
  "updateCounters m [] = Inr m"
| "updateCounters m ((userID, delta) # deltas) =
     (if userID = [] then updateCounters m deltas
      else let c = countersAdd (case m userID of None \<Rightarrow> noCounters | Some c \<Rightarrow> c) delta
           in if countersNonnegative c then updateCounters (m(userID \<mapsto> c)) deltas else Inl checkViolation)"

definition ApplyDeltas :: "RelationDB \<Rightarrow> (string \<times> UserRelationshipCounterDelta) list \<Rightarrow> error + RelationDB" where
  "ApplyDeltas db deltas = andThen (updateCounters (countersT db) deltas) (\<lambda>m. Inr (db\<lparr>countersT := m\<rparr>))"

definition loadRelationOutboxAggregateVersion :: "RelationDB \<Rightarrow> string \<Rightarrow> string \<Rightarrow> int" where
  "loadRelationOutboxAggregateVersion db aggID aggType =
     (case map ro_Version (filter (\<lambda>e. ro_AggregateID e = aggID \<and> ro_AggregateType e = aggType) (relOutboxT db)) of
        [] \<Rightarrow> 0 | v # vs \<Rightarrow> fold max vs v)"

definition relationOutboxAppend :: "('d \<Rightarrow> RelationEventData) \<Rightarrow> RelationDB \<Rightarrow> 'd Event \<Rightarrow> error + RelationDB" where
  "relationOutboxAppend wrap db ev = Inr (db\<lparr>relOutboxT := relOutboxT db @
     [\<lparr>ro_AggregateID = ev_AggregateID ev, ro_AggregateType = ev_AggregateType ev, ro_Version = ev_Version ev,
       ro_EventName = ev_EventName ev, ro_EventData = wrap (ev_EventData ev)\<rparr>]\<rparr>)"

section \<open>Friend requests\<close>

text \<open>The first row by creation time, latest first, then by id.\<close>

fun newestRequest :: "FriendRequest list \<Rightarrow> FriendRequest option" where
  "newestRequest [] = None"
| "newestRequest (r # rs) = (case newestRequest rs of None \<Rightarrow> Some r
     | Some s \<Rightarrow> if nanos (fr_CreatedAt r) < nanos (fr_CreatedAt s) \<or>
           nanos (fr_CreatedAt r) = nanos (fr_CreatedAt s) \<and> fr_ID s < fr_ID r then Some s else Some r)"

definition requestBetween :: "string \<Rightarrow> string \<Rightarrow> FriendRequest \<Rightarrow> bool" where
  "requestBetween userA userB r \<longleftrightarrow> fr_RequesterID r = userA \<and> fr_AddresseeID r = userB \<or> fr_RequesterID r = userB \<and> fr_AddresseeID r = userA"

definition loadAggregateFromModel :: "RelationDB \<Rightarrow> FriendRequest \<Rightarrow> error + FriendRequestAggregate" where
  "loadAggregateFromModel db r =
     andThen (NewFriendRequest (fr_ID r)) (\<lambda>agg.
     andThen (SetFriendRequest agg (Some r)) (\<lambda>agg'.
     let v = loadRelationOutboxAggregateVersion db (fr_ID r) friendRequestType in Inr (SetInternal agg' (fr_ID r) v v)))"

definition LoadPendingBetween :: "RelationDB \<Rightarrow> string \<Rightarrow> string \<Rightarrow> error + FriendRequestAggregate option" where
  "LoadPendingBetween db userA userB =
     (case newestRequest (filter (\<lambda>r. fr_Status r = FriendRequestStatusPending \<and> requestBetween userA userB r) (friendRequestsT db)) of
        None \<Rightarrow> Inr None
      | Some r \<Rightarrow> andThen (loadAggregateFromModel db r) (\<lambda>agg. Inr (Some agg)))"

text \<open>An upsert by id, under the checks of the table and the unique index over pending requests.\<close>

definition upsertRequest :: "FriendRequest \<Rightarrow> FriendRequest list \<Rightarrow> FriendRequest list" where
  "upsertRequest r rows = (if list_ex (\<lambda>s. fr_ID s = fr_ID r) rows then map (\<lambda>s. if fr_ID s = fr_ID r then r else s) rows else rows @ [r])"

definition requestStatuses :: "string list" where
  "requestStatuses = [FriendRequestStatusPending, FriendRequestStatusAccepted, FriendRequestStatusRejected, FriendRequestStatusCancelled,
     FriendRequestStatusExpired]"

definition saveRequestRow :: "RelationDB \<Rightarrow> FriendRequest \<Rightarrow> error + RelationDB" where
  "saveRequestRow db r =
     (if fr_Status r \<notin> set requestStatuses \<or> fr_RequesterID r = fr_AddresseeID r then Inl checkViolation
      else if fr_Status r = FriendRequestStatusPending \<and> list_ex (\<lambda>s. fr_ID s \<noteq> fr_ID r \<and> fr_Status s = FriendRequestStatusPending \<and>
          requestBetween (fr_RequesterID r) (fr_AddresseeID r) s) (friendRequestsT db) then Inl uniqueViolation
      else Inr (db\<lparr>friendRequestsT := upsertRequest r (friendRequestsT db)\<rparr>))"

definition friendRequestSave :: "int \<Rightarrow> RelationDB \<Rightarrow> FriendRequestAggregate \<Rightarrow> error + RelationDB \<times> FriendRequestAggregate" where
  "friendRequestSave now db agg = (case fra_FriendRequest agg of
      None \<Rightarrow> Inl (Errorf ''friend request entity is required'' [])
    | Some r \<Rightarrow>
        if aggregateID agg = [] then Inl (Errorf ''friend request aggregate id is required'' [])
        else let r' = r\<lparr>fr_ID := aggregateID agg\<rparr>; agg' = agg\<lparr>fra_FriendRequest := Some r'\<rparr>
          in andThen (saveRequestRow db r') (\<lambda>db'.
             if events agg' = [] then Inr (db', agg')
             else case PublishAggregate now (relationOutboxAppend OfFriendRequest) db' agg' of
               (Inl e, _) \<Rightarrow> Inl e | (Inr _, db'', agg'') \<Rightarrow> Inr (db'', agg'')))"

section \<open>The pair repository\<close>

definition LoadForUpdate :: "RelationDB \<Rightarrow> string \<Rightarrow> string \<Rightarrow> error + RelationDB \<times> RelationshipPairAggregate" where
  "LoadForUpdate db0 actor target =
     andThen (LockPair db0 actor target) (\<lambda>db.
     andThen (LoadPendingBetween db actor target) (\<lambda>request.
     andThen (NewRelationshipPair
       \<lparr>sn_ActorID = actor, sn_TargetID = target, sn_TargetExists = ExistsAccount db target, sn_FriendRequest = request,
        sn_Friendship = List.find (isFriendshipOf actor target) (friendshipsT db),
        sn_Following = List.find (isFollowOf actor target) (followsT db), sn_FollowedBy = List.find (isFollowOf target actor) (followsT db),
        sn_Blocking = List.find (isBlockOf actor target) (blocksT db), sn_BlockedBy = List.find (isBlockOf target actor) (blocksT db),
        sn_AggregateVersion = loadRelationOutboxAggregateVersion db (CanonicalRelationshipPairAggregateID actor target) pairType\<rparr>) (\<lambda>agg.
     Inr (db, agg))))"

text \<open>The database's unique violations become the domain's error.\<close>

definition mapUnique :: "error \<Rightarrow> error + 'a \<Rightarrow> error + 'a" where
  "mapUnique err = wrapErr (\<lambda>e. if e = uniqueViolation then err else e)"

definition persistFriendRequest :: "int \<Rightarrow> RelationDB \<Rightarrow> RelationshipPairAggregate \<Rightarrow> error + RelationDB \<times> RelationshipPairAggregate" where
  "persistFriendRequest now db a =
     (if ch_FriendRequest (rp_changes a) \<noteq> RelationshipChangeUpsert then Inr (db, a)
      else case friendRequest (rp_state a) of None \<Rightarrow> Inr (db, a)
        | Some fr \<Rightarrow> andThen (friendRequestSave now db fr) (\<lambda>(db', fr'). Inr (db', withRequest fr' a)))"

definition persistFriendship :: "RelationDB \<Rightarrow> RelationshipPairAggregate \<Rightarrow> FriendshipPersistenceIntent \<Rightarrow> error + RelationDB" where
  "persistFriendship db a intent = (case fsi_Kind intent of
      RelationshipChangeUpsert \<Rightarrow> (case fsi_Value intent of None \<Rightarrow> Inr db
        | Some f \<Rightarrow> mapUnique ErrFriendshipAlreadyExists (friendshipCreate db f))
    | RelationshipChangeDelete \<Rightarrow> (case friendshipDeleteBetween db (actorID (rp_state a)) (targetID (rp_state a)) of
        (deleted, db') \<Rightarrow> if deleted then Inr db' else Inl ErrFriendshipNotFound)
    | RelationshipChangeNone \<Rightarrow> Inr db)"

definition persistFollow :: "RelationDB \<Rightarrow> FollowPersistenceIntent \<Rightarrow> error + RelationDB" where
  "persistFollow db intent = (case fli_Kind intent of
      RelationshipChangeUpsert \<Rightarrow> (case fli_Value intent of None \<Rightarrow> Inr db
        | Some r \<Rightarrow> mapUnique ErrFollowAlreadyExists (followCreate db r))
    | RelationshipChangeDelete \<Rightarrow> (case followDelete db (fli_FollowerID intent) (fli_FolloweeID intent) of
        (deleted, db') \<Rightarrow> if deleted then Inr db' else Inl ErrFollowNotFound)
    | RelationshipChangeNone \<Rightarrow> Inr db)"

definition persistBlock :: "RelationDB \<Rightarrow> BlockPersistenceIntent \<Rightarrow> error + RelationDB" where
  "persistBlock db intent = (case bri_Kind intent of
      RelationshipChangeUpsert \<Rightarrow> (case bri_Value intent of None \<Rightarrow> Inr db
        | Some r \<Rightarrow> mapUnique ErrBlockAlreadyExists (blockCreate db r))
    | RelationshipChangeDelete \<Rightarrow> (case blockDelete db (bri_BlockerID intent) (bri_BlockedID intent) of
        (deleted, db') \<Rightarrow> if deleted then Inr db' else Inl ErrBlockNotFound)
    | RelationshipChangeNone \<Rightarrow> Inr db)"

definition pairPublishOutboxEvents :: "int \<Rightarrow> RelationDB \<Rightarrow> RelationshipPairAggregate \<Rightarrow> error + RelationDB \<times> RelationshipPairAggregate" where
  "pairPublishOutboxEvents now db a =
     (if events a = [] then Inr (db, a)
      else case PublishAggregate now (relationOutboxAppend OfPair) db a of
        (Inl e, _) \<Rightarrow> Inl e | (Inr _, db', a') \<Rightarrow> Inr (db', pairMarkPersisted a'))"

definition pairSave :: "int \<Rightarrow> RelationDB \<Rightarrow> RelationshipPairAggregate \<Rightarrow> error + RelationDB \<times> RelationshipPairAggregate" where
  "pairSave now db a =
     (let changes = rp_changes a
      in andThen (persistFriendRequest now db a) (\<lambda>(db1, a1).
         andThen (persistFriendship db1 a1 (ch_Friendship changes)) (\<lambda>db2.
         andThen (persistFollow db2 (ch_Following changes)) (\<lambda>db3.
         andThen (persistFollow db3 (ch_FollowedBy changes)) (\<lambda>db4.
         andThen (persistBlock db4 (ch_Block changes)) (\<lambda>db5.
         andThen (ApplyDeltas db5 (ch_CounterDeltas changes)) (\<lambda>db6.
         pairPublishOutboxEvents now db6 a1)))))))"

section \<open>Commands\<close>

text \<open>
  Every handler loads the pair for update, runs one operation, reads its response from the aggregate and saves it, in one
  transaction. \<open>now\<close> stamps the operation and \<open>clock\<close> the published events.
\<close>

definition pairCommand :: "int \<Rightarrow> pairOp \<Rightarrow> (RelationshipPairAggregate \<Rightarrow> error + 'r) \<Rightarrow> string \<Rightarrow> string \<Rightarrow> RelationDB \<Rightarrow> (error + 'r) \<times> RelationDB" where
  "pairCommand clock op response accountID otherID db =
     (case andThen (LoadForUpdate db accountID otherID) (\<lambda>(db1, a).
         case op a of (Inl e, _) \<Rightarrow> Inl e
         | (Inr _, b) \<Rightarrow> andThen (response b) (\<lambda>r. andThen (pairSave clock db1 b) (\<lambda>(db2, _). Inr (r, db2)))) of
        Inl e \<Rightarrow> (Inl e, db) | Inr (r, db') \<Rightarrow> (Inr r, db'))"

abbreviation nilResult :: error where "nilResult \<equiv> Errorf ''nil pointer dereference'' []"

definition handleSendFriendRequest :: "int \<Rightarrow> string \<Rightarrow> gotime \<Rightarrow> string \<Rightarrow> string \<Rightarrow> RelationDB \<Rightarrow> (error + string \<times> string \<times> string \<times> string) \<times> RelationDB" where
  "handleSendFriendRequest clock requestID now = pairCommand clock (SendFriendRequest requestID now) (\<lambda>b.
     case friendRequest (rp_state b) of None \<Rightarrow> Inl nilResult
     | Some fr \<Rightarrow> (case fra_FriendRequest fr of None \<Rightarrow> Inl nilResult
         | Some r \<Rightarrow> Inr (aggregateID fr, fr_RequesterID r, fr_AddresseeID r, fr_Status r)))"

definition handleCancelFriendRequest :: "int \<Rightarrow> gotime \<Rightarrow> string \<Rightarrow> string \<Rightarrow> RelationDB \<Rightarrow> (error + bool) \<times> RelationDB" where
  "handleCancelFriendRequest clock now = pairCommand clock (CancelFriendRequest now) (\<lambda>_. Inr True)"

definition handleAcceptFriendRequest ::
  "int \<Rightarrow> string \<Rightarrow> gotime \<Rightarrow> string \<Rightarrow> string \<Rightarrow> RelationDB \<Rightarrow> (error + string \<times> string \<times> string \<times> int) \<times> RelationDB" where
  "handleAcceptFriendRequest clock friendshipID now accountID = pairCommand clock (AcceptFriendRequest friendshipID now) (\<lambda>b.
     case FriendshipCreated b of None \<Rightarrow> Inl nilResult
     | Some f \<Rightarrow> andThen (OtherUserID f accountID) (\<lambda>friendID. Inr (fs_ID f, accountID, friendID, Unix (fs_CreatedAt f)))) accountID"

definition handleRejectFriendRequest :: "int \<Rightarrow> gotime \<Rightarrow> string \<Rightarrow> string \<Rightarrow> RelationDB \<Rightarrow> (error + bool) \<times> RelationDB" where
  "handleRejectFriendRequest clock now = pairCommand clock (RejectFriendRequest None now) (\<lambda>_. Inr True)"

definition handleFollowUser :: "int \<Rightarrow> string \<Rightarrow> gotime \<Rightarrow> string \<Rightarrow> string \<Rightarrow> RelationDB \<Rightarrow> (error + string \<times> string \<times> int) \<times> RelationDB" where
  "handleFollowUser clock followID now = pairCommand clock (Follow followID now) (\<lambda>b.
     case FollowCreated b of None \<Rightarrow> Inl nilResult | Some r \<Rightarrow> Inr (fl_FollowerID r, fl_FolloweeID r, Unix (fl_CreatedAt r)))"

definition handleUnfollowUser :: "int \<Rightarrow> string \<Rightarrow> string \<Rightarrow> RelationDB \<Rightarrow> (error + bool) \<times> RelationDB" where
  "handleUnfollowUser clock = pairCommand clock Unfollow (\<lambda>_. Inr True)"

definition handleUnfriendUser :: "int \<Rightarrow> string \<Rightarrow> string \<Rightarrow> RelationDB \<Rightarrow> (error + bool) \<times> RelationDB" where
  "handleUnfriendUser clock = pairCommand clock Unfriend (\<lambda>_. Inr True)"

definition handleBlockUser :: "int \<Rightarrow> string \<Rightarrow> gotime \<Rightarrow> string \<Rightarrow> string \<Rightarrow> RelationDB \<Rightarrow> (error + string \<times> string \<times> int) \<times> RelationDB" where
  "handleBlockUser clock blockID now = pairCommand clock (Block blockID None now) (\<lambda>b.
     case BlockCreated b of None \<Rightarrow> Inl nilResult | Some r \<Rightarrow> Inr (br_BlockerID r, br_BlockedID r, Unix (br_CreatedAt r)))"

definition handleUnblockUser :: "int \<Rightarrow> string \<Rightarrow> string \<Rightarrow> RelationDB \<Rightarrow> (error + bool) \<times> RelationDB" where
  "handleUnblockUser clock = pairCommand clock Unblock (\<lambda>_. Inr True)"

end
