(* ===== verification/RelationshipSpec.thy ===== *)
theory RelationshipSpec
  imports RelationshipStore
begin

text \<open>
  What the relationship commands promise, over sets of pairs of users, and the proof that the handlers of \<open>RelationshipStore\<close>
  implement it: which command is allowed, what it changes, and that the counters of every user are the numbers of
  friends, followers, followed users, blocked users and pending requests.
\<close>

section \<open>The specification\<close>

record Social =
  accounts :: "string set"
  friends :: "(string \<times> string) set"
  follows :: "(string \<times> string) set"
  blocks :: "(string \<times> string) set"
  pending :: "(string \<times> string) set"

datatype relCommand = Send string | CancelSent | AcceptFrom string | RejectFrom | FollowTo string | UnfollowTo | UnfriendWith
  | BlockTo string | UnblockTo

abbreviation pairOf :: "string \<Rightarrow> string \<Rightarrow> string \<times> string" where "pairOf \<equiv> repoNormalizePair"

definition blockedPair :: "Social \<Rightarrow> string \<Rightarrow> string \<Rightarrow> bool" where
  "blockedPair s u v \<longleftrightarrow> (u, v) \<in> blocks s \<or> (v, u) \<in> blocks s"

definition relAllowed :: "relCommand \<Rightarrow> string \<Rightarrow> string \<Rightarrow> Social \<Rightarrow> bool" where
  "relAllowed c u v s \<longleftrightarrow> u \<noteq> [] \<and> v \<noteq> [] \<and> u \<noteq> v \<and> (case c of
      Send _ \<Rightarrow> v \<in> accounts s \<and> \<not> blockedPair s u v \<and> pairOf u v \<notin> friends s \<and> (u, v) \<notin> pending s \<and> (v, u) \<notin> pending s
    | CancelSent \<Rightarrow> (u, v) \<in> pending s
    | AcceptFrom _ \<Rightarrow> (v, u) \<in> pending s \<and> \<not> blockedPair s u v \<and> pairOf u v \<notin> friends s
    | RejectFrom \<Rightarrow> (v, u) \<in> pending s
    | FollowTo _ \<Rightarrow> v \<in> accounts s \<and> \<not> blockedPair s u v \<and> (u, v) \<notin> follows s
    | UnfollowTo \<Rightarrow> (u, v) \<in> follows s
    | UnfriendWith \<Rightarrow> pairOf u v \<in> friends s
    | BlockTo _ \<Rightarrow> v \<in> accounts s \<and> (u, v) \<notin> blocks s
    | UnblockTo \<Rightarrow> (u, v) \<in> blocks s)"

definition relEffect :: "relCommand \<Rightarrow> string \<Rightarrow> string \<Rightarrow> Social \<Rightarrow> Social" where
  "relEffect c u v s = (case c of
      Send _ \<Rightarrow> s\<lparr>pending := insert (u, v) (pending s)\<rparr>
    | CancelSent \<Rightarrow> s\<lparr>pending := pending s - {(u, v)}\<rparr>
    | AcceptFrom _ \<Rightarrow> s\<lparr>pending := pending s - {(v, u)}, friends := insert (pairOf u v) (friends s)\<rparr>
    | RejectFrom \<Rightarrow> s\<lparr>pending := pending s - {(v, u)}\<rparr>
    | FollowTo _ \<Rightarrow> s\<lparr>follows := insert (u, v) (follows s)\<rparr>
    | UnfollowTo \<Rightarrow> s\<lparr>follows := follows s - {(u, v)}\<rparr>
    | UnfriendWith \<Rightarrow> s\<lparr>friends := friends s - {pairOf u v}\<rparr>
    | BlockTo _ \<Rightarrow> s\<lparr>blocks := insert (u, v) (blocks s), pending := pending s - {(u, v), (v, u)},
        friends := friends s - {pairOf u v}, follows := follows s - {(u, v), (v, u)}\<rparr>
    | UnblockTo \<Rightarrow> s\<lparr>blocks := blocks s - {(u, v)}\<rparr>)"

text \<open>The counters that a state calls for.\<close>

definition numberOf :: "('a \<Rightarrow> bool) \<Rightarrow> 'a set \<Rightarrow> int" where
  "numberOf P A = int (card {x \<in> A. P x})"

definition tally :: "Social \<Rightarrow> string \<Rightarrow> UserRelationshipCounters" where
  "tally s w = \<lparr>uc_Friends = numberOf (\<lambda>p. fst p = w \<or> snd p = w) (friends s), uc_Followers = numberOf (\<lambda>p. snd p = w) (follows s),
     uc_Following = numberOf (\<lambda>p. fst p = w) (follows s), uc_Blocked = numberOf (\<lambda>p. fst p = w) (blocks s),
     uc_PendingIn = numberOf (\<lambda>p. snd p = w) (pending s), uc_PendingOut = numberOf (\<lambda>p. fst p = w) (pending s)\<rparr>"

definition social_ok :: "Social \<Rightarrow> bool" where
  "social_ok s \<longleftrightarrow>
     (\<forall>u v. (u, v) \<in> blocks s \<longrightarrow> (u, v) \<notin> follows s \<and> (v, u) \<notin> follows s \<and> pairOf u v \<notin> friends s \<and>
        (u, v) \<notin> pending s \<and> (v, u) \<notin> pending s) \<and>
     (\<forall>u v. (u, v) \<in> pending s \<longrightarrow> (v, u) \<notin> pending s \<and> pairOf u v \<notin> friends s) \<and>
     (\<forall>u. (u, u) \<notin> follows s \<and> (u, u) \<notin> blocks s \<and> (u, u) \<notin> pending s) \<and>
     (\<forall>u v. (u, v) \<in> friends s \<longrightarrow> u < v) \<and>
     finite (friends s) \<and> finite (follows s) \<and> finite (blocks s) \<and> finite (pending s)"

section \<open>The tables as a specification state\<close>

definition socialOf :: "RelationDB \<Rightarrow> Social" where
  "socialOf db = \<lparr>accounts = set (relAccountsT db),
     friends = (\<lambda>f. (fs_UserLowID f, fs_UserHighID f)) ` set (friendshipsT db),
     follows = (\<lambda>r. (fl_FollowerID r, fl_FolloweeID r)) ` set (followsT db),
     blocks = (\<lambda>r. (br_BlockerID r, br_BlockedID r)) ` set (blocksT db),
     pending = (\<lambda>r. (fr_RequesterID r, fr_AddresseeID r)) ` {r \<in> set (friendRequestsT db). IsPending r}\<rparr>"

definition countersOf :: "RelationDB \<Rightarrow> string \<Rightarrow> UserRelationshipCounters" where
  "countersOf db w = (case countersT db w of None \<Rightarrow> noCounters | Some c \<Rightarrow> c)"

text \<open>Ids are not blank and not used twice, and two users have one pending request at most.\<close>

definition requests_ok :: "FriendRequest list \<Rightarrow> bool" where
  "requests_ok rows \<longleftrightarrow> distinct (map fr_ID rows) \<and> (\<forall>r\<in>set rows. TrimSpace (fr_ID r) \<noteq> []) \<and>
     (\<forall>r\<in>set rows. \<forall>q\<in>set rows. IsPending r \<longrightarrow> IsPending q \<longrightarrow>
        fr_RequesterID r = fr_RequesterID q \<longrightarrow> fr_AddresseeID r = fr_AddresseeID q \<longrightarrow> r = q)"

definition rel_ok :: "RelationDB \<Rightarrow> bool" where
  "rel_ok db \<longleftrightarrow> social_ok (socialOf db) \<and> requests_ok (friendRequestsT db) \<and>
     (\<forall>w. TrimSpace w \<noteq> [] \<longrightarrow> countersOf db w = tally (socialOf db) w)"

definition ack :: "(error + 'r) \<times> RelationDB \<Rightarrow> (error + unit) \<times> RelationDB" where
  "ack p = (case p of (Inl e, db) \<Rightarrow> (Inl e, db) | (Inr _, db) \<Rightarrow> (Inr (), db))"

definition runRel :: "int \<Rightarrow> gotime \<Rightarrow> relCommand \<Rightarrow> string \<Rightarrow> string \<Rightarrow> RelationDB \<Rightarrow> (error + unit) \<times> RelationDB" where
  "runRel clock now c u v db = (case c of
      Send requestID \<Rightarrow> ack (handleSendFriendRequest clock requestID now u v db)
    | CancelSent \<Rightarrow> ack (handleCancelFriendRequest clock now u v db)
    | AcceptFrom friendshipID \<Rightarrow> ack (handleAcceptFriendRequest clock friendshipID now u v db)
    | RejectFrom \<Rightarrow> ack (handleRejectFriendRequest clock now u v db)
    | FollowTo followID \<Rightarrow> ack (handleFollowUser clock followID now u v db)
    | UnfollowTo \<Rightarrow> ack (handleUnfollowUser clock u v db)
    | UnfriendWith \<Rightarrow> ack (handleUnfriendUser clock u v db)
    | BlockTo blockID \<Rightarrow> ack (handleBlockUser clock blockID now u v db)
    | UnblockTo \<Rightarrow> ack (handleUnblockUser clock u v db))"

text \<open>What the handlers rely on of the ids they generate: they are not blank and not in use.\<close>

definition freshID :: "relCommand \<Rightarrow> RelationDB \<Rightarrow> bool" where
  "freshID c db = (case c of
      Send requestID \<Rightarrow> requestID \<noteq> [] \<and> TrimSpace requestID = requestID \<and> requestID \<notin> fr_ID ` set (friendRequestsT db)
    | AcceptFrom friendshipID \<Rightarrow> friendshipID \<noteq> [] \<and> friendshipID \<notin> fs_ID ` set (friendshipsT db)
    | FollowTo followID \<Rightarrow> followID \<noteq> [] \<and> followID \<notin> fl_ID ` set (followsT db)
    | BlockTo blockID \<Rightarrow> blockID \<noteq> [] \<and> blockID \<notin> br_ID ` set (blocksT db)
    | _ \<Rightarrow> True)"

section \<open>The specification keeps its invariant\<close>

lemma pairOf_sym: "pairOf u v = pairOf v u"
  by (auto simp: repoNormalizePair_def)

lemma pairOf_users: "fst (pairOf u v) = w \<or> snd (pairOf u v) = w \<longleftrightarrow> w = u \<or> w = v"
  by (auto simp: repoNormalizePair_def)

lemma pairOf_less: "u \<noteq> v \<Longrightarrow> fst (pairOf u v) < snd (pairOf u v)"
  by (auto simp: repoNormalizePair_def)

lemma pairOf_eq: "pairOf a b = pairOf u v \<longleftrightarrow> a = u \<and> b = v \<or> a = v \<and> b = u"
  by (auto simp: repoNormalizePair_def)

lemma relEffect_ok:
  assumes "social_ok s" "relAllowed c u v s"
  shows "social_ok (relEffect c u v s)"
proof -
  have p: "(a, b) = pairOf u v \<Longrightarrow> u \<noteq> v \<Longrightarrow> a < b" for a b
    using pairOf_less [of u v] by (cases "pairOf u v") simp
  show ?thesis
  using assms p pairOf_sym
    by (cases c) (auto simp: social_ok_def relAllowed_def relEffect_def blockedPair_def pairOf_eq)
qed

lemma numberOf_insert: "finite A \<Longrightarrow> x \<notin> A \<Longrightarrow> numberOf P (insert x A) = numberOf P A + (if P x then 1 else 0)"
proof -
  assume "finite A" "x \<notin> A"
  moreover have "{p \<in> insert x A. P p} = (if P x then insert x {p \<in> A. P p} else {p \<in> A. P p})" by auto
  ultimately show ?thesis by (simp add: numberOf_def)
qed

lemma numberOf_remove: "finite A \<Longrightarrow> numberOf P (A - {x}) = numberOf P A - (if x \<in> A \<and> P x then 1 else 0)"
proof (cases "x \<in> A")
  case True
  assume "finite A"
  then have "numberOf P (insert x (A - {x})) = numberOf P (A - {x}) + (if P x then 1 else 0)"
    by (intro numberOf_insert) auto
  with True show ?thesis by (simp add: insert_absorb)
next
  case False
  then show ?thesis by simp
qed

section \<open>What the builders of the aggregate do to its parts\<close>

definition counted :: "RelationshipPairAggregate \<Rightarrow> string \<Rightarrow> UserRelationshipCounterDelta" where
  "counted a w = (case map_of (ch_CounterDeltas (rp_changes a)) w of None \<Rightarrow> noDelta | Some d \<Rightarrow> d)"

lemma changes_deltas [simp]:
  "ch_CounterDeltas (createFriendship f c) = ch_CounterDeltas c" "ch_CounterDeltas (deleteFriendship f c) = ch_CounterDeltas c"
  "ch_CounterDeltas (createFollowing r c) = ch_CounterDeltas c" "ch_CounterDeltas (deleteFollowing r c) = ch_CounterDeltas c"
  "ch_CounterDeltas (deleteFollowedBy r c) = ch_CounterDeltas c" "ch_CounterDeltas (createBlock q c) = ch_CounterDeltas c"
  "ch_CounterDeltas (deleteBlock q c) = ch_CounterDeltas c"
  by (simp_all add: createFriendship_def deleteFriendship_def createFollowing_def deleteFollowing_def deleteFollowedBy_def
      createBlock_def deleteBlock_def split: option.splits)

lemma addDelta_zero: "deltaIsZero d \<Longrightarrow> addDelta e d = e"
  by (simp add: deltaIsZero_def addDelta_def)

lemma counted_simps [simp]:
  "counted (inState f a) w = counted a w" "counted (withRequest fr a) w = counted a w" "counted (trackFriendRequest a) w = counted a w"
  by (simp_all add: counted_def inState_def withRequest_def trackFriendRequest_def inChanges_def)

lemma counted_inChanges [simp]: "(\<And>c. ch_CounterDeltas (g c) = ch_CounterDeltas c) \<Longrightarrow> counted (inChanges g a) w = counted a w"
  by (simp add: counted_def inChanges_def)

lemma counted_count [simp]:
  assumes "TrimSpace w \<noteq> []"
  shows "counted (countActor d a) w = (if w = actorID (rp_state a) then addDelta (counted a w) d else counted a w)"
    "counted (countTarget d a) w = (if w = targetID (rp_state a) then addDelta (counted a w) d else counted a w)"
  using assms by (auto simp: countActor_def countTarget_def inChanges_def counted_def addCounterDelta_def addDelta_zero update_conv)

lemma build_state [simp]:
  "rp_state (inState f a) = f (rp_state a)" "rp_state (inChanges g a) = rp_state a" "rp_state (countActor d a) = rp_state a"
  "rp_state (countTarget d a) = rp_state a" "rp_state (trackFriendRequest a) = rp_state a"
  "rp_state (withRequest fr a) = (rp_state a)\<lparr>friendRequest := Some fr\<rparr>"
  by (simp_all add: inState_def inChanges_def countActor_def countTarget_def trackFriendRequest_def withRequest_def)

text \<open>The deltas are about distinct users with ids that are not blank.\<close>

definition deltas_ok :: "RelationshipPairAggregate \<Rightarrow> bool" where
  "deltas_ok a \<longleftrightarrow> distinct (map fst (ch_CounterDeltas (rp_changes a))) \<and> (\<forall>p\<in>set (ch_CounterDeltas (rp_changes a)). TrimSpace (fst p) \<noteq> [])"

lemma deltas_ok_simps [simp]:
  "deltas_ok (inState f a) = deltas_ok a" "deltas_ok (withRequest fr a) = deltas_ok a" "deltas_ok (trackFriendRequest a) = deltas_ok a"
  by (simp_all add: deltas_ok_def inState_def withRequest_def trackFriendRequest_def inChanges_def)

lemma deltas_ok_inChanges [simp]: "(\<And>c. ch_CounterDeltas (g c) = ch_CounterDeltas c) \<Longrightarrow> deltas_ok (inChanges g a) = deltas_ok a"
  by (simp add: deltas_ok_def inChanges_def)

lemma keys_update: "p \<in> set (AList.update k v xs) \<Longrightarrow> fst p = k \<or> p \<in> set xs"
  by (induction xs) (auto split: if_splits)

lemma deltas_ok_add: "deltas_ok a \<Longrightarrow> deltas_ok (inChanges (addCounterDelta u d) a)"
  by (auto simp: deltas_ok_def inChanges_def addCounterDelta_def distinct_update dest: keys_update)

lemma deltas_ok_count [simp]: "deltas_ok a \<Longrightarrow> deltas_ok (countActor d a)" "deltas_ok a \<Longrightarrow> deltas_ok (countTarget d a)"
  by (simp_all add: countActor_def countTarget_def deltas_ok_add)

text \<open>Everything that is to be saved, the deltas apart.\<close>

definition intents :: "RelationshipPairAggregate \<Rightarrow> RelationshipPairChanges" where
  "intents a = (rp_changes a)\<lparr>ch_CounterDeltas := []\<rparr>"

lemma intents_simps [simp]:
  "intents (inState f a) = intents a" "intents (withRequest fr a) = intents a" "intents (countActor d a) = intents a"
  "intents (countTarget d a) = intents a"
  by (simp_all add: intents_def inState_def withRequest_def countActor_def countTarget_def inChanges_def addCounterDelta_def)

lemma intents_track [simp]:
  "intents (trackFriendRequest a) = (if friendRequest (rp_state a) = None then intents a
     else (intents a)\<lparr>ch_FriendRequest := RelationshipChangeUpsert\<rparr>)"
  by (simp add: intents_def trackFriendRequest_def inChanges_def)

lemma intents_inChanges [simp]:
  "intents (inChanges (createFriendship f) a) = createFriendship f (intents a)"
  "intents (inChanges (deleteFriendship f) a) = deleteFriendship f (intents a)"
  "intents (inChanges (createFollowing r) a) = createFollowing r (intents a)"
  "intents (inChanges (deleteFollowing r) a) = deleteFollowing r (intents a)"
  "intents (inChanges (deleteFollowedBy r) a) = deleteFollowedBy r (intents a)"
  "intents (inChanges (createBlock q) a) = createBlock q (intents a)"
  "intents (inChanges (deleteBlock q) a) = deleteBlock q (intents a)"
  by (simp_all add: intents_def inChanges_def createFriendship_def deleteFriendship_def createFollowing_def deleteFollowing_def
      deleteFollowedBy_def createBlock_def deleteBlock_def split: option.splits)

lemma root_fields:
  assumes "AggregateRoot.truncate b = AggregateRoot.truncate a"
  shows "aggregateID b = aggregateID a" "events b = events a"
  using assms by (simp_all add: AggregateRoot.truncate_def)

section \<open>Loading a pair\<close>

text \<open>The request that is loaded: the pending one of the pair, in either direction, or none.\<close>

definition loaded_request :: "RelationDB \<Rightarrow> string \<Rightarrow> string \<Rightarrow> FriendRequestAggregate option \<Rightarrow> bool" where
  "loaded_request db u v fr = (case fr of
      None \<Rightarrow> (u, v) \<notin> pending (socialOf db) \<and> (v, u) \<notin> pending (socialOf db)
    | Some x \<Rightarrow> (\<exists>r\<in>set (friendRequestsT db). fra_FriendRequest x = Some r \<and> IsPending r \<and> requestBetween u v r \<and>
        aggregateID x = fr_ID r \<and> fr_ID r \<noteq> [] \<and> events x = [] \<and> aggregateType x = friendRequestType))"

lemma newestRequest_in: "newestRequest rs = Some r \<Longrightarrow> r \<in> set rs"
  by (induction rs arbitrary: r) (auto split: option.splits if_splits)

lemma newestRequest_None: "newestRequest rs = None \<longleftrightarrow> rs = []"
  by (cases rs) (auto split: option.splits)

lemma LoadPendingBetween_ok:
  assumes "rel_ok db"
  obtains fr where "LoadPendingBetween db u v = Inr fr" "loaded_request db u v fr"
proof (cases "newestRequest (filter (\<lambda>r. fr_Status r = FriendRequestStatusPending \<and> requestBetween u v r) (friendRequestsT db))")
  case None
  then have "LoadPendingBetween db u v = Inr None" by (simp add: LoadPendingBetween_def)
  moreover from None have "loaded_request db u v None"
    by (auto simp: newestRequest_None filter_empty_conv loaded_request_def socialOf_def IsPending_def requestBetween_def)
  ultimately show thesis by (rule that)
next
  case (Some r)
  from newestRequest_in [OF this] have r: "r \<in> set (friendRequestsT db)" "IsPending r" "requestBetween u v r"
    by (simp_all add: IsPending_def)
  with assms have "TrimSpace (fr_ID r) \<noteq> []" by (simp add: rel_ok_def requests_ok_def)
  moreover from this have "fr_ID r \<noteq> []" by auto
  ultimately obtain x where "loadAggregateFromModel db r = Inr x" "fra_FriendRequest x = Some r" "aggregateID x = fr_ID r"
    "events x = []" "aggregateType x = friendRequestType" "fr_ID r \<noteq> []"
    by (auto simp: loadAggregateFromModel_def NewFriendRequest_def InitAggregate_def SetID_def SetAggregateType_def emptyRoot_def
        AggregateRoot.defs friendRequestType_def SetFriendRequest_def SetInternal_def Let_def)
  with Some r show thesis
    by (intro that [of "Some x"]) (auto simp: LoadPendingBetween_def loaded_request_def)
qed

text \<open>A colon is no part of a space, so the id of a pair is never blank.\<close>

lemma colon_no_space: "\<not> ascii_space CHR '':''" "\<not> space2 CHR '':'' c" "\<not> space2 c CHR '':''"
  "\<not> space3 CHR '':'' c d" "\<not> space3 c CHR '':'' d" "\<not> space3 c d CHR '':''"
  by (simp_all add: ascii_space_def space2_def space3_def)

lemma dropSpace_colon: "dropSpace s = Some t \<Longrightarrow> CHR '':'' \<in> set s \<Longrightarrow> CHR '':'' \<in> set t"
  by (cases s) (auto simp: colon_no_space split: if_splits list.splits)

lemma dropSpaceRev_colon: "dropSpaceRev s = Some t \<Longrightarrow> CHR '':'' \<in> set s \<Longrightarrow> CHR '':'' \<in> set t"
  by (cases s) (auto simp: colon_no_space split: if_splits list.splits)

lemma trimLeft_colon: "CHR '':'' \<in> set s \<Longrightarrow> CHR '':'' \<in> set (trimLeft s)"
proof (induction s rule: trimLeft.induct)
  case (1 s)
  then show ?case by (cases "dropSpace s") (auto simp: trimLeft.simps [of s] dest: dropSpace_colon)
qed

lemma trimRightRev_colon: "CHR '':'' \<in> set s \<Longrightarrow> CHR '':'' \<in> set (trimRightRev s)"
proof (induction s rule: trimRightRev.induct)
  case (1 s)
  then show ?case by (cases "dropSpaceRev s") (auto simp: trimRightRev.simps [of s] dest: dropSpaceRev_colon)
qed

lemma TrimSpace_pairID: "TrimSpace (CanonicalRelationshipPairAggregateID u v) \<noteq> []"
proof -
  have "CHR '':'' \<in> set (CanonicalRelationshipPairAggregateID u v)"
    by (cases "normalizePair u v") (simp add: CanonicalRelationshipPairAggregateID_def)
  then have "CHR '':'' \<in> set (TrimSpace (CanonicalRelationshipPairAggregateID u v))"
    unfolding TrimSpace_def set_rev by (intro trimRightRev_colon) (simp add: trimLeft_colon)
  then show ?thesis by auto
qed

definition loaded :: "RelationDB \<Rightarrow> string \<Rightarrow> string \<Rightarrow> RelationshipPairAggregate \<Rightarrow> bool" where
  "loaded db u v a \<longleftrightarrow> events a = [] \<and> aggregateID a \<noteq> [] \<and> rp_changes a = newRelationshipPairChanges \<and>
     loaded_request db u v (friendRequest (rp_state a)) \<and> actorID (rp_state a) = u \<and> targetID (rp_state a) = v \<and>
     targetExists (rp_state a) = (v \<in> accounts (socialOf db)) \<and>
     friendship (rp_state a) = List.find (isFriendshipOf u v) (friendshipsT db) \<and>
     following (rp_state a) = List.find (isFollowOf u v) (followsT db) \<and> followedBy (rp_state a) = List.find (isFollowOf v u) (followsT db) \<and>
     blocking (rp_state a) = List.find (isBlockOf u v) (blocksT db) \<and> blockedBy (rp_state a) = List.find (isBlockOf v u) (blocksT db)"

lemma rel_ok_guards [simp]: "rel_ok (db\<lparr>guardsT := g\<rparr>) = rel_ok db"
  and socialOf_guards [simp]: "socialOf (db\<lparr>guardsT := g\<rparr>) = socialOf db"
  by (simp_all add: rel_ok_def socialOf_def countersOf_def)

lemma loaded_guards [simp]: "loaded (db\<lparr>guardsT := g\<rparr>) u v a = loaded db u v a"
  by (cases "friendRequest (rp_state a)") (simp_all add: loaded_def loaded_request_def)

lemma NewRelationshipPair_ok:
  assumes "sn_ActorID sn \<noteq> []" "sn_TargetID sn \<noteq> []"
  obtains a where "NewRelationshipPair sn = Inr a" "events a = []" "aggregateID a \<noteq> []"
    "rp_changes a = newRelationshipPairChanges" "rp_state a = newRelationshipPairState sn"
proof -
  have "CanonicalRelationshipPairAggregateID (sn_ActorID sn) (sn_TargetID sn) \<noteq> []"
    using TrimSpace_pairID by (metis TrimSpace_Nil)
  with assms that show thesis
    by (auto simp: NewRelationshipPair_def InitAggregate_def SetID_def SetAggregateType_def emptyRoot_def AggregateRoot.defs
        pairType_def SetInternal_def Let_def TrimSpace_pairID)
qed

lemma LoadForUpdate_ok:
  assumes "rel_ok db" "u \<noteq> []" "v \<noteq> []" "u \<noteq> v"
  obtains g a where "LoadForUpdate db u v = Inr (db\<lparr>guardsT := g\<rparr>, a)" "loaded db u v a"
proof -
  have "\<exists>g. LockPair db u v = Inr (db\<lparr>guardsT := g\<rparr>)"
  proof (cases "pairOf u v \<in> set (guardsT db)")
    case True
    with assms(2,3) pairOf_less [OF assms(4)] show ?thesis by (intro exI [of _ "guardsT db"]) (simp add: LockPair_def)
  next
    case False
    with assms(2,3) pairOf_less [OF assms(4)] show ?thesis by (intro exI [of _ "guardsT db @ [pairOf u v]"]) (simp add: LockPair_def)
  qed
  then obtain g where g: "LockPair db u v = Inr (db\<lparr>guardsT := g\<rparr>)" by blast
  let ?db = "db\<lparr>guardsT := g\<rparr>"
  from assms(1) have "rel_ok ?db" by simp
  from LoadPendingBetween_ok [OF this] obtain fr where fr: "LoadPendingBetween ?db u v = Inr fr" "loaded_request ?db u v fr" by blast
  define sn where "sn = \<lparr>sn_ActorID = u, sn_TargetID = v, sn_TargetExists = ExistsAccount ?db v, sn_FriendRequest = fr,
        sn_Friendship = List.find (isFriendshipOf u v) (friendshipsT ?db),
        sn_Following = List.find (isFollowOf u v) (followsT ?db), sn_FollowedBy = List.find (isFollowOf v u) (followsT ?db),
        sn_Blocking = List.find (isBlockOf u v) (blocksT ?db), sn_BlockedBy = List.find (isBlockOf v u) (blocksT ?db),
        sn_AggregateVersion = loadRelationOutboxAggregateVersion ?db (CanonicalRelationshipPairAggregateID u v) pairType\<rparr>"
  from assms(2,3) have "sn_ActorID sn \<noteq> []" "sn_TargetID sn \<noteq> []" by (simp_all add: sn_def)
  then obtain a where a: "NewRelationshipPair sn = Inr a" "events a = []" "aggregateID a \<noteq> []"
    "rp_changes a = newRelationshipPairChanges" "rp_state a = newRelationshipPairState sn" by (rule NewRelationshipPair_ok)
  have "LoadForUpdate db u v = Inr (?db, a)"
    unfolding LoadForUpdate_def g fr(1) andThen_simps sn_def [symmetric] a(1) ..
  moreover from a fr(2) have "loaded ?db u v a"
    by (simp add: loaded_def newRelationshipPairState_def sn_def ExistsAccount_def socialOf_def)
  ultimately show thesis by (intro that) simp_all
qed

text \<open>What the rules see of a loaded pair is the specification's state.\<close>

lemma find_iff: "List.find P xs \<noteq> None \<longleftrightarrow> (\<exists>x\<in>set xs. P x)"
  by (auto simp: find_None_iff)

lemma table_iff:
  "(\<exists>f\<in>set (friendshipsT db). isFriendshipOf u v f) \<longleftrightarrow> pairOf u v \<in> friends (socialOf db)"
  "(\<exists>r\<in>set (followsT db). isFollowOf u v r) \<longleftrightarrow> (u, v) \<in> follows (socialOf db)"
  "(\<exists>r\<in>set (blocksT db). isBlockOf u v r) \<longleftrightarrow> (u, v) \<in> blocks (socialOf db)"
  by (force simp: socialOf_def isFriendshipOf_def isFollowOf_def isBlockOf_def)+

lemma pending_iff:
  "(u, v) \<in> pending (socialOf db) \<longleftrightarrow> (\<exists>r\<in>set (friendRequestsT db). IsPending r \<and> fr_RequesterID r = u \<and> fr_AddresseeID r = v)"
  by (auto simp: socialOf_def)

lemma loaded_pending:
  assumes "rel_ok db" "loaded_request db u v fr"
  shows "pendingBetween fr u v \<longleftrightarrow> (u, v) \<in> pending (socialOf db)" "pendingBetween fr v u \<longleftrightarrow> (v, u) \<in> pending (socialOf db)"
proof -
  have one: "(u, v) \<in> pending (socialOf db) \<Longrightarrow> (v, u) \<notin> pending (socialOf db)"
    using assms(1) by (auto simp: rel_ok_def social_ok_def)
  show "pendingBetween fr u v \<longleftrightarrow> (u, v) \<in> pending (socialOf db)" "pendingBetween fr v u \<longleftrightarrow> (v, u) \<in> pending (socialOf db)"
    using assms(2) one
    by (auto simp: loaded_request_def pendingBetween_def requestBetween_def pending_iff split: option.splits)
qed

lemma loaded_policy:
  assumes "rel_ok db" "loaded db u v a"
  shows "toPolicyState (rp_state a) = \<lparr>ActorID = u, TargetID = v, TargetExists = (v \<in> accounts (socialOf db)),
    IsFriend = (pairOf u v \<in> friends (socialOf db)), IsFollowing = ((u, v) \<in> follows (socialOf db)),
    HasOutgoingRequest = ((u, v) \<in> pending (socialOf db)), HasIncomingRequest = ((v, u) \<in> pending (socialOf db)),
    HasBlockingRelation = blockedPair (socialOf db) u v, HasBlockedTarget = ((u, v) \<in> blocks (socialOf db))\<rparr>"
  using assms loaded_pending [OF assms(1)]
  by (simp add: loaded_def toPolicyState_def hasPendingOutgoingRequest_def hasPendingIncomingRequest_def find_iff table_iff
      blockedPair_def del: not_None_eq)

section \<open>Saving a pair\<close>

definition events_ok :: "('d, 'z) AggregateRoot_scheme \<Rightarrow> bool" where
  "events_ok a \<longleftrightarrow> (\<forall>ev\<in>set (events a). ev_AggregateID ev \<noteq> [] \<and> ev_EventName ev \<noteq> [])"

lemma Publish_relation:
  "\<forall>ev\<in>set evs. ev_AggregateID ev \<noteq> [] \<and> ev_EventName ev \<noteq> [] \<Longrightarrow>
     \<exists>xs. Publish clock (relationOutboxAppend wrap) db evs = (Inr (), db\<lparr>relOutboxT := xs\<rparr>)"
proof (induction evs arbitrary: db)
  case Nil
  then show ?case by (intro exI [of _ "relOutboxT db"]) simp
next
  case (Cons ev evs)
  define ev' where "ev' = (if ev_CreatedAt ev \<le> 0 then ev\<lparr>ev_CreatedAt := clock\<rparr> else ev)"
  obtain row where "relationOutboxAppend wrap db ev' = Inr (db\<lparr>relOutboxT := relOutboxT db @ [row]\<rparr>)"
    by (simp add: relationOutboxAppend_def)
  moreover from Cons.IH [of "db\<lparr>relOutboxT := relOutboxT db @ [row]\<rparr>"] Cons.prems obtain xs where
    "Publish clock (relationOutboxAppend wrap) (db\<lparr>relOutboxT := relOutboxT db @ [row]\<rparr>) evs = (Inr (), db\<lparr>relOutboxT := xs\<rparr>)"
    by auto
  ultimately show ?case using Cons.prems by (intro exI [of _ xs]) (simp add: ev'_def [symmetric])
qed

lemma PublishAggregate_relation:
  assumes "events_ok a"
  shows "\<exists>xs a'. PublishAggregate clock (relationOutboxAppend wrap) db a = (Inr (), db\<lparr>relOutboxT := xs\<rparr>, a')"
proof (cases "events a = []")
  case True
  then show ?thesis
    by (intro exI [of _ "relOutboxT db"]) (simp add: PublishAggregate_def CloneEvents_def)
next
  case False
  from Publish_relation [of "events a" clock wrap db] assms obtain xs where
    "Publish clock (relationOutboxAppend wrap) db (events a) = (Inr (), db\<lparr>relOutboxT := xs\<rparr>)"
    by (auto simp: events_ok_def)
  with False show ?thesis by (intro exI [of _ xs]) (simp add: PublishAggregate_def CloneEvents_def)
qed

text \<open>The rows of friend requests that a save leaves: the held request is written when it is tracked.\<close>

definition requestSaved :: "RelationDB \<Rightarrow> RelationshipPairAggregate \<Rightarrow> FriendRequest list \<Rightarrow> bool" where
  "requestSaved db b rows \<longleftrightarrow>
     (if ch_FriendRequest (intents b) = RelationshipChangeUpsert
      then \<exists>x r. friendRequest (rp_state b) = Some x \<and> fra_FriendRequest x = Some r \<and> aggregateID x = fr_ID r \<and> fr_ID r \<noteq> [] \<and>
        fr_Status r \<in> set requestStatuses \<and> fr_RequesterID r \<noteq> fr_AddresseeID r \<and> events_ok x \<and> rows = upsertRequest r (friendRequestsT db) \<and>
        (IsPending r \<longrightarrow> (\<forall>q\<in>set (friendRequestsT db). IsPending q \<longrightarrow> \<not> requestBetween (fr_RequesterID r) (fr_AddresseeID r) q))
      else rows = friendRequestsT db)"

lemma requestSaved_guards [simp]: "requestSaved (db\<lparr>guardsT := g\<rparr>) b rows = requestSaved db b rows"
  by (simp add: requestSaved_def cong: if_cong)

lemma friendRequestSave_ok:
  assumes "fra_FriendRequest x = Some r" "aggregateID x = fr_ID r" "fr_ID r \<noteq> []" "fr_Status r \<in> set requestStatuses"
    "fr_RequesterID r \<noteq> fr_AddresseeID r" "events_ok x"
    "IsPending r \<Longrightarrow> \<forall>q\<in>set (friendRequestsT db). IsPending q \<longrightarrow> \<not> requestBetween (fr_RequesterID r) (fr_AddresseeID r) q"
  shows "\<exists>xs x'. friendRequestSave clock db x = Inr (db\<lparr>friendRequestsT := upsertRequest r (friendRequestsT db), relOutboxT := xs\<rparr>, x')"
proof -
  let ?db = "db\<lparr>friendRequestsT := upsertRequest r (friendRequestsT db)\<rparr>"
  have row: "r\<lparr>fr_ID := aggregateID x\<rparr> = r" and x: "x\<lparr>fra_FriendRequest := Some r\<rparr> = x" using assms(1,2) by simp_all
  have saved: "saveRequestRow db r = Inr ?db"
    using assms(4,5,7) by (auto simp: saveRequestRow_def IsPending_def list_ex_iff)
  from PublishAggregate_relation [OF assms(6), of clock OfFriendRequest ?db] obtain xs x' where
    pub: "PublishAggregate clock (relationOutboxAppend OfFriendRequest) ?db x = (Inr (), ?db\<lparr>relOutboxT := xs\<rparr>, x')" by auto
  show ?thesis
  proof (cases "events x = []")
    case True
    with assms(1-3) saved show ?thesis
      by (intro exI [of _ "relOutboxT db"]) (simp add: friendRequestSave_def row x Let_def)
  next
    case False
    with assms(1-3) saved pub show ?thesis by (intro exI [of _ xs]) (simp add: friendRequestSave_def row x Let_def)
  qed
qed

lemma persistFriendRequest_ok:
  assumes "requestSaved db b rows"
  shows "\<exists>xs b'. persistFriendRequest clock db b = Inr (db\<lparr>friendRequestsT := rows, relOutboxT := xs\<rparr>, b') \<and>
    (b' = b \<or> (\<exists>x. b' = withRequest x b))"
proof (cases "ch_FriendRequest (rp_changes b) = RelationshipChangeUpsert")
  case True
  with assms obtain x r where x: "friendRequest (rp_state b) = Some x" and s: "fra_FriendRequest x = Some r" "aggregateID x = fr_ID r"
    "fr_ID r \<noteq> []" "fr_Status r \<in> set requestStatuses" "fr_RequesterID r \<noteq> fr_AddresseeID r" "events_ok x"
    "IsPending r \<Longrightarrow> \<forall>q\<in>set (friendRequestsT db). IsPending q \<longrightarrow> \<not> requestBetween (fr_RequesterID r) (fr_AddresseeID r) q"
    and rows: "rows = upsertRequest r (friendRequestsT db)"
    by (auto simp: requestSaved_def intents_def)
  from friendRequestSave_ok [OF s, of clock] True x rows show ?thesis
    by (auto simp: persistFriendRequest_def)
next
  case False
  with assms show ?thesis
    by (intro exI [of _ "relOutboxT db"] exI [of _ b]) (simp add: persistFriendRequest_def requestSaved_def intents_def)
qed

lemma persistFriendship_request [simp]: "persistFriendship d (withRequest x b) i = persistFriendship d b i"
  by (simp add: persistFriendship_def split: RelationshipChangeKind.split)

lemma intents_fields [simp]:
  "ch_Friendship (intents b) = ch_Friendship (rp_changes b)" "ch_Following (intents b) = ch_Following (rp_changes b)"
  "ch_FollowedBy (intents b) = ch_FollowedBy (rp_changes b)" "ch_Block (intents b) = ch_Block (rp_changes b)"
  by (simp_all add: intents_def)

lemma pairPublish_ok:
  assumes "events_ok b"
  shows "\<exists>xs b'. pairPublishOutboxEvents clock db b = Inr (db\<lparr>relOutboxT := xs\<rparr>, b')"
proof (cases "events b = []")
  case True
  then show ?thesis by (intro exI [of _ "relOutboxT db"]) (simp add: pairPublishOutboxEvents_def)
next
  case False
  with PublishAggregate_relation [OF assms, of clock OfPair db] show ?thesis by (auto simp: pairPublishOutboxEvents_def)
qed

definition rowOf :: "(string \<rightharpoonup> UserRelationshipCounters) \<Rightarrow> string \<Rightarrow> UserRelationshipCounters" where
  "rowOf m w = (case m w of None \<Rightarrow> noCounters | Some c \<Rightarrow> c)"

lemma updateCounters_ok:
  assumes "distinct (map fst ds)" "\<forall>(k, d)\<in>set ds. k \<noteq> [] \<and> countersNonnegative (countersAdd (rowOf m k) d)"
  shows "\<exists>m'. updateCounters m ds = Inr m' \<and> (\<forall>w. rowOf m' w = (case map_of ds w of None \<Rightarrow> rowOf m w | Some d \<Rightarrow> countersAdd (rowOf m w) d))"
  using assms
proof (induction ds arbitrary: m)
  case (Cons p ds)
  obtain k d where p: "p = (k, d)" by (cases p)
  let ?m = "m(k \<mapsto> countersAdd (rowOf m k) d)"
  have other: "rowOf ?m w = (if w = k then countersAdd (rowOf m k) d else rowOf m w)" for w by (simp add: rowOf_def)
  from Cons.prems p have k: "k \<noteq> []" "countersNonnegative (countersAdd (rowOf m k) d)" "k \<notin> fst ` set ds" by auto
  have "\<forall>(q, e)\<in>set ds. q \<noteq> [] \<and> countersNonnegative (countersAdd (rowOf ?m q) e)"
    using Cons.prems(2) k(3) by (force simp: other)
  moreover have "distinct (map fst ds)" using Cons.prems(1) by simp
  ultimately obtain m' where m': "updateCounters ?m ds = Inr m'"
    "\<And>w. rowOf m' w = (case map_of ds w of None \<Rightarrow> rowOf ?m w | Some d \<Rightarrow> countersAdd (rowOf ?m w) d)" using Cons.IH [of ?m] by blast
  have "map_of ds k = None" using k(3) by (simp add: map_of_eq_None_iff)
  with m' k show ?case
    by (intro exI [of _ m']) (auto simp: p rowOf_def [symmetric] other split: option.split)
qed simp

lemma pairSave_ok:
  assumes ev: "events_ok b" and rows: "requestSaved db b rows"
    and fs: "\<And>d. friendshipsT d = friendshipsT db \<Longrightarrow> persistFriendship d b (ch_Friendship (rp_changes b)) = Inr (d\<lparr>friendshipsT := fs\<rparr>)"
    and fl: "\<And>d. followsT d = followsT db \<Longrightarrow> persistFollow d (ch_Following (rp_changes b)) = Inr (d\<lparr>followsT := fl\<rparr>)"
    and fb: "\<And>d. followsT d = fl \<Longrightarrow> persistFollow d (ch_FollowedBy (rp_changes b)) = Inr (d\<lparr>followsT := fb\<rparr>)"
    and bs: "\<And>d. blocksT d = blocksT db \<Longrightarrow> persistBlock d (ch_Block (rp_changes b)) = Inr (d\<lparr>blocksT := bs\<rparr>)"
    and m: "updateCounters (countersT db) (ch_CounterDeltas (rp_changes b)) = Inr m"
  shows "\<exists>xs b'. pairSave clock db b = Inr (db\<lparr>friendRequestsT := rows, friendshipsT := fs, followsT := fb, blocksT := bs,
    countersT := m, relOutboxT := xs\<rparr>, b')"
proof -
  from persistFriendRequest_ok [OF rows, of clock] obtain xs b1 where
    req: "persistFriendRequest clock db b = Inr (db\<lparr>friendRequestsT := rows, relOutboxT := xs\<rparr>, b1)"
    and b1: "b1 = b \<or> (\<exists>x. b1 = withRequest x b)" by blast
  from b1 have same: "persistFriendship d b1 i = persistFriendship d b i" for d i by auto
  from b1 have "events b1 = events b" by (auto simp: withRequest_def inState_def)
  with ev have "events_ok b1" by (simp add: events_ok_def)
  let ?db = "db\<lparr>friendRequestsT := rows, relOutboxT := xs, friendshipsT := fs, followsT := fb, blocksT := bs, countersT := m\<rparr>"
  from pairPublish_ok [OF \<open>events_ok b1\<close>, of clock ?db] obtain ys b2 where
    "pairPublishOutboxEvents clock ?db b1 = Inr (?db\<lparr>relOutboxT := ys\<rparr>, b2)" by blast
  moreover have "pairSave clock db b = pairPublishOutboxEvents clock ?db b1"
    by (simp add: pairSave_def Let_def req same fs fl fb bs ApplyDeltas_def m)
  ultimately show ?thesis by (intro exI [of _ ys] exI [of _ b2]) simp
qed

definition pair_ok :: "RelationshipPairAggregate \<Rightarrow> bool" where
  "pair_ok a \<longleftrightarrow> events_ok a \<and> deltas_ok a"

text \<open>What an operation must leave for the save to succeed with these tables.\<close>

definition saves :: "RelationDB \<Rightarrow> RelationshipPairAggregate \<Rightarrow> FriendRequest list \<Rightarrow> Friendship list \<Rightarrow> FollowRelation list \<Rightarrow>
    BlockRelation list \<Rightarrow> bool" where
  "saves db b rows fs fl bs \<longleftrightarrow> pair_ok b \<and> requestSaved db b rows \<and>
     (\<forall>d. friendshipsT d = friendshipsT db \<longrightarrow> persistFriendship d b (ch_Friendship (intents b)) = Inr (d\<lparr>friendshipsT := fs\<rparr>)) \<and>
     (\<exists>f1. (\<forall>d. followsT d = followsT db \<longrightarrow> persistFollow d (ch_Following (intents b)) = Inr (d\<lparr>followsT := f1\<rparr>)) \<and>
        (\<forall>d. followsT d = f1 \<longrightarrow> persistFollow d (ch_FollowedBy (intents b)) = Inr (d\<lparr>followsT := fl\<rparr>))) \<and>
     (\<forall>d. blocksT d = blocksT db \<longrightarrow> persistBlock d (ch_Block (intents b)) = Inr (d\<lparr>blocksT := bs\<rparr>))"

lemma savesI:
  assumes "pair_ok b" "requestSaved db b rows"
    "\<And>d. friendshipsT d = friendshipsT db \<Longrightarrow> persistFriendship d b (ch_Friendship (intents b)) = Inr (d\<lparr>friendshipsT := fs\<rparr>)"
    "\<And>d. followsT d = followsT db \<Longrightarrow> persistFollow d (ch_Following (intents b)) = Inr (d\<lparr>followsT := f1\<rparr>)"
    "\<And>d. followsT d = f1 \<Longrightarrow> persistFollow d (ch_FollowedBy (intents b)) = Inr (d\<lparr>followsT := fl\<rparr>)"
    "\<And>d. blocksT d = blocksT db \<Longrightarrow> persistBlock d (ch_Block (intents b)) = Inr (d\<lparr>blocksT := bs\<rparr>)"
  shows "saves db b rows fs fl bs"
  unfolding saves_def using assms by blast

lemma countersAdd_none [simp]: "countersAdd c noDelta = c"
  by (simp add: countersAdd_def noDelta_def)

lemma countersOf_row: "countersOf db w = rowOf (countersT db) w"
  by (simp add: countersOf_def rowOf_def)

lemma tally_nonnegative: "countersNonnegative (tally s w)"
  by (simp add: countersNonnegative_def tally_def numberOf_def)

lemma counters_updated:
  assumes "deltas_ok b" "\<And>w. TrimSpace w \<noteq> [] \<Longrightarrow> countersAdd (countersOf db w) (counted b w) = tally s w"
  obtains m where "updateCounters (countersT db) (ch_CounterDeltas (rp_changes b)) = Inr m"
    "\<And>w. TrimSpace w \<noteq> [] \<Longrightarrow> rowOf m w = tally s w"
proof -
  let ?ds = "ch_CounterDeltas (rp_changes b)"
  have ds: "distinct (map fst ?ds)" "\<And>k d. (k, d) \<in> set ?ds \<Longrightarrow> TrimSpace k \<noteq> []"
    using assms(1) by (auto simp: deltas_ok_def)
  have "k \<noteq> [] \<and> countersNonnegative (countersAdd (rowOf (countersT db) k) d)" if "(k, d) \<in> set ?ds" for k d
  proof -
    from ds(2) [OF that] have k: "TrimSpace k \<noteq> []" .
    from that ds(1) have "counted b k = d" by (simp add: counted_def)
    with assms(2) [OF k] tally_nonnegative [of s k] k show ?thesis by (auto simp: countersOf_row)
  qed
  with updateCounters_ok [OF ds(1), of "countersT db"] obtain m where m: "updateCounters (countersT db) ?ds = Inr m"
    "\<And>w. rowOf m w = (case map_of ?ds w of None \<Rightarrow> rowOf (countersT db) w | Some d \<Rightarrow> countersAdd (rowOf (countersT db) w) d)" by blast
  have "rowOf m w = tally s w" if "TrimSpace w \<noteq> []" for w
    using assms(2) [OF that] m(2) [of w] by (cases "map_of ?ds w") (simp_all add: counted_def countersOf_row)
  with m(1) show thesis by (rule that)
qed

definition withTables :: "RelationDB \<Rightarrow> FriendRequest list \<Rightarrow> Friendship list \<Rightarrow> FollowRelation list \<Rightarrow> BlockRelation list \<Rightarrow> RelationDB" where
  "withTables db rows fs fl bs = db\<lparr>friendRequestsT := rows, friendshipsT := fs, followsT := fl, blocksT := bs\<rparr>"

lemma command_ok:
  assumes ok: "rel_ok db" and ids: "u \<noteq> []" "v \<noteq> []" "u \<noteq> v"
    and op: "\<And>a. loaded db u v a \<Longrightarrow> \<exists>b resp rows fs fl bs. op a = (Inr (), b) \<and> response b = Inr resp \<and>
      saves db b rows fs fl bs \<and> socialOf (withTables db rows fs fl bs) = s' \<and> requests_ok rows \<and>
      (\<forall>w. TrimSpace w \<noteq> [] \<longrightarrow> countersAdd (tally (socialOf db) w) (counted b w) = tally s' w)"
    and s': "social_ok s'"
  shows "\<exists>db'. ack (pairCommand clock op response u v db) = (Inr (), db') \<and> socialOf db' = s' \<and> rel_ok db'"
proof -
  from ok ids obtain g a where load: "LoadForUpdate db u v = Inr (db\<lparr>guardsT := g\<rparr>, a)" "loaded db u v a"
    by (rule LoadForUpdate_ok)
  from op [OF load(2)] obtain b resp rows fs fl bs where b: "op a = (Inr (), b)" "response b = Inr resp" "saves db b rows fs fl bs"
    and tables: "socialOf (withTables db rows fs fl bs) = s'" "requests_ok rows"
    and tallied: "\<And>w. TrimSpace w \<noteq> [] \<Longrightarrow> countersAdd (tally (socialOf db) w) (counted b w) = tally s' w" by blast
  let ?db = "db\<lparr>guardsT := g\<rparr>"
  from b(3) obtain f1 where sv: "events_ok b" "requestSaved ?db b rows"
    "\<And>d. friendshipsT d = friendshipsT ?db \<Longrightarrow> persistFriendship d b (ch_Friendship (rp_changes b)) = Inr (d\<lparr>friendshipsT := fs\<rparr>)"
    "\<And>d. followsT d = followsT ?db \<Longrightarrow> persistFollow d (ch_Following (rp_changes b)) = Inr (d\<lparr>followsT := f1\<rparr>)"
    "\<And>d. followsT d = f1 \<Longrightarrow> persistFollow d (ch_FollowedBy (rp_changes b)) = Inr (d\<lparr>followsT := fl\<rparr>)"
    "\<And>d. blocksT d = blocksT ?db \<Longrightarrow> persistBlock d (ch_Block (rp_changes b)) = Inr (d\<lparr>blocksT := bs\<rparr>)"
    unfolding saves_def intents_fields pair_ok_def by auto
  have deltas: "deltas_ok b" using b(3) by (simp add: saves_def pair_ok_def)
  have "countersAdd (countersOf ?db w) (counted b w) = tally s' w" if "TrimSpace w \<noteq> []" for w
    using tallied [OF that] ok that by (simp add: rel_ok_def countersOf_def)
  from counters_updated [OF deltas this] obtain m where m: "updateCounters (countersT ?db) (ch_CounterDeltas (rp_changes b)) = Inr m"
    "\<And>w. TrimSpace w \<noteq> [] \<Longrightarrow> rowOf m w = tally s' w" by blast
  from pairSave_ok [OF sv m(1), of clock] obtain xs b' where save: "pairSave clock ?db b = Inr (?db\<lparr>friendRequestsT := rows,
      friendshipsT := fs, followsT := fl, blocksT := bs, countersT := m, relOutboxT := xs\<rparr>, b')" by auto
  let ?t = "?db\<lparr>friendRequestsT := rows, friendshipsT := fs, followsT := fl, blocksT := bs, countersT := m, relOutboxT := xs\<rparr>"
  have soc: "socialOf ?t = s'" using tables(1) by (simp add: socialOf_def withTables_def)
  have "rel_ok ?t"
    unfolding rel_ok_def soc using s' tables(2) m(2) by (simp add: countersOf_row)
  moreover have "ack (pairCommand clock op response u v db) = (Inr (), ?t)"
    by (simp add: pairCommand_def ack_def load(1) b save)
  ultimately show ?thesis using soc by blast
qed

lemma command_fails:
  assumes "rel_ok db" "u \<noteq> [] \<Longrightarrow> v \<noteq> [] \<Longrightarrow> u \<noteq> v \<Longrightarrow> (\<And>a. loaded db u v a \<Longrightarrow> \<exists>e a'. op a = (Inl e, a'))"
  shows "\<exists>e. ack (pairCommand clock op response u v db) = (Inl e, db)"
proof (cases "u = [] \<or> v = [] \<or> u = v")
  case True
  then show ?thesis by (auto simp: pairCommand_def LoadForUpdate_def LockPair_def ack_def repoNormalizePair_def)
next
  case False
  with assms(1) obtain g a where load: "LoadForUpdate db u v = Inr (db\<lparr>guardsT := g\<rparr>, a)" "loaded db u v a"
    using LoadForUpdate_ok by metis
  with assms(2) False obtain e a' where "op a = (Inl e, a')" by blast
  with load(1) show ?thesis by (simp add: pairCommand_def ack_def)
qed

section \<open>The operations\<close>

lemma pairEventName_nonempty [simp]: "pairEventName d \<noteq> []"
  by (cases d) (simp_all add: pairEventName_def)

lemma friendRequestEventName_nonempty [simp]: "friendRequestEventName d \<noteq> []"
  by (cases d) (simp_all add: friendRequestEventName_def)

lemma deltas_ok_block [simp]:
  "deltas_ok a \<Longrightarrow> deltas_ok (resolveOutgoingForBlock t a)" "deltas_ok a \<Longrightarrow> deltas_ok (resolveIncomingForBlock t a)"
  "deltas_ok a \<Longrightarrow> deltas_ok (removeFriendshipForBlock a)" "deltas_ok a \<Longrightarrow> deltas_ok (removeOutgoingFollowForBlock a)"
  "deltas_ok a \<Longrightarrow> deltas_ok (removeIncomingFollowForBlock a)"
  by (simp_all add: pair_step_defs split: prod.split sum.split)

lemma pairTransition_deltas: "pairTransition a e = Inr b \<Longrightarrow> deltas_ok a \<Longrightarrow> deltas_ok b"
  by (cases "ev_EventData e")
    (auto simp: pairTransition_def applyFriendRequestSent_def applyFriendRequestCancelled_def applyFriendRequestAccepted_def
      applyFriendRequestRejected_def applyFollowed_def applyUnfollowed_def applyUnfriended_def applyBlocked_def applyBlockRelation_def
      applyUnblocked_def resolvePendingRequestForBlock_def)

lemma pairChange_ok:
  assumes "aggregateID a \<noteq> []" "pair_ok a"
    "pairTransition (a\<lparr>events := events a @ [newEvent pairEventName a d]\<rparr>) (newEvent pairEventName a d) = Inr b"
  shows "pairChange a d = (Inr (), b)" "pair_ok b"
proof -
  from assms(1,3) show "pairChange a d = (Inr (), b)" by (simp add: pairChange_def apply_change_defs Let_def)
  from root_fields(2) [OF pairTransition_root [OF assms(3)]] assms(1,2) have "events_ok b"
    by (auto simp: pair_ok_def events_ok_def newEvent_def)
  moreover have "deltas_ok b"
    using pairTransition_deltas [OF assms(3)] assms(2) by (simp add: pair_ok_def deltas_ok_def)
  ultimately show "pair_ok b" by (simp add: pair_ok_def)
qed

lemma requestChange_ok:
  assumes "aggregateID x \<noteq> []" "events_ok x"
    "friendRequestTransition (x\<lparr>events := events x @ [newEvent friendRequestEventName x d]\<rparr>) (newEvent friendRequestEventName x d) = Inr y"
  shows "requestChange x d = (Inr (), y)" "events_ok y" "aggregateID y = aggregateID x"
proof -
  from assms(1,3) show "requestChange x d = (Inr (), y)" by (simp add: requestChange_def apply_change_defs Let_def)
  from request.transition_fields [OF assms(3)] assms(1,2) show "events_ok y" "aggregateID y = aggregateID x"
    by (auto simp: events_ok_def newEvent_def)
qed

text \<open>A loaded pair with the event of an operation recorded.\<close>

definition pushed :: "RelationshipPairAggregate \<Rightarrow> PairEvent \<Rightarrow> RelationshipPairAggregate" where
  "pushed a d = a\<lparr>events := events a @ [newEvent pairEventName a d]\<rparr>"

lemma pushed_simps [simp]: "rp_state (pushed a d) = rp_state a" "intents (pushed a d) = intents a" "counted (pushed a d) w = counted a w"
  by (simp_all add: pushed_def intents_def counted_def)

lemma loaded_fresh: "loaded db u v a \<Longrightarrow> intents a = newRelationshipPairChanges" "loaded db u v a \<Longrightarrow> counted a w = noDelta"
    "loaded db u v a \<Longrightarrow> pair_ok a"
  by (simp_all add: loaded_def intents_def counted_def newRelationshipPairChanges_def events_ok_def pair_ok_def deltas_ok_def)

lemma pairChange_step:
  assumes "aggregateID a \<noteq> []" "pair_ok a" "\<And>e. ev_EventData e = d \<Longrightarrow> pairTransition (pushed a d) e = Inr b"
  shows "pairChange a d = (Inr (), b)" "pair_ok b"
  using pairChange_ok [OF assms(1,2), of d b] assms(3) [of "newEvent pairEventName a d"]
  by (simp_all add: pushed_def newEvent_def)

lemmas policy_defs = EnsureCanSendFriendRequest_def EnsureCanCancelFriendRequest_def EnsureCanAcceptFriendRequest_def
  EnsureCanRejectFriendRequest_def EnsureCanFollow_def EnsureCanUnfollow_def EnsureCanUnfriend_def EnsureCanBlock_def EnsureCanUnblock_def
  ensureTargetExists_def ensureNotSelf_def ensureNotBlocked_def

text \<open>The rules of \<^verbatim>\<open>policy\<close> are the specification's conditions.\<close>

lemma policy_allows:
  assumes "rel_ok db" "loaded db u v a" "u \<noteq> []" "v \<noteq> []"
  shows "EnsureCanSendFriendRequest (toPolicyState (rp_state a)) = Inr () \<longleftrightarrow> relAllowed (Send x) u v (socialOf db)"
    "EnsureCanCancelFriendRequest (toPolicyState (rp_state a)) = Inr () \<longleftrightarrow> relAllowed CancelSent u v (socialOf db)"
    "EnsureCanAcceptFriendRequest (toPolicyState (rp_state a)) = Inr () \<longleftrightarrow> relAllowed (AcceptFrom x) u v (socialOf db)"
    "EnsureCanRejectFriendRequest (toPolicyState (rp_state a)) = Inr () \<longleftrightarrow> relAllowed RejectFrom u v (socialOf db)"
    "EnsureCanFollow (toPolicyState (rp_state a)) = Inr () \<longleftrightarrow> relAllowed (FollowTo x) u v (socialOf db)"
    "EnsureCanUnfollow (toPolicyState (rp_state a)) = Inr () \<longleftrightarrow> relAllowed UnfollowTo u v (socialOf db)"
    "EnsureCanUnfriend (toPolicyState (rp_state a)) = Inr () \<longleftrightarrow> relAllowed UnfriendWith u v (socialOf db)"
    "EnsureCanBlock (toPolicyState (rp_state a)) = Inr () \<longleftrightarrow> relAllowed (BlockTo x) u v (socialOf db)"
    "EnsureCanUnblock (toPolicyState (rp_state a)) = Inr () \<longleftrightarrow> relAllowed UnblockTo u v (socialOf db)"
  unfolding loaded_policy [OF assms(1,2)] using assms(3,4)
  by (auto simp: policy_defs relAllowed_def)

lemma guarded_ok: "rule (toPolicyState (rp_state a)) = Inr () \<Longrightarrow> guarded rule op a = op a"
  by (simp add: guarded_def)

lemma guarded_fails: "rule (toPolicyState (rp_state a)) \<noteq> Inr () \<Longrightarrow> \<exists>e a'. guarded rule op a = (Inl e, a')"
  by (cases "rule (toPolicyState (rp_state a))") (auto simp: guarded_def)

lemma guarded_command_fails:
  assumes "rel_ok db" "\<And>a. loaded db u v a \<Longrightarrow> u \<noteq> [] \<Longrightarrow> v \<noteq> [] \<Longrightarrow> u \<noteq> v \<Longrightarrow> rule (toPolicyState (rp_state a)) \<noteq> Inr ()"
  shows "\<exists>e. ack (pairCommand clock (guarded rule op) response u v db) = (Inl e, db)"
  using assms by (intro command_fails guarded_fails)

lemmas handler_defs = handleSendFriendRequest_def handleCancelFriendRequest_def handleAcceptFriendRequest_def
  handleRejectFriendRequest_def handleFollowUser_def handleUnfollowUser_def handleUnfriendUser_def handleBlockUser_def
  handleUnblockUser_def SendFriendRequest_def CancelFriendRequest_def AcceptFriendRequest_def RejectFriendRequest_def
  Follow_def Unfollow_def Unfriend_def Block_def Unblock_def

lemma runRel_refused:
  assumes ok: "rel_ok db" and no: "\<not> relAllowed c u v (socialOf db)"
  shows "\<exists>e. runRel clock now c u v db = (Inl e, db)"
  using no policy_allows [OF ok]
  by (cases c) (auto simp: runRel_def handler_defs intro!: guarded_command_fails [OF ok])

lemma persist_none:
  "persistFriendship d b (ch_Friendship newRelationshipPairChanges) = Inr d" "persistFollow d (ch_Following newRelationshipPairChanges) = Inr d"
  "persistFollow d (ch_FollowedBy newRelationshipPairChanges) = Inr d" "persistBlock d (ch_Block newRelationshipPairChanges) = Inr d"
  by (simp_all add: persistFriendship_def persistFollow_def persistBlock_def newRelationshipPairChanges_def noFollowIntent_def)

lemma persist_keeps [simp]:
  "friendshipsT d = fs \<Longrightarrow> (persistFriendship d b (ch_Friendship newRelationshipPairChanges) = Inr (d\<lparr>friendshipsT := fs\<rparr>)) = True"
  "followsT d = fl \<Longrightarrow> (persistFollow d (ch_Following newRelationshipPairChanges) = Inr (d\<lparr>followsT := fl\<rparr>)) = True"
  "followsT d = fl \<Longrightarrow> (persistFollow d (ch_FollowedBy newRelationshipPairChanges) = Inr (d\<lparr>followsT := fl\<rparr>)) = True"
  "blocksT d = bs \<Longrightarrow> (persistBlock d (ch_Block newRelationshipPairChanges) = Inr (d\<lparr>blocksT := bs\<rparr>)) = True"
  by (auto simp: persist_none)

lemma untracked [simp]: "ch_FriendRequest newRelationshipPairChanges = RelationshipChangeNone"
  by (simp add: newRelationshipPairChanges_def)

lemma persistFollow_create: "followCreate d r = Inr d' \<Longrightarrow>
    persistFollow d \<lparr>fli_Kind = RelationshipChangeUpsert, fli_Value = Some r, fli_FollowerID = x, fli_FolloweeID = y\<rparr> = Inr d'"
  by (simp add: persistFollow_def mapUnique_def)

lemma persistFollow_delete: "\<exists>r\<in>set (followsT d). isFollowOf x y r \<Longrightarrow>
    persistFollow d \<lparr>fli_Kind = RelationshipChangeDelete, fli_Value = q, fli_FollowerID = x, fli_FolloweeID = y\<rparr> =
      Inr (d\<lparr>followsT := filter (\<lambda>r. \<not> isFollowOf x y r) (followsT d)\<rparr>)"
  by (simp add: persistFollow_def followDelete_def list_ex_iff)

lemma requestSaved_untouched: "ch_FriendRequest (intents b) = RelationshipChangeNone \<Longrightarrow> requestSaved db b (friendRequestsT db)"
  by (simp add: requestSaved_def)

lemma created_intents:
  "FollowCreated b = (if fli_Kind (ch_Following (intents b)) \<noteq> RelationshipChangeUpsert then None else fli_Value (ch_Following (intents b)))"
  "FriendshipCreated b = (if fsi_Kind (ch_Friendship (intents b)) \<noteq> RelationshipChangeUpsert then None else fsi_Value (ch_Friendship (intents b)))"
  "BlockCreated b = (if bri_Kind (ch_Block (intents b)) \<noteq> RelationshipChangeUpsert then None else bri_Value (ch_Block (intents b)))"
  by (simp_all add: FollowCreated_def FriendshipCreated_def BlockCreated_def)

lemma one_word [simp]: "sint (1 :: int64) = 1" "sint (- 1 :: int64) = - 1"
  by simp_all

lemma rel_ok_finite:
  assumes "rel_ok db"
  shows "finite (friends (socialOf db))" "finite (follows (socialOf db))" "finite (blocks (socialOf db))" "finite (pending (socialOf db))"
  using assms by (simp_all add: rel_ok_def social_ok_def)

end
