(* ===== verification/RelationshipSteps.thy ===== *)
theory RelationshipSteps
  imports RelationshipSpec
begin

text \<open>
  Every operation of the pair aggregate on a loaded pair: the rows that saving it leaves, and that the deltas it counts are
  the difference between the counters that the specification calls for before and after.
\<close>

text \<open>Following.\<close>

lemma follow_rows: "socialOf (db\<lparr>followsT := followsT db @ [r]\<rparr>) =
    (socialOf db)\<lparr>follows := insert (fl_FollowerID r, fl_FolloweeID r) (follows (socialOf db))\<rparr>"
  by (simp add: socialOf_def)

lemma Follow_step:
  fixes now :: gotime
  assumes ok: "rel_ok db" and allowed: "relAllowed (FollowTo k) u v (socialOf db)" and k: "freshID (FollowTo k) db"
    and a: "loaded db u v a"
  defines "r \<equiv> \<lparr>fl_ID = k, fl_FollowerID = u, fl_FolloweeID = v, fl_CreatedAt = now\<rparr>"
  shows "\<exists>b. Follow k now a = (Inr (), b) \<and> FollowCreated b = Some r \<and>
    saves db b (friendRequestsT db) (friendshipsT db) (followsT db @ [r]) (blocksT db) \<and>
    (\<forall>w. TrimSpace w \<noteq> [] \<longrightarrow> countersAdd (tally (socialOf db) w) (counted b w) = tally (relEffect (FollowTo k) u v (socialOf db)) w)"
proof -
  note fin = rel_ok_finite [OF ok]
  from allowed have uv: "u \<noteq> []" "v \<noteq> []" "u \<noteq> v" "(u, v) \<notin> follows (socialOf db)" by (simp_all add: relAllowed_def)
  from k have k': "k \<noteq> []" "k \<notin> fl_ID ` set (followsT db)" by (simp_all add: freshID_def)
  have sa: "actorID (rp_state a) = u" "targetID (rp_state a) = v" "aggregateID a \<noteq> []" using a by (simp_all add: loaded_def)
  define d where "d = EventRelationshipPairFollowed \<lparr>pfd_FollowID = k, pfd_FollowerID = u, pfd_FolloweeID = v, pfd_CreatedAt = now\<rparr>"
  define b where "b = countTarget (noDelta\<lparr>FollowersCount := 1\<rparr>) (countActor (noDelta\<lparr>FollowingCount := 1\<rparr>)
       (inChanges (createFollowing (Some r)) (inState (\<lambda>s. s\<lparr>following := Some r\<rparr>) (pushed a d))))"
  have "pairTransition (pushed a d) e = Inr b" if "ev_EventData e = d" for e
    unfolding pairTransition_def that using uv k'
    by (simp add: d_def applyFollowed_def NewFollowRelation_def b_def r_def)
  from pairChange_step [OF sa(3) loaded_fresh(3) [OF a] this] have ch: "pairChange a d = (Inr (), b)" "pair_ok b" by blast+
  have int: "intents b = newRelationshipPairChanges\<lparr>ch_Following :=
      \<lparr>fli_Kind = RelationshipChangeUpsert, fli_Value = Some r, fli_FollowerID = u, fli_FolloweeID = v\<rparr>\<rparr>"
    by (simp add: b_def loaded_fresh(1) [OF a] createFollowing_def r_def)
  have "Follow k now a = (Inr (), b)"
    using guarded_ok [of EnsureCanFollow a] policy_allows(5) [OF ok a uv(1,2), of k] allowed ch(1) sa
    by (simp add: Follow_def d_def)
  moreover have "FollowCreated b = Some r"
    unfolding created_intents int by simp
  moreover have "followCreate x r = Inr (x\<lparr>followsT := followsT db @ [r]\<rparr>)" if "followsT x = followsT db" for x
    using that uv k' table_iff(2) [where u = u and v = v and db = db]
    by (auto simp: followCreate_def r_def list_ex_iff)
  then have "saves db b (friendRequestsT db) (friendshipsT db) (followsT db @ [r]) (blocksT db)"
    by (intro savesI [where ?f1.0 = "followsT db @ [r]", OF ch(2)]) (simp_all add: int requestSaved_untouched persistFollow_create)
  moreover have "countersAdd (tally (socialOf db) w) (counted b w) = tally (relEffect (FollowTo k) u v (socialOf db)) w"
    if w: "TrimSpace w \<noteq> []" for w
    using uv w by (auto simp: b_def sa loaded_fresh(2) [OF a] noDelta_def addDelta_def countersAdd_def tally_def relEffect_def
        numberOf_insert fin)
  ultimately show ?thesis by blast
qed

lemma Unfollow_step:
  assumes ok: "rel_ok db" and allowed: "relAllowed UnfollowTo u v (socialOf db)" and a: "loaded db u v a"
  shows "\<exists>b. Unfollow a = (Inr (), b) \<and>
    saves db b (friendRequestsT db) (friendshipsT db) (filter (\<lambda>r. \<not> isFollowOf u v r) (followsT db)) (blocksT db) \<and>
    (\<forall>w. TrimSpace w \<noteq> [] \<longrightarrow> countersAdd (tally (socialOf db) w) (counted b w) = tally (relEffect UnfollowTo u v (socialOf db)) w)"
proof -
  note fin = rel_ok_finite [OF ok]
  from allowed have uv: "u \<noteq> []" "v \<noteq> []" "u \<noteq> v" "(u, v) \<in> follows (socialOf db)" by (simp_all add: relAllowed_def)
  have sa: "actorID (rp_state a) = u" "targetID (rp_state a) = v" "aggregateID a \<noteq> []"
    "following (rp_state a) = List.find (isFollowOf u v) (followsT db)" using a by (simp_all add: loaded_def)
  from uv(4) table_iff(2) [of db u v] find_iff [of "isFollowOf u v" "followsT db"] obtain r where
    r: "List.find (isFollowOf u v) (followsT db) = Some r" by auto
  then have r': "r \<in> set (followsT db)" "fl_FollowerID r = u" "fl_FolloweeID r = v"
    by (auto simp: find_Some_iff isFollowOf_def)
  define d where "d = EventRelationshipPairUnfollowed u v"
  define b where "b = applyUnfollowed (pushed a d)"
  have "pairTransition (pushed a d) e = Inr b" if "ev_EventData e = d" for e
    unfolding pairTransition_def that by (simp add: d_def b_def)
  from pairChange_step [OF sa(3) loaded_fresh(3) [OF a] this] have ch: "pairChange a d = (Inr (), b)" "pair_ok b" by blast+
  have int: "intents b = newRelationshipPairChanges\<lparr>ch_Following :=
      \<lparr>fli_Kind = RelationshipChangeDelete, fli_Value = Some r, fli_FollowerID = u, fli_FolloweeID = v\<rparr>\<rparr>"
    by (simp add: b_def applyUnfollowed_def loaded_fresh(1) [OF a] deleteFollowing_def sa r r')
  have "Unfollow a = (Inr (), b)"
    using guarded_ok [of EnsureCanUnfollow a] policy_allows(6) [OF ok a uv(1,2)] allowed ch(1) sa
    by (simp add: Unfollow_def d_def)
  moreover have "saves db b (friendRequestsT db) (friendshipsT db) (filter (\<lambda>r. \<not> isFollowOf u v r) (followsT db)) (blocksT db)"
    using uv(4) table_iff(2) [of db u v]
    by (intro savesI [where ?f1.0 = "filter (\<lambda>r. \<not> isFollowOf u v r) (followsT db)", OF ch(2)])
      (simp_all add: int requestSaved_untouched persistFollow_delete)
  moreover have "countersAdd (tally (socialOf db) w) (counted b w) = tally (relEffect UnfollowTo u v (socialOf db)) w"
    if w: "TrimSpace w \<noteq> []" for w
    using uv w by (auto simp: b_def applyUnfollowed_def sa loaded_fresh(2) [OF a] noDelta_def addDelta_def countersAdd_def tally_def
        relEffect_def numberOf_remove fin)
  ultimately show ?thesis by blast
qed

lemma Unfriend_step:
  assumes ok: "rel_ok db" and allowed: "relAllowed UnfriendWith u v (socialOf db)" and a: "loaded db u v a"
  shows "\<exists>b. Unfriend a = (Inr (), b) \<and>
    saves db b (friendRequestsT db) (filter (\<lambda>f. \<not> isFriendshipOf u v f) (friendshipsT db)) (followsT db) (blocksT db) \<and>
    (\<forall>w. TrimSpace w \<noteq> [] \<longrightarrow> countersAdd (tally (socialOf db) w) (counted b w) = tally (relEffect UnfriendWith u v (socialOf db)) w)"
proof -
  note fin = rel_ok_finite [OF ok]
  from allowed have uv: "u \<noteq> []" "v \<noteq> []" "u \<noteq> v" "pairOf u v \<in> friends (socialOf db)" by (simp_all add: relAllowed_def)
  have sa: "actorID (rp_state a) = u" "targetID (rp_state a) = v" "aggregateID a \<noteq> []"
    "friendship (rp_state a) = List.find (isFriendshipOf u v) (friendshipsT db)" using a by (simp_all add: loaded_def)
  from uv(4) table_iff(1) [of db u v] find_iff [of "isFriendshipOf u v" "friendshipsT db"] obtain f where
    f: "List.find (isFriendshipOf u v) (friendshipsT db) = Some f" by auto
  define d where "d = EventRelationshipPairUnfriended u v"
  define b where "b = applyUnfriended (pushed a d)"
  have "pairTransition (pushed a d) e = Inr b" if "ev_EventData e = d" for e
    unfolding pairTransition_def that by (simp add: d_def b_def)
  from pairChange_step [OF sa(3) loaded_fresh(3) [OF a] this] have ch: "pairChange a d = (Inr (), b)" "pair_ok b" by blast+
  have int: "intents b = newRelationshipPairChanges\<lparr>ch_Friendship := \<lparr>fsi_Kind = RelationshipChangeDelete, fsi_Value = Some f\<rparr>\<rparr>"
    by (simp add: b_def applyUnfriended_def loaded_fresh(1) [OF a] deleteFriendship_def sa f)
  have sb: "actorID (rp_state b) = u" "targetID (rp_state b) = v" by (simp_all add: b_def applyUnfriended_def sa)
  have "Unfriend a = (Inr (), b)"
    using guarded_ok [of EnsureCanUnfriend a] policy_allows(7) [OF ok a uv(1,2)] allowed ch(1) sa
    by (simp add: Unfriend_def d_def)
  moreover have "saves db b (friendRequestsT db) (filter (\<lambda>f. \<not> isFriendshipOf u v f) (friendshipsT db)) (followsT db) (blocksT db)"
    using uv(4) table_iff(1) [of db u v]
    by (intro savesI [where ?f1.0 = "followsT db", OF ch(2)])
      (simp_all add: int requestSaved_untouched persistFriendship_def friendshipDeleteBetween_def list_ex_iff sb)
  moreover have "countersAdd (tally (socialOf db) w) (counted b w) = tally (relEffect UnfriendWith u v (socialOf db)) w"
    if w: "TrimSpace w \<noteq> []" for w
    using uv w by (auto simp: b_def applyUnfriended_def sa loaded_fresh(2) [OF a] noDelta_def addDelta_def countersAdd_def tally_def
        relEffect_def numberOf_remove pairOf_users fin)
  ultimately show ?thesis by blast
qed

lemma Unblock_step:
  assumes ok: "rel_ok db" and allowed: "relAllowed UnblockTo u v (socialOf db)" and a: "loaded db u v a"
  shows "\<exists>b. Unblock a = (Inr (), b) \<and>
    saves db b (friendRequestsT db) (friendshipsT db) (followsT db) (filter (\<lambda>r. \<not> isBlockOf u v r) (blocksT db)) \<and>
    (\<forall>w. TrimSpace w \<noteq> [] \<longrightarrow> countersAdd (tally (socialOf db) w) (counted b w) = tally (relEffect UnblockTo u v (socialOf db)) w)"
proof -
  note fin = rel_ok_finite [OF ok]
  from allowed have uv: "u \<noteq> []" "v \<noteq> []" "u \<noteq> v" "(u, v) \<in> blocks (socialOf db)" by (simp_all add: relAllowed_def)
  have sa: "actorID (rp_state a) = u" "targetID (rp_state a) = v" "aggregateID a \<noteq> []"
    "blocking (rp_state a) = List.find (isBlockOf u v) (blocksT db)" using a by (simp_all add: loaded_def)
  from uv(4) table_iff(3) [of db u v] find_iff [of "isBlockOf u v" "blocksT db"] obtain r where
    r: "List.find (isBlockOf u v) (blocksT db) = Some r" by auto
  then have r': "br_BlockerID r = u" "br_BlockedID r = v"
    by (auto simp: find_Some_iff isBlockOf_def)
  define d where "d = EventRelationshipPairUnblocked u v"
  define b where "b = applyUnblocked (pushed a d)"
  have "pairTransition (pushed a d) e = Inr b" if "ev_EventData e = d" for e
    unfolding pairTransition_def that by (simp add: d_def b_def)
  from pairChange_step [OF sa(3) loaded_fresh(3) [OF a] this] have ch: "pairChange a d = (Inr (), b)" "pair_ok b" by blast+
  have int: "intents b = newRelationshipPairChanges\<lparr>ch_Block :=
      \<lparr>bri_Kind = RelationshipChangeDelete, bri_Value = Some r, bri_BlockerID = u, bri_BlockedID = v\<rparr>\<rparr>"
    by (simp add: b_def applyUnblocked_def loaded_fresh(1) [OF a] deleteBlock_def sa r r')
  have "Unblock a = (Inr (), b)"
    using guarded_ok [of EnsureCanUnblock a] policy_allows(9) [OF ok a uv(1,2)] allowed ch(1) sa
    by (simp add: Unblock_def d_def)
  moreover have "saves db b (friendRequestsT db) (friendshipsT db) (followsT db) (filter (\<lambda>r. \<not> isBlockOf u v r) (blocksT db))"
    using uv(4) table_iff(3) [of db u v]
    by (intro savesI [where ?f1.0 = "followsT db", OF ch(2)]) (simp_all add: int requestSaved_untouched persistBlock_def blockDelete_def list_ex_iff)
  moreover have "countersAdd (tally (socialOf db) w) (counted b w) = tally (relEffect UnblockTo u v (socialOf db)) w"
    if w: "TrimSpace w \<noteq> []" for w
    using uv w by (auto simp: b_def applyUnblocked_def sa loaded_fresh(2) [OF a] noDelta_def addDelta_def countersAdd_def tally_def
        relEffect_def numberOf_remove fin)
  ultimately show ?thesis by blast
qed

text \<open>Settling the pending request: the row keeps its id and its users and is no longer pending.\<close>

lemma settle_request:
  assumes "fra_FriendRequest x = Some r" "aggregateID x = fr_ID r" "fr_ID r \<noteq> []" "events x = []"
    "f r = Inr r'" "\<And>z e. ev_EventData e = d \<Longrightarrow> friendRequestTransition z e = onRequest z f"
  shows "\<exists>y. requestChange x d = (Inr (), y) \<and> fra_FriendRequest y = Some r' \<and> aggregateID y = fr_ID r \<and> events_ok y"
proof -
  let ?x = "x\<lparr>events := events x @ [newEvent friendRequestEventName x d]\<rparr>"
  have "friendRequestTransition ?x (newEvent friendRequestEventName x d) = Inr (?x\<lparr>fra_FriendRequest := Some r'\<rparr>)"
    using assms(1,5) by (subst assms(6)) (simp_all add: newEvent_def onRequest_def)
  with assms(2,3) have "requestChange x d = (Inr (), ?x\<lparr>fra_FriendRequest := Some r'\<rparr>)"
    by (simp add: requestChange_def apply_change_defs Let_def)
  moreover have "events_ok (?x\<lparr>fra_FriendRequest := Some r'\<rparr>)"
    using assms(2-4) by (simp add: events_ok_def newEvent_def)
  ultimately show ?thesis using assms(2) by (intro exI [of _ "?x\<lparr>fra_FriendRequest := Some r'\<rparr>"]) simp
qed

lemma resolve_step:
  assumes a: "loaded db u v a" and x: "friendRequest (rp_state a) = Some x" "change x = (Inr (), y)" "fra_FriendRequest y = Some r"
    and t: "\<And>e. ev_EventData e = mk (requestData y r) \<Longrightarrow> pairTransition (pushed (withRequest y a) (mk (requestData y r))) e = Inr b"
  shows "resolveRequest change mk a = (Inr (), b)" "pair_ok b"
proof -
  have "aggregateID (withRequest y a) \<noteq> []" "pair_ok (withRequest y a)"
    using a loaded_fresh(3) [OF a] by (simp_all add: loaded_def pair_ok_def) (simp_all add: withRequest_def inState_def events_ok_def)
  from pairChange_step [OF this t] x show "resolveRequest change mk a = (Inr (), b)" "pair_ok b"
    by (simp_all add: resolveRequest_def)
qed

lemma settled_rows:
  assumes rows: "requests_ok rows" and r: "r \<in> set rows" "IsPending r" and r': "fr_ID r' = fr_ID r" "\<not> IsPending r'"
  shows "requests_ok (upsertRequest r' rows)"
    "(\<lambda>q. (fr_RequesterID q, fr_AddresseeID q)) ` {q \<in> set (upsertRequest r' rows). IsPending q} =
     (\<lambda>q. (fr_RequesterID q, fr_AddresseeID q)) ` {q \<in> set rows. IsPending q} - {(fr_RequesterID r, fr_AddresseeID r)}"
proof -
  have up: "upsertRequest r' rows = map (\<lambda>q. if fr_ID q = fr_ID r then r' else q) rows"
    using r(1) r'(1) by (auto simp: upsertRequest_def list_ex_iff)
  have one: "fr_ID q = fr_ID r \<longleftrightarrow> q = r" if "q \<in> set rows" for q
    using rows r(1) that unfolding requests_ok_def by (metis distinct_map inj_onD)
  then have set_up: "set (upsertRequest r' rows) = insert r' (set rows - {r})"
    using r(1) by (auto simp: up)
  have "map fr_ID (upsertRequest r' rows) = map fr_ID rows"
    using r'(1) by (simp add: up)
  with rows r(1) r' show "requests_ok (upsertRequest r' rows)"
    unfolding requests_ok_def set_up by auto
  show "(\<lambda>q. (fr_RequesterID q, fr_AddresseeID q)) ` {q \<in> set (upsertRequest r' rows). IsPending q} =
     (\<lambda>q. (fr_RequesterID q, fr_AddresseeID q)) ` {q \<in> set rows. IsPending q} - {(fr_RequesterID r, fr_AddresseeID r)}"
    unfolding set_up using rows r r'(2) by (auto simp: requests_ok_def)
qed

text \<open>The request that a loaded pair holds is the pending row, and settling it.\<close>

lemma loaded_pending_request:
  assumes ok: "rel_ok db" and a: "loaded db u v a" and r: "r \<in> set (friendRequestsT db)" "IsPending r" "requestBetween u v r"
  obtains x where "friendRequest (rp_state a) = Some x" "fra_FriendRequest x = Some r" "aggregateID x = fr_ID r" "fr_ID r \<noteq> []" "events x = []"
proof -
  from a have l: "loaded_request db u v (friendRequest (rp_state a))" by (simp add: loaded_def)
  have dir: "(u, v) \<in> pending (socialOf db) \<Longrightarrow> (v, u) \<notin> pending (socialOf db)"
    using ok by (auto simp: rel_ok_def social_ok_def)
  have in_r: "(fr_RequesterID r, fr_AddresseeID r) \<in> pending (socialOf db)" using r pending_iff by blast
  with l r obtain x q where x: "friendRequest (rp_state a) = Some x" "fra_FriendRequest x = Some q" "q \<in> set (friendRequestsT db)" "IsPending q"
    "requestBetween u v q" "aggregateID x = fr_ID q" "fr_ID q \<noteq> []" "events x = []"
    by (auto simp: loaded_request_def requestBetween_def split: option.splits)
  then have "(fr_RequesterID q, fr_AddresseeID q) \<in> pending (socialOf db)" using pending_iff by blast
  with in_r dir r(3) x(5) have "fr_RequesterID r = fr_RequesterID q" "fr_AddresseeID r = fr_AddresseeID q"
    by (auto simp: requestBetween_def)
  with ok r x have "q = r" by (auto simp: rel_ok_def requests_ok_def)
  with x that show thesis by blast
qed

lemma loaded_settled:
  assumes "rel_ok db" "loaded db u v a" "r \<in> set (friendRequestsT db)" "IsPending r" "requestBetween u v r"
    and f: "f r = Inr r'" "\<And>z e. ev_EventData e = d \<Longrightarrow> friendRequestTransition z e = onRequest z f"
  obtains x y where "friendRequest (rp_state a) = Some x" "fra_FriendRequest x = Some r" "requestChange x d = (Inr (), y)"
    "fra_FriendRequest y = Some r'" "aggregateID y = fr_ID r" "fr_ID r \<noteq> []" "events_ok y"
proof -
  from assms(1-5) obtain x where x: "friendRequest (rp_state a) = Some x" "fra_FriendRequest x = Some r" "aggregateID x = fr_ID r"
    "fr_ID r \<noteq> []" "events x = []" by (rule loaded_pending_request)
  from settle_request [OF x(2-5) f] x that show thesis by blast
qed

lemma settled_saved:
  assumes "friendRequest (rp_state b) = Some y" "ch_FriendRequest (intents b) = RelationshipChangeUpsert" "fra_FriendRequest y = Some r'"
    "aggregateID y = fr_ID r'" "fr_ID r' \<noteq> []" "events_ok y" "fr_RequesterID r' \<noteq> fr_AddresseeID r'"
    "fr_Status r' \<in> set requestStatuses" "\<not> IsPending r'"
  shows "requestSaved db b (upsertRequest r' (friendRequestsT db))"
  using assms by (simp add: requestSaved_def)

lemma Cancel_step:
  assumes ok: "rel_ok db" and allowed: "relAllowed CancelSent u v (socialOf db)" and a: "loaded db u v a"
    and r: "r \<in> set (friendRequestsT db)" "IsPending r" "fr_RequesterID r = u" "fr_AddresseeID r = v"
  shows "\<exists>b. CancelFriendRequest now a = (Inr (), b) \<and>
    saves db b (upsertRequest (r\<lparr>fr_Status := FriendRequestStatusCancelled, fr_CancelledAt := Some now\<rparr>) (friendRequestsT db))
      (friendshipsT db) (followsT db) (blocksT db) \<and>
    (\<forall>w. TrimSpace w \<noteq> [] \<longrightarrow> countersAdd (tally (socialOf db) w) (counted b w) = tally (relEffect CancelSent u v (socialOf db)) w)"
proof -
  note fin = rel_ok_finite [OF ok]
  from allowed have uv: "u \<noteq> []" "v \<noteq> []" "u \<noteq> v" "(u, v) \<in> pending (socialOf db)" by (simp_all add: relAllowed_def)
  have sa: "actorID (rp_state a) = u" "targetID (rp_state a) = v" using a by (simp_all add: loaded_def)
  let ?r = "r\<lparr>fr_Status := FriendRequestStatusCancelled, fr_CancelledAt := Some now\<rparr>"
  have "requestBetween u v r" "Cancel r now = Inr ?r" using r by (simp_all add: requestBetween_def Cancel_def IsPending_def)
  from loaded_settled [where f = "\<lambda>r. Cancel r now", OF ok a r(1,2) this, of "EventFriendRequestCancel now"] obtain x y where
    x: "friendRequest (rp_state a) = Some x" "fra_FriendRequest x = Some r" "requestChange x (EventFriendRequestCancel now) = (Inr (), y)"
    and y: "fra_FriendRequest y = Some ?r" "aggregateID y = fr_ID ?r" "fr_ID ?r \<noteq> []" "events_ok y"
    by (auto simp: friendRequestTransition_def)
  from x(2,3) have change: "CancelRequest x now = (Inr (), y)" by (simp add: CancelRequest_def)
  define d where "d = EventRelationshipPairFriendRequestCancelled (requestData y ?r) now"
  define b where "b = countTarget (noDelta\<lparr>PendingInCount := -1\<rparr>) (countActor (noDelta\<lparr>PendingOutCount := -1\<rparr>)
    (trackFriendRequest (withRequest y (pushed (withRequest y a) d))))"
  have "pairTransition (pushed (withRequest y a) d) e = Inr b" if "ev_EventData e = d" for e
    unfolding pairTransition_def that
    by (simp add: d_def b_def applyFriendRequestCancelled_def ensureFriendRequestAggregate_def)
  from resolve_step [OF a x(1), where change = "\<lambda>fr. CancelRequest fr now" and mk = "\<lambda>d. EventRelationshipPairFriendRequestCancelled d now",
      OF change y(1)] this
  have ch: "resolveRequest (\<lambda>fr. CancelRequest fr now) (\<lambda>d. EventRelationshipPairFriendRequestCancelled d now) a = (Inr (), b)" "pair_ok b"
    by (auto simp: d_def)
  have int: "intents b = newRelationshipPairChanges\<lparr>ch_FriendRequest := RelationshipChangeUpsert\<rparr>" "friendRequest (rp_state b) = Some y"
    by (simp_all add: b_def loaded_fresh(1) [OF a])
  have "CancelFriendRequest now a = (Inr (), b)"
    using guarded_ok [of EnsureCanCancelFriendRequest a] policy_allows(2) [OF ok a uv(1,2)] allowed ch(1)
    by (simp add: CancelFriendRequest_def)
  moreover from int y r uv(3) have "requestSaved db b (upsertRequest ?r (friendRequestsT db))"
    by (intro settled_saved) (simp_all add: requestStatuses_def IsPending_def)
  then have "saves db b (upsertRequest ?r (friendRequestsT db)) (friendshipsT db) (followsT db) (blocksT db)"
    by (intro savesI [where ?f1.0 = "followsT db", OF ch(2)]) (simp_all add: int)
  moreover have "countersAdd (tally (socialOf db) w) (counted b w) = tally (relEffect CancelSent u v (socialOf db)) w"
    if w: "TrimSpace w \<noteq> []" for w
    using uv w by (auto simp: b_def sa loaded_fresh(2) [OF a] noDelta_def addDelta_def countersAdd_def tally_def
        relEffect_def numberOf_remove fin)
  ultimately show ?thesis by blast
qed

lemma Reject_step:
  assumes ok: "rel_ok db" and allowed: "relAllowed RejectFrom u v (socialOf db)" and a: "loaded db u v a"
    and r: "r \<in> set (friendRequestsT db)" "IsPending r" "fr_RequesterID r = v" "fr_AddresseeID r = u"
  shows "\<exists>b. RejectFriendRequest reason now a = (Inr (), b) \<and>
    saves db b (upsertRequest (r\<lparr>fr_Status := FriendRequestStatusRejected, fr_RespondedAt := Some now, fr_RejectedReason := reason\<rparr>)
      (friendRequestsT db)) (friendshipsT db) (followsT db) (blocksT db) \<and>
    (\<forall>w. TrimSpace w \<noteq> [] \<longrightarrow> countersAdd (tally (socialOf db) w) (counted b w) = tally (relEffect RejectFrom u v (socialOf db)) w)"
proof -
  note fin = rel_ok_finite [OF ok]
  from allowed have uv: "u \<noteq> []" "v \<noteq> []" "u \<noteq> v" "(v, u) \<in> pending (socialOf db)" by (simp_all add: relAllowed_def)
  have sa: "actorID (rp_state a) = u" "targetID (rp_state a) = v" using a by (simp_all add: loaded_def)
  let ?r = "r\<lparr>fr_Status := FriendRequestStatusRejected, fr_RespondedAt := Some now, fr_RejectedReason := reason\<rparr>"
  have "requestBetween u v r" "Reject r reason now = Inr ?r" using r by (simp_all add: requestBetween_def Reject_def IsPending_def)
  from loaded_settled [where f = "\<lambda>r. Reject r reason now", OF ok a r(1,2) this, of "EventFriendRequestReject reason now"] obtain x y where
    x: "friendRequest (rp_state a) = Some x" "fra_FriendRequest x = Some r" "requestChange x (EventFriendRequestReject reason now) = (Inr (), y)"
    and y: "fra_FriendRequest y = Some ?r" "aggregateID y = fr_ID ?r" "fr_ID ?r \<noteq> []" "events_ok y"
    by (auto simp: friendRequestTransition_def)
  from x(2,3) have change: "RejectRequest x reason now = (Inr (), y)" by (simp add: RejectRequest_def)
  define d where "d = EventRelationshipPairFriendRequestRejected (requestData y ?r) reason now"
  define b where "b = countActor (noDelta\<lparr>PendingInCount := -1\<rparr>) (countTarget (noDelta\<lparr>PendingOutCount := -1\<rparr>)
    (trackFriendRequest (withRequest y (pushed (withRequest y a) d))))"
  have "pairTransition (pushed (withRequest y a) d) e = Inr b" if "ev_EventData e = d" for e
    unfolding pairTransition_def that
    by (simp add: d_def b_def applyFriendRequestRejected_def ensureFriendRequestAggregate_def)
  from resolve_step [OF a x(1), where change = "\<lambda>fr. RejectRequest fr reason now" and
      mk = "\<lambda>d. EventRelationshipPairFriendRequestRejected d reason now", OF change y(1)] this
  have ch: "resolveRequest (\<lambda>fr. RejectRequest fr reason now) (\<lambda>d. EventRelationshipPairFriendRequestRejected d reason now) a = (Inr (), b)"
    "pair_ok b" by (auto simp: d_def)
  have int: "intents b = newRelationshipPairChanges\<lparr>ch_FriendRequest := RelationshipChangeUpsert\<rparr>" "friendRequest (rp_state b) = Some y"
    by (simp_all add: b_def loaded_fresh(1) [OF a])
  have "RejectFriendRequest reason now a = (Inr (), b)"
    using guarded_ok [of EnsureCanRejectFriendRequest a] policy_allows(4) [OF ok a uv(1,2)] allowed ch(1)
    by (simp add: RejectFriendRequest_def)
  moreover from int y r uv(3) have "requestSaved db b (upsertRequest ?r (friendRequestsT db))"
    by (intro settled_saved) (simp_all add: requestStatuses_def IsPending_def)
  then have "saves db b (upsertRequest ?r (friendRequestsT db)) (friendshipsT db) (followsT db) (blocksT db)"
    by (intro savesI [where ?f1.0 = "followsT db", OF ch(2)]) (simp_all add: int)
  moreover have "countersAdd (tally (socialOf db) w) (counted b w) = tally (relEffect RejectFrom u v (socialOf db)) w"
    if w: "TrimSpace w \<noteq> []" for w
    using uv w by (auto simp: b_def sa loaded_fresh(2) [OF a] noDelta_def addDelta_def countersAdd_def tally_def
        relEffect_def numberOf_remove fin)
  ultimately show ?thesis by blast
qed

lemma friendship_created:
  assumes "u \<noteq> []" "v \<noteq> []" "u \<noteq> v" "k \<noteq> []"
  obtains f where "NewFriendship k u v q now = Inr f" "fs_ID f = k" "(fs_UserLowID f, fs_UserHighID f) = pairOf u v" "fs_CreatedAt f = now"
    "\<exists>w. OtherUserID f u = Inr w"
  using assms that
  by (cases "u < v") (auto simp: NewFriendship_def entityNormalizePair_def repoNormalizePair_def OtherUserID_def)

lemma friendshipCreate_ok:
  assumes "(fs_UserLowID f, fs_UserHighID f) = pairOf u v" "u \<noteq> v" "pairOf u v \<notin> friends (socialOf db)" "fs_ID f \<notin> fs_ID ` set (friendshipsT db)"
    "friendshipsT d = friendshipsT db"
  shows "friendshipCreate d f = Inr (d\<lparr>friendshipsT := friendshipsT db @ [f]\<rparr>)"
proof -
  have "fs_UserLowID f < fs_UserHighID f" using pairOf_less [OF assms(2)] assms(1) by (metis fst_conv snd_conv)
  moreover have "\<not> list_ex (\<lambda>g. fs_ID g = fs_ID f \<or> fs_UserLowID g = fs_UserLowID f \<and> fs_UserHighID g = fs_UserHighID f) (friendshipsT d)"
    using assms(1,3,4,5) table_iff(1) [of db u v] by (auto simp: list_ex_iff isFriendshipOf_def image_iff)
  ultimately show ?thesis using assms(5) by (simp add: friendshipCreate_def)
qed

lemma Accept_step:
  assumes ok: "rel_ok db" and allowed: "relAllowed (AcceptFrom k) u v (socialOf db)" and k: "freshID (AcceptFrom k) db" and a: "loaded db u v a"
    and r: "r \<in> set (friendRequestsT db)" "IsPending r" "fr_RequesterID r = v" "fr_AddresseeID r = u"
    and f: "NewFriendship k u v (Some (fr_ID r)) now = Inr f" "fs_ID f = k" "(fs_UserLowID f, fs_UserHighID f) = pairOf u v"
  shows "\<exists>b. AcceptFriendRequest k now a = (Inr (), b) \<and> FriendshipCreated b = Some f \<and>
    saves db b (upsertRequest (r\<lparr>fr_Status := FriendRequestStatusAccepted, fr_RespondedAt := Some now\<rparr>) (friendRequestsT db))
      (friendshipsT db @ [f]) (followsT db) (blocksT db) \<and>
    (\<forall>w. TrimSpace w \<noteq> [] \<longrightarrow> countersAdd (tally (socialOf db) w) (counted b w) = tally (relEffect (AcceptFrom k) u v (socialOf db)) w)"
proof -
  note fin = rel_ok_finite [OF ok]
  from allowed have uv: "u \<noteq> []" "v \<noteq> []" "u \<noteq> v" "(v, u) \<in> pending (socialOf db)" "pairOf u v \<notin> friends (socialOf db)"
    by (simp_all add: relAllowed_def)
  have sa: "actorID (rp_state a) = u" "targetID (rp_state a) = v" using a by (simp_all add: loaded_def)
  let ?r = "r\<lparr>fr_Status := FriendRequestStatusAccepted, fr_RespondedAt := Some now\<rparr>"
  have "requestBetween u v r" "Accept r now = Inr ?r" using r by (simp_all add: requestBetween_def Accept_def IsPending_def)
  from loaded_settled [where f = "\<lambda>r. Accept r now", OF ok a r(1,2) this, of "EventFriendRequestAccept now"] obtain x y where
    x: "friendRequest (rp_state a) = Some x" "fra_FriendRequest x = Some r" "requestChange x (EventFriendRequestAccept now) = (Inr (), y)"
    and y: "fra_FriendRequest y = Some ?r" "aggregateID y = fr_ID ?r" "fr_ID ?r \<noteq> []" "events_ok y"
    by (auto simp: friendRequestTransition_def)
  from x(2,3) have change: "AcceptRequest x now = (Inr (), y)" by (simp add: AcceptRequest_def)
  define d where "d = EventRelationshipPairFriendRequestAccepted (requestData y ?r) k now"
  define b where "b = countActor (noDelta\<lparr>FriendsCount := 1, PendingInCount := -1\<rparr>)
       (countTarget (noDelta\<lparr>FriendsCount := 1, PendingOutCount := -1\<rparr>)
         (inChanges (createFriendship (Some f)) (trackFriendRequest (inState (\<lambda>s. s\<lparr>friendship := Some f\<rparr>)
           (withRequest y (pushed (withRequest y a) d))))))"
  have "pairTransition (pushed (withRequest y a) d) e = Inr b" if "ev_EventData e = d" for e
    unfolding pairTransition_def that using f(1) y(2)
    by (simp add: d_def b_def applyFriendRequestAccepted_def ensureFriendRequestAggregate_def sa requestData_def)
  from resolve_step [OF a x(1), where change = "\<lambda>fr. AcceptRequest fr now" and
      mk = "\<lambda>d. EventRelationshipPairFriendRequestAccepted d k now", OF change y(1)] this
  have ch: "resolveRequest (\<lambda>fr. AcceptRequest fr now) (\<lambda>d. EventRelationshipPairFriendRequestAccepted d k now) a = (Inr (), b)" "pair_ok b"
    by (auto simp: d_def)
  have int: "intents b = newRelationshipPairChanges\<lparr>ch_FriendRequest := RelationshipChangeUpsert,
      ch_Friendship := \<lparr>fsi_Kind = RelationshipChangeUpsert, fsi_Value = Some f\<rparr>\<rparr>" "friendRequest (rp_state b) = Some y"
    by (simp_all add: b_def loaded_fresh(1) [OF a] createFriendship_def)
  have "AcceptFriendRequest k now a = (Inr (), b)"
    using guarded_ok [of EnsureCanAcceptFriendRequest a] policy_allows(3) [OF ok a uv(1,2), of k] allowed ch(1)
    by (simp add: AcceptFriendRequest_def)
  moreover have "FriendshipCreated b = Some f" unfolding created_intents int by simp
  moreover from int y r uv(3) have "requestSaved db b (upsertRequest ?r (friendRequestsT db))"
    by (intro settled_saved) (simp_all add: requestStatuses_def IsPending_def)
  then have "saves db b (upsertRequest ?r (friendRequestsT db)) (friendshipsT db @ [f]) (followsT db) (blocksT db)"
    using friendshipCreate_ok [OF f(3) uv(3,5)] k f(2)
    by (intro savesI [where ?f1.0 = "followsT db", OF ch(2)]) (simp_all add: int persistFriendship_def mapUnique_def freshID_def)
  moreover have "countersAdd (tally (socialOf db) w) (counted b w) = tally (relEffect (AcceptFrom k) u v (socialOf db)) w"
    if w: "TrimSpace w \<noteq> []" for w
    using uv w by (auto simp: b_def sa loaded_fresh(2) [OF a] noDelta_def addDelta_def countersAdd_def tally_def
        relEffect_def numberOf_remove numberOf_insert pairOf_users fin)
  ultimately show ?thesis by blast
qed

text \<open>Sending.\<close>

lemma Create_ok:
  assumes "k \<noteq> []" "TrimSpace k = k" "u \<noteq> []" "v \<noteq> []"
  obtains x y where "NewFriendRequest k = Inr x" "Create x u v None now = (Inr (), y)" "aggregateID y = k" "events_ok y"
    "fra_FriendRequest y = Some \<lparr>fr_ID = k, fr_RequesterID = u, fr_AddresseeID = v, fr_Status = FriendRequestStatusPending,
        fr_Message = None, fr_CreatedAt = now, fr_RespondedAt = None, fr_ExpiredAt = None, fr_CancelledAt = None, fr_RejectedReason = None\<rparr>"
proof -
  obtain x where x: "NewFriendRequest k = Inr x" "aggregateID x = k" "events x = []"
    using assms by (simp add: NewFriendRequest_def InitAggregate_def SetID_def SetAggregateType_def emptyRoot_def AggregateRoot.defs
        friendRequestType_def)
  then obtain y where "Create x u v None now = (Inr (), y)" "aggregateID y = k" "events_ok y"
    "fra_FriendRequest y = Some \<lparr>fr_ID = k, fr_RequesterID = u, fr_AddresseeID = v, fr_Status = FriendRequestStatusPending,
        fr_Message = None, fr_CreatedAt = now, fr_RespondedAt = None, fr_ExpiredAt = None, fr_CancelledAt = None, fr_RejectedReason = None\<rparr>"
    using assms by (auto simp: Create_def requestChange_def apply_change_defs Let_def friendRequestTransition_def newEvent_def
        NullableString_def events_ok_def)
  with x(1) show thesis by (rule that)
qed

lemma Send_step:
  assumes ok: "rel_ok db" and allowed: "relAllowed (Send k) u v (socialOf db)" and k: "freshID (Send k) db" and a: "loaded db u v a"
  shows "\<exists>b x. SendFriendRequest k now a = (Inr (), b) \<and> friendRequest (rp_state b) = Some x \<and>
    fra_FriendRequest x = Some \<lparr>fr_ID = k, fr_RequesterID = u, fr_AddresseeID = v, fr_Status = FriendRequestStatusPending,
        fr_Message = None, fr_CreatedAt = now, fr_RespondedAt = None, fr_ExpiredAt = None, fr_CancelledAt = None, fr_RejectedReason = None\<rparr> \<and>
    saves db b (friendRequestsT db @ [\<lparr>fr_ID = k, fr_RequesterID = u, fr_AddresseeID = v, fr_Status = FriendRequestStatusPending,
        fr_Message = None, fr_CreatedAt = now, fr_RespondedAt = None, fr_ExpiredAt = None, fr_CancelledAt = None, fr_RejectedReason = None\<rparr>])
      (friendshipsT db) (followsT db) (blocksT db) \<and>
    (\<forall>w. TrimSpace w \<noteq> [] \<longrightarrow> countersAdd (tally (socialOf db) w) (counted b w) = tally (relEffect (Send k) u v (socialOf db)) w)"
proof -
  note fin = rel_ok_finite [OF ok]
  let ?r = "\<lparr>fr_ID = k, fr_RequesterID = u, fr_AddresseeID = v, fr_Status = FriendRequestStatusPending,
        fr_Message = None, fr_CreatedAt = now, fr_RespondedAt = None, fr_ExpiredAt = None, fr_CancelledAt = None, fr_RejectedReason = None\<rparr>"
  from allowed have uv: "u \<noteq> []" "v \<noteq> []" "u \<noteq> v" "(u, v) \<notin> pending (socialOf db)" "(v, u) \<notin> pending (socialOf db)"
    by (simp_all add: relAllowed_def)
  from k have k': "k \<noteq> []" "TrimSpace k = k" "k \<notin> fr_ID ` set (friendRequestsT db)" by (simp_all add: freshID_def)
  have sa: "actorID (rp_state a) = u" "targetID (rp_state a) = v" "aggregateID a \<noteq> []" using a by (simp_all add: loaded_def)
  from k'(1,2) uv(1,2) obtain x y where x: "NewFriendRequest k = Inr x" "Create x u v None now = (Inr (), y)"
    and y: "aggregateID y = k" "events_ok y" "fra_FriendRequest y = Some ?r" by (rule Create_ok)
  define d where "d = EventRelationshipPairFriendRequestSent \<lparr>prd_RequestID = k, prd_RequesterID = u, prd_AddresseeID = v, prd_CreatedAt = now\<rparr>"
  define b where "b = countTarget (noDelta\<lparr>PendingInCount := 1\<rparr>) (countActor (noDelta\<lparr>PendingOutCount := 1\<rparr>)
    (trackFriendRequest (withRequest y (pushed (withRequest y a) d))))"
  have t: "pairTransition (pushed (withRequest y a) d) e = Inr b" if "ev_EventData e = d" for e
    unfolding pairTransition_def that using y(1) by (simp add: d_def b_def applyFriendRequestSent_def)
  have root: "aggregateID (withRequest y a) \<noteq> []" "pair_ok (withRequest y a)"
    using a loaded_fresh(3) [OF a] by (simp_all add: loaded_def pair_ok_def) (simp_all add: withRequest_def inState_def events_ok_def)
  from pairChange_step [OF root t] have ch: "pairChange (withRequest y a) d = (Inr (), b)" "pair_ok b" by blast+
  have int: "intents b = newRelationshipPairChanges\<lparr>ch_FriendRequest := RelationshipChangeUpsert\<rparr>" "friendRequest (rp_state b) = Some y"
    by (simp_all add: b_def loaded_fresh(1) [OF a])
  have "SendFriendRequest k now a = (Inr (), b)"
    using guarded_ok [of EnsureCanSendFriendRequest a] policy_allows(1) [OF ok a uv(1,2), of k] allowed ch(1) x sa
    by (simp add: SendFriendRequest_def d_def)
  moreover have "requestSaved db b (friendRequestsT db @ [?r])"
    unfolding requestSaved_def int(2)
    using y uv k' pending_iff [of u v db] pending_iff [of v u db]
    by (auto simp: int(1) requestStatuses_def requestBetween_def upsertRequest_def list_ex_iff image_iff)
  then have "saves db b (friendRequestsT db @ [?r]) (friendshipsT db) (followsT db) (blocksT db)"
    by (intro savesI [where ?f1.0 = "followsT db", OF ch(2)]) (simp_all add: int)
  moreover have "countersAdd (tally (socialOf db) w) (counted b w) = tally (relEffect (Send k) u v (socialOf db)) w"
    if w: "TrimSpace w \<noteq> []" for w
    using uv w by (auto simp: b_def sa loaded_fresh(2) [OF a] noDelta_def addDelta_def countersAdd_def tally_def
        relEffect_def numberOf_insert fin)
  ultimately show ?thesis using int(2) y(3) by blast
qed

text \<open>Blocking settles the pending request, in whichever direction it is.\<close>

definition settledForBlock :: "gotime \<Rightarrow> string \<Rightarrow> FriendRequest \<Rightarrow> FriendRequest" where
  "settledForBlock now u r = (if fr_RequesterID r = u then r\<lparr>fr_Status := FriendRequestStatusCancelled, fr_CancelledAt := Some now\<rparr>
     else r\<lparr>fr_Status := FriendRequestStatusRejected, fr_RespondedAt := Some now, fr_RejectedReason := Some ''blocked by user''\<rparr>)"

lemma settledForBlock_simps [simp]:
  "fr_ID (settledForBlock now u r) = fr_ID r" "fr_RequesterID (settledForBlock now u r) = fr_RequesterID r"
  "fr_AddresseeID (settledForBlock now u r) = fr_AddresseeID r" "\<not> IsPending (settledForBlock now u r)"
  "fr_Status (settledForBlock now u r) \<in> set requestStatuses"
  by (simp_all add: settledForBlock_def IsPending_def requestStatuses_def)

definition pendingDelta :: "Social \<Rightarrow> string \<Rightarrow> string \<Rightarrow> string \<Rightarrow> UserRelationshipCounterDelta" where
  "pendingDelta s u v w = noDelta
     \<lparr>PendingInCount := (if w = v \<and> (u, v) \<in> pending s \<or> w = u \<and> (v, u) \<in> pending s then -1 else 0),
      PendingOutCount := (if w = u \<and> (u, v) \<in> pending s \<or> w = v \<and> (v, u) \<in> pending s then -1 else 0)\<rparr>"

lemma addDelta_none [simp]: "addDelta d noDelta = d"
  by (simp add: addDelta_def noDelta_def)

lemma resolve_none:
  assumes "loaded_request db u v (friendRequest (rp_state c))" "actorID (rp_state c) = u" "targetID (rp_state c) = v" "rel_ok db"
    "(u, v) \<notin> pending (socialOf db)" "(v, u) \<notin> pending (socialOf db)"
  shows "resolvePendingRequestForBlock now c = c"
  using assms loaded_pending [OF assms(4,1)]
  by (simp add: resolvePendingRequestForBlock_def resolveOutgoingForBlock_def resolveIncomingForBlock_def
      hasPendingOutgoingRequest_def hasPendingIncomingRequest_def)

lemma resolve_some:
  assumes ok: "rel_ok db" and a: "loaded db u v a" and r: "r \<in> set (friendRequestsT db)" "IsPending r" "requestBetween u v r"
    and c: "friendRequest (rp_state c) = friendRequest (rp_state a)" "actorID (rp_state c) = u" "targetID (rp_state c) = v" and uv: "u \<noteq> v"
  obtains y where "fra_FriendRequest y = Some (settledForBlock now u r)" "aggregateID y = fr_ID r" "fr_ID r \<noteq> []" "events_ok y"
    "resolvePendingRequestForBlock now c =
      (if fr_RequesterID r = u
       then countTarget (noDelta\<lparr>PendingInCount := -1\<rparr>) (countActor (noDelta\<lparr>PendingOutCount := -1\<rparr>) (trackFriendRequest (withRequest y c)))
       else countActor (noDelta\<lparr>PendingInCount := -1\<rparr>) (countTarget (noDelta\<lparr>PendingOutCount := -1\<rparr>) (trackFriendRequest (withRequest y c))))"
proof (cases "fr_RequesterID r = u")
  case True
  with r(3) uv have v: "fr_AddresseeID r = v" by (auto simp: requestBetween_def)
  let ?r = "settledForBlock now u r"
  from True r(2) have "Cancel r now = Inr ?r" by (simp add: Cancel_def IsPending_def settledForBlock_def)
  from loaded_settled [where f = "\<lambda>r. Cancel r now", OF ok a r this, of "EventFriendRequestCancel now"] obtain x y where
    x: "friendRequest (rp_state a) = Some x" "fra_FriendRequest x = Some r" "requestChange x (EventFriendRequestCancel now) = (Inr (), y)"
    and y: "fra_FriendRequest y = Some ?r" "aggregateID y = fr_ID r" "fr_ID r \<noteq> []" "events_ok y"
    by (auto simp: friendRequestTransition_def)
  from True v r(2) x c uv y have "resolvePendingRequestForBlock now c =
      countTarget (noDelta\<lparr>PendingInCount := -1\<rparr>) (countActor (noDelta\<lparr>PendingOutCount := -1\<rparr>) (trackFriendRequest (withRequest y c)))"
    by (simp add: resolvePendingRequestForBlock_def resolveOutgoingForBlock_def resolveIncomingForBlock_def
        hasPendingOutgoingRequest_def hasPendingIncomingRequest_def pendingBetween_def CancelRequest_def)
  with True y that show thesis by simp
next
  case False
  with r(3) have v: "fr_RequesterID r = v" "fr_AddresseeID r = u" by (auto simp: requestBetween_def)
  let ?r = "settledForBlock now u r"
  from False r(2) have "Reject r (Some ''blocked by user'') now = Inr ?r" by (simp add: Reject_def IsPending_def settledForBlock_def)
  from loaded_settled [where f = "\<lambda>r. Reject r (Some ''blocked by user'') now", OF ok a r this,
      of "EventFriendRequestReject (Some ''blocked by user'') now"] obtain x y where
    x: "friendRequest (rp_state a) = Some x" "fra_FriendRequest x = Some r"
      "requestChange x (EventFriendRequestReject (Some ''blocked by user'') now) = (Inr (), y)"
    and y: "fra_FriendRequest y = Some ?r" "aggregateID y = fr_ID r" "fr_ID r \<noteq> []" "events_ok y"
    by (auto simp: friendRequestTransition_def)
  from False v r(2) x c uv y have "resolvePendingRequestForBlock now c =
      countActor (noDelta\<lparr>PendingInCount := -1\<rparr>) (countTarget (noDelta\<lparr>PendingOutCount := -1\<rparr>) (trackFriendRequest (withRequest y c)))"
    by (simp add: resolvePendingRequestForBlock_def resolveOutgoingForBlock_def resolveIncomingForBlock_def
        hasPendingOutgoingRequest_def hasPendingIncomingRequest_def pendingBetween_def RejectRequest_def)
  with False y that show thesis by simp
qed

text \<open>
  What settling leaves: the state and the intents but for the request, the deltas, and the rows that are to be saved.
\<close>

lemma resolve_for_block:
  assumes ok: "rel_ok db" and a: "loaded db u v a" and uv: "u \<noteq> v"
    and c: "friendRequest (rp_state c) = friendRequest (rp_state a)" "actorID (rp_state c) = u" "targetID (rp_state c) = v"
      "ch_FriendRequest (intents c) = RelationshipChangeNone"
  obtains e fr k rows where "resolvePendingRequestForBlock now c = e" "rp_state e = (rp_state c)\<lparr>friendRequest := fr\<rparr>"
    "intents e = (intents c)\<lparr>ch_FriendRequest := k\<rparr>"
    "\<And>w. TrimSpace w \<noteq> [] \<Longrightarrow> counted e w = addDelta (counted c w) (pendingDelta (socialOf db) u v w)"
    "\<And>b. friendRequest (rp_state b) = fr \<Longrightarrow> ch_FriendRequest (intents b) = k \<Longrightarrow> requestSaved db b rows"
    "requests_ok rows"
    "(\<lambda>q. (fr_RequesterID q, fr_AddresseeID q)) ` {q \<in> set rows. IsPending q} = pending (socialOf db) - {(u, v), (v, u)}"
proof (cases "\<exists>r\<in>set (friendRequestsT db). IsPending r \<and> requestBetween u v r")
  case False
  then have no: "(u, v) \<notin> pending (socialOf db)" "(v, u) \<notin> pending (socialOf db)"
    by (auto simp: pending_iff requestBetween_def)
  from a c(1) have "loaded_request db u v (friendRequest (rp_state c))" by (simp add: loaded_def)
  from resolve_none [OF this c(2,3) ok no] have e: "resolvePendingRequestForBlock now c = c" .
  have same: "rp_state c = (rp_state c)\<lparr>friendRequest := friendRequest (rp_state c)\<rparr>" by simp
  have keep: "intents c = (intents c)\<lparr>ch_FriendRequest := RelationshipChangeNone\<rparr>" using c(4) by (simp flip: c(4))
  have d: "counted c w = addDelta (counted c w) (pendingDelta (socialOf db) u v w)" for w
    using no by (simp add: pendingDelta_def addDelta_def noDelta_def)
  show thesis
    using ok no by (intro that [OF e same keep d, of "friendRequestsT db"])
      (auto simp: requestSaved_untouched rel_ok_def socialOf_def)
next
  case True
  then obtain r where r: "r \<in> set (friendRequestsT db)" "IsPending r" "requestBetween u v r" by blast
  from resolve_some [OF ok a r c(1-3) uv] obtain y where y: "fra_FriendRequest y = Some (settledForBlock now u r)" "aggregateID y = fr_ID r"
    "fr_ID r \<noteq> []" "events_ok y" and e: "resolvePendingRequestForBlock now c =
      (if fr_RequesterID r = u
       then countTarget (noDelta\<lparr>PendingInCount := -1\<rparr>) (countActor (noDelta\<lparr>PendingOutCount := -1\<rparr>) (trackFriendRequest (withRequest y c)))
       else countActor (noDelta\<lparr>PendingInCount := -1\<rparr>) (countTarget (noDelta\<lparr>PendingOutCount := -1\<rparr>) (trackFriendRequest (withRequest y c))))"
    by blast
  let ?e = "resolvePendingRequestForBlock now c" and ?rows = "upsertRequest (settledForBlock now u r) (friendRequestsT db)"
  have "(fr_RequesterID r, fr_AddresseeID r) \<in> pending (socialOf db)" using r pending_iff by blast
  moreover have "(u, v) \<in> pending (socialOf db) \<Longrightarrow> (v, u) \<notin> pending (socialOf db)" using ok by (auto simp: rel_ok_def social_ok_def)
  ultimately have dir: "(u, v) \<in> pending (socialOf db) \<longleftrightarrow> fr_RequesterID r = u" "(v, u) \<in> pending (socialOf db) \<longleftrightarrow> fr_RequesterID r \<noteq> u"
    using r(3) uv by (auto simp: requestBetween_def)
  have users: "fr_RequesterID r \<noteq> fr_AddresseeID r" using r(3) uv by (auto simp: requestBetween_def)
  from ok have rows: "requests_ok (friendRequestsT db)" by (simp add: rel_ok_def)
  have gone: "pending (socialOf db) - {(fr_RequesterID r, fr_AddresseeID r)} = pending (socialOf db) - {(u, v), (v, u)}"
    using r(3) uv dir by (auto simp: requestBetween_def)
  show thesis
  proof (rule that)
    show "?e = ?e" ..
    show "rp_state ?e = (rp_state c)\<lparr>friendRequest := Some y\<rparr>" "intents ?e = (intents c)\<lparr>ch_FriendRequest := RelationshipChangeUpsert\<rparr>"
      unfolding e by simp_all
    show "counted ?e w = addDelta (counted c w) (pendingDelta (socialOf db) u v w)" if "TrimSpace w \<noteq> []" for w
      unfolding e using that uv c by (auto simp: pendingDelta_def dir addDelta_def noDelta_def)
    show "requestSaved db b ?rows" if "friendRequest (rp_state b) = Some y" "ch_FriendRequest (intents b) = RelationshipChangeUpsert" for b
      using that y users by (intro settled_saved) simp_all
    show "requests_ok ?rows" by (rule settled_rows(1) [OF rows r(1,2)]) simp_all
    show "(\<lambda>q. (fr_RequesterID q, fr_AddresseeID q)) ` {q \<in> set ?rows. IsPending q} = pending (socialOf db) - {(u, v), (v, u)}"
      unfolding gone [symmetric] using settled_rows(2) [OF rows r(1,2), of "settledForBlock now u r"] by (simp add: socialOf_def)
  qed
qed

lemma addDelta_fields [simp]:
  "FriendsCount (addDelta d e) = FriendsCount d + FriendsCount e" "FollowersCount (addDelta d e) = FollowersCount d + FollowersCount e"
  "FollowingCount (addDelta d e) = FollowingCount d + FollowingCount e" "BlockedCount (addDelta d e) = BlockedCount d + BlockedCount e"
  "PendingInCount (addDelta d e) = PendingInCount d + PendingInCount e" "PendingOutCount (addDelta d e) = PendingOutCount d + PendingOutCount e"
  by (simp_all add: addDelta_def)

lemma noDelta_fields [simp]:
  "FriendsCount noDelta = 0" "FollowersCount noDelta = 0" "FollowingCount noDelta = 0" "BlockedCount noDelta = 0"
  "PendingInCount noDelta = 0" "PendingOutCount noDelta = 0"
  by (simp_all add: noDelta_def)

text \<open>Removing what the two users had of each other.\<close>

definition removed :: "RelationshipPairAggregate \<Rightarrow> RelationshipPairAggregate" where
  "removed e = removeIncomingFollowForBlock (removeOutgoingFollowForBlock (removeFriendshipForBlock e))"

lemma removed_state:
  "rp_state (removed e) = (rp_state e)\<lparr>friendship := None, following := None, followedBy := None\<rparr>"
  by (simp add: removed_def removeIncomingFollowForBlock_def removeOutgoingFollowForBlock_def removeFriendshipForBlock_def)

lemma removed_intents:
  "intents (removed e) = deleteFollowedBy (followedBy (rp_state e)) (deleteFollowing (following (rp_state e))
     (deleteFriendship (friendship (rp_state e)) (intents e)))"
  by (cases "friendship (rp_state e)"; cases "following (rp_state e)"; cases "followedBy (rp_state e)")
    (simp_all add: removed_def removeIncomingFollowForBlock_def removeOutgoingFollowForBlock_def removeFriendshipForBlock_def
      deleteFollowedBy_def deleteFollowing_def deleteFriendship_def)

lemma removed_counted:
  assumes "TrimSpace w \<noteq> []" "actorID (rp_state e) = u" "targetID (rp_state e) = v" "u \<noteq> v"
  shows "FriendsCount (counted (removed e) w) = FriendsCount (counted e w) + (if (w = u \<or> w = v) \<and> friendship (rp_state e) \<noteq> None then -1 else 0)"
    "FollowersCount (counted (removed e) w) = FollowersCount (counted e w) +
       (if w = v \<and> following (rp_state e) \<noteq> None \<or> w = u \<and> followedBy (rp_state e) \<noteq> None then -1 else 0)"
    "FollowingCount (counted (removed e) w) = FollowingCount (counted e w) +
       (if w = u \<and> following (rp_state e) \<noteq> None \<or> w = v \<and> followedBy (rp_state e) \<noteq> None then -1 else 0)"
    "BlockedCount (counted (removed e) w) = BlockedCount (counted e w)" "PendingInCount (counted (removed e) w) = PendingInCount (counted e w)"
    "PendingOutCount (counted (removed e) w) = PendingOutCount (counted e w)"
  using assms
  by (auto simp: removed_def removeIncomingFollowForBlock_def removeOutgoingFollowForBlock_def removeFriendshipForBlock_def)

lemma removed_root: "AggregateRoot.truncate (removed e) = AggregateRoot.truncate e"
  by (simp add: removed_def)

lemma change_fields [simp]:
  "ch_Friendship (deleteFollowing r c) = ch_Friendship c" "ch_Friendship (deleteFollowedBy r c) = ch_Friendship c"
  "ch_Following (deleteFriendship f c) = ch_Following c" "ch_Following (deleteFollowedBy r c) = ch_Following c"
  "ch_FollowedBy (deleteFriendship f c) = ch_FollowedBy c" "ch_FollowedBy (deleteFollowing r c) = ch_FollowedBy c"
  "ch_Block (deleteFriendship f c) = ch_Block c" "ch_Block (deleteFollowing r c) = ch_Block c" "ch_Block (deleteFollowedBy r c) = ch_Block c"
  "ch_FriendRequest (deleteFriendship f c) = ch_FriendRequest c" "ch_FriendRequest (deleteFollowing r c) = ch_FriendRequest c"
  "ch_FriendRequest (deleteFollowedBy r c) = ch_FriendRequest c"
  by (simp_all add: deleteFriendship_def deleteFollowing_def deleteFollowedBy_def split: option.split)

lemma find_none_filter: "List.find P xs = None \<Longrightarrow> filter (\<lambda>x. \<not> P x) xs = xs"
  by (simp add: find_None_iff filter_id_conv)

lemma persist_deleteFollowing:
  assumes "followsT d = rows" "ch_Following c = noFollowIntent"
  shows "persistFollow d (ch_Following (deleteFollowing (List.find (isFollowOf u v) rows) c)) =
    Inr (d\<lparr>followsT := filter (\<lambda>r. \<not> isFollowOf u v r) rows\<rparr>)"
proof (cases "List.find (isFollowOf u v) rows")
  case None
  with assms find_none_filter [OF None] show ?thesis
    by (auto simp: deleteFollowing_def persistFollow_def noFollowIntent_def)
next
  case (Some r)
  then have "r \<in> set rows" "isFollowOf u v r" by (auto simp: find_Some_iff)
  with assms(1) Some show ?thesis
    using persistFollow_delete [of d u v "Some r"] by (auto simp: deleteFollowing_def isFollowOf_def)
qed

lemma persist_deleteFollowedBy:
  assumes "followsT d = filter (\<lambda>r. \<not> isFollowOf u v r) rows" "ch_FollowedBy c = noFollowIntent" "u \<noteq> v"
  shows "persistFollow d (ch_FollowedBy (deleteFollowedBy (List.find (isFollowOf v u) rows) c)) =
    Inr (d\<lparr>followsT := filter (\<lambda>r. \<not> isFollowOf v u r) (filter (\<lambda>r. \<not> isFollowOf u v r) rows)\<rparr>)"
proof (cases "List.find (isFollowOf v u) rows")
  case None
  then have "filter (\<lambda>r. \<not> isFollowOf v u r) (filter (\<lambda>r. \<not> isFollowOf u v r) rows) = filter (\<lambda>r. \<not> isFollowOf u v r) rows"
    by (intro filter_True) (auto simp: find_None_iff)
  with assms None show ?thesis
    by (auto simp: deleteFollowedBy_def persistFollow_def noFollowIntent_def simp del: filter_filter)
next
  case (Some r)
  then have "r \<in> set rows" "isFollowOf v u r" by (auto simp: find_Some_iff)
  with assms(1,3) Some show ?thesis
    using persistFollow_delete [of d v u "Some r"] by (auto simp: deleteFollowedBy_def isFollowOf_def simp del: filter_filter)
qed

lemma persist_deleteFriendship:
  assumes "friendshipsT d = rows" "fsi_Kind (ch_Friendship c) = RelationshipChangeNone" "actorID (rp_state b) = u" "targetID (rp_state b) = v"
  shows "persistFriendship d b (ch_Friendship (deleteFriendship (List.find (isFriendshipOf u v) rows) c)) =
    Inr (d\<lparr>friendshipsT := filter (\<lambda>f. \<not> isFriendshipOf u v f) rows\<rparr>)"
proof (cases "List.find (isFriendshipOf u v) rows")
  case None
  with assms find_none_filter [OF None] show ?thesis
    by (auto simp: deleteFriendship_def persistFriendship_def)
next
  case (Some f)
  then have "f \<in> set rows" "isFriendshipOf u v f" by (auto simp: find_Some_iff)
  with assms Some show ?thesis
    by (auto simp: deleteFriendship_def persistFriendship_def friendshipDeleteBetween_def list_ex_iff)
qed

lemma blockCreate_ok:
  assumes "br_BlockerID r = u" "br_BlockedID r = v" "u \<noteq> v" "(u, v) \<notin> blocks (socialOf db)" "br_ID r \<notin> br_ID ` set (blocksT db)"
    "blocksT d = blocksT db"
  shows "blockCreate d r = Inr (d\<lparr>blocksT := blocksT db @ [r]\<rparr>)"
  using assms table_iff(3) [of db u v] by (auto simp: blockCreate_def list_ex_iff image_iff)

lemma numberOf_remove2: "finite A \<Longrightarrow> x \<noteq> y \<Longrightarrow> numberOf P (A - {x, y}) =
    numberOf P A - (if x \<in> A \<and> P x then 1 else 0) - (if y \<in> A \<and> P y then 1 else 0)"
  by (subst Diff_insert2) (simp add: numberOf_remove)

lemma block_counters:
  assumes ok: "rel_ok db" and uv: "u \<noteq> v" "(u, v) \<notin> blocks (socialOf db)" and w: "TrimSpace w \<noteq> []"
    and se: "actorID (rp_state e) = u" "targetID (rp_state e) = v" "friendship (rp_state e) \<noteq> None \<longleftrightarrow> pairOf u v \<in> friends (socialOf db)"
      "following (rp_state e) \<noteq> None \<longleftrightarrow> (u, v) \<in> follows (socialOf db)" "followedBy (rp_state e) \<noteq> None \<longleftrightarrow> (v, u) \<in> follows (socialOf db)"
    and e: "counted e w = addDelta (if w = u then noDelta\<lparr>BlockedCount := 1\<rparr> else noDelta) (pendingDelta (socialOf db) u v w)"
  shows "countersAdd (tally (socialOf db) w) (counted (removed e) w) = tally (relEffect (BlockTo k) u v (socialOf db)) w"
proof -
  note fin = rel_ok_finite [OF ok]
  have "\<not> ((u, v) \<in> pending (socialOf db) \<and> (v, u) \<in> pending (socialOf db))" using ok by (auto simp: rel_ok_def social_ok_def)
  then show ?thesis
    using uv by (auto simp: countersAdd_def tally_def relEffect_def removed_counted [OF w se(1,2) uv(1)] se(3-5) e pendingDelta_def
        numberOf_remove numberOf_remove2 numberOf_insert pairOf_users fin simp del: not_None_eq)
qed

lemma Block_step:
  assumes ok: "rel_ok db" and allowed: "relAllowed (BlockTo k) u v (socialOf db)" and k: "freshID (BlockTo k) db" and a: "loaded db u v a"
    and r: "r = \<lparr>br_ID = k, br_BlockerID = u, br_BlockedID = v, br_Reason = reason, br_CreatedAt = now\<rparr>"
  shows "\<exists>b rows. Block k reason now a = (Inr (), b) \<and> BlockCreated b = Some r \<and> requests_ok rows \<and>
    (\<lambda>q. (fr_RequesterID q, fr_AddresseeID q)) ` {q \<in> set rows. IsPending q} = pending (socialOf db) - {(u, v), (v, u)} \<and>
    saves db b rows (filter (\<lambda>f. \<not> isFriendshipOf u v f) (friendshipsT db))
      (filter (\<lambda>r. \<not> isFollowOf v u r) (filter (\<lambda>r. \<not> isFollowOf u v r) (followsT db))) (blocksT db @ [r]) \<and>
    (\<forall>w. TrimSpace w \<noteq> [] \<longrightarrow> countersAdd (tally (socialOf db) w) (counted b w) = tally (relEffect (BlockTo k) u v (socialOf db)) w)"
proof -
  from allowed have uv: "u \<noteq> []" "v \<noteq> []" "u \<noteq> v" "(u, v) \<notin> blocks (socialOf db)" by (simp_all add: relAllowed_def)
  from k have k': "k \<noteq> []" "k \<notin> br_ID ` set (blocksT db)" by (simp_all add: freshID_def)
  have sa: "actorID (rp_state a) = u" "targetID (rp_state a) = v" "aggregateID a \<noteq> []"
    "friendship (rp_state a) = List.find (isFriendshipOf u v) (friendshipsT db)" "following (rp_state a) = List.find (isFollowOf u v) (followsT db)"
    "followedBy (rp_state a) = List.find (isFollowOf v u) (followsT db)" using a by (simp_all add: loaded_def)
  define d where "d = EventRelationshipPairBlocked
    \<lparr>pbd_BlockID = k, pbd_BlockerID = u, pbd_BlockedID = v, pbd_Reason = reason, pbd_CreatedAt = now\<rparr>"
  define c where "c = countActor (noDelta\<lparr>BlockedCount := 1\<rparr>) (inChanges (createBlock (Some r)) (inState (\<lambda>s. s\<lparr>blocking := Some r\<rparr>) (pushed a d)))"
  have c: "friendRequest (rp_state c) = friendRequest (rp_state a)" "actorID (rp_state c) = u" "targetID (rp_state c) = v"
    "ch_FriendRequest (intents c) = RelationshipChangeNone"
    by (simp_all add: c_def sa loaded_fresh(1) [OF a] createBlock_def)
  from resolve_for_block [OF ok a uv(3) c, of now] obtain e fr kd rows where e: "resolvePendingRequestForBlock now c = e"
    "rp_state e = (rp_state c)\<lparr>friendRequest := fr\<rparr>" "intents e = (intents c)\<lparr>ch_FriendRequest := kd\<rparr>"
    and deltas: "\<And>w. TrimSpace w \<noteq> [] \<Longrightarrow> counted e w = addDelta (counted c w) (pendingDelta (socialOf db) u v w)"
    and saved: "\<And>b. friendRequest (rp_state b) = fr \<Longrightarrow> ch_FriendRequest (intents b) = kd \<Longrightarrow> requestSaved db b rows"
    and rows: "requests_ok rows"
      "(\<lambda>q. (fr_RequesterID q, fr_AddresseeID q)) ` {q \<in> set rows. IsPending q} = pending (socialOf db) - {(u, v), (v, u)}"
    by blast
  have "pairTransition (pushed a d) ev = Inr (removed e)" if "ev_EventData ev = d" for ev
    unfolding pairTransition_def that using uv k'
    by (simp add: d_def applyBlocked_def applyBlockRelation_def NewBlockRelation_def removed_def flip: e(1)) (simp add: c_def r d_def)
  from pairChange_step [OF sa(3) loaded_fresh(3) [OF a] this] have ch: "pairChange a d = (Inr (), removed e)" "pair_ok (removed e)" by blast+
  have se: "rp_state e = (rp_state a)\<lparr>blocking := Some r, friendRequest := fr\<rparr>" by (simp add: e(2) c_def)
  have int: "intents (removed e) = deleteFollowedBy (List.find (isFollowOf v u) (followsT db))
      (deleteFollowing (List.find (isFollowOf u v) (followsT db)) (deleteFriendship (List.find (isFriendshipOf u v) (friendshipsT db))
      (newRelationshipPairChanges\<lparr>ch_Block := \<lparr>bri_Kind = RelationshipChangeUpsert, bri_Value = Some r, bri_BlockerID = u, bri_BlockedID = v\<rparr>,
        ch_FriendRequest := kd\<rparr>)))"
    by (simp add: removed_intents se sa e(3) c_def loaded_fresh(1) [OF a] createBlock_def r)
  have "Block k reason now a = (Inr (), removed e)"
    using guarded_ok [of EnsureCanBlock a] policy_allows(8) [OF ok a uv(1,2), of k] allowed ch(1) sa
    by (simp add: Block_def d_def)
  moreover have "BlockCreated (removed e) = Some r" unfolding created_intents int by simp
  moreover have "requestSaved db (removed e) rows" by (rule saved) (simp_all add: removed_state se int)
  then have "saves db (removed e) rows (filter (\<lambda>f. \<not> isFriendshipOf u v f) (friendshipsT db))
      (filter (\<lambda>r. \<not> isFollowOf v u r) (filter (\<lambda>r. \<not> isFollowOf u v r) (followsT db))) (blocksT db @ [r])"
  proof (rule savesI [where ?f1.0 = "filter (\<lambda>r. \<not> isFollowOf u v r) (followsT db)", OF ch(2)])
    fix x :: RelationDB
    assume "friendshipsT x = friendshipsT db"
    then show "persistFriendship x (removed e) (ch_Friendship (intents (removed e))) =
      Inr (x\<lparr>friendshipsT := filter (\<lambda>f. \<not> isFriendshipOf u v f) (friendshipsT db)\<rparr>)"
      unfolding int change_fields
      by (rule persist_deleteFriendship) (simp_all add: removed_state se sa newRelationshipPairChanges_def)
  next
    fix x :: RelationDB
    assume "followsT x = followsT db"
    then show "persistFollow x (ch_Following (intents (removed e))) = Inr (x\<lparr>followsT := filter (\<lambda>r. \<not> isFollowOf u v r) (followsT db)\<rparr>)"
      unfolding int change_fields
      by (rule persist_deleteFollowing) (simp add: newRelationshipPairChanges_def)
  next
    fix x :: RelationDB
    assume "followsT x = filter (\<lambda>r. \<not> isFollowOf u v r) (followsT db)"
    then show "persistFollow x (ch_FollowedBy (intents (removed e))) =
      Inr (x\<lparr>followsT := filter (\<lambda>r. \<not> isFollowOf v u r) (filter (\<lambda>r. \<not> isFollowOf u v r) (followsT db))\<rparr>)"
      unfolding int
      by (rule persist_deleteFollowedBy) (simp_all add: newRelationshipPairChanges_def uv)
  next
    fix x :: RelationDB
    assume "blocksT x = blocksT db"
    with uv k' show "persistBlock x (ch_Block (intents (removed e))) = Inr (x\<lparr>blocksT := blocksT db @ [r]\<rparr>)"
      unfolding int by (simp add: persistBlock_def mapUnique_def blockCreate_ok [where u = u and v = v and db = db] r)
  qed
  moreover have "countersAdd (tally (socialOf db) w) (counted (removed e) w) = tally (relEffect (BlockTo k) u v (socialOf db)) w"
    if w: "TrimSpace w \<noteq> []" for w
    using deltas [OF w] w
    by (intro block_counters [OF ok uv(3,4)])
      (simp_all add: se sa find_iff table_iff c_def loaded_fresh(2) [OF a] addDelta_def noDelta_def del: not_None_eq)
  ultimately show ?thesis using rows by blast
qed

end
