(* ===== verification/RelationshipService.thy ===== *)
theory RelationshipService
  imports RelationshipSteps
begin

text \<open>
  The relationship commands implement their specification, and what holds of the tables after any sequence of them.
\<close>

section \<open>Every allowed command succeeds with its effect\<close>

definition done_with :: "(error + unit) \<times> RelationDB \<Rightarrow> Social \<Rightarrow> bool" where
  "done_with p s \<longleftrightarrow> fst p = Inr () \<and> socialOf (snd p) = s \<and> rel_ok (snd p)"

lemma command_done:
  assumes ok: "rel_ok db" "u \<noteq> []" "v \<noteq> []" "u \<noteq> v"
    and op: "\<And>a. loaded db u v a \<Longrightarrow> \<exists>b. op a = (Inr (), b) \<and> \<not> isl (response b) \<and> saves db b rows fs fl bs \<and>
      (\<forall>w. TrimSpace w \<noteq> [] \<longrightarrow> countersAdd (tally (socialOf db) w) (counted b w) = tally s' w)"
    and s': "socialOf (withTables db rows fs fl bs) = s'" "social_ok s'" "requests_ok rows"
  shows "done_with (ack (pairCommand clock op response u v db)) s'"
proof -
  have "\<exists>b resp rows fs fl bs. op a = (Inr (), b) \<and> response b = Inr resp \<and> saves db b rows fs fl bs \<and>
      socialOf (withTables db rows fs fl bs) = s' \<and> requests_ok rows \<and>
      (\<forall>w. TrimSpace w \<noteq> [] \<longrightarrow> countersAdd (tally (socialOf db) w) (counted b w) = tally s' w)" if "loaded db u v a" for a
    using op [OF that] s'(1,3) by (metis sum.collapse(2))
  from command_ok [where op = op and response = response and clock = clock, OF ok this s'(2)] show ?thesis
    by (auto simp: done_with_def)
qed

lemma allowed_ids: "relAllowed c u v s \<Longrightarrow> u \<noteq> [] \<and> v \<noteq> [] \<and> u \<noteq> v"
  by (simp add: relAllowed_def)

lemma pending_row:
  assumes "(u, v) \<in> pending (socialOf db)"
  obtains r where "r \<in> set (friendRequestsT db)" "IsPending r" "fr_RequesterID r = u" "fr_AddresseeID r = v"
  using assms by (auto simp: socialOf_def)

lemma filter_friends: "(\<lambda>f. (fs_UserLowID f, fs_UserHighID f)) ` {f \<in> set rows. \<not> isFriendshipOf u v f} =
    (\<lambda>f. (fs_UserLowID f, fs_UserHighID f)) ` set rows - {pairOf u v}"
  by (auto simp: isFriendshipOf_def)

lemma filter_follows: "(\<lambda>r. (fl_FollowerID r, fl_FolloweeID r)) ` {r \<in> set rows. \<not> isFollowOf u v r} =
    (\<lambda>r. (fl_FollowerID r, fl_FolloweeID r)) ` set rows - {(u, v)}"
  by (auto simp: isFollowOf_def)

lemma filter_blocks: "(\<lambda>r. (br_BlockerID r, br_BlockedID r)) ` {r \<in> set rows. \<not> isBlockOf u v r} =
    (\<lambda>r. (br_BlockerID r, br_BlockedID r)) ` set rows - {(u, v)}"
  by (auto simp: isBlockOf_def)

lemma settled_social:
  assumes "requests_ok (friendRequestsT db)" "r \<in> set (friendRequestsT db)" "IsPending r" "fr_ID r' = fr_ID r" "\<not> IsPending r'"
  shows "socialOf (withTables db (upsertRequest r' (friendRequestsT db)) fs fl bs) =
    (socialOf (withTables db (friendRequestsT db) fs fl bs))\<lparr>pending := pending (socialOf db) - {(fr_RequesterID r, fr_AddresseeID r)}\<rparr>"
  using settled_rows(2) [OF assms] by (simp add: socialOf_def withTables_def)

lemma withTables_same [simp]: "withTables db (friendRequestsT db) (friendshipsT db) (followsT db) (blocksT db) = db"
  by (simp add: withTables_def)

lemma rel_ok_parts: "rel_ok db \<Longrightarrow> requests_ok (friendRequestsT db)" "rel_ok db \<Longrightarrow> social_ok (socialOf db)"
  by (simp_all add: rel_ok_def)

lemma settled_done:
  assumes ok: "rel_ok db" and allowed: "relAllowed c u v (socialOf db)"
    and op: "\<And>a. loaded db u v a \<Longrightarrow> \<exists>b. op a = (Inr (), b) \<and> \<not> isl (response b) \<and>
      saves db b (upsertRequest r' (friendRequestsT db)) fs (followsT db) (blocksT db) \<and>
      (\<forall>w. TrimSpace w \<noteq> [] \<longrightarrow> countersAdd (tally (socialOf db) w) (counted b w) = tally (relEffect c u v (socialOf db)) w)"
    and r: "r \<in> set (friendRequestsT db)" "IsPending r" "fr_ID r' = fr_ID r" "\<not> IsPending r'"
    and eff: "relEffect c u v (socialOf db) = (socialOf (withTables db (friendRequestsT db) fs (followsT db) (blocksT db)))
      \<lparr>pending := pending (socialOf db) - {(fr_RequesterID r, fr_AddresseeID r)}\<rparr>"
  shows "done_with (ack (pairCommand clock op response u v db)) (relEffect c u v (socialOf db))"
proof (rule command_done [OF ok _ _ _ op])
  show "u \<noteq> []" "v \<noteq> []" "u \<noteq> v" using allowed_ids [OF allowed] by simp_all
  note rows = rel_ok_parts(1) [OF ok]
  show "socialOf (withTables db (upsertRequest r' (friendRequestsT db)) fs (followsT db) (blocksT db)) = relEffect c u v (socialOf db)"
    unfolding eff by (rule settled_social [OF rows r])
  show "social_ok (relEffect c u v (socialOf db))" by (rule relEffect_ok [OF rel_ok_parts(2) [OF ok] allowed])
  show "requests_ok (upsertRequest r' (friendRequestsT db))" by (rule settled_rows(1) [OF rows r])
qed

lemma runRel_cancel:
  assumes ok: "rel_ok db" and allowed: "relAllowed CancelSent u v (socialOf db)"
  shows "done_with (runRel clock now CancelSent u v db) (relEffect CancelSent u v (socialOf db))"
proof -
  from allowed have "(u, v) \<in> pending (socialOf db)" by (simp add: relAllowed_def)
  then obtain r where r: "r \<in> set (friendRequestsT db)" "IsPending r" "fr_RequesterID r = u" "fr_AddresseeID r = v" by (rule pending_row)
  show ?thesis
    unfolding runRel_def relCommand.case handleCancelFriendRequest_def
    using Cancel_step [OF ok allowed _ r, of _ now]
    by (intro settled_done [OF ok allowed _ r(1,2), where r' = "r\<lparr>fr_Status := FriendRequestStatusCancelled, fr_CancelledAt := Some now\<rparr>"
          and fs = "friendshipsT db"])
      (auto simp: relEffect_def r IsPending_def)
qed

lemma runRel_reject:
  assumes ok: "rel_ok db" and allowed: "relAllowed RejectFrom u v (socialOf db)"
  shows "done_with (runRel clock now RejectFrom u v db) (relEffect RejectFrom u v (socialOf db))"
proof -
  from allowed have "(v, u) \<in> pending (socialOf db)" by (simp add: relAllowed_def)
  then obtain r where r: "r \<in> set (friendRequestsT db)" "IsPending r" "fr_RequesterID r = v" "fr_AddresseeID r = u" by (rule pending_row)
  show ?thesis
    unfolding runRel_def relCommand.case handleRejectFriendRequest_def
    using Reject_step [OF ok allowed _ r, of _ None now]
    by (intro settled_done [OF ok allowed _ r(1,2), where fs = "friendshipsT db"
          and r' = "r\<lparr>fr_Status := FriendRequestStatusRejected, fr_RespondedAt := Some now, fr_RejectedReason := None\<rparr>"])
      (auto simp: relEffect_def r IsPending_def)
qed

lemma runRel_accept:
  assumes ok: "rel_ok db" and allowed: "relAllowed (AcceptFrom k) u v (socialOf db)" and k: "freshID (AcceptFrom k) db"
  shows "done_with (runRel clock now (AcceptFrom k) u v db) (relEffect (AcceptFrom k) u v (socialOf db))"
proof -
  from allowed have p: "(v, u) \<in> pending (socialOf db)" and uv: "u \<noteq> []" "v \<noteq> []" "u \<noteq> v" by (simp_all add: relAllowed_def)
  from p obtain r where r: "r \<in> set (friendRequestsT db)" "IsPending r" "fr_RequesterID r = v" "fr_AddresseeID r = u" by (rule pending_row)
  from k have "k \<noteq> []" by (simp add: freshID_def)
  with uv obtain f where f: "NewFriendship k u v (Some (fr_ID r)) now = Inr f" "fs_ID f = k" "(fs_UserLowID f, fs_UserHighID f) = pairOf u v"
    and other: "\<exists>w. OtherUserID f u = Inr w" by (rule friendship_created)
  show ?thesis
    unfolding runRel_def relCommand.case handleAcceptFriendRequest_def
    using Accept_step [OF ok allowed k _ r f] other
    by (intro settled_done [OF ok allowed _ r(1,2), where fs = "friendshipsT db @ [f]"
          and r' = "r\<lparr>fr_Status := FriendRequestStatusAccepted, fr_RespondedAt := Some now\<rparr>"])
      (fastforce simp: relEffect_def r IsPending_def withTables_def socialOf_def f(3))+
qed

lemma pending_append: "IsPending r \<Longrightarrow> (\<lambda>q. (fr_RequesterID q, fr_AddresseeID q)) ` {q \<in> set (rows @ [r]). IsPending q} =
    insert (fr_RequesterID r, fr_AddresseeID r) ((\<lambda>q. (fr_RequesterID q, fr_AddresseeID q)) ` {q \<in> set rows. IsPending q})"
  by auto

lemma runRel_send:
  assumes ok: "rel_ok db" and allowed: "relAllowed (Send k) u v (socialOf db)" and k: "freshID (Send k) db"
  shows "done_with (runRel clock now (Send k) u v db) (relEffect (Send k) u v (socialOf db))"
proof -
  let ?r = "\<lparr>fr_ID = k, fr_RequesterID = u, fr_AddresseeID = v, fr_Status = FriendRequestStatusPending,
        fr_Message = None, fr_CreatedAt = now, fr_RespondedAt = None, fr_ExpiredAt = None, fr_CancelledAt = None, fr_RejectedReason = None\<rparr>"
  have "requests_ok (friendRequestsT db @ [?r])"
    using rel_ok_parts(1) [OF ok] k allowed pending_iff [of u v db] by (auto simp: requests_ok_def freshID_def relAllowed_def)
  moreover have "socialOf (withTables db (friendRequestsT db @ [?r]) (friendshipsT db) (followsT db) (blocksT db)) = relEffect (Send k) u v (socialOf db)"
    using pending_append [of ?r "friendRequestsT db"] by (simp add: withTables_def socialOf_def relEffect_def IsPending_def)
  ultimately show ?thesis
    unfolding runRel_def relCommand.case handleSendFriendRequest_def
    using Send_step [OF ok allowed k, of _ now] allowed_ids [OF allowed] relEffect_ok [OF rel_ok_parts(2) [OF ok] allowed]
    by (intro command_done [OF ok, where rows = "friendRequestsT db @ [?r]" and fs = "friendshipsT db" and fl = "followsT db"
          and bs = "blocksT db"]) fastforce+
qed

text \<open>The commands that leave the requests alone.\<close>

lemma other_done:
  assumes ok: "rel_ok db" and allowed: "relAllowed c u v (socialOf db)"
    and op: "\<And>a. loaded db u v a \<Longrightarrow> \<exists>b. op a = (Inr (), b) \<and> \<not> isl (response b) \<and> saves db b (friendRequestsT db) fs fl bs \<and>
      (\<forall>w. TrimSpace w \<noteq> [] \<longrightarrow> countersAdd (tally (socialOf db) w) (counted b w) = tally (relEffect c u v (socialOf db)) w)"
    and eff: "socialOf (withTables db (friendRequestsT db) fs fl bs) = relEffect c u v (socialOf db)"
  shows "done_with (ack (pairCommand clock op response u v db)) (relEffect c u v (socialOf db))"
proof (rule command_done [OF ok _ _ _ op eff])
  show "u \<noteq> []" "v \<noteq> []" "u \<noteq> v" using allowed_ids [OF allowed] by simp_all
  show "social_ok (relEffect c u v (socialOf db))" by (rule relEffect_ok [OF rel_ok_parts(2) [OF ok] allowed])
  show "requests_ok (friendRequestsT db)" by (rule rel_ok_parts(1) [OF ok])
qed

lemma runRel_follow:
  assumes ok: "rel_ok db" and allowed: "relAllowed (FollowTo k) u v (socialOf db)" and k: "freshID (FollowTo k) db"
  shows "done_with (runRel clock now (FollowTo k) u v db) (relEffect (FollowTo k) u v (socialOf db))"
proof -
  let ?r = "\<lparr>fl_ID = k, fl_FollowerID = u, fl_FolloweeID = v, fl_CreatedAt = now\<rparr>"
  have "socialOf (withTables db (friendRequestsT db) (friendshipsT db) (followsT db @ [?r]) (blocksT db)) = relEffect (FollowTo k) u v (socialOf db)"
    by (simp add: withTables_def socialOf_def relEffect_def)
  then show ?thesis
    unfolding runRel_def relCommand.case handleFollowUser_def
    using Follow_step [OF ok allowed k, of _ now]
    by (intro other_done [OF ok allowed, where fs = "friendshipsT db" and fl = "followsT db @ [?r]" and bs = "blocksT db"]) fastforce+
qed

lemma runRel_unfollow:
  assumes ok: "rel_ok db" and allowed: "relAllowed UnfollowTo u v (socialOf db)"
  shows "done_with (runRel clock now UnfollowTo u v db) (relEffect UnfollowTo u v (socialOf db))"
proof -
  let ?fl = "filter (\<lambda>r. \<not> isFollowOf u v r) (followsT db)"
  have "socialOf (withTables db (friendRequestsT db) (friendshipsT db) ?fl (blocksT db)) = relEffect UnfollowTo u v (socialOf db)"
    by (simp add: withTables_def socialOf_def relEffect_def filter_follows)
  then show ?thesis
    unfolding runRel_def relCommand.case handleUnfollowUser_def
    using Unfollow_step [OF ok allowed]
    by (intro other_done [OF ok allowed, where fs = "friendshipsT db" and fl = ?fl and bs = "blocksT db"]) fastforce+
qed

lemma runRel_unfriend:
  assumes ok: "rel_ok db" and allowed: "relAllowed UnfriendWith u v (socialOf db)"
  shows "done_with (runRel clock now UnfriendWith u v db) (relEffect UnfriendWith u v (socialOf db))"
proof -
  let ?fs = "filter (\<lambda>f. \<not> isFriendshipOf u v f) (friendshipsT db)"
  have "socialOf (withTables db (friendRequestsT db) ?fs (followsT db) (blocksT db)) = relEffect UnfriendWith u v (socialOf db)"
    by (simp add: withTables_def socialOf_def relEffect_def filter_friends)
  then show ?thesis
    unfolding runRel_def relCommand.case handleUnfriendUser_def
    using Unfriend_step [OF ok allowed]
    by (intro other_done [OF ok allowed, where fs = ?fs and fl = "followsT db" and bs = "blocksT db"]) fastforce+
qed

lemma runRel_unblock:
  assumes ok: "rel_ok db" and allowed: "relAllowed UnblockTo u v (socialOf db)"
  shows "done_with (runRel clock now UnblockTo u v db) (relEffect UnblockTo u v (socialOf db))"
proof -
  let ?bs = "filter (\<lambda>r. \<not> isBlockOf u v r) (blocksT db)"
  have "socialOf (withTables db (friendRequestsT db) (friendshipsT db) (followsT db) ?bs) = relEffect UnblockTo u v (socialOf db)"
    by (simp add: withTables_def socialOf_def relEffect_def filter_blocks)
  then show ?thesis
    unfolding runRel_def relCommand.case handleUnblockUser_def
    using Unblock_step [OF ok allowed]
    by (intro other_done [OF ok allowed, where fs = "friendshipsT db" and fl = "followsT db" and bs = ?bs]) fastforce+
qed

lemma runRel_block:
  assumes ok: "rel_ok db" and allowed: "relAllowed (BlockTo k) u v (socialOf db)" and k: "freshID (BlockTo k) db"
  shows "done_with (runRel clock now (BlockTo k) u v db) (relEffect (BlockTo k) u v (socialOf db))"
proof -
  let ?r = "\<lparr>br_ID = k, br_BlockerID = u, br_BlockedID = v, br_Reason = None, br_CreatedAt = now\<rparr>"
  let ?fs = "filter (\<lambda>f. \<not> isFriendshipOf u v f) (friendshipsT db)"
    and ?fl = "filter (\<lambda>r. \<not> isFollowOf v u r) (filter (\<lambda>r. \<not> isFollowOf u v r) (followsT db))"
  have "\<exists>b resp rows fs fl bs. Block k None now a = (Inr (), b) \<and>
      (case BlockCreated b of None \<Rightarrow> Inl nilResult | Some r \<Rightarrow> Inr (br_BlockerID r, br_BlockedID r, Unix (br_CreatedAt r))) = Inr resp \<and>
      saves db b rows fs fl bs \<and> socialOf (withTables db rows fs fl bs) = relEffect (BlockTo k) u v (socialOf db) \<and> requests_ok rows \<and>
      (\<forall>w. TrimSpace w \<noteq> [] \<longrightarrow> countersAdd (tally (socialOf db) w) (counted b w) = tally (relEffect (BlockTo k) u v (socialOf db)) w)"
    if a: "loaded db u v a" for a
  proof -
    from Block_step [OF ok allowed k a refl, of None now] obtain b rows where b: "Block k None now a = (Inr (), b)"
      "BlockCreated b = Some ?r" "requests_ok rows"
      "(\<lambda>q. (fr_RequesterID q, fr_AddresseeID q)) ` {q \<in> set rows. IsPending q} = pending (socialOf db) - {(u, v), (v, u)}"
      "saves db b rows ?fs ?fl (blocksT db @ [?r])"
      "\<forall>w. TrimSpace w \<noteq> [] \<longrightarrow> countersAdd (tally (socialOf db) w) (counted b w) = tally (relEffect (BlockTo k) u v (socialOf db)) w"
      by blast
    have "socialOf (withTables db rows ?fs ?fl (blocksT db @ [?r])) = relEffect (BlockTo k) u v (socialOf db)"
      unfolding withTables_def socialOf_def relEffect_def using b(4)
      by (simp add: socialOf_def filter_friends) (auto simp: isFollowOf_def)
    with b show ?thesis
      by (intro exI [of _ b] exI [of _ "(u, v, Unix now)"] exI [of _ rows] exI [of _ ?fs] exI [of _ ?fl] exI [of _ "blocksT db @ [?r]"]) simp
  qed
  from command_ok [where op = "Block k None now" and u = u and v = v and clock = clock and response = "\<lambda>b. case BlockCreated b of
        None \<Rightarrow> Inl nilResult | Some r \<Rightarrow> Inr (br_BlockerID r, br_BlockedID r, Unix (br_CreatedAt r))", OF ok _ _ _ this] allowed_ids [OF allowed] relEffect_ok [OF rel_ok_parts(2) [OF ok] allowed]
  show ?thesis by (auto simp: done_with_def runRel_def handleBlockUser_def)
qed

lemma runRel_allowed:
  assumes "rel_ok db" "relAllowed c u v (socialOf db)" "freshID c db"
  shows "done_with (runRel clock now c u v db) (relEffect c u v (socialOf db))"
  using assms
  by (cases c) (simp_all add: runRel_send runRel_cancel runRel_accept runRel_reject runRel_follow runRel_unfollow runRel_unfriend
      runRel_block runRel_unblock)

section \<open>Any sequence of commands\<close>

inductive rel_reachable :: "RelationDB \<Rightarrow> bool" where
  rel_start: "rel_reachable emptyRelationDB"
| rel_account: "rel_reachable db \<Longrightarrow> rel_reachable (ProjectAccount db accountID)"
| rel_command: "rel_reachable db \<Longrightarrow> freshID c db \<Longrightarrow> rel_reachable (snd (runRel clock now c u v db))"

lemma rel_ok_empty: "rel_ok emptyRelationDB"
  by (simp add: rel_ok_def emptyRelationDB_def socialOf_def social_ok_def requests_ok_def countersOf_def noCounters_def tally_def numberOf_def)

lemma rel_ok_account: "rel_ok db \<Longrightarrow> rel_ok (ProjectAccount db k)"
  by (simp add: rel_ok_def ProjectAccount_def socialOf_def social_ok_def countersOf_def tally_def)

lemma runRel_ok:
  assumes "rel_ok db" "freshID c db"
  shows "rel_ok (snd (runRel clock now c u v db))"
proof (cases "relAllowed c u v (socialOf db)")
  case True
  with runRel_allowed [OF assms(1) True assms(2)] show ?thesis by (simp add: done_with_def)
next
  case False
  with runRel_refused [OF assms(1) False, of clock now] assms(1) show ?thesis by auto
qed

lemma rel_reachable_ok: "rel_reachable db \<Longrightarrow> rel_ok db"
  by (induction rule: rel_reachable.induct) (auto simp: rel_ok_empty rel_ok_account runRel_ok)

section \<open>Properties\<close>

text \<open>
  C10 (refinement). With ids that are not in use, every relationship command does exactly what its specification says: when it is
  allowed between the two users it succeeds, changes the sets of friends, follows, blocks and pending requests by its effect and
  keeps the invariant of the tables; when it is not, it returns an error and the tables are unchanged.
\<close>

theorem relationship_commands_refine_spec:
  assumes "rel_ok db" "freshID c db"
  shows "(relAllowed c u v (socialOf db) \<longrightarrow>
      (\<exists>db'. runRel clock now c u v db = (Inr (), db') \<and> socialOf db' = relEffect c u v (socialOf db) \<and> rel_ok db')) \<and>
    (\<not> relAllowed c u v (socialOf db) \<longrightarrow> (\<exists>e. runRel clock now c u v db = (Inl e, db)))"
proof (intro conjI impI)
  assume "relAllowed c u v (socialOf db)"
  from runRel_allowed [OF assms(1) this assms(2), of clock now]
  show "\<exists>db'. runRel clock now c u v db = (Inr (), db') \<and> socialOf db' = relEffect c u v (socialOf db) \<and> rel_ok db'"
    by (cases "runRel clock now c u v db") (auto simp: done_with_def)
next
  assume "\<not> relAllowed c u v (socialOf db)"
  then show "\<exists>e. runRel clock now c u v db = (Inl e, db)" by (rule runRel_refused [OF assms(1)])
qed

definition twoUsers :: RelationDB where
  "twoUsers = ProjectAccount (ProjectAccount emptyRelationDB ''a'') ''b''"

lemma twoUsers_ok: "rel_ok twoUsers"
  by (simp add: twoUsers_def rel_ok_account rel_ok_empty)

lemma socialOf_twoUsers: "socialOf twoUsers = \<lparr>accounts = {''a'', ''b''}, friends = {}, follows = {}, blocks = {}, pending = {}\<rparr>"
  by (auto simp: twoUsers_def socialOf_def ProjectAccount_def emptyRelationDB_def)

lemma trim_samples [simp]: "TrimSpace ''r1'' = ''r1''" "TrimSpace ''a'' = ''a''"
  by code_simp+

lemma fresh_samples: "freshID (Send ''r1'') twoUsers" "freshID (BlockTo ''k'') twoUsers"
  by (simp_all add: freshID_def twoUsers_def ProjectAccount_def emptyRelationDB_def)

lemma allowed_samples: "relAllowed (Send ''r1'') ''a'' ''b'' (socialOf twoUsers)" "relAllowed (BlockTo ''k'') ''a'' ''b'' (socialOf twoUsers)"
  by (simp_all add: relAllowed_def socialOf_twoUsers blockedPair_def)

theorem relationship_commands_refine_spec_witness:
  "\<exists>db'. runRel 0 zeroTime (Send ''r1'') ''a'' ''b'' twoUsers = (Inr (), db') \<and> pending (socialOf db') = {(''a'', ''b'')}"
  using relationship_commands_refine_spec [OF twoUsers_ok fresh_samples(1), of "''a''" "''b''" 0 zeroTime] allowed_samples(1)
  by (auto simp: relEffect_def socialOf_twoUsers)

text \<open>
  C11 (invariant). After any sequence of commands, successful or not, the stored counters of every user with a non-blank id
  are the numbers of the user's friends, followers, followed users, blocked users and pending requests in both directions.
\<close>

theorem relationship_counters_exact:
  assumes "rel_reachable db" "TrimSpace w \<noteq> []"
  shows "countersOf db w = \<lparr>uc_Friends = int (card {p \<in> friends (socialOf db). fst p = w \<or> snd p = w}),
    uc_Followers = int (card {p \<in> follows (socialOf db). snd p = w}), uc_Following = int (card {p \<in> follows (socialOf db). fst p = w}),
    uc_Blocked = int (card {p \<in> blocks (socialOf db). fst p = w}),
    uc_PendingIn = int (card {p \<in> pending (socialOf db). snd p = w}), uc_PendingOut = int (card {p \<in> pending (socialOf db). fst p = w})\<rparr>"
  using rel_reachable_ok [OF assms(1)] assms(2) by (simp add: rel_ok_def tally_def numberOf_def)

lemma reachable_sent: "rel_reachable (snd (runRel 0 zeroTime (Send ''r1'') ''a'' ''b'' twoUsers))"
  using fresh_samples(1) unfolding twoUsers_def by (intro rel_command rel_account rel_start)

theorem relationship_counters_exact_witness:
  "uc_PendingOut (countersOf (snd (runRel 0 zeroTime (Send ''r1'') ''a'' ''b'' twoUsers)) ''a'') = 1"
proof -
  have "done_with (runRel 0 zeroTime (Send ''r1'') ''a'' ''b'' twoUsers) (relEffect (Send ''r1'') ''a'' ''b'' (socialOf twoUsers))"
    by (intro runRel_allowed twoUsers_ok fresh_samples allowed_samples)
  then have "pending (socialOf (snd (runRel 0 zeroTime (Send ''r1'') ''a'' ''b'' twoUsers))) = {(''a'', ''b'')}"
    by (simp add: done_with_def relEffect_def socialOf_twoUsers)
  moreover have "{p. p = (''a'', ''b'') \<and> fst p = ''a''} = {(''a'', ''b'')}" by auto
  ultimately show ?thesis
    using relationship_counters_exact [OF reachable_sent, of "''a''"] by simp
qed

text \<open>
  C12 (safety). After any sequence of commands, two users of whom one blocks the other have no friendship, no follow and no
  pending request in either direction, and no user has any relation to himself.
\<close>

theorem blocked_users_isolated:
  assumes "rel_reachable db" "r \<in> set (blocksT db)"
  shows "br_BlockerID r \<noteq> br_BlockedID r \<and>
    \<not> list_ex (isFriendshipOf (br_BlockerID r) (br_BlockedID r)) (friendshipsT db) \<and>
    \<not> list_ex (\<lambda>f. isFollowOf (br_BlockerID r) (br_BlockedID r) f \<or> isFollowOf (br_BlockedID r) (br_BlockerID r) f) (followsT db) \<and>
    \<not> list_ex (\<lambda>q. IsPending q \<and> requestBetween (br_BlockerID r) (br_BlockedID r) q) (friendRequestsT db)"
proof -
  let ?s = "socialOf db" and ?u = "br_BlockerID r" and ?v = "br_BlockedID r"
  have ok: "social_ok ?s" using rel_reachable_ok [OF assms(1)] by (simp add: rel_ok_def)
  have "(?u, ?v) \<in> blocks ?s" using assms(2) by (auto simp: socialOf_def)
  with ok have "?u \<noteq> ?v" "(?u, ?v) \<notin> follows ?s" "(?v, ?u) \<notin> follows ?s" "pairOf ?u ?v \<notin> friends ?s"
    "(?u, ?v) \<notin> pending ?s" "(?v, ?u) \<notin> pending ?s"
    unfolding social_ok_def by metis+
  then show ?thesis
    using table_iff(1) [of db ?u ?v] table_iff(2) [of db ?u ?v] table_iff(2) [of db ?v ?u] pending_iff [of ?u ?v db] pending_iff [of ?v ?u db]
    by (auto simp: list_ex_iff requestBetween_def)
qed

definition blockedDB :: RelationDB where
  "blockedDB = snd (runRel 0 zeroTime (BlockTo ''k'') ''a'' ''b'' twoUsers)"

lemma reachable_blocked: "rel_reachable blockedDB"
  using fresh_samples(2) unfolding blockedDB_def twoUsers_def by (intro rel_command rel_account rel_start)

lemma blockedDB_row: "\<exists>r\<in>set (blocksT blockedDB). br_BlockerID r = ''a'' \<and> br_BlockedID r = ''b''"
  using runRel_allowed [OF twoUsers_ok allowed_samples(2) fresh_samples(2), of 0 zeroTime] table_iff(3) [of blockedDB "''a''" "''b''"]
  by (simp add: done_with_def relEffect_def blockedDB_def isBlockOf_def)

theorem blocked_users_isolated_witness:
  "\<not> list_ex (isFollowOf ''b'' ''a'') (followsT blockedDB)"
  using blockedDB_row blocked_users_isolated [OF reachable_blocked] by (fastforce simp: list_ex_iff)

text \<open>
  C22 (liveness). A request that may be sent, is sent and is then accepted by its addressee makes the two users friends: both
  commands succeed, the friendship is the only change of the relations, and the friend counters of both go up by one.
\<close>

theorem friend_request_flow:
  assumes ok: "rel_ok db" and allowed: "relAllowed (Send k) u v (socialOf db)" and k: "freshID (Send k) db"
    and f: "freshID (AcceptFrom f) (snd (runRel clock now (Send k) u v db))" and w: "TrimSpace w \<noteq> []" "w = u \<or> w = v"
  shows "\<exists>db1 db2. runRel clock now (Send k) u v db = (Inr (), db1) \<and> runRel clock' now' (AcceptFrom f) v u db1 = (Inr (), db2) \<and>
    socialOf db2 = (socialOf db)\<lparr>friends := insert (pairOf u v) (friends (socialOf db))\<rparr> \<and>
    uc_Friends (countersOf db2 w) = uc_Friends (countersOf db w) + 1"
proof -
  let ?s = "socialOf db"
  obtain db1 where db1: "runRel clock now (Send k) u v db = (Inr (), db1)" "socialOf db1 = relEffect (Send k) u v ?s" "rel_ok db1"
    using runRel_allowed [OF ok allowed k, of clock now] by (cases "runRel clock now (Send k) u v db") (auto simp: done_with_def)
  have "relAllowed (AcceptFrom f) v u (socialOf db1)"
    using allowed pairOf_sym [of u v] by (auto simp: relAllowed_def db1(2) relEffect_def blockedPair_def)
  from runRel_allowed [OF db1(3) this, of clock' now'] f db1(1) obtain db2 where
    db2: "runRel clock' now' (AcceptFrom f) v u db1 = (Inr (), db2)" "socialOf db2 = relEffect (AcceptFrom f) v u (socialOf db1)" "rel_ok db2"
    by (cases "runRel clock' now' (AcceptFrom f) v u db1") (auto simp: done_with_def)
  have new: "(u, v) \<notin> pending ?s" "pairOf u v \<notin> friends ?s" using allowed by (simp_all add: relAllowed_def)
  have s2: "socialOf db2 = ?s\<lparr>friends := insert (pairOf u v) (friends ?s)\<rparr>"
    using new(1) pairOf_sym [of u v] by (simp add: db2(2) db1(2) relEffect_def)
  have "uc_Friends (countersOf db2 w) = uc_Friends (countersOf db w) + 1"
    using ok db2(3) w new(2) rel_ok_finite(1) [OF ok]
    by (auto simp: rel_ok_def s2 tally_def numberOf_insert pairOf_users)
  with db1(1) db2(1) s2 show ?thesis by blast
qed

theorem friend_request_flow_witness:
  "\<exists>db1 db2. runRel 0 zeroTime (Send ''r1'') ''a'' ''b'' twoUsers = (Inr (), db1) \<and>
    runRel 0 zeroTime (AcceptFrom ''f1'') ''b'' ''a'' db1 = (Inr (), db2) \<and> friends (socialOf db2) = {pairOf ''a'' ''b''}"
proof -
  let ?db = "snd (runRel 0 zeroTime (Send ''r1'') ''a'' ''b'' twoUsers)"
  have "done_with (runRel 0 zeroTime (Send ''r1'') ''a'' ''b'' twoUsers) (relEffect (Send ''r1'') ''a'' ''b'' (socialOf twoUsers))"
    by (intro runRel_allowed twoUsers_ok fresh_samples allowed_samples)
  then have "friends (socialOf ?db) = {}" by (simp add: done_with_def relEffect_def socialOf_twoUsers)
  then have "freshID (AcceptFrom ''f1'') ?db" by (simp add: freshID_def socialOf_def)
  from friend_request_flow [OF twoUsers_ok allowed_samples(1) fresh_samples(1) this, of "''a''" 0 zeroTime]
  show ?thesis by (auto simp: socialOf_twoUsers)
qed

end
