(* ===== verification/RoomEntities.thy ===== *)
theory RoomEntities
  imports EventSourcing "HOL-Library.List_Lexorder" "HOL-Library.Char_ord" "HOL-Library.Product_Lexorder" "HOL-Library.AList"
begin

text \<open>
  The entities of \<^verbatim>\<open>core/modules/room/domain/entity\<close>: rooms, members, messages with their mentions and reactions, and video
  call sessions. Methods that mutate their receiver return the new value; \<open>clock\<close> is the instant that \<^verbatim>\<open>time.Now\<close> reads.
\<close>

section \<open>Room types and roles\<close>

abbreviation RoomRoleOwner :: string where "RoomRoleOwner \<equiv> ''owner''"
abbreviation RoomRoleAdmin :: string where "RoomRoleAdmin \<equiv> ''admin''"
abbreviation RoomRoleMember :: string where "RoomRoleMember \<equiv> ''member''"
abbreviation RoomTypePublic :: string where "RoomTypePublic \<equiv> ''public''"
abbreviation RoomTypePrivate :: string where "RoomTypePrivate \<equiv> ''private''"
abbreviation RoomTypeDirect :: string where "RoomTypeDirect \<equiv> ''direct''"
abbreviation RoomTypeGroup :: string where "RoomTypeGroup \<equiv> ''group''"

text \<open>Roles and types are normalised alike.\<close>

definition Normalize :: "string \<Rightarrow> string" where
  "Normalize r = ToLower (TrimSpace r)"

definition roleIsValid :: "string \<Rightarrow> bool" where
  "roleIsValid r \<longleftrightarrow> Normalize r \<in> {RoomRoleOwner, RoomRoleAdmin, RoomRoleMember}"

definition typeIsValid :: "string \<Rightarrow> bool" where
  "typeIsValid r \<longleftrightarrow> Normalize r \<in> {RoomTypePublic, RoomTypePrivate, RoomTypeDirect, RoomTypeGroup}"

definition normalizeRoomRole :: "string \<Rightarrow> string" where
  "normalizeRoomRole role = (if Normalize role \<noteq> [] then Normalize role else RoomRoleMember)"

definition normalizeRoomTime :: "gotime \<Rightarrow> gotime \<Rightarrow> gotime" where
  "normalizeRoomTime clock value = (if IsZero value then UTC clock else UTC value)"

section \<open>Rooms\<close>

abbreviation ErrRoomIDRequired :: error where "ErrRoomIDRequired \<equiv> Sentinel ''ErrRoomIDRequired''"
abbreviation ErrRoomNameRequired :: error where "ErrRoomNameRequired \<equiv> Sentinel ''ErrRoomNameRequired''"
abbreviation ErrRoomOwnerRequired :: error where "ErrRoomOwnerRequired \<equiv> Sentinel ''ErrRoomOwnerRequired''"
abbreviation ErrRoomTypeInvalid :: error where "ErrRoomTypeInvalid \<equiv> Sentinel ''ErrRoomTypeInvalid''"
abbreviation ErrRoomPeerAccountRequired :: error where "ErrRoomPeerAccountRequired \<equiv> Sentinel ''ErrRoomPeerAccountRequired''"
abbreviation ErrRoomDirectSelfNotAllowed :: error where "ErrRoomDirectSelfNotAllowed \<equiv> Sentinel ''ErrRoomDirectSelfNotAllowed''"
abbreviation ErrRoomNotGroup :: error where "ErrRoomNotGroup \<equiv> Sentinel ''ErrRoomNotGroup''"
abbreviation ErrRoomInsufficientPermission :: error where "ErrRoomInsufficientPermission \<equiv> Sentinel ''ErrRoomInsufficientPermission''"
abbreviation ErrRoomOwnerCannotLeave :: error where "ErrRoomOwnerCannotLeave \<equiv> Sentinel ''ErrRoomOwnerCannotLeave''"
abbreviation ErrRoomMessageIDRequired :: error where "ErrRoomMessageIDRequired \<equiv> Sentinel ''ErrRoomMessageIDRequired''"
abbreviation ErrRoomMemberRequired :: error where "ErrRoomMemberRequired \<equiv> Sentinel ''ErrRoomMemberRequired''"
abbreviation ErrRoomMentionsRequireGroup :: error where "ErrRoomMentionsRequireGroup \<equiv> Sentinel ''ErrRoomMentionsRequireGroup''"
abbreviation ErrRoomMentionTargetNotMember :: error where "ErrRoomMentionTargetNotMember \<equiv> Sentinel ''ErrRoomMentionTargetNotMember''"

record Room =
  rm_ID :: string
  rm_Name :: string
  rm_Description :: string
  rm_OwnerID :: string
  rm_RoomType :: string
  rm_DirectKey :: string
  rm_PinnedMessageID :: string
  rm_CreatedAt :: gotime
  rm_UpdatedAt :: gotime

definition NewRoom :: "gotime \<Rightarrow> string \<Rightarrow> string \<Rightarrow> string \<Rightarrow> string \<Rightarrow> string \<Rightarrow> string \<Rightarrow> gotime \<Rightarrow> error + Room" where
  "NewRoom clock roomID name description ownerID roomType directKey now =
     (if TrimSpace roomID = [] then Inl ErrRoomIDRequired
      else if TrimSpace name = [] then Inl ErrRoomNameRequired
      else if TrimSpace ownerID = [] then Inl ErrRoomOwnerRequired
      else if \<not> typeIsValid (Normalize roomType) then Inl ErrRoomTypeInvalid
      else Inr \<lparr>rm_ID = TrimSpace roomID, rm_Name = TrimSpace name, rm_Description = TrimSpace description, rm_OwnerID = TrimSpace ownerID,
        rm_RoomType = Normalize roomType, rm_DirectKey = TrimSpace directKey, rm_PinnedMessageID = [],
        rm_CreatedAt = normalizeRoomTime clock now, rm_UpdatedAt = normalizeRoomTime clock now\<rparr>)"

definition CanonicalDirectKey :: "string \<Rightarrow> string \<Rightarrow> string" where
  "CanonicalDirectKey a b =
     (if TrimSpace b < TrimSpace a then TrimSpace b @ '':'' @ TrimSpace a else TrimSpace a @ '':'' @ TrimSpace b)"

definition NewDirectConversationRoom :: "gotime \<Rightarrow> string \<Rightarrow> string \<Rightarrow> string \<Rightarrow> gotime \<Rightarrow> error + Room" where
  "NewDirectConversationRoom clock roomID ownerID peerID now =
     (if TrimSpace ownerID = [] then Inl ErrRoomOwnerRequired
      else if TrimSpace peerID = [] then Inl ErrRoomPeerAccountRequired
      else if TrimSpace ownerID = TrimSpace peerID then Inl ErrRoomDirectSelfNotAllowed
      else NewRoom clock roomID ''Direct chat'' [] (TrimSpace ownerID) RoomTypeDirect
        (CanonicalDirectKey (TrimSpace ownerID) (TrimSpace peerID)) now)"

definition IsGroup :: "Room \<Rightarrow> bool" where
  "IsGroup r \<longleftrightarrow> Normalize (rm_RoomType r) = RoomTypeGroup"

definition IsDirect :: "Room \<Rightarrow> bool" where
  "IsDirect r \<longleftrightarrow> Normalize (rm_RoomType r) = RoomTypeDirect"

text \<open>
  An invalid type is found after the name and the description were written: the error leaves them in the room.
\<close>

definition UpdateDetails :: "gotime \<Rightarrow> Room \<Rightarrow> string \<Rightarrow> string \<Rightarrow> string \<Rightarrow> gotime \<Rightarrow> (error + bool) \<times> Room" where
  "UpdateDetails clock r name description roomType updatedAt =
     (let n = TrimSpace name; d = TrimSpace description; t = Normalize roomType;
          nameNew = (n \<noteq> [] \<and> n \<noteq> rm_Name r); descNew = (d \<noteq> rm_Description r);
          r1 = r\<lparr>rm_Name := (if nameNew then n else rm_Name r), rm_Description := d\<rparr>
      in if t \<noteq> [] \<and> \<not> typeIsValid t then (Inl ErrRoomTypeInvalid, r1)
         else let typeNew = (t \<noteq> [] \<and> t \<noteq> rm_RoomType r);
                  r2 = (if typeNew then r1\<lparr>rm_RoomType := t\<rparr> else r1);
                  updated = (nameNew \<or> descNew \<or> typeNew)
              in (Inr updated, if updated then r2\<lparr>rm_UpdatedAt := normalizeRoomTime clock updatedAt\<rparr> else r2))"

definition roomChangeOwner :: "gotime \<Rightarrow> Room \<Rightarrow> string \<Rightarrow> gotime \<Rightarrow> error + bool \<times> Room" where
  "roomChangeOwner clock r ownerID updatedAt =
     (if TrimSpace ownerID = [] then Inl ErrRoomOwnerRequired
      else if TrimSpace ownerID = rm_OwnerID r then Inr (False, r)
      else Inr (True, r\<lparr>rm_OwnerID := TrimSpace ownerID, rm_UpdatedAt := normalizeRoomTime clock updatedAt\<rparr>))"

definition RequireGroup :: "Room \<Rightarrow> error + unit" where
  "RequireGroup r = (if \<not> IsGroup r then Inl ErrRoomNotGroup else Inr ())"

definition roomPinMessage :: "gotime \<Rightarrow> Room \<Rightarrow> string \<Rightarrow> gotime \<Rightarrow> error + Room" where
  "roomPinMessage clock r messageID updatedAt =
     (if TrimSpace messageID = [] then Inl ErrRoomMessageIDRequired
      else Inr (r\<lparr>rm_PinnedMessageID := TrimSpace messageID, rm_UpdatedAt := normalizeRoomTime clock updatedAt\<rparr>))"

definition Touch :: "gotime \<Rightarrow> gotime \<Rightarrow> Room \<Rightarrow> Room" where
  "Touch clock updatedAt r = r\<lparr>rm_UpdatedAt := normalizeRoomTime clock updatedAt\<rparr>"

section \<open>Members\<close>

abbreviation ErrRoomMemberIDRequired :: error where "ErrRoomMemberIDRequired \<equiv> Sentinel ''ErrRoomMemberIDRequired''"
abbreviation ErrRoomMemberAccountRequired :: error where "ErrRoomMemberAccountRequired \<equiv> Sentinel ''ErrRoomMemberAccountRequired''"
abbreviation ErrRoomMemberRoomRequired :: error where "ErrRoomMemberRoomRequired \<equiv> Sentinel ''ErrRoomMemberRoomRequired''"
abbreviation ErrRoomMemberRoleInvalid :: error where "ErrRoomMemberRoleInvalid \<equiv> Sentinel ''ErrRoomMemberRoleInvalid''"
abbreviation ErrRoomReceiptStatusInvalid :: error where "ErrRoomReceiptStatusInvalid \<equiv> Sentinel ''ErrRoomReceiptStatusInvalid''"

record RoomMemberEntity =
  mb_ID :: string
  mb_RoomID :: string
  mb_AccountID :: string
  mb_DisplayName :: string
  mb_Username :: string
  mb_AvatarObjectKey :: string
  mb_Role :: string
  mb_LastDeliveredAt :: "gotime option"
  mb_LastReadAt :: "gotime option"
  mb_CreatedAt :: gotime
  mb_UpdatedAt :: gotime

definition NewRoomMember :: "gotime \<Rightarrow> string \<Rightarrow> string \<Rightarrow> string \<Rightarrow> string \<Rightarrow> gotime \<Rightarrow> error + RoomMemberEntity" where
  "NewRoomMember clock memberID roomID accountID role now =
     (if TrimSpace memberID = [] then Inl ErrRoomMemberIDRequired
      else if TrimSpace roomID = [] then Inl ErrRoomMemberRoomRequired
      else if TrimSpace accountID = [] then Inl ErrRoomMemberAccountRequired
      else if \<not> roleIsValid (normalizeRoomRole role) then Inl ErrRoomMemberRoleInvalid
      else Inr \<lparr>mb_ID = TrimSpace memberID, mb_RoomID = TrimSpace roomID, mb_AccountID = TrimSpace accountID, mb_DisplayName = [],
        mb_Username = [], mb_AvatarObjectKey = [], mb_Role = normalizeRoomRole role, mb_LastDeliveredAt = None, mb_LastReadAt = None,
        mb_CreatedAt = normalizeRoomTime clock now, mb_UpdatedAt = normalizeRoomTime clock now\<rparr>)"

text \<open>The map of roles as an association list in the order of insertion.\<close>

definition BuildGroupMemberRoles :: "string \<Rightarrow> string list \<Rightarrow> error + (string \<times> string) list" where
  "BuildGroupMemberRoles ownerID memberIDs =
     (if TrimSpace ownerID = [] then Inl ErrRoomOwnerRequired
      else Inr (foldl (\<lambda>roles memberID.
          if TrimSpace memberID = [] then roles
          else if map_of roles (TrimSpace memberID) = None then roles @ [(TrimSpace memberID, RoomRoleMember)] else roles)
        [(TrimSpace ownerID, RoomRoleOwner)] memberIDs))"

definition IsManager :: "RoomMemberEntity \<Rightarrow> bool" where
  "IsManager m \<longleftrightarrow> normalizeRoomRole (mb_Role m) = RoomRoleOwner \<or> normalizeRoomRole (mb_Role m) = RoomRoleAdmin"

definition CanManageGroup :: "RoomMemberEntity \<Rightarrow> Room \<Rightarrow> error + unit" where
  "CanManageGroup m room =
     andThen (RequireGroup room) (\<lambda>_. if \<not> IsManager m then Inl ErrRoomInsufficientPermission else Inr ())"

definition CanRemoveFrom :: "RoomMemberEntity \<Rightarrow> Room \<Rightarrow> string \<Rightarrow> error + unit" where
  "CanRemoveFrom m room targetAccountID =
     andThen (RequireGroup room) (\<lambda>_.
       if TrimSpace targetAccountID = [] then Inl ErrRoomMemberAccountRequired
       else if mb_AccountID m \<noteq> TrimSpace targetAccountID \<and> \<not> IsManager m then Inl ErrRoomInsufficientPermission
       else if mb_AccountID m = TrimSpace targetAccountID \<and> normalizeRoomRole (mb_Role m) = RoomRoleOwner then Inl ErrRoomOwnerCannotLeave
       else Inr ())"

definition NormalizeReceiptStatus :: "string \<Rightarrow> error + string" where
  "NormalizeReceiptStatus status =
     (if Normalize status = ''delivered'' then Inr ''delivered''
      else if Normalize status = ''seen'' then Inr ''seen''
      else Inl ErrRoomReceiptStatusInvalid)"

definition ApplyReceiptStatus :: "gotime \<Rightarrow> RoomMemberEntity \<Rightarrow> string \<Rightarrow> gotime \<Rightarrow>
    error + (string \<times> gotime option \<times> gotime option) \<times> RoomMemberEntity" where
  "ApplyReceiptStatus clock m status updatedAt =
     andThen (NormalizeReceiptStatus status) (\<lambda>normalizedStatus.
       let now = normalizeRoomTime clock updatedAt; seen = (normalizedStatus = ''seen'')
       in Inr ((normalizedStatus, Some now, if seen then Some now else None),
            m\<lparr>mb_LastDeliveredAt := Some now, mb_LastReadAt := (if seen then Some now else mb_LastReadAt m), mb_UpdatedAt := now\<rparr>))"

section \<open>Mentions and reactions\<close>

abbreviation ErrMessageMentionAccountRequired :: error where "ErrMessageMentionAccountRequired \<equiv> Sentinel ''ErrMessageMentionAccountRequired''"
abbreviation ErrMessageReactionEmojiRequired :: error where "ErrMessageReactionEmojiRequired \<equiv> Sentinel ''ErrMessageReactionEmojiRequired''"
abbreviation ErrMessageReactionAccountIDRequired :: error where
  "ErrMessageReactionAccountIDRequired \<equiv> Sentinel ''ErrMessageReactionAccountIDRequired''"

record MessageMention =
  mm_AccountID :: string
  mm_DisplayName :: string
  mm_Username :: string

fun normalizeMentionsFrom :: "string list \<Rightarrow> MessageMention list \<Rightarrow> error + MessageMention list" where
  "normalizeMentionsFrom seen [] = Inr []"
| "normalizeMentionsFrom seen (m # ms) =
     (let k = TrimSpace (mm_AccountID m)
      in if k = [] then Inl ErrMessageMentionAccountRequired
         else if k \<in> set seen then normalizeMentionsFrom seen ms
         else andThen (normalizeMentionsFrom (k # seen) ms) (\<lambda>rest.
           Inr (\<lparr>mm_AccountID = k, mm_DisplayName = TrimSpace (mm_DisplayName m), mm_Username = TrimSpace (mm_Username m)\<rparr> # rest)))"

definition NormalizeMessageMentions :: "MessageMention list \<Rightarrow> error + MessageMention list" where
  "NormalizeMessageMentions mentions = normalizeMentionsFrom [] mentions"

record MessageReaction =
  re_AccountID :: string
  re_Emoji :: string
  re_ReactedAt :: gotime

definition reactionKey :: "string \<Rightarrow> string \<Rightarrow> string" where
  "reactionKey acc emoji = acc @ [CHR 0x00] @ emoji"

fun collectReactions :: "string list \<Rightarrow> MessageReaction list \<Rightarrow> error + MessageReaction list" where
  "collectReactions seen [] = Inr []"
| "collectReactions seen (r # rs) =
     (let acc = TrimSpace (re_AccountID r); emoji = TrimSpace (re_Emoji r)
      in if acc = [] then Inl ErrMessageReactionAccountIDRequired
         else if emoji = [] then Inl ErrMessageReactionEmojiRequired
         else if reactionKey acc emoji \<in> set seen then collectReactions seen rs
         else andThen (collectReactions (reactionKey acc emoji # seen) rs) (\<lambda>rest.
           Inr (\<lparr>re_AccountID = acc, re_Emoji = emoji, re_ReactedAt = UTC (re_ReactedAt r)\<rparr> # rest)))"

text \<open>No two collected reactions are equal in emoji and account, so the order below decides every comparison of the sort.\<close>

definition reactionOrder :: "MessageReaction \<Rightarrow> string \<times> int \<times> string" where
  "reactionOrder r = (re_Emoji r, nanos (re_ReactedAt r), re_AccountID r)"

definition NormalizeMessageReactions :: "MessageReaction list \<Rightarrow> error + MessageReaction list" where
  "NormalizeMessageReactions items = andThen (collectReactions [] items) (\<lambda>results. Inr (sort_key reactionOrder results))"

section \<open>Messages\<close>

abbreviation MessageTypeText :: string where "MessageTypeText \<equiv> ''text''"
abbreviation MessageTypeSystem :: string where "MessageTypeSystem \<equiv> ''system''"
abbreviation MessageTypeImage :: string where "MessageTypeImage \<equiv> ''image''"
abbreviation MessageTypeFile :: string where "MessageTypeFile \<equiv> ''file''"
abbreviation MessageTypeSticker :: string where "MessageTypeSticker \<equiv> ''sticker''"
abbreviation MessageTypeTransfer :: string where "MessageTypeTransfer \<equiv> ''transfer''"

abbreviation ErrMessageIDRequired :: error where "ErrMessageIDRequired \<equiv> Sentinel ''ErrMessageIDRequired''"
abbreviation ErrMessageRoomRequired :: error where "ErrMessageRoomRequired \<equiv> Sentinel ''ErrMessageRoomRequired''"
abbreviation ErrMessageSenderRequired :: error where "ErrMessageSenderRequired \<equiv> Sentinel ''ErrMessageSenderRequired''"
abbreviation ErrMessageBodyRequired :: error where "ErrMessageBodyRequired \<equiv> Sentinel ''ErrMessageBodyRequired''"
abbreviation ErrMessageTypeInvalid :: error where "ErrMessageTypeInvalid \<equiv> Sentinel ''ErrMessageTypeInvalid''"
abbreviation ErrMessageObjectKeyRequired :: error where "ErrMessageObjectKeyRequired \<equiv> Sentinel ''ErrMessageObjectKeyRequired''"
abbreviation ErrMessageCannotEditOther :: error where "ErrMessageCannotEditOther \<equiv> Sentinel ''ErrMessageCannotEditOther''"
abbreviation ErrMessageCannotEditSystem :: error where "ErrMessageCannotEditSystem \<equiv> Sentinel ''ErrMessageCannotEditSystem''"
abbreviation ErrMessageCannotDeleteEveryone :: error where "ErrMessageCannotDeleteEveryone \<equiv> Sentinel ''ErrMessageCannotDeleteEveryone''"

record MessageEntity =
  me_ID :: string
  me_RoomID :: string
  me_SenderID :: string
  me_Message :: string
  me_MessageType :: string
  me_Mentions :: "MessageMention list"
  me_Reactions :: "MessageReaction list"
  me_MentionAll :: bool
  me_ReplyToMessageID :: string
  me_ForwardedFromMessageID :: string
  me_FileName :: string
  me_FileSize :: int64
  me_MimeType :: string
  me_ObjectKey :: string
  me_EditedAt :: "gotime option"
  me_DeletedForEveryoneAt :: "gotime option"
  me_CreatedAt :: gotime

record MessageParams =
  mp_Message :: string
  mp_MessageType :: string
  mp_Mentions :: "MessageMention list"
  mp_MentionAll :: bool
  mp_ReplyToMessageID :: string
  mp_ForwardedFromMessageID :: string
  mp_FileName :: string
  mp_FileSize :: int64
  mp_MimeType :: string
  mp_ObjectKey :: string

definition NormalizeMessageType :: "string \<Rightarrow> string" where
  "NormalizeMessageType value =
     (let t = Normalize value
      in if t = [] \<or> t = MessageTypeText then MessageTypeText
         else if t \<in> {MessageTypeSystem, MessageTypeImage, MessageTypeFile, MessageTypeSticker, MessageTypeTransfer} then t
         else [])"

definition NewMessage :: "gotime \<Rightarrow> string \<Rightarrow> string \<Rightarrow> string \<Rightarrow> MessageParams \<Rightarrow> gotime \<Rightarrow> error + MessageEntity" where
  "NewMessage clock messageID roomID senderID params now =
     (let messageType = NormalizeMessageType (mp_MessageType params); content = TrimSpace (mp_Message params);
          objectKey = TrimSpace (mp_ObjectKey params)
      in andThen (NormalizeMessageMentions (mp_Mentions params)) (\<lambda>mentions.
         if TrimSpace messageID = [] then Inl ErrMessageIDRequired
         else if TrimSpace roomID = [] then Inl ErrMessageRoomRequired
         else if TrimSpace senderID = [] then Inl ErrMessageSenderRequired
         else if messageType = [] then Inl ErrMessageTypeInvalid
         else if messageType = MessageTypeText \<and> content = [] then Inl ErrMessageBodyRequired
         else if messageType \<in> {MessageTypeImage, MessageTypeFile, MessageTypeSticker} \<and> objectKey = [] then Inl ErrMessageObjectKeyRequired
         else Inr \<lparr>me_ID = TrimSpace messageID, me_RoomID = TrimSpace roomID, me_SenderID = TrimSpace senderID, me_Message = content,
           me_MessageType = messageType, me_Mentions = mentions, me_Reactions = [], me_MentionAll = mp_MentionAll params,
           me_ReplyToMessageID = TrimSpace (mp_ReplyToMessageID params),
           me_ForwardedFromMessageID = TrimSpace (mp_ForwardedFromMessageID params), me_FileName = TrimSpace (mp_FileName params),
           me_FileSize = mp_FileSize params, me_MimeType = TrimSpace (mp_MimeType params), me_ObjectKey = objectKey,
           me_EditedAt = None, me_DeletedForEveryoneAt = None, me_CreatedAt = normalizeRoomTime clock now\<rparr>))"

definition messageEdit :: "gotime \<Rightarrow> MessageEntity \<Rightarrow> string \<Rightarrow> string \<Rightarrow> gotime \<Rightarrow> error + MessageEntity" where
  "messageEdit clock m actorID content editedAt =
     (if TrimSpace actorID \<noteq> TrimSpace (me_SenderID m) then Inl ErrMessageCannotEditOther
      else if NormalizeMessageType (me_MessageType m) = MessageTypeSystem then Inl ErrMessageCannotEditSystem
      else if TrimSpace content = [] then Inl ErrMessageBodyRequired
      else Inr (m\<lparr>me_Message := TrimSpace content, me_EditedAt := Some (normalizeRoomTime clock editedAt)\<rparr>))"

definition DeleteForEveryone :: "gotime \<Rightarrow> MessageEntity \<Rightarrow> string \<Rightarrow> gotime \<Rightarrow> error + MessageEntity" where
  "DeleteForEveryone clock m actorID deletedAt =
     (if TrimSpace actorID \<noteq> TrimSpace (me_SenderID m) then Inl ErrMessageCannotDeleteEveryone
      else Inr (m\<lparr>me_Message := [], me_DeletedForEveryoneAt := Some (normalizeRoomTime clock deletedAt)\<rparr>))"

definition sameReaction :: "string \<Rightarrow> string \<Rightarrow> MessageReaction \<Rightarrow> bool" where
  "sameReaction acc emo r \<longleftrightarrow> re_AccountID r = acc \<and> re_Emoji r = emo"

definition messageToggleReaction :: "gotime \<Rightarrow> MessageEntity \<Rightarrow> string \<Rightarrow> string \<Rightarrow> gotime \<Rightarrow> error + MessageEntity" where
  "messageToggleReaction clock m accountID emoji reactedAt =
     (let acc = TrimSpace accountID; emo = TrimSpace emoji
      in if acc = [] then Inl ErrMessageReactionAccountIDRequired
         else if emo = [] then Inl ErrMessageReactionEmojiRequired
         else andThen (NormalizeMessageReactions (me_Reactions m)) (\<lambda>current.
           let kept = filter (\<lambda>r. \<not> sameReaction acc emo r) current;
               nxt = (if list_ex (sameReaction acc emo) current then kept
                      else kept @ [\<lparr>re_AccountID = acc, re_Emoji = emo, re_ReactedAt = normalizeRoomTime clock reactedAt\<rparr>])
           in andThen (NormalizeMessageReactions nxt) (\<lambda>reactions. Inr (m\<lparr>me_Reactions := reactions\<rparr>))))"

section \<open>Video call sessions\<close>

abbreviation VideoCallStatusActive :: string where "VideoCallStatusActive \<equiv> ''active''"
abbreviation VideoCallStatusEnded :: string where "VideoCallStatusEnded \<equiv> ''ended''"
abbreviation ErrVideoCallSessionIDRequired :: error where "ErrVideoCallSessionIDRequired \<equiv> Sentinel ''ErrVideoCallSessionIDRequired''"
abbreviation ErrVideoCallRoomRequired :: error where "ErrVideoCallRoomRequired \<equiv> Sentinel ''ErrVideoCallRoomRequired''"
abbreviation ErrVideoCallActorRequired :: error where "ErrVideoCallActorRequired \<equiv> Sentinel ''ErrVideoCallActorRequired''"
abbreviation ErrVideoCallAlreadyEnded :: error where "ErrVideoCallAlreadyEnded \<equiv> Sentinel ''ErrVideoCallAlreadyEnded''"
abbreviation ErrVideoCallParticipantNotFound :: error where "ErrVideoCallParticipantNotFound \<equiv> Sentinel ''ErrVideoCallParticipantNotFound''"
abbreviation ErrVideoCallSignalTypeRequired :: error where "ErrVideoCallSignalTypeRequired \<equiv> Sentinel ''ErrVideoCallSignalTypeRequired''"
abbreviation ErrVideoCallTargetAccountRequired :: error where
  "ErrVideoCallTargetAccountRequired \<equiv> Sentinel ''ErrVideoCallTargetAccountRequired''"

record VideoCallSession =
  vc_SessionID :: string
  vc_RoomID :: string
  vc_Status :: string
  vc_StartedByAccountID :: string
  vc_ParticipantAccountIDs :: "string list"
  vc_StartedAt :: gotime
  vc_UpdatedAt :: gotime
  vc_EndedAt :: "gotime option"
  vc_EndedByAccountID :: string

definition NewVideoCallSession :: "gotime \<Rightarrow> string \<Rightarrow> string \<Rightarrow> string \<Rightarrow> gotime \<Rightarrow> error + VideoCallSession" where
  "NewVideoCallSession clock sessionID roomID startedBy now =
     (if TrimSpace sessionID = [] then Inl ErrVideoCallSessionIDRequired
      else if TrimSpace roomID = [] then Inl ErrVideoCallRoomRequired
      else if TrimSpace startedBy = [] then Inl ErrVideoCallActorRequired
      else Inr \<lparr>vc_SessionID = TrimSpace sessionID, vc_RoomID = TrimSpace roomID, vc_Status = VideoCallStatusActive,
        vc_StartedByAccountID = TrimSpace startedBy, vc_ParticipantAccountIDs = [TrimSpace startedBy],
        vc_StartedAt = normalizeRoomTime clock now, vc_UpdatedAt = normalizeRoomTime clock now, vc_EndedAt = None, vc_EndedByAccountID = []\<rparr>)"

definition IsActive :: "VideoCallSession \<Rightarrow> bool" where
  "IsActive s \<longleftrightarrow> vc_Status s = VideoCallStatusActive \<and> vc_EndedAt s = None"

definition HasParticipant :: "VideoCallSession \<Rightarrow> string \<Rightarrow> bool" where
  "HasParticipant s accountID \<longleftrightarrow> TrimSpace accountID \<noteq> [] \<and> TrimSpace accountID \<in> set (vc_ParticipantAccountIDs s)"

definition Join :: "gotime \<Rightarrow> VideoCallSession \<Rightarrow> string \<Rightarrow> gotime \<Rightarrow> error + VideoCallSession" where
  "Join clock s accountID now =
     (if \<not> IsActive s then Inl ErrVideoCallAlreadyEnded
      else if TrimSpace accountID = [] then Inl ErrVideoCallActorRequired
      else if HasParticipant s (TrimSpace accountID) then Inr (s\<lparr>vc_UpdatedAt := normalizeRoomTime clock now\<rparr>)
      else Inr (s\<lparr>vc_ParticipantAccountIDs := vc_ParticipantAccountIDs s @ [TrimSpace accountID], vc_UpdatedAt := normalizeRoomTime clock now\<rparr>))"

definition End :: "gotime \<Rightarrow> VideoCallSession \<Rightarrow> string \<Rightarrow> gotime \<Rightarrow> error + VideoCallSession" where
  "End clock s actorID now =
     (if \<not> IsActive s then Inl ErrVideoCallAlreadyEnded
      else if TrimSpace actorID = [] then Inl ErrVideoCallActorRequired
      else let endedAt = normalizeRoomTime clock now
           in Inr (s\<lparr>vc_Status := VideoCallStatusEnded, vc_UpdatedAt := endedAt, vc_EndedAt := Some endedAt,
                vc_EndedByAccountID := TrimSpace actorID\<rparr>))"

definition Leave :: "gotime \<Rightarrow> VideoCallSession \<Rightarrow> string \<Rightarrow> gotime \<Rightarrow> error + bool \<times> VideoCallSession" where
  "Leave clock s accountID now =
     (if \<not> IsActive s then Inl ErrVideoCallAlreadyEnded
      else if TrimSpace accountID = [] then Inl ErrVideoCallActorRequired
      else if \<not> HasParticipant s (TrimSpace accountID) then Inl ErrVideoCallParticipantNotFound
      else let s1 = s\<lparr>vc_ParticipantAccountIDs := filter (\<lambda>p. p \<noteq> TrimSpace accountID) (vc_ParticipantAccountIDs s),
                      vc_UpdatedAt := normalizeRoomTime clock now\<rparr>
           in if vc_ParticipantAccountIDs s1 = []
              then andThen (End clock s1 (TrimSpace accountID) now) (\<lambda>s2. Inr (True, s2))
              else Inr (False, s1))"

definition ValidateVideoCallSignalTarget :: "string \<Rightarrow> error + unit" where
  "ValidateVideoCallSignalTarget target = (if TrimSpace target = [] then Inl ErrVideoCallTargetAccountRequired else Inr ())"

definition ValidateVideoCallSignalType :: "string \<Rightarrow> error + unit" where
  "ValidateVideoCallSignalType typ = (if TrimSpace typ = [] then Inl ErrVideoCallSignalTypeRequired else Inr ())"

section \<open>Direct conversations\<close>

text \<open>Both sides of a direct conversation compute the same key.\<close>

lemma CanonicalDirectKey_sym: "CanonicalDirectKey a b = CanonicalDirectKey b a"
  by (auto simp: CanonicalDirectKey_def not_less)

section \<open>Reactions\<close>

definition clean_reaction :: "MessageReaction \<Rightarrow> bool" where
  "clean_reaction r \<longleftrightarrow> trimmed (re_AccountID r) \<and> re_AccountID r \<noteq> [] \<and> trimmed (re_Emoji r) \<and> re_Emoji r \<noteq> [] \<and>
     UTC (re_ReactedAt r) = re_ReactedAt r"

definition keyOf :: "MessageReaction \<Rightarrow> string" where
  "keyOf r = reactionKey (re_AccountID r) (re_Emoji r)"

definition reactors :: "MessageReaction list \<Rightarrow> (string \<times> string) set" where
  "reactors rs = (\<lambda>r. (re_AccountID r, re_Emoji r)) ` set rs"

lemma UTC_UTC [simp]: "UTC (UTC t) = UTC t"
  by (simp add: UTC_def)

lemma collectReactions_clean:
  "(\<forall>r\<in>set rs. clean_reaction r) \<Longrightarrow> distinct (map keyOf rs) \<Longrightarrow> keyOf ` set rs \<inter> set seen = {} \<Longrightarrow> collectReactions seen rs = Inr rs"
proof (induction rs arbitrary: seen)
  case (Cons r rs)
  then have "collectReactions (keyOf r # seen) rs = Inr rs" by (intro Cons.IH) auto
  with Cons.prems show ?case by (auto simp: clean_reaction_def keyOf_def Let_def TrimSpace_trimmed)
qed simp

lemma collectReactions_result:
  "collectReactions seen rs = Inr out \<Longrightarrow>
     (\<forall>r\<in>set out. clean_reaction r) \<and> distinct (map keyOf out) \<and> keyOf ` set out \<inter> set seen = {}"
proof (induction rs arbitrary: seen out)
  case (Cons r rs)
  let ?a = "TrimSpace (re_AccountID r)" and ?e = "TrimSpace (re_Emoji r)"
  show ?case
  proof (cases "reactionKey ?a ?e \<in> set seen")
    case True
    with Cons.prems have "collectReactions seen rs = Inr out" by (auto simp: Let_def split: if_splits)
    then show ?thesis by (rule Cons.IH)
  next
    case False
    with Cons.prems obtain rest where ne: "?a \<noteq> []" "?e \<noteq> []" and c: "collectReactions (reactionKey ?a ?e # seen) rs = Inr rest"
      and out: "out = \<lparr>re_AccountID = ?a, re_Emoji = ?e, re_ReactedAt = UTC (re_ReactedAt r)\<rparr> # rest"
      by (auto simp: Let_def split: if_splits)
    from Cons.IH [OF c] ne False show ?thesis by (auto simp: out clean_reaction_def keyOf_def)
  qed
qed simp

text \<open>Reactions in normal form: as \<open>NormalizeMessageReactions\<close> leaves them.\<close>

definition normal_reactions :: "MessageReaction list \<Rightarrow> bool" where
  "normal_reactions rs \<longleftrightarrow> (\<forall>r\<in>set rs. clean_reaction r) \<and> distinct (map keyOf rs) \<and> sorted (map reactionOrder rs)"

lemma NormalizeMessageReactions_clean:
  "(\<forall>r\<in>set rs. clean_reaction r) \<Longrightarrow> distinct (map keyOf rs) \<Longrightarrow>
     NormalizeMessageReactions rs = Inr (sort_key reactionOrder rs) \<and> normal_reactions (sort_key reactionOrder rs)"
  by (auto simp: NormalizeMessageReactions_def collectReactions_clean normal_reactions_def distinct_map)

lemma NormalizeMessageReactions_result: "NormalizeMessageReactions rs = Inr out \<Longrightarrow> normal_reactions out"
  by (auto simp: NormalizeMessageReactions_def normal_reactions_def distinct_map dest!: collectReactions_result)

lemma NormalizeMessageReactions_fixes: "normal_reactions rs \<Longrightarrow> NormalizeMessageReactions rs = Inr rs"
  by (auto simp: NormalizeMessageReactions_def collectReactions_clean normal_reactions_def sort_key_id_if_sorted)

lemma NormalizeMessageReactions_fixed_iff: "NormalizeMessageReactions rs = Inr rs \<longleftrightarrow> normal_reactions rs"
  using NormalizeMessageReactions_fixes NormalizeMessageReactions_result by blast

lemma normal_reactions_filter: "normal_reactions rs \<Longrightarrow> normal_reactions (filter P rs)"
  by (auto simp: normal_reactions_def distinct_map_filter sorted_filter)

text \<open>The zero byte separates account and emoji as long as account ids do not contain it.\<close>

lemma reactionKey_inj:
  assumes "CHR 0x00 \<notin> set a" "CHR 0x00 \<notin> set a'"
  shows "reactionKey a e = reactionKey a' e' \<longleftrightarrow> a = a' \<and> e = e'"
  using assms by (auto simp: reactionKey_def append_eq_append_conv2 append_eq_Cons_conv Cons_eq_append_conv)

text \<open>What a toggle leaves, when the current reactions are in normal form.\<close>

lemma list_ex_reactors: "list_ex (sameReaction acc emo) rs \<longleftrightarrow> (acc, emo) \<in> reactors rs"
  by (auto simp: list_ex_iff reactors_def sameReaction_def)

lemma toggle_removes:
  assumes "normal_reactions (me_Reactions m)" "trimmed acc" "trimmed emo" "(acc, emo) \<in> reactors (me_Reactions m)"
  shows "messageToggleReaction clock m acc emo reactedAt = Inr (m\<lparr>me_Reactions := filter (\<lambda>r. \<not> sameReaction acc emo r) (me_Reactions m)\<rparr>)"
proof -
  from assms(1,4) have "acc \<noteq> []" "emo \<noteq> []" by (auto simp: normal_reactions_def reactors_def clean_reaction_def)
  with assms show ?thesis
    by (simp add: messageToggleReaction_def Let_def TrimSpace_trimmed list_ex_reactors NormalizeMessageReactions_fixes normal_reactions_filter)
qed

lemma toggle_adds:
  fixes clock reactedAt :: gotime
  assumes "normal_reactions (me_Reactions m)" "trimmed acc" "trimmed emo" "acc \<noteq> []" "emo \<noteq> []" "(acc, emo) \<notin> reactors (me_Reactions m)"
    and nul: "\<forall>r\<in>set (me_Reactions m). CHR 0x00 \<notin> set (re_AccountID r)" "CHR 0x00 \<notin> set acc"
  defines "new \<equiv> \<lparr>re_AccountID = acc, re_Emoji = emo, re_ReactedAt = normalizeRoomTime clock reactedAt\<rparr>"
  defines "rs \<equiv> sort_key reactionOrder (me_Reactions m @ [new])"
  shows "messageToggleReaction clock m acc emo reactedAt = Inr (m\<lparr>me_Reactions := rs\<rparr>)" "normal_reactions rs"
proof -
  have kept: "filter (\<lambda>r. \<not> sameReaction acc emo r) (me_Reactions m) = me_Reactions m"
    using assms(6) by (auto simp: reactors_def filter_id_conv sameReaction_def)
  have "clean_reaction new" using assms(2-5) by (simp add: clean_reaction_def new_def normalizeRoomTime_def)
  moreover have "keyOf new \<notin> keyOf ` set (me_Reactions m)"
    using assms(6) nul by (auto simp: keyOf_def new_def reactors_def reactionKey_inj)
  ultimately have "(\<forall>r\<in>set (me_Reactions m @ [new]). clean_reaction r) \<and> distinct (map keyOf (me_Reactions m @ [new]))"
    using assms(1) by (auto simp: normal_reactions_def)
  then have n: "NormalizeMessageReactions (me_Reactions m @ [new]) = Inr rs \<and> normal_reactions rs"
    using NormalizeMessageReactions_clean unfolding rs_def by blast
  then show "normal_reactions rs" ..
  from n show "messageToggleReaction clock m acc emo reactedAt = Inr (m\<lparr>me_Reactions := rs\<rparr>)"
    using assms(1-6) kept new_def
    by (simp add: messageToggleReaction_def Let_def TrimSpace_trimmed list_ex_reactors NormalizeMessageReactions_fixes)
qed

lemma reactors_sort [simp]: "reactors (sort_key f rs) = reactors rs"
  by (simp add: reactors_def)

lemma reactors_remove: "reactors (filter (\<lambda>r. \<not> sameReaction acc emo r) rs) = reactors rs - {(acc, emo)}"
  by (auto simp: reactors_def sameReaction_def)

lemma toggle_back:
  assumes "normal_reactions (me_Reactions m)" "(acc, emo) \<notin> reactors (me_Reactions m)" "sameReaction acc emo new"
  shows "filter (\<lambda>r. \<not> sameReaction acc emo r) (sort_key reactionOrder (me_Reactions m @ [new])) = me_Reactions m"
proof -
  have "filter (\<lambda>r. \<not> sameReaction acc emo r) (me_Reactions m @ [new]) = me_Reactions m"
    using assms(2,3) by (auto simp: reactors_def filter_empty_conv filter_id_conv sameReaction_def image_iff)
  with assms(1) show ?thesis
    by (simp add: filter_sort normal_reactions_def sort_key_id_if_sorted)
qed

text \<open>
  C40 (functional). For a message whose reactions are in normal form and account ids without a zero byte, toggling adds the
  reaction of an account when it is absent and removes it when present, touches no other reaction and nothing else of the
  message, leaves the reactions in normal form again, and toggling an added reaction once more gives back the message.
\<close>

theorem toggle_reaction_flips:
  assumes "NormalizeMessageReactions (me_Reactions m) = Inr (me_Reactions m)"
    and "\<forall>r\<in>set (me_Reactions m). CHR 0x00 \<notin> set (re_AccountID r)" "CHR 0x00 \<notin> set acc"
    and "trimmed acc" "acc \<noteq> []" "trimmed emo" "emo \<noteq> []"
  shows "\<exists>rs. messageToggleReaction clock m acc emo reactedAt = Inr (m\<lparr>me_Reactions := rs\<rparr>) \<and>
    NormalizeMessageReactions rs = Inr rs \<and>
    reactors rs = (if (acc, emo) \<in> reactors (me_Reactions m) then reactors (me_Reactions m) - {(acc, emo)}
                   else insert (acc, emo) (reactors (me_Reactions m))) \<and>
    {r \<in> set rs. \<not> sameReaction acc emo r} = {r \<in> set (me_Reactions m). \<not> sameReaction acc emo r} \<and>
    ((acc, emo) \<notin> reactors (me_Reactions m) \<longrightarrow> messageToggleReaction clock2 (m\<lparr>me_Reactions := rs\<rparr>) acc emo again = Inr m)"
proof (cases "(acc, emo) \<in> reactors (me_Reactions m)")
  case True
  from assms(1) have n: "normal_reactions (me_Reactions m)" by (simp add: NormalizeMessageReactions_fixed_iff)
  from toggle_removes [OF n assms(4,6) True] normal_reactions_filter [OF n] True show ?thesis
    by (intro exI [of _ "filter (\<lambda>r. \<not> sameReaction acc emo r) (me_Reactions m)"])
      (auto simp: NormalizeMessageReactions_fixed_iff reactors_remove)
next
  case False
  let ?new = "\<lparr>re_AccountID = acc, re_Emoji = emo, re_ReactedAt = normalizeRoomTime clock reactedAt\<rparr>"
  let ?rs = "sort_key reactionOrder (me_Reactions m @ [?new])"
  from assms(1) have n: "normal_reactions (me_Reactions m)" by (simp add: NormalizeMessageReactions_fixed_iff)
  note added = toggle_adds [OF n assms(4,6,5,7) False assms(2,3), of clock reactedAt]
  have p: "(acc, emo) \<in> reactors ?rs" by (simp add: reactors_def)
  have "messageToggleReaction clock2 (m\<lparr>me_Reactions := ?rs\<rparr>) acc emo again = Inr m"
    using toggle_removes [of "m\<lparr>me_Reactions := ?rs\<rparr>" acc emo clock2 again] added(2) assms(4,6) p toggle_back [OF n False, of ?new]
    by (simp add: sameReaction_def)
  with added False show ?thesis
    by (intro exI [of _ ?rs]) (auto simp: NormalizeMessageReactions_fixed_iff reactors_def sameReaction_def)
qed

definition sampleMessage :: MessageEntity where
  "sampleMessage = \<lparr>me_ID = ''m'', me_RoomID = ''r'', me_SenderID = ''s'', me_Message = ''hi'', me_MessageType = ''text'',
      me_Mentions = [], me_Reactions = [\<lparr>re_AccountID = ''b'', re_Emoji = ''y'', re_ReactedAt = UTC zeroTime\<rparr>], me_MentionAll = False,
      me_ReplyToMessageID = [], me_ForwardedFromMessageID = [], me_FileName = [], me_FileSize = 0, me_MimeType = [], me_ObjectKey = [],
      me_EditedAt = None, me_DeletedForEveryoneAt = None, me_CreatedAt = zeroTime\<rparr>"

theorem toggle_reaction_flips_witness:
  "\<exists>rs. messageToggleReaction zeroTime sampleMessage ''a'' ''x'' zeroTime = Inr (sampleMessage\<lparr>me_Reactions := rs\<rparr>) \<and>
     reactors rs = {(''a'', ''x''), (''b'', ''y'')}"
proof -
  have rs: "me_Reactions sampleMessage = [\<lparr>re_AccountID = ''b'', re_Emoji = ''y'', re_ReactedAt = UTC zeroTime\<rparr>]"
    by (simp add: sampleMessage_def)
  have t: "trimmed ''a''" "trimmed ''x''" "trimmed ''b''" "trimmed ''y''" by code_simp+
  then have n: "NormalizeMessageReactions (me_Reactions sampleMessage) = Inr (me_Reactions sampleMessage)"
    by (simp add: rs NormalizeMessageReactions_fixed_iff normal_reactions_def clean_reaction_def)
  have r: "reactors (me_Reactions sampleMessage) = {(''b'', ''y'')}" by (simp add: rs reactors_def)
  have nul: "\<forall>r\<in>set (me_Reactions sampleMessage). CHR 0x00 \<notin> set (re_AccountID r)" "CHR 0x00 \<notin> set ''a''" by (simp_all add: rs)
  from toggle_reaction_flips [OF n nul t(1) _ t(2), of zeroTime zeroTime zeroTime zeroTime] r show ?thesis by auto
qed

end
