(* ===== verification/RoomAggregate.thy ===== *)
theory RoomAggregate
  imports RoomEntities
begin

text \<open>
  The aggregates of \<^verbatim>\<open>core/modules/room/domain/aggregate\<close>: the room with its members and what it has yet to persist, and the
  state of one message. \<open>clock\<close> is the instant \<^verbatim>\<open>time.Now\<close> reads, \<open>newID\<close> the identifier \<^verbatim>\<open>newUUID\<close> draws
  for a system message. An operation returns its result with the aggregate it leaves behind, also when it fails. A member of the aggregate
  is never \<^verbatim>\<open>nil\<close>, since \<open>attachRestoredMember\<close> refuses it; the map of members to write is an association list.
\<close>

section \<open>Events\<close>

record EventRoomCreatedData =
  rc_RoomID :: string
  rc_RoomType :: string
  rc_MemberCount :: int
  rc_LastMessageID :: string
  rc_LastMessageAt :: gotime
  rc_LastMessageContent :: string
  rc_LastMessageSenderID :: string

record EventRoomOwnerChangedData =
  ro_RoomID :: string
  ro_PreviousOwnerID :: string
  ro_OwnerID :: string
  ro_ChangedAt :: gotime

record EventRoomDetailsUpdatedData =
  rd_RoomID :: string
  rd_Name :: string
  rd_Description :: string
  rd_RoomType :: string
  rd_UpdatedAt :: gotime

record EventRoomMessagePinnedData =
  rp_RoomID :: string
  rp_PinnedMessageID :: string
  rp_PinnedAt :: gotime

record EventRoomMemberAddedData =
  ea_RoomID :: string
  ea_MemberID :: string
  ea_RoomMemberID :: string
  ea_MemberName :: string
  ea_MemberEmail :: string
  ea_MemberUsername :: string
  ea_MemberAvatarKey :: string
  ea_MemberRole :: string
  ea_MemberJoinedAt :: gotime
  ea_MemberStateUpdatedAt :: gotime

record EventRoomMemberRemovedData =
  er_RoomID :: string
  er_MemberID :: string
  er_RoomMemberID :: string
  er_MemberName :: string
  er_MemberEmail :: string
  er_MemberUsername :: string
  er_MemberRole :: string
  er_MemberJoinedAt :: gotime
  er_RemovedAt :: gotime

text \<open>The aggregate's own message event and the shared one have the same fields.\<close>

record RoomMessageMention =
  rmm_AccountID :: string
  rmm_DisplayName :: string
  rmm_Username :: string

record RoomMessageCreatedData =
  em_RoomID :: string
  em_RoomName :: string
  em_RoomType :: string
  em_MessageID :: string
  em_MessageContent :: string
  em_MessageType :: string
  em_ReplyToMessageID :: string
  em_ForwardedFromMessageID :: string
  em_FileName :: string
  em_FileSize :: int64
  em_MimeType :: string
  em_ObjectKey :: string
  em_MessageSenderID :: string
  em_MessageSenderName :: string
  em_MessageSenderEmail :: string
  em_MessageSentAt :: gotime
  em_Mentions :: "RoomMessageMention list"
  em_MentionAll :: bool
  em_MentionedAccountIDs :: "string list"

datatype RoomEvent =
    EventRoomCreated EventRoomCreatedData
  | EventRoomOwnerChanged EventRoomOwnerChangedData
  | EventRoomDetailsUpdated EventRoomDetailsUpdatedData
  | EventRoomMessagePinned EventRoomMessagePinnedData
  | EventRoomMemberAdded EventRoomMemberAddedData
  | EventRoomMemberRemoved EventRoomMemberRemovedData
  | EventRoomMessageCreated RoomMessageCreatedData
  | RoomMessageCreatedEvent RoomMessageCreatedData

text \<open>An event is named after its Go type.\<close>

fun roomEventName :: "RoomEvent \<Rightarrow> string" where
  "roomEventName (EventRoomCreated _) = ''EventRoomCreated''"
| "roomEventName (EventRoomOwnerChanged _) = ''EventRoomOwnerChanged''"
| "roomEventName (EventRoomDetailsUpdated _) = ''EventRoomDetailsUpdated''"
| "roomEventName (EventRoomMessagePinned _) = ''EventRoomMessagePinned''"
| "roomEventName (EventRoomMemberAdded _) = ''EventRoomMemberAdded''"
| "roomEventName (EventRoomMemberRemoved _) = ''EventRoomMemberRemoved''"
| "roomEventName (EventRoomMessageCreated _) = ''EventRoomMessageCreated''"
| "roomEventName (RoomMessageCreatedEvent _) = ''RoomMessageCreatedEvent''"

definition roomRegisterEvents :: "string list" where
  "roomRegisterEvents = [''EventRoomCreated'', ''EventRoomOwnerChanged'', ''EventRoomDetailsUpdated'', ''EventRoomMessagePinned'',
     ''EventRoomMemberAdded'', ''EventRoomMemberRemoved'', ''EventRoomMessageCreated'', ''RoomMessageCreatedEvent'']"

section \<open>The room aggregate\<close>

abbreviation ErrRoomAggregateIDMismatch :: error where "ErrRoomAggregateIDMismatch \<equiv> Sentinel ''ErrRoomAggregateIDMismatch''"
abbreviation ErrRoomEventOccurredAtRequired :: error where "ErrRoomEventOccurredAtRequired \<equiv> Sentinel ''ErrRoomEventOccurredAtRequired''"
abbreviation ErrRoomAggregateNil :: error where "ErrRoomAggregateNil \<equiv> Sentinel ''ErrRoomAggregateNil''"
abbreviation ErrMessageAggregateNil :: error where "ErrMessageAggregateNil \<equiv> Sentinel ''ErrMessageAggregateNil''"

record PendingMessageReceipt =
  pr_MessageID :: string
  pr_AccountID :: string
  pr_Status :: string
  pr_DeliveredAt :: "gotime option"
  pr_SeenAt :: "gotime option"
  pr_CreatedAt :: gotime
  pr_UpdatedAt :: gotime

record 'p PendingRoomOutboxEvent =
  po_EventName :: string
  po_Payload :: 'p
  po_CreatedAt :: gotime

record MessageSenderIdentity =
  si_Name :: string
  si_Email :: string

record MessageOutboxPayload =
  op_Mentions :: "RoomMessageMention list"
  op_MentionAll :: bool
  op_MentionedAccountIDs :: "string list"

record UpdateGroupDetailsParams =
  up_ActorID :: string
  up_Name :: string
  up_Description :: string
  up_Now :: gotime
  up_SystemActorID :: string

record RoomAggregate = "RoomEvent AggregateRoot" +
  ra_room :: "Room option"
  ra_members :: "string \<rightharpoonup> RoomMemberEntity"
  ra_memberOrder :: "string list"
  ra_isNew :: bool
  ra_roomDirty :: bool
  ra_roomDeleted :: bool
  ra_pendingMessages :: "MessageEntity list"
  ra_pendingReceipts :: "PendingMessageReceipt list"
  ra_memberUpserts :: "(string \<times> RoomMemberEntity) list"
  ra_removedMemberIDs :: "string list"

definition emptyAggregate :: "Room option \<Rightarrow> RoomAggregate" where
  "emptyAggregate r = AggregateRoot.extend emptyRoot
     \<lparr>ra_room = r, ra_members = Map.empty, ra_memberOrder = [], ra_isNew = False, ra_roomDirty = False, ra_roomDeleted = False,
      ra_pendingMessages = [], ra_pendingReceipts = [], ra_memberUpserts = [], ra_removedMemberIDs = []\<rparr>"

text \<open>The room of an aggregate that has one; every use follows a test that it is not \<^verbatim>\<open>nil\<close>.\<close>

definition roomOf :: "RoomAggregate \<Rightarrow> Room" where
  "roomOf a = the (ra_room a)"

definition ensureRoomID :: "RoomAggregate \<Rightarrow> string \<Rightarrow> error + RoomAggregate" where
  "ensureRoomID a roomID =
     (if TrimSpace roomID = [] then Inl ErrRoomIDRequired
      else if aggregateID a = [] then SetID a (TrimSpace roomID)
      else if aggregateID a \<noteq> TrimSpace roomID then Inl ErrRoomAggregateIDMismatch
      else Inr a)"

definition zeroRoom :: Room where
  "zeroRoom = \<lparr>rm_ID = [], rm_Name = [], rm_Description = [], rm_OwnerID = [], rm_RoomType = [], rm_DirectKey = [], rm_PinnedMessageID = [],
     rm_CreatedAt = zeroTime, rm_UpdatedAt = zeroTime\<rparr>"

definition applyRoomCreated :: "RoomAggregate \<Rightarrow> string \<Rightarrow> EventRoomCreatedData \<Rightarrow> RoomAggregate" where
  "applyRoomCreated a aggID data =
     (let r = (case ra_room a of None \<Rightarrow> zeroRoom | Some r \<Rightarrow> r)
      in a\<lparr>ra_room := Some (r\<lparr>rm_ID := aggID, rm_RoomType := rc_RoomType data\<rparr>)\<rparr>)"

definition roomTransition :: "RoomAggregate \<Rightarrow> RoomEvent Event \<Rightarrow> error + RoomAggregate" where
  "roomTransition a e = (case ev_EventData e of
      EventRoomCreated data \<Rightarrow> Inr (applyRoomCreated a (ev_AggregateID e) data)
    | EventRoomOwnerChanged data \<Rightarrow> ensureRoomID a (ro_RoomID data)
    | EventRoomDetailsUpdated data \<Rightarrow> ensureRoomID a (rd_RoomID data)
    | EventRoomMessagePinned data \<Rightarrow> ensureRoomID a (rp_RoomID data)
    | EventRoomMemberAdded data \<Rightarrow> ensureRoomID a (ea_RoomID data)
    | EventRoomMemberRemoved data \<Rightarrow> ensureRoomID a (er_RoomID data)
    | EventRoomMessageCreated data \<Rightarrow> ensureRoomID a (em_RoomID data)
    | RoomMessageCreatedEvent data \<Rightarrow> ensureRoomID a (em_RoomID data))"

definition UnixMilli :: "gotime \<Rightarrow> int" where
  "UnixMilli t = nanos t div 1000000 - 62135596800000"

text \<open>The recorded event carries the caller's instant.\<close>

definition stampLast :: "gotime \<Rightarrow> RoomAggregate \<Rightarrow> RoomAggregate" where
  "stampLast createdAt a = (if events a = [] then a
     else a\<lparr>events := butlast (events a) @ [(last (events a))\<lparr>ev_CreatedAt := UnixMilli (UTC createdAt)\<rparr>]\<rparr>)"

definition recordEvent :: "RoomAggregate \<Rightarrow> RoomEvent \<Rightarrow> gotime \<Rightarrow> (error + unit) \<times> RoomAggregate" where
  "recordEvent a d createdAt = (case ApplyChange roomEventName roomTransition a (Some d) of
      (Inl e, b) \<Rightarrow> (Inl e, b)
    | (Inr u, b) \<Rightarrow> (Inr (), stampLast createdAt b))"

definition attachRestoredMember :: "RoomAggregate \<Rightarrow> RoomMemberEntity option \<Rightarrow> error + RoomAggregate" where
  "attachRestoredMember a member = (case member of
      None \<Rightarrow> Inl ErrRoomMemberRequired
    | Some m \<Rightarrow> let acc = TrimSpace (mb_AccountID m)
        in if acc = [] then Inl ErrRoomMemberAccountRequired
           else Inr (a\<lparr>ra_memberOrder := (if ra_members a acc = None then ra_memberOrder a @ [acc] else ra_memberOrder a),
                       ra_members := (ra_members a)(acc \<mapsto> m)\<rparr>))"

definition attachMember :: "RoomAggregate \<Rightarrow> RoomMemberEntity \<Rightarrow> error + RoomAggregate" where
  "attachMember a m = andThen (attachRestoredMember a (Some m)) (\<lambda>b.
     Inr (b\<lparr>ra_memberUpserts := AList.update (TrimSpace (mb_AccountID m)) m (ra_memberUpserts b)\<rparr>))"

fun attachAll :: "RoomAggregate \<Rightarrow> RoomMemberEntity option list \<Rightarrow> error + RoomAggregate" where
  "attachAll a [] = Inr a"
| "attachAll a (m # ms) = andThen (attachRestoredMember a m) (\<lambda>b. attachAll b ms)"

definition roomAggregateType :: string where "roomAggregateType = ''RoomAggregate''"

definition RestoreRoomAggregate :: "Room option \<Rightarrow> RoomMemberEntity option list \<Rightarrow> int \<Rightarrow> error + RoomAggregate" where
  "RestoreRoomAggregate room members bv = (case room of
      None \<Rightarrow> Inl ErrRoomAggregateNil
    | Some r \<Rightarrow> andThen (InitAggregate roomAggregateType (emptyAggregate room) (rm_ID r)) (\<lambda>a.
        attachAll (SetInternal a (rm_ID r) bv bv) members))"

definition NewRoomAggregate :: "string \<Rightarrow> error + RoomAggregate" where
  "NewRoomAggregate roomID = InitAggregate roomAggregateType (emptyAggregate None) roomID"

definition Members :: "RoomAggregate \<Rightarrow> RoomMemberEntity list" where
  "Members a = List.map_filter (ra_members a) (ra_memberOrder a)"

definition requireMember :: "RoomAggregate \<Rightarrow> string \<Rightarrow> error + RoomMemberEntity" where
  "requireMember a accountID =
     (if ra_room a = None then Inl ErrRoomAggregateNil
      else case ra_members a (TrimSpace accountID) of None \<Rightarrow> Inl ErrRoomMemberRequired | Some m \<Rightarrow> Inr m)"

text \<open>
  Sequencing in the code's style: \<open>checked\<close> returns on the error of a test with the aggregate as it stands, \<open>andNext\<close> on the error of
  a step with the aggregate that step left.
\<close>

definition checked :: "error + 'a \<Rightarrow> 's \<Rightarrow> ('a \<Rightarrow> (error + 'b) \<times> 's) \<Rightarrow> (error + 'b) \<times> 's" where
  "checked r s f = (case r of Inl e \<Rightarrow> (Inl e, s) | Inr x \<Rightarrow> f x)"

definition andNext :: "(error + 'a) \<times> 's \<Rightarrow> ('a \<Rightarrow> 's \<Rightarrow> (error + 'b) \<times> 's) \<Rightarrow> (error + 'b) \<times> 's" where
  "andNext p f = (case p of (Inl e, s) \<Rightarrow> (Inl e, s) | (Inr x, s) \<Rightarrow> f x s)"

definition touchRoom :: "gotime \<Rightarrow> gotime \<Rightarrow> RoomAggregate \<Rightarrow> RoomAggregate" where
  "touchRoom clock now a = a\<lparr>ra_room := Some (Touch clock now (roomOf a)), ra_roomDirty := True\<rparr>"

definition recordMessageCreated :: "RoomAggregate \<Rightarrow> MessageEntity \<Rightarrow> MessageSenderIdentity \<Rightarrow> MessageOutboxPayload \<Rightarrow> gotime \<Rightarrow>
    (error + unit) \<times> RoomAggregate" where
  "recordMessageCreated a message sender outbox now = recordEvent a (RoomMessageCreatedEvent
     \<lparr>em_RoomID = rm_ID (roomOf a), em_RoomName = rm_Name (roomOf a), em_RoomType = rm_RoomType (roomOf a), em_MessageID = me_ID message,
      em_MessageContent = me_Message message, em_MessageType = me_MessageType message, em_ReplyToMessageID = me_ReplyToMessageID message,
      em_ForwardedFromMessageID = me_ForwardedFromMessageID message, em_FileName = me_FileName message, em_FileSize = me_FileSize message,
      em_MimeType = me_MimeType message, em_ObjectKey = me_ObjectKey message, em_MessageSenderID = me_SenderID message,
      em_MessageSenderName = TrimSpace (si_Name sender), em_MessageSenderEmail = TrimSpace (si_Email sender),
      em_MessageSentAt = me_CreatedAt message, em_Mentions = op_Mentions outbox, em_MentionAll = op_MentionAll outbox,
      em_MentionedAccountIDs = op_MentionedAccountIDs outbox\<rparr>) now"

definition systemParams :: "string \<Rightarrow> MessageParams" where
  "systemParams body = \<lparr>mp_Message = body, mp_MessageType = MessageTypeSystem, mp_Mentions = [], mp_MentionAll = False,
     mp_ReplyToMessageID = [], mp_ForwardedFromMessageID = [], mp_FileName = [], mp_FileSize = 0, mp_MimeType = [], mp_ObjectKey = []\<rparr>"

definition appendSystemMessage :: "gotime \<Rightarrow> string \<Rightarrow> RoomAggregate \<Rightarrow> string \<Rightarrow> string \<Rightarrow> gotime \<Rightarrow> (error + MessageEntity) \<times> RoomAggregate" where
  "appendSystemMessage clock newID a actorID body now =
     checked (NewMessage clock newID (rm_ID (roomOf a)) actorID (systemParams body) now) a (\<lambda>message.
       andNext (recordMessageCreated (touchRoom clock now (a\<lparr>ra_pendingMessages := ra_pendingMessages a @ [message]\<rparr>)) message
           \<lparr>si_Name = actorID, si_Email = []\<rparr> \<lparr>op_Mentions = [], op_MentionAll = False, op_MentionedAccountIDs = []\<rparr> now)
         (\<lambda>u b. (Inr message, b)))"

definition RecordCreated :: "RoomAggregate \<Rightarrow> int \<Rightarrow> gotime \<Rightarrow> (error + unit) \<times> RoomAggregate" where
  "RecordCreated a memberCount now = (case ra_room a of None \<Rightarrow> (Inl ErrRoomAggregateNil, a)
     | Some r \<Rightarrow> recordEvent a (EventRoomCreated \<lparr>rc_RoomID = rm_ID r, rc_RoomType = rm_RoomType r, rc_MemberCount = memberCount,
         rc_LastMessageID = [], rc_LastMessageAt = zeroTime, rc_LastMessageContent = [], rc_LastMessageSenderID = []\<rparr>) now)"

text \<open>A conversation that cannot be set up is dropped by the caller, so the result is an error or the aggregate.\<close>

definition resultOf :: "(error + 'a) \<times> 's \<Rightarrow> error + 's" where
  "resultOf p = (case fst p of Inl e \<Rightarrow> Inl e | Inr x \<Rightarrow> Inr (snd p))"

definition NewConversationRoomAggregate :: "gotime \<Rightarrow> string \<Rightarrow> Room option \<Rightarrow> RoomMemberEntity option list \<Rightarrow> string \<Rightarrow> string \<Rightarrow> gotime \<Rightarrow>
    error + RoomAggregate" where
  "NewConversationRoomAggregate clock newID room members systemActorID systemMessage now =
     andThen (RestoreRoomAggregate room members 0) (\<lambda>a.
       let b = a\<lparr>ra_isNew := True, ra_roomDirty := True,
                 ra_memberUpserts := foldl (\<lambda>ups m. AList.update (TrimSpace (mb_AccountID m)) m ups) (ra_memberUpserts a) (Members a)\<rparr>
       in resultOf (andNext (RecordCreated b (int (length (Members b))) (rm_CreatedAt (roomOf b))) (\<lambda>u c.
            if TrimSpace systemMessage \<noteq> [] then andNext (appendSystemMessage clock newID c systemActorID systemMessage now) (\<lambda>m d. (Inr (), d))
            else (Inr (), c))))"

section \<open>What waits to be persisted\<close>

definition roomPendingOutboxEvents :: "gotime \<Rightarrow> RoomAggregate \<Rightarrow> RoomEvent PendingRoomOutboxEvent list" where
  "roomPendingOutboxEvents clock a = map (\<lambda>e. \<lparr>po_EventName = ev_EventName e, po_Payload = ev_EventData e,
     po_CreatedAt = (if 0 < ev_CreatedAt e then GoTime ((ev_CreatedAt e + 62135596800000) * 1000000) ''UTC'' else UTC clock)\<rparr>) (CloneEvents a)"

definition PendingMemberUpserts :: "RoomAggregate \<Rightarrow> RoomMemberEntity list" where
  "PendingMemberUpserts a = map snd (ra_memberUpserts a)"

definition roomMarkPersisted :: "RoomAggregate \<Rightarrow> int \<Rightarrow> RoomAggregate" where
  "roomMarkPersisted a bv = (MarkPersisted (SetInternal a (rm_ID (roomOf a)) bv bv))\<lparr>ra_isNew := False, ra_roomDirty := False,
     ra_pendingMessages := [], ra_pendingReceipts := [], ra_memberUpserts := [], ra_removedMemberIDs := []\<rparr>"

definition HasPendingRoomWrite :: "RoomAggregate \<Rightarrow> bool" where
  "HasPendingRoomWrite a \<longleftrightarrow> ra_roomDeleted a \<or> ra_roomDirty a \<or> 0 < length (ra_memberUpserts a) \<or> 0 < length (ra_removedMemberIDs a) \<or>
     0 < length (ra_pendingMessages a) \<or> 0 < length (ra_pendingReceipts a) \<or> 0 < length (events a)"

section \<open>Commands on a room\<close>

definition ChangeOwner :: "gotime \<Rightarrow> RoomAggregate \<Rightarrow> string \<Rightarrow> gotime \<Rightarrow> (error + bool) \<times> RoomAggregate" where
  "ChangeOwner clock a ownerID updatedAt = (case ra_room a of None \<Rightarrow> (Inl ErrRoomAggregateNil, a)
     | Some r \<Rightarrow> checked (roomChangeOwner clock r ownerID updatedAt) a (\<lambda>(changed, r').
         if \<not> changed then (Inr False, a)
         else andNext (recordEvent (a\<lparr>ra_room := Some r', ra_roomDirty := True\<rparr>) (EventRoomOwnerChanged
             \<lparr>ro_RoomID = rm_ID r', ro_PreviousOwnerID = rm_OwnerID r, ro_OwnerID = rm_OwnerID r', ro_ChangedAt = rm_UpdatedAt r'\<rparr>) (rm_UpdatedAt r'))
           (\<lambda>u b. (Inr True, b))))"

definition recordRoomDetailsUpdated :: "RoomAggregate \<Rightarrow> gotime \<Rightarrow> (error + unit) \<times> RoomAggregate" where
  "recordRoomDetailsUpdated a updatedAt = recordEvent a (EventRoomDetailsUpdated
     \<lparr>rd_RoomID = rm_ID (roomOf a), rd_Name = rm_Name (roomOf a), rd_Description = rm_Description (roomOf a),
      rd_RoomType = rm_RoomType (roomOf a), rd_UpdatedAt = updatedAt\<rparr>) updatedAt"

definition UpdateRoomDetails :: "gotime \<Rightarrow> RoomAggregate \<Rightarrow> string \<Rightarrow> string \<Rightarrow> string \<Rightarrow> gotime \<Rightarrow> (error + bool) \<times> RoomAggregate" where
  "UpdateRoomDetails clock a name description roomType updatedAt = (case ra_room a of None \<Rightarrow> (Inl ErrRoomAggregateNil, a)
     | Some r \<Rightarrow> (case UpdateDetails clock r name description roomType updatedAt of
         (Inl e, r') \<Rightarrow> (Inl e, a\<lparr>ra_room := Some r'\<rparr>)
       | (Inr updated, r') \<Rightarrow>
           if \<not> updated then (Inr False, a\<lparr>ra_room := Some r'\<rparr>)
           else andNext (recordRoomDetailsUpdated (a\<lparr>ra_room := Some r', ra_roomDirty := True\<rparr>) (rm_UpdatedAt r')) (\<lambda>u b. (Inr True, b))))"

definition UpdateGroupDetails :: "gotime \<Rightarrow> string \<Rightarrow> RoomAggregate \<Rightarrow> UpdateGroupDetailsParams \<Rightarrow> (error + bool) \<times> RoomAggregate" where
  "UpdateGroupDetails clock newID a params =
     checked (requireMember a (up_ActorID params)) a (\<lambda>actor.
     checked (CanManageGroup actor (roomOf a)) a (\<lambda>u.
       case UpdateDetails clock (roomOf a) (up_Name params) (up_Description params) [] (up_Now params) of
         (Inl e, r') \<Rightarrow> (Inl e, a\<lparr>ra_room := Some r'\<rparr>)
       | (Inr updated, r') \<Rightarrow>
           if \<not> updated then (Inr False, a\<lparr>ra_room := Some r'\<rparr>)
           else andNext (recordRoomDetailsUpdated (a\<lparr>ra_room := Some r', ra_roomDirty := True\<rparr>) (rm_UpdatedAt r')) (\<lambda>u b.
             andNext (appendSystemMessage clock newID b (up_SystemActorID params) (''group renamed to '' @ rm_Name (roomOf b)) (up_Now params))
               (\<lambda>m c. (Inr True, c)))))"

definition AddMember :: "gotime \<Rightarrow> string \<Rightarrow> RoomAggregate \<Rightarrow> string \<Rightarrow> RoomMemberEntity option \<Rightarrow> gotime \<Rightarrow> string \<Rightarrow>
    (error + bool) \<times> RoomAggregate" where
  "AddMember clock newID a actorID member now systemActorID =
     checked (requireMember a actorID) a (\<lambda>actor.
     checked (CanManageGroup actor (roomOf a)) a (\<lambda>u.
       case member of
         None \<Rightarrow> (Inl ErrRoomMemberRequired, a)
       | Some m \<Rightarrow>
           if ra_members a (TrimSpace (mb_AccountID m)) \<noteq> None then (Inr False, a)
           else checked (attachMember a m) a (\<lambda>b.
             andNext (recordEvent (touchRoom clock now b) (EventRoomMemberAdded
                 \<lparr>ea_RoomID = rm_ID (roomOf b), ea_MemberID = mb_AccountID m, ea_RoomMemberID = mb_ID m, ea_MemberName = mb_DisplayName m,
                  ea_MemberEmail = [], ea_MemberUsername = mb_Username m, ea_MemberAvatarKey = mb_AvatarObjectKey m, ea_MemberRole = mb_Role m,
                  ea_MemberJoinedAt = mb_CreatedAt m, ea_MemberStateUpdatedAt = mb_UpdatedAt m\<rparr>) now) (\<lambda>u c.
             andNext (appendSystemMessage clock newID c systemActorID (mb_AccountID m @ '' joined'') now) (\<lambda>msg d. (Inr True, d))))))"

definition RemoveMember :: "gotime \<Rightarrow> string \<Rightarrow> RoomAggregate \<Rightarrow> string \<Rightarrow> string \<Rightarrow> gotime \<Rightarrow> string \<Rightarrow> (error + bool) \<times> RoomAggregate" where
  "RemoveMember clock newID a actorID targetAccountID now systemActorID =
     checked (requireMember a actorID) a (\<lambda>actor.
     checked (CanRemoveFrom actor (roomOf a) targetAccountID) a (\<lambda>u.
       let target = TrimSpace targetAccountID
       in case ra_members a target of
            None \<Rightarrow> (Inl ErrRoomMemberRequired, a)
          | Some removed \<Rightarrow>
              andNext (recordEvent (a\<lparr>ra_members := (ra_members a)(target := None), ra_removedMemberIDs := ra_removedMemberIDs a @ [target],
                  ra_memberUpserts := AList.delete target (ra_memberUpserts a)\<rparr>) (EventRoomMemberRemoved
                  \<lparr>er_RoomID = rm_ID (roomOf a), er_MemberID = mb_AccountID removed, er_RoomMemberID = mb_ID removed,
                   er_MemberName = mb_DisplayName removed, er_MemberEmail = [], er_MemberUsername = mb_Username removed,
                   er_MemberRole = mb_Role removed, er_MemberJoinedAt = mb_CreatedAt removed, er_RemovedAt = UTC now\<rparr>) now) (\<lambda>u b.
              andNext (appendSystemMessage clock newID (touchRoom clock now b) systemActorID (target @ '' left'') now) (\<lambda>msg c. (Inr True, c)))))"

definition PinMessage :: "gotime \<Rightarrow> string \<Rightarrow> RoomAggregate \<Rightarrow> string \<Rightarrow> string \<Rightarrow> gotime \<Rightarrow> string \<Rightarrow> (error + unit) \<times> RoomAggregate" where
  "PinMessage clock newID a actorID messageID now systemActorID =
     checked (requireMember a actorID) a (\<lambda>actor.
     checked (CanManageGroup actor (roomOf a)) a (\<lambda>u.
     checked (roomPinMessage clock (roomOf a) messageID now) a (\<lambda>r.
       andNext (recordEvent (a\<lparr>ra_room := Some r, ra_roomDirty := True\<rparr>) (EventRoomMessagePinned
           \<lparr>rp_RoomID = rm_ID r, rp_PinnedMessageID = rm_PinnedMessageID r, rp_PinnedAt = rm_UpdatedAt r\<rparr>) now) (\<lambda>u b.
       andNext (appendSystemMessage clock newID b systemActorID (''message '' @ rm_PinnedMessageID (roomOf b) @ '' pinned'') now)
         (\<lambda>msg c. (Inr (), c))))))"

definition receiptFor :: "string \<Rightarrow> gotime \<Rightarrow> RoomMemberEntity \<Rightarrow> PendingMessageReceipt" where
  "receiptFor messageID now m = \<lparr>pr_MessageID = messageID, pr_AccountID = mb_AccountID m, pr_Status = ''sent'', pr_DeliveredAt = None,
     pr_SeenAt = None, pr_CreatedAt = UTC now, pr_UpdatedAt = UTC now\<rparr>"

definition SendMessage :: "gotime \<Rightarrow> RoomAggregate \<Rightarrow> string \<Rightarrow> string \<Rightarrow> MessageParams \<Rightarrow> MessageSenderIdentity \<Rightarrow> MessageOutboxPayload \<Rightarrow> gotime \<Rightarrow>
    (error + MessageEntity) \<times> RoomAggregate" where
  "SendMessage clock a messageID senderID params sender outbox now =
     checked (requireMember a senderID) a (\<lambda>m.
     checked (NewMessage clock messageID (rm_ID (roomOf a)) senderID params now) a (\<lambda>message.
       let others = filter (\<lambda>m. TrimSpace (mb_AccountID m) \<noteq> TrimSpace senderID) (Members a)
       in andNext (recordMessageCreated (touchRoom clock now (a\<lparr>ra_pendingMessages := ra_pendingMessages a @ [message],
              ra_pendingReceipts := ra_pendingReceipts a @ map (receiptFor (me_ID message) now) others\<rparr>)) message sender outbox now)
            (\<lambda>u b. (Inr message, b))))"

section \<open>Commands that record events by themselves\<close>

definition normalizeRoomEventOccurredAt :: "gotime \<Rightarrow> error + gotime" where
  "normalizeRoomEventOccurredAt value = (if IsZero value then Inl ErrRoomEventOccurredAtRequired else Inr (UTC value))"

definition RecordRoomCreated :: "gotime \<Rightarrow> RoomAggregate \<Rightarrow> string \<Rightarrow> int \<Rightarrow> (error + unit) \<times> RoomAggregate" where
  "RecordRoomCreated clock a roomType memberCount = recordEvent a (EventRoomCreated
     \<lparr>rc_RoomID = aggregateID a, rc_RoomType = roomType, rc_MemberCount = memberCount, rc_LastMessageID = [], rc_LastMessageAt = zeroTime,
      rc_LastMessageContent = [], rc_LastMessageSenderID = []\<rparr>) (UTC clock)"

definition RecordMemberAdded :: "RoomAggregate \<Rightarrow> string \<Rightarrow> string \<Rightarrow> gotime \<Rightarrow> (error + unit) \<times> RoomAggregate" where
  "RecordMemberAdded a memberID memberRole joinedAt =
     checked (normalizeRoomEventOccurredAt joinedAt) a (\<lambda>at. recordEvent a (EventRoomMemberAdded
       \<lparr>ea_RoomID = aggregateID a, ea_MemberID = memberID, ea_RoomMemberID = [], ea_MemberName = [], ea_MemberEmail = [], ea_MemberUsername = [],
        ea_MemberAvatarKey = [], ea_MemberRole = memberRole, ea_MemberJoinedAt = at, ea_MemberStateUpdatedAt = zeroTime\<rparr>) at)"

definition RecordMemberRemoved :: "RoomAggregate \<Rightarrow> string \<Rightarrow> string \<Rightarrow> gotime \<Rightarrow> (error + unit) \<times> RoomAggregate" where
  "RecordMemberRemoved a memberID memberRole removedAt =
     checked (normalizeRoomEventOccurredAt removedAt) a (\<lambda>at. recordEvent a (EventRoomMemberRemoved
       \<lparr>er_RoomID = aggregateID a, er_MemberID = memberID, er_RoomMemberID = [], er_MemberName = [], er_MemberEmail = [], er_MemberUsername = [],
        er_MemberRole = memberRole, er_MemberJoinedAt = at, er_RemovedAt = zeroTime\<rparr>) at)"

record Sender =
  sd_ID :: string
  sd_Name :: string
  sd_Email :: string

record MessageReference =
  rf_ReplyToMessageID :: string
  rf_ForwardedFromMessageID :: string

record MessageMentions =
  mt_Items :: "RoomMessageMention list"
  mt_MentionAll :: bool
  mt_AccountIDs :: "string list"

record FileAttachment =
  fa_FileName :: string
  fa_MimeType :: string
  fa_ObjectKey :: string
  fa_FileSize :: int64

definition RecordMessageCreated :: "RoomAggregate \<Rightarrow> string \<Rightarrow> string \<Rightarrow> string \<Rightarrow> gotime \<Rightarrow> Sender \<Rightarrow> MessageReference \<Rightarrow> MessageMentions \<Rightarrow>
    FileAttachment option \<Rightarrow> (error + unit) \<times> RoomAggregate" where
  "RecordMessageCreated a messageID content messageType sentAt sender reference mentions attachment =
     checked (normalizeRoomEventOccurredAt sentAt) a (\<lambda>at.
       let att = (case attachment of None \<Rightarrow> \<lparr>fa_FileName = [], fa_MimeType = [], fa_ObjectKey = [], fa_FileSize = 0\<rparr> | Some f \<Rightarrow> f);
           roomName = (case ra_room a of None \<Rightarrow> [] | Some r \<Rightarrow> rm_Name r); roomType = (case ra_room a of None \<Rightarrow> [] | Some r \<Rightarrow> rm_RoomType r)
       in recordEvent a (EventRoomMessageCreated
         \<lparr>em_RoomID = aggregateID a, em_RoomName = roomName, em_RoomType = roomType, em_MessageID = messageID, em_MessageContent = content,
          em_MessageType = messageType, em_ReplyToMessageID = rf_ReplyToMessageID reference,
          em_ForwardedFromMessageID = rf_ForwardedFromMessageID reference, em_FileName = fa_FileName att, em_FileSize = fa_FileSize att,
          em_MimeType = fa_MimeType att, em_ObjectKey = fa_ObjectKey att, em_MessageSenderID = sd_ID sender, em_MessageSenderName = sd_Name sender,
          em_MessageSenderEmail = sd_Email sender, em_MessageSentAt = at, em_Mentions = mt_Items mentions, em_MentionAll = mt_MentionAll mentions,
          em_MentionedAccountIDs = mt_AccountIDs mentions\<rparr>) at)"

section \<open>The state of one message\<close>

record PendingMessageDeletion =
  pd_MessageID :: string
  pd_AccountID :: string
  pd_CreatedAt :: gotime

record MessageStateAggregate =
  ms_message :: MessageEntity
  ms_recipientMember :: "RoomMemberEntity option"
  ms_messageDirty :: bool
  ms_memberDirty :: bool
  ms_pendingDeletion :: "PendingMessageDeletion option"
  ms_pendingReceipt :: "PendingMessageReceipt option"

text \<open>Both constructors refuse a \<^verbatim>\<open>nil\<close> message, so an aggregate always has one.\<close>

definition NewMessageStateAggregateForRecipient :: "MessageEntity option \<Rightarrow> RoomMemberEntity option \<Rightarrow> error + MessageStateAggregate" where
  "NewMessageStateAggregateForRecipient message recipient = (case message of None \<Rightarrow> Inl ErrMessageAggregateNil
     | Some m \<Rightarrow> Inr \<lparr>ms_message = m, ms_recipientMember = recipient, ms_messageDirty = False, ms_memberDirty = False,
         ms_pendingDeletion = None, ms_pendingReceipt = None\<rparr>)"

definition NewMessageStateAggregate :: "MessageEntity option \<Rightarrow> error + MessageStateAggregate" where
  "NewMessageStateAggregate message = NewMessageStateAggregateForRecipient message None"

definition messageMarkPersisted :: "MessageStateAggregate \<Rightarrow> MessageStateAggregate" where
  "messageMarkPersisted a = a\<lparr>ms_messageDirty := False, ms_memberDirty := False, ms_pendingDeletion := None, ms_pendingReceipt := None\<rparr>"

definition Edit :: "gotime \<Rightarrow> MessageStateAggregate \<Rightarrow> string \<Rightarrow> string \<Rightarrow> gotime \<Rightarrow> error + MessageStateAggregate" where
  "Edit clock a actorID content editedAt = andThen (messageEdit clock (ms_message a) actorID content editedAt) (\<lambda>m.
     Inr (a\<lparr>ms_message := m, ms_messageDirty := True\<rparr>))"

definition ToggleReaction :: "gotime \<Rightarrow> MessageStateAggregate \<Rightarrow> string \<Rightarrow> string \<Rightarrow> gotime \<Rightarrow> error + MessageStateAggregate" where
  "ToggleReaction clock a accountID emoji reactedAt = andThen (messageToggleReaction clock (ms_message a) accountID emoji reactedAt) (\<lambda>m.
     Inr (a\<lparr>ms_message := m, ms_messageDirty := True\<rparr>))"

definition Delete :: "gotime \<Rightarrow> MessageStateAggregate \<Rightarrow> string \<Rightarrow> string \<Rightarrow> string \<Rightarrow> gotime \<Rightarrow> error + MessageStateAggregate" where
  "Delete clock a actorID accountID scope now =
     (if Normalize scope \<in> {[], ''me''} then Inr (a\<lparr>ms_pendingDeletion := Some
        \<lparr>pd_MessageID = me_ID (ms_message a), pd_AccountID = TrimSpace accountID, pd_CreatedAt = UTC now\<rparr>\<rparr>)
      else if Normalize scope = ''everyone'' then andThen (DeleteForEveryone clock (ms_message a) actorID now) (\<lambda>m.
        Inr (a\<lparr>ms_message := m, ms_messageDirty := True\<rparr>))
      else Inl (Errorf ''scope must be one of: me, everyone'' []))"

definition MarkStatus :: "gotime \<Rightarrow> MessageStateAggregate \<Rightarrow> string \<Rightarrow> string \<Rightarrow> RoomMemberEntity option \<Rightarrow> gotime \<Rightarrow>
    error + bool \<times> MessageStateAggregate" where
  "MarkStatus clock a accountID status member now =
     (let acc = TrimSpace accountID
      in if acc = [] \<or> acc = TrimSpace (me_SenderID (ms_message a)) then Inr (False, a)
         else andThen (NormalizeReceiptStatus status) (\<lambda>st.
           let recipient = (case member of None \<Rightarrow> ms_recipientMember a | Some m \<Rightarrow> Some m);
               receipt = (\<lambda>s d e. \<lparr>pr_MessageID = me_ID (ms_message a), pr_AccountID = acc, pr_Status = s, pr_DeliveredAt = d, pr_SeenAt = e,
                 pr_CreatedAt = UTC now, pr_UpdatedAt = UTC now\<rparr>)
           in case recipient of
                None \<Rightarrow> Inr (True, a\<lparr>ms_recipientMember := None, ms_pendingReceipt := Some
                  (receipt st (Some (UTC now)) (if st = ''seen'' then Some (UTC now) else None))\<rparr>)
              | Some m \<Rightarrow> andThen (ApplyReceiptStatus clock m st now) (\<lambda>((s, d, e), m').
                  Inr (True, a\<lparr>ms_recipientMember := Some m', ms_memberDirty := True, ms_pendingReceipt := Some (receipt s d e)\<rparr>))))"

section \<open>Aggregates that stand for a stored room\<close>

text \<open>The root carries the id of the room, and every member is filed under its own account.\<close>

definition room_agg_ok :: "RoomAggregate \<Rightarrow> bool" where
  "room_agg_ok a \<longleftrightarrow> (\<exists>r. ra_room a = Some r \<and> rm_ID r = aggregateID a) \<and> aggregateID a \<noteq> [] \<and> trimmed (aggregateID a) \<and>
     (\<forall>k m. ra_members a k = Some m \<longrightarrow> k = mb_AccountID m \<and> trimmed k \<and> k \<noteq> [] \<and> k \<in> set (ra_memberOrder a))"

lemma room_agg_ok_room:
  assumes "room_agg_ok a" shows "ra_room a = Some (roomOf a)" "rm_ID (roomOf a) = aggregateID a" "aggregateID a \<noteq> []" "trimmed (aggregateID a)"
  using assms by (auto simp: room_agg_ok_def roomOf_def)

lemma room_agg_ok_member: "room_agg_ok a \<Longrightarrow> ra_members a k = Some m \<Longrightarrow> k = mb_AccountID m \<and> trimmed k \<and> k \<noteq> [] \<and> k \<in> set (ra_memberOrder a)"
  by (simp add: room_agg_ok_def)

lemma roomOf_update [simp]:
  "roomOf (a\<lparr>ra_room := Some r\<rparr>) = r" "roomOf (a\<lparr>ra_roomDirty := x\<rparr>) = roomOf a" "roomOf (a\<lparr>ra_pendingMessages := ms\<rparr>) = roomOf a"
  "roomOf (a\<lparr>ra_pendingReceipts := rs\<rparr>) = roomOf a" "roomOf (a\<lparr>ra_members := mm\<rparr>) = roomOf a" "roomOf (a\<lparr>ra_memberOrder := ks\<rparr>) = roomOf a"
  "roomOf (a\<lparr>ra_memberUpserts := us\<rparr>) = roomOf a" "roomOf (a\<lparr>ra_removedMemberIDs := ds\<rparr>) = roomOf a" "roomOf (a\<lparr>events := es\<rparr>) = roomOf a"
  by (simp_all add: roomOf_def)

text \<open>The aggregate after one more event.\<close>

definition recorded :: "RoomAggregate \<Rightarrow> RoomEvent \<Rightarrow> gotime \<Rightarrow> RoomAggregate" where
  "recorded a d t = a\<lparr>events := events a @ [(newEvent roomEventName a d)\<lparr>ev_CreatedAt := UnixMilli (UTC t)\<rparr>]\<rparr>"

fun eventRoomID :: "RoomEvent \<Rightarrow> string" where
  "eventRoomID (EventRoomCreated d) = []"
| "eventRoomID (EventRoomOwnerChanged d) = ro_RoomID d"
| "eventRoomID (EventRoomDetailsUpdated d) = rd_RoomID d"
| "eventRoomID (EventRoomMessagePinned d) = rp_RoomID d"
| "eventRoomID (EventRoomMemberAdded d) = ea_RoomID d"
| "eventRoomID (EventRoomMemberRemoved d) = er_RoomID d"
| "eventRoomID (EventRoomMessageCreated d) = em_RoomID d"
| "eventRoomID (RoomMessageCreatedEvent d) = em_RoomID d"

lemma recordEvent_ok:
  assumes "aggregateID a \<noteq> []" "trimmed (aggregateID a)" "eventRoomID d = aggregateID a"
  shows "recordEvent a d t = (Inr (), recorded a d t)"
proof -
  have "roomTransition (a\<lparr>events := es\<rparr>) (newEvent roomEventName a d) = Inr (a\<lparr>events := es\<rparr>)" for es
    using assms by (cases d) (simp_all add: roomTransition_def newEvent_def ensureRoomID_def TrimSpace_trimmed)
  moreover have "roomEventName d \<noteq> []" by (cases d) simp_all
  ultimately show ?thesis using assms(1)
    by (simp add: recordEvent_def apply_change_defs Let_def stampLast_def recorded_def)
qed

lemma recorded_fields [simp]:
  "ra_room (recorded a d t) = ra_room a" "ra_members (recorded a d t) = ra_members a" "ra_memberOrder (recorded a d t) = ra_memberOrder a"
  "aggregateID (recorded a d t) = aggregateID a" "ra_pendingReceipts (recorded a d t) = ra_pendingReceipts a"
  "ra_pendingMessages (recorded a d t) = ra_pendingMessages a" "ra_memberUpserts (recorded a d t) = ra_memberUpserts a"
  "ra_removedMemberIDs (recorded a d t) = ra_removedMemberIDs a" "roomOf (recorded a d t) = roomOf a"
  by (simp_all add: recorded_def roomOf_def)

lemma touchRoom_fields [simp]:
  "ra_members (touchRoom clock now a) = ra_members a" "ra_memberOrder (touchRoom clock now a) = ra_memberOrder a"
  "aggregateID (touchRoom clock now a) = aggregateID a" "ra_pendingReceipts (touchRoom clock now a) = ra_pendingReceipts a"
  "ra_pendingMessages (touchRoom clock now a) = ra_pendingMessages a" "ra_memberUpserts (touchRoom clock now a) = ra_memberUpserts a"
  "ra_removedMemberIDs (touchRoom clock now a) = ra_removedMemberIDs a" "roomOf (touchRoom clock now a) = Touch clock now (roomOf a)"
  "ra_room (touchRoom clock now a) = Some (Touch clock now (roomOf a))"
  by (simp_all add: touchRoom_def roomOf_def)

lemma Touch_fields [simp]:
  "rm_ID (Touch clock now r) = rm_ID r" "rm_Name (Touch clock now r) = rm_Name r" "rm_Description (Touch clock now r) = rm_Description r"
  "rm_OwnerID (Touch clock now r) = rm_OwnerID r" "rm_RoomType (Touch clock now r) = rm_RoomType r"
  "rm_PinnedMessageID (Touch clock now r) = rm_PinnedMessageID r" "rm_DirectKey (Touch clock now r) = rm_DirectKey r"
  by (simp_all add: Touch_def)

lemma NewMessage_system:
  assumes "TrimSpace newID \<noteq> []" "TrimSpace roomID \<noteq> []" "TrimSpace actorID \<noteq> []"
  obtains m where "NewMessage clock newID roomID actorID (systemParams body) now = Inr m" "me_RoomID m = TrimSpace roomID"
    "me_SenderID m = TrimSpace actorID" "me_MessageType m = MessageTypeSystem" "me_Message m = TrimSpace body"
proof -
  have "NormalizeMessageType MessageTypeSystem = MessageTypeSystem" by code_simp
  with assms that show thesis
    by (auto simp: NewMessage_def systemParams_def NormalizeMessageMentions_def Let_def)
qed

text \<open>A system message is recorded whatever its text; only the messages, the events and the room's time stamp change.\<close>

lemma appendSystemMessage_ok:
  assumes "room_agg_ok a" "TrimSpace newID \<noteq> []" "TrimSpace actorID \<noteq> []"
  obtains msg d where "appendSystemMessage clock newID a actorID body now =
      (Inr msg, recorded (touchRoom clock now (a\<lparr>ra_pendingMessages := ra_pendingMessages a @ [msg]\<rparr>)) (RoomMessageCreatedEvent d) now)"
    "me_RoomID msg = aggregateID a" "me_SenderID msg = TrimSpace actorID" "me_Message msg = TrimSpace body"
proof -
  note r = room_agg_ok_room [OF assms(1)]
  from NewMessage_system [of newID "rm_ID (roomOf a)" actorID clock body now] assms(2,3) r
  obtain msg where m: "NewMessage clock newID (rm_ID (roomOf a)) actorID (systemParams body) now = Inr msg"
    "me_RoomID msg = aggregateID a" "me_SenderID msg = TrimSpace actorID" "me_Message msg = TrimSpace body"
    by (auto simp: TrimSpace_trimmed)
  show thesis
    by (rule that [OF _ m(2-4)], simp add: appendSystemMessage_def checked_def m(1) recordMessageCreated_def,
        subst recordEvent_ok) (use r in \<open>auto simp: andNext_def roomOf_def\<close>)
qed

end
