(* ===== verification/RoomRules.thy ===== *)
theory RoomRules
  imports RoomAggregate
begin

text \<open>
  What the room aggregate promises: which commands it accepts, what they change, and that a refused command changes nothing. The commands are
  the calls the handlers of \<^verbatim>\<open>core/modules/room/application/command\<close> make, which pass the actor as the author of system messages.
\<close>

datatype RoomCommand =
    UpdateGroup string string string
  | AddTo string RoomMemberEntity
  | RemoveFrom string string
  | Pin string string
  | Send string string MessageParams MessageSenderIdentity MessageOutboxPayload

definition toUnit :: "(error + 'a) \<times> 's \<Rightarrow> (error + unit) \<times> 's" where
  "toUnit p = (case p of (Inl e, s) \<Rightarrow> (Inl e, s) | (Inr x, s) \<Rightarrow> (Inr (), s))"

fun runRoom :: "gotime \<Rightarrow> string \<Rightarrow> gotime \<Rightarrow> RoomCommand \<Rightarrow> RoomAggregate \<Rightarrow> (error + unit) \<times> RoomAggregate" where
  "runRoom clock newID now (UpdateGroup actor name description) a = toUnit (UpdateGroupDetails clock newID a
     \<lparr>up_ActorID = actor, up_Name = name, up_Description = description, up_Now = now, up_SystemActorID = actor\<rparr>)"
| "runRoom clock newID now (AddTo actor m) a = toUnit (AddMember clock newID a actor (Some m) now actor)"
| "runRoom clock newID now (RemoveFrom actor target) a = toUnit (RemoveMember clock newID a actor target now actor)"
| "runRoom clock newID now (Pin actor messageID) a = toUnit (PinMessage clock newID a actor messageID now actor)"
| "runRoom clock newID now (Send messageID sender params identity outbox) a =
     toUnit (SendMessage clock a messageID sender params identity outbox now)"

section \<open>The rules\<close>

abbreviation member :: "RoomAggregate \<Rightarrow> string \<Rightarrow> RoomMemberEntity option" where
  "member a account \<equiv> ra_members a (TrimSpace account)"

definition manages :: "RoomAggregate \<Rightarrow> string \<Rightarrow> bool" where
  "manages a account \<longleftrightarrow> IsGroup (roomOf a) \<and> (case member a account of None \<Rightarrow> False | Some m \<Rightarrow> IsManager m)"

definition ownsRoom :: "RoomMemberEntity \<Rightarrow> bool" where
  "ownsRoom m \<longleftrightarrow> normalizeRoomRole (mb_Role m) = RoomRoleOwner"

text \<open>
  Who may do what: managers of a group change its details, add members and pin messages; a member of a group other than an owner removes himself, and a
  manager anyone else; any member sends well-formed messages, in groups and elsewhere.
\<close>

fun allowed :: "gotime \<Rightarrow> gotime \<Rightarrow> RoomCommand \<Rightarrow> RoomAggregate \<Rightarrow> bool" where
  "allowed clock now (UpdateGroup actor name description) a \<longleftrightarrow> manages a actor"
| "allowed clock now (AddTo actor m) a \<longleftrightarrow> manages a actor \<and> TrimSpace (mb_AccountID m) \<noteq> []"
| "allowed clock now (RemoveFrom actor target) a \<longleftrightarrow> IsGroup (roomOf a) \<and> member a target \<noteq> None \<and>
     (case member a actor of None \<Rightarrow> False
      | Some m \<Rightarrow> if TrimSpace target = TrimSpace actor then \<not> ownsRoom m else IsManager m)"
| "allowed clock now (Pin actor messageID) a \<longleftrightarrow> manages a actor \<and> TrimSpace messageID \<noteq> []"
| "allowed clock now (Send messageID sender params identity outbox) a \<longleftrightarrow> member a sender \<noteq> None \<and>
     \<not> isl (NewMessage clock messageID (rm_ID (roomOf a)) sender params now)"

text \<open>The members after a command: only \<open>AddTo\<close> and \<open>RemoveFrom\<close> change them.\<close>

fun membersAfter :: "RoomCommand \<Rightarrow> RoomAggregate \<Rightarrow> string \<rightharpoonup> RoomMemberEntity" where
  "membersAfter (AddTo actor m) a = (if member a (mb_AccountID m) = None then (ra_members a)(TrimSpace (mb_AccountID m) \<mapsto> m) else ra_members a)"
| "membersAfter (RemoveFrom actor target) a = (ra_members a)(TrimSpace target := None)"
| "membersAfter c a = ra_members a"

text \<open>What of the room a command may change: the name and description, or the pinned message; never its id, owner, type or direct key.\<close>

fun roomAfter :: "RoomCommand \<Rightarrow> Room \<Rightarrow> Room \<Rightarrow> bool" where
  "roomAfter (UpdateGroup actor name description) r r' \<longleftrightarrow>
     rm_Name r' = (if TrimSpace name = [] then rm_Name r else TrimSpace name) \<and> rm_Description r' = TrimSpace description \<and>
     rm_PinnedMessageID r' = rm_PinnedMessageID r"
| "roomAfter (Pin actor messageID) r r' \<longleftrightarrow>
     rm_Name r' = rm_Name r \<and> rm_Description r' = rm_Description r \<and> rm_PinnedMessageID r' = TrimSpace messageID"
| "roomAfter c r r' \<longleftrightarrow> rm_Name r' = rm_Name r \<and> rm_Description r' = rm_Description r \<and> rm_PinnedMessageID r' = rm_PinnedMessageID r"

definition sameRoom :: "Room \<Rightarrow> Room \<Rightarrow> bool" where
  "sameRoom r r' \<longleftrightarrow> rm_ID r' = rm_ID r \<and> rm_OwnerID r' = rm_OwnerID r \<and> rm_RoomType r' = rm_RoomType r \<and> rm_DirectKey r' = rm_DirectKey r"

text \<open>What a command's run means: accepted as the rules say with their effect, or refused without a trace.\<close>

definition obeys :: "gotime \<Rightarrow> gotime \<Rightarrow> RoomCommand \<Rightarrow> RoomAggregate \<Rightarrow> (error + unit) \<times> RoomAggregate \<Rightarrow> bool" where
  "obeys clock now c a p \<longleftrightarrow> (if allowed clock now c a
     then fst p = Inr () \<and> ra_members (snd p) = membersAfter c a \<and> roomAfter c (roomOf a) (roomOf (snd p)) \<and> sameRoom (roomOf a) (roomOf (snd p))
     else isl (fst p) \<and> snd p = a)"

section \<open>Every command obeys\<close>

lemma requireMember_eq: "room_agg_ok a \<Longrightarrow>
    requireMember a k = (case member a k of None \<Rightarrow> Inl ErrRoomMemberRequired | Some m \<Rightarrow> Inr m)"
  using room_agg_ok_room(1) [of a] by (simp add: requireMember_def)

lemma CanManageGroup_eq: "CanManageGroup m r = Inr u \<longleftrightarrow> IsGroup r \<and> IsManager m"
  by (simp add: CanManageGroup_def RequireGroup_def)

lemma checked_simps [simp]: "checked (Inl e) s f = (Inl e, s)" "checked (Inr x) s f = f x"
  by (simp_all add: checked_def)

lemma andNext_simps [simp]: "andNext (Inl e, s) f = (Inl e, s)" "andNext (Inr x, s) f = f x s"
  by (simp_all add: andNext_def)

lemma toUnit_simps [simp]: "toUnit (Inl e, s) = (Inl e, s)" "toUnit (Inr x, s) = (Inr (), s)"
  by (simp_all add: toUnit_def)

text \<open>The guard of the commands that only managers may give.\<close>

lemma manager_guard:
  assumes "room_agg_ok a"
  shows "checked (requireMember a actor) a (\<lambda>m. checked (CanManageGroup m (roomOf a)) a (\<lambda>u. f)) =
    (if manages a actor then f else (Inl (if member a actor = None then ErrRoomMemberRequired
       else if \<not> IsGroup (roomOf a) then ErrRoomNotGroup else ErrRoomInsufficientPermission), a))"
  by (auto simp: requireMember_eq [OF assms] manages_def CanManageGroup_def RequireGroup_def split: option.splits)

lemma member_nonempty: "room_agg_ok a \<Longrightarrow> member a actor = Some m \<Longrightarrow> TrimSpace actor \<noteq> []"
  using room_agg_ok_member by fastforce

lemma manages_member: "manages a actor \<Longrightarrow> \<exists>m. member a actor = Some m"
  by (auto simp: manages_def split: option.splits)

lemma room_agg_ok_update:
  assumes "room_agg_ok a" "ra_room b \<noteq> None" "rm_ID (roomOf b) = aggregateID a" "aggregateID b = aggregateID a"
    "\<And>k m. ra_members b k = Some m \<Longrightarrow> k = mb_AccountID m \<and> trimmed k \<and> k \<noteq> [] \<and> k \<in> set (ra_memberOrder b)"
  shows "room_agg_ok b"
  using assms by (auto simp: room_agg_ok_def roomOf_def)

text \<open>A command that ends with a system message of its actor: the message adds nothing to the rules.\<close>

lemma system_message_last:
  assumes "room_agg_ok b" "TrimSpace newID \<noteq> []" "TrimSpace actor \<noteq> []"
  obtains msg c where "appendSystemMessage clock newID b actor body now = (Inr msg, c)" "ra_members c = ra_members b"
    "roomOf c = Touch clock now (roomOf b)" "room_agg_ok c"
proof -
  from assms obtain msg d where m: "appendSystemMessage clock newID b actor body now =
      (Inr msg, recorded (touchRoom clock now (b\<lparr>ra_pendingMessages := ra_pendingMessages b @ [msg]\<rparr>)) (RoomMessageCreatedEvent d) now)"
    by (rule appendSystemMessage_ok [where clock = clock and now = now and body = body])
  show thesis
  proof (rule that [OF m])
    show "room_agg_ok (recorded (touchRoom clock now (b\<lparr>ra_pendingMessages := ra_pendingMessages b @ [msg]\<rparr>)) (RoomMessageCreatedEvent d) now)"
      using room_agg_ok_room [OF assms(1)] room_agg_ok_member [OF assms(1)]
      by (intro room_agg_ok_update [OF assms(1)]) auto
  qed simp_all
qed

lemma UpdateDetails_group:
  "\<exists>updated r'. UpdateDetails clock r name description [] now = (Inr updated, r') \<and> (\<not> updated \<longrightarrow> r' = r) \<and>
     rm_Name r' = (if TrimSpace name = [] then rm_Name r else TrimSpace name) \<and> rm_Description r' = TrimSpace description \<and>
     rm_PinnedMessageID r' = rm_PinnedMessageID r \<and> sameRoom r r'"
proof -
  have [simp]: "Normalize [] = []" by (simp add: Normalize_def ToLower_def)
  show ?thesis
    by (cases "TrimSpace name = [] \<or> TrimSpace name = rm_Name r"; cases "TrimSpace description = rm_Description r")
      (auto simp: UpdateDetails_def Let_def sameRoom_def)
qed

lemma obeys_refused: "\<not> allowed clock now c a \<Longrightarrow> p = (Inl e, a) \<Longrightarrow> obeys clock now c a p"
  by (simp add: obeys_def)

lemma UpdateGroup_obeys:
  assumes "room_agg_ok a" "TrimSpace newID \<noteq> []"
  shows "obeys clock now (UpdateGroup actor name description) a (runRoom clock newID now (UpdateGroup actor name description) a) \<and>
    room_agg_ok (snd (runRoom clock newID now (UpdateGroup actor name description) a))"
proof (cases "manages a actor")
  case True
  note r = room_agg_ok_room [OF assms(1)]
  from True have ne: "TrimSpace actor \<noteq> []" using manages_member member_nonempty [OF assms(1)] by blast
  from UpdateDetails_group [of clock "roomOf a" name description now] obtain updated r' where
    u: "UpdateDetails clock (roomOf a) name description [] now = (Inr updated, r')" "\<not> updated \<Longrightarrow> r' = roomOf a"
      "rm_Name r' = (if TrimSpace name = [] then rm_Name (roomOf a) else TrimSpace name)" "rm_Description r' = TrimSpace description"
      "rm_PinnedMessageID r' = rm_PinnedMessageID (roomOf a)" "sameRoom (roomOf a) r'" by blast
  show ?thesis
  proof (cases updated)
    case False
    with u r have "a\<lparr>ra_room := Some r'\<rparr> = a" by simp
    with False u True assms(1) show ?thesis
      by (auto simp: UpdateGroupDetails_def manager_guard obeys_def)
  next
    case updated: True
    let ?b = "a\<lparr>ra_room := Some r', ra_roomDirty := True\<rparr>"
    from u(6) r have rb: "rm_ID r' = aggregateID a" by (simp add: sameRoom_def)
    obtain d where d: "recordRoomDetailsUpdated ?b (rm_UpdatedAt r') = (Inr (), recorded ?b d (rm_UpdatedAt r'))"
      using recordEvent_ok [of ?b] r rb by (simp add: recordRoomDetailsUpdated_def)
    have "room_agg_ok (recorded ?b d (rm_UpdatedAt r'))"
      using room_agg_ok_member [OF assms(1)] by (intro room_agg_ok_update [OF assms(1)]) (auto simp: rb)
    from system_message_last [OF this assms(2) ne, of clock "''group renamed to '' @ rm_Name r'" now]
    obtain msg c where c: "appendSystemMessage clock newID (recorded ?b d (rm_UpdatedAt r')) actor (''group renamed to '' @ rm_Name r') now = (Inr msg, c)"
      "ra_members c = ra_members a" "roomOf c = Touch clock now r'" "room_agg_ok c" by auto
    have "runRoom clock newID now (UpdateGroup actor name description) a = (Inr (), c)"
      using True updated c(1) by (simp add: UpdateGroupDetails_def manager_guard [OF assms(1)] u(1) d)
    then show ?thesis using True u(3-6) c
      by (auto simp: obeys_def sameRoom_def)
  qed
qed (use assms in \<open>simp add: UpdateGroupDetails_def manager_guard obeys_def\<close>)

lemma AddTo_obeys:
  assumes "room_agg_ok a" "TrimSpace newID \<noteq> []" "trimmed (mb_AccountID m)"
  shows "obeys clock now (AddTo actor m) a (runRoom clock newID now (AddTo actor m) a) \<and>
    room_agg_ok (snd (runRoom clock newID now (AddTo actor m) a))"
proof (cases "manages a actor \<and> mb_AccountID m \<noteq> [] \<and> ra_members a (mb_AccountID m) = None")
  case True
  note r = room_agg_ok_room [OF assms(1)]
  from True have ne: "TrimSpace actor \<noteq> []" using manages_member member_nonempty [OF assms(1)] by blast
  let ?k = "mb_AccountID m"
  let ?b = "a\<lparr>ra_memberOrder := ra_memberOrder a @ [?k], ra_members := (ra_members a)(?k \<mapsto> m),
    ra_memberUpserts := AList.update ?k m (ra_memberUpserts a)\<rparr>"
  have at: "attachMember a m = Inr ?b"
    using True assms(3) by (simp add: attachMember_def attachRestoredMember_def Let_def TrimSpace_trimmed)
  let ?e = "EventRoomMemberAdded \<lparr>ea_RoomID = rm_ID (roomOf a), ea_MemberID = mb_AccountID m, ea_RoomMemberID = mb_ID m, ea_MemberName = mb_DisplayName m,
    ea_MemberEmail = [], ea_MemberUsername = mb_Username m, ea_MemberAvatarKey = mb_AvatarObjectKey m, ea_MemberRole = mb_Role m,
    ea_MemberJoinedAt = mb_CreatedAt m, ea_MemberStateUpdatedAt = mb_UpdatedAt m\<rparr>"
  have d: "recordEvent (touchRoom clock now ?b) ?e now = (Inr (), recorded (touchRoom clock now ?b) ?e now)"
    by (rule recordEvent_ok) (use r in simp_all)
  have "room_agg_ok (recorded (touchRoom clock now ?b) ?e now)"
    by (rule room_agg_ok_update [OF assms(1)])
      (use r True assms(3) room_agg_ok_member [OF assms(1)] in \<open>auto split: if_splits\<close>)
  from system_message_last [OF this assms(2) ne, of clock "mb_AccountID m @ '' joined''" now]
  obtain msg c where c: "appendSystemMessage clock newID (recorded (touchRoom clock now ?b) ?e now) actor (mb_AccountID m @ '' joined'') now = (Inr msg, c)"
    "ra_members c = (ra_members a)(?k \<mapsto> m)" "roomOf c = Touch clock now (Touch clock now (roomOf a))" "room_agg_ok c" by auto
  have "runRoom clock newID now (AddTo actor m) a = (Inr (), c)"
    using True c(1) assms(3) by (simp add: AddMember_def manager_guard [OF assms(1)] at d TrimSpace_trimmed)
  then show ?thesis using True c(2-4) assms(3) by (auto simp: obeys_def sameRoom_def TrimSpace_trimmed)
next
  case False
  then show ?thesis using assms room_agg_ok_member [OF assms(1)]
    by (auto simp: AddMember_def manager_guard obeys_def TrimSpace_trimmed attachMember_def attachRestoredMember_def sameRoom_def)
qed

lemma Pin_obeys:
  assumes "room_agg_ok a" "TrimSpace newID \<noteq> []"
  shows "obeys clock now (Pin actor messageID) a (runRoom clock newID now (Pin actor messageID) a) \<and>
    room_agg_ok (snd (runRoom clock newID now (Pin actor messageID) a))"
proof (cases "manages a actor \<and> TrimSpace messageID \<noteq> []")
  case True
  note r = room_agg_ok_room [OF assms(1)]
  from True have ne: "TrimSpace actor \<noteq> []" using manages_member member_nonempty [OF assms(1)] by blast
  let ?r = "(roomOf a)\<lparr>rm_PinnedMessageID := TrimSpace messageID, rm_UpdatedAt := normalizeRoomTime clock now\<rparr>"
  let ?b = "a\<lparr>ra_room := Some ?r, ra_roomDirty := True\<rparr>"
  let ?e = "EventRoomMessagePinned \<lparr>rp_RoomID = rm_ID ?r, rp_PinnedMessageID = rm_PinnedMessageID ?r, rp_PinnedAt = rm_UpdatedAt ?r\<rparr>"
  have d: "recordEvent ?b ?e now = (Inr (), recorded ?b ?e now)" by (rule recordEvent_ok) (use r in simp_all)
  have "room_agg_ok (recorded ?b ?e now)"
    by (rule room_agg_ok_update [OF assms(1)]) (use r room_agg_ok_member [OF assms(1)] in auto)
  from system_message_last [OF this assms(2) ne, of clock "''message '' @ TrimSpace messageID @ '' pinned''" now]
  obtain msg c where c: "appendSystemMessage clock newID (recorded ?b ?e now) actor (''message '' @ TrimSpace messageID @ '' pinned'') now = (Inr msg, c)"
    "ra_members c = ra_members a" "roomOf c = Touch clock now ?r" "room_agg_ok c" by auto
  have "runRoom clock newID now (Pin actor messageID) a = (Inr (), c)"
    using True c(1) d by (simp add: PinMessage_def manager_guard [OF assms(1)] roomPinMessage_def)
  then show ?thesis using True c(2-4) by (auto simp: obeys_def sameRoom_def)
qed (use assms in \<open>auto simp: PinMessage_def manager_guard obeys_def roomPinMessage_def\<close>)

lemma remove_allowed:
  assumes "room_agg_ok a" "allowed clock now (RemoveFrom actor target) a"
  shows "checked (requireMember a actor) a (\<lambda>m. checked (CanRemoveFrom m (roomOf a) target) a (\<lambda>u.
      case member a target of None \<Rightarrow> (Inl ErrRoomMemberRequired, a) | Some x \<Rightarrow> f x)) = f (the (member a target))"
  using assms(2) room_agg_ok_member [OF assms(1)]
  by (fastforce simp: requireMember_eq [OF assms(1)] CanRemoveFrom_def RequireGroup_def ownsRoom_def split: option.splits if_splits)

lemma remove_refused:
  assumes "room_agg_ok a" "\<not> allowed clock now (RemoveFrom actor target) a"
  shows "\<exists>e. checked (requireMember a actor) a (\<lambda>m. checked (CanRemoveFrom m (roomOf a) target) a (\<lambda>u.
      case member a target of None \<Rightarrow> (Inl ErrRoomMemberRequired, a) | Some x \<Rightarrow> f x)) = (Inl e, a)"
  using assms(2) room_agg_ok_member [OF assms(1)]
  by (fastforce simp: requireMember_eq [OF assms(1)] CanRemoveFrom_def RequireGroup_def ownsRoom_def split: option.splits if_splits)

lemma RemoveFrom_obeys:
  assumes "room_agg_ok a" "TrimSpace newID \<noteq> []"
  shows "obeys clock now (RemoveFrom actor target) a (runRoom clock newID now (RemoveFrom actor target) a) \<and>
    room_agg_ok (snd (runRoom clock newID now (RemoveFrom actor target) a))"
proof (cases "allowed clock now (RemoveFrom actor target) a")
  case True
  note r = room_agg_ok_room [OF assms(1)]
  from True have ne: "TrimSpace actor \<noteq> []" using member_nonempty [OF assms(1)] by (auto split: option.splits)
  let ?k = "TrimSpace target"
  let ?x = "the (member a target)"
  let ?b = "a\<lparr>ra_members := (ra_members a)(?k := None), ra_removedMemberIDs := ra_removedMemberIDs a @ [?k],
    ra_memberUpserts := AList.delete ?k (ra_memberUpserts a)\<rparr>"
  let ?e = "EventRoomMemberRemoved \<lparr>er_RoomID = rm_ID (roomOf a), er_MemberID = mb_AccountID ?x, er_RoomMemberID = mb_ID ?x,
    er_MemberName = mb_DisplayName ?x, er_MemberEmail = [], er_MemberUsername = mb_Username ?x,
    er_MemberRole = mb_Role ?x, er_MemberJoinedAt = mb_CreatedAt ?x, er_RemovedAt = UTC now\<rparr>"
  have d: "recordEvent ?b ?e now = (Inr (), recorded ?b ?e now)" by (rule recordEvent_ok) (use r in simp_all)
  have "room_agg_ok (touchRoom clock now (recorded ?b ?e now))"
    by (rule room_agg_ok_update [OF assms(1)]) (use r room_agg_ok_member [OF assms(1)] in \<open>auto split: if_splits\<close>)
  from system_message_last [OF this assms(2) ne, of clock "?k @ '' left''" now]
  obtain msg c where c: "appendSystemMessage clock newID (touchRoom clock now (recorded ?b ?e now)) actor (?k @ '' left'') now = (Inr msg, c)"
    "ra_members c = (ra_members a)(?k := None)" "roomOf c = Touch clock now (Touch clock now (roomOf a))" "room_agg_ok c" by auto
  have "RemoveMember clock newID a actor target now actor = (Inr True, c)"
    unfolding RemoveMember_def Let_def by (subst remove_allowed [OF assms(1) True]) (use d c(1) in simp)
  then have "runRoom clock newID now (RemoveFrom actor target) a = (Inr (), c)" by simp
  then show ?thesis using True c(2-4) by (auto simp: obeys_def sameRoom_def)
next
  case False
  have "\<exists>e. RemoveMember clock newID a actor target now actor = (Inl e, a)"
    unfolding RemoveMember_def Let_def by (rule remove_refused [OF assms(1) False])
  then have "\<exists>e. runRoom clock newID now (RemoveFrom actor target) a = (Inl e, a)" by auto
  with obeys_refused [OF False] assms(1) show ?thesis by (auto simp del: runRoom.simps)
qed

lemma Send_obeys:
  assumes "room_agg_ok a"
  shows "obeys clock now (Send messageID sender params identity outbox) a (runRoom clock newID now (Send messageID sender params identity outbox) a) \<and>
    room_agg_ok (snd (runRoom clock newID now (Send messageID sender params identity outbox) a))"
proof (cases "NewMessage clock messageID (rm_ID (roomOf a)) sender params now")
  case (Inl e)
  with assms show ?thesis by (auto simp: SendMessage_def requireMember_eq obeys_def split: option.splits)
next
  case (Inr msg)
  note r = room_agg_ok_room [OF assms]
  define b where "b = a\<lparr>ra_pendingMessages := ra_pendingMessages a @ [msg], ra_pendingReceipts := ra_pendingReceipts a @
    map (receiptFor (me_ID msg) now) (filter (\<lambda>m. TrimSpace (mb_AccountID m) \<noteq> TrimSpace sender) (Members a))\<rparr>"
  have b: "roomOf b = roomOf a" "aggregateID b = aggregateID a" "ra_members b = ra_members a" "ra_memberOrder b = ra_memberOrder a"
    by (simp_all add: b_def)
  obtain d where d: "recordMessageCreated (touchRoom clock now b) msg identity outbox now = (Inr (), recorded (touchRoom clock now b) d now)"
    using recordEvent_ok [of "touchRoom clock now b"] r b by (simp add: recordMessageCreated_def)
  have "room_agg_ok (recorded (touchRoom clock now b) d now)"
    by (rule room_agg_ok_update [OF assms]) (use r b room_agg_ok_member [OF assms] in auto)
  with assms Inr d b show ?thesis
    by (auto simp: SendMessage_def requireMember_eq obeys_def sameRoom_def Let_def simp flip: b_def split: option.splits)
qed

text \<open>A new member's account is trimmed, as \<open>NewRoomMember\<close> makes it.\<close>

fun commandOk :: "RoomCommand \<Rightarrow> bool" where
  "commandOk (AddTo actor m) \<longleftrightarrow> trimmed (mb_AccountID m)"
| "commandOk c \<longleftrightarrow> True"

lemma runRoom_obeys:
  assumes "room_agg_ok a" "TrimSpace newID \<noteq> []" "commandOk c"
  shows "obeys clock now c a (runRoom clock newID now c a) \<and> room_agg_ok (snd (runRoom clock newID now c a))"
  using assms UpdateGroup_obeys AddTo_obeys RemoveFrom_obeys Pin_obeys Send_obeys by (cases c) (simp_all del: runRoom.simps)

section \<open>Restored rooms\<close>

text \<open>What \<open>Load\<close> passes: a room with a trimmed id and one row per member with a trimmed account.\<close>

definition rows_ok :: "Room \<Rightarrow> RoomMemberEntity list \<Rightarrow> bool" where
  "rows_ok r rows \<longleftrightarrow> trimmed (rm_ID r) \<and> rm_ID r \<noteq> [] \<and> (\<forall>m\<in>set rows. trimmed (mb_AccountID m) \<and> mb_AccountID m \<noteq> [])"

lemma attachAll_eq:
  assumes "\<forall>m\<in>set rows. trimmed (mb_AccountID m) \<and> mb_AccountID m \<noteq> []" "distinct (ra_memberOrder a)" "dom (ra_members a) = set (ra_memberOrder a)"
  shows "\<exists>b. attachAll a (map Some rows) = Inr b \<and> b = a\<lparr>ra_members := ra_members b, ra_memberOrder := ra_memberOrder b\<rparr> \<and>
    ra_members b = ra_members a ++ map_of (rev (map (\<lambda>m. (mb_AccountID m, m)) rows)) \<and>
    distinct (ra_memberOrder b) \<and> dom (ra_members b) = set (ra_memberOrder b)"
  using assms
proof (induction rows arbitrary: a)
  case (Cons m rows)
  let ?k = "mb_AccountID m"
  define a' where "a' = a\<lparr>ra_memberOrder := (if ra_members a ?k = None then ra_memberOrder a @ [?k] else ra_memberOrder a),
    ra_members := (ra_members a)(?k \<mapsto> m)\<rparr>"
  from Cons.prems have at: "attachRestoredMember a (Some m) = Inr a'"
    by (simp add: attachRestoredMember_def Let_def TrimSpace_trimmed a'_def)
  from Cons.prems(3) have "ra_members a ?k = None \<longleftrightarrow> ?k \<notin> set (ra_memberOrder a)" by (metis domIff)
  with Cons.prems(2,3) have a': "distinct (ra_memberOrder a')" "dom (ra_members a') = set (ra_memberOrder a')" by (auto simp: a'_def)
  from Cons.prems(1) have "\<forall>m\<in>set rows. trimmed (mb_AccountID m) \<and> mb_AccountID m \<noteq> []" by simp
  from Cons.IH [OF this a'] obtain b where b: "attachAll a' (map Some rows) = Inr b"
    "b = a'\<lparr>ra_members := ra_members b, ra_memberOrder := ra_memberOrder b\<rparr>"
    "ra_members b = ra_members a' ++ map_of (rev (map (\<lambda>m. (mb_AccountID m, m)) rows))"
    "distinct (ra_memberOrder b)" "dom (ra_members b) = set (ra_memberOrder b)" by blast
  have "a'\<lparr>ra_members := x, ra_memberOrder := y\<rparr> = a\<lparr>ra_members := x, ra_memberOrder := y\<rparr>" for x y by (simp add: a'_def)
  with b(2) have "b = a\<lparr>ra_members := ra_members b, ra_memberOrder := ra_memberOrder b\<rparr>" by simp
  moreover have "ra_members b = ra_members a ++ map_of (rev (map (\<lambda>m. (mb_AccountID m, m)) (m # rows)))"
    by (simp add: b(3) a'_def map_add_def fun_eq_iff split: option.splits)
  moreover have "attachAll a (map Some (m # rows)) = Inr b" by (simp add: at b(1))
  ultimately show ?case using b(4,5) by blast
qed (auto simp: fun_eq_iff)

text \<open>Restoring always succeeds on such rows, and files every account once, in the order of the rows.\<close>

lemma RestoreRoomAggregate_ok:
  assumes "rows_ok r rows"
  obtains a where "RestoreRoomAggregate (Some r) (map Some rows) bv = Inr a" "room_agg_ok a" "roomOf a = r" "events a = []" "version a = bv"
    "ra_members a = map_of (rev (map (\<lambda>m. (mb_AccountID m, m)) rows))" "distinct (ra_memberOrder a)"
    "set (ra_memberOrder a) = mb_AccountID ` set rows" "ra_pendingMessages a = []" "ra_pendingReceipts a = []"
proof -
  let ?i = "(emptyAggregate (Some r))\<lparr>aggregateType := roomAggregateType, aggregateID := rm_ID r\<rparr>"
  let ?e = "SetInternal ?i (rm_ID r) bv bv"
  have e: "ra_memberOrder ?e = []" "ra_members ?e = Map.empty" "ra_room ?e = Some r" "events ?e = []" "version ?e = bv" "aggregateID ?e = rm_ID r"
    "ra_pendingMessages ?e = []" "ra_pendingReceipts ?e = []"
    by (simp_all add: SetInternal_def emptyAggregate_def AggregateRoot.defs emptyRoot_def)
  have i: "InitAggregate roomAggregateType (emptyAggregate (Some r)) (rm_ID r) = Inr ?i"
    using assms by (simp add: InitAggregate_def SetAggregateType_def SetID_def rows_ok_def TrimSpace_trimmed roomAggregateType_def
      emptyAggregate_def AggregateRoot.defs emptyRoot_def)
  from attachAll_eq [of rows ?e] assms e obtain b where b: "attachAll ?e (map Some rows) = Inr b"
    "b = ?e\<lparr>ra_members := ra_members b, ra_memberOrder := ra_memberOrder b\<rparr>"
    "ra_members b = map_of (rev (map (\<lambda>m. (mb_AccountID m, m)) rows))" "distinct (ra_memberOrder b)" "dom (ra_members b) = set (ra_memberOrder b)"
    by (auto simp: rows_ok_def)
  have f: "ra_room b = Some r" "events b = []" "version b = bv" "aggregateID b = rm_ID r" "ra_pendingMessages b = []" "ra_pendingReceipts b = []"
    by (subst b(2), simp add: e)+
  have set: "set (ra_memberOrder b) = mb_AccountID ` set rows" using b(3,5) by (simp add: dom_map_of_conv_image_fst image_image)
  have mem: "k = mb_AccountID m \<and> trimmed k \<and> k \<noteq> [] \<and> k \<in> set (ra_memberOrder b)" if "ra_members b k = Some m" for k m
  proof -
    from map_of_SomeD [OF that [unfolded b(3)]] have "k = mb_AccountID m" "m \<in> set rows" by auto
    with assms set show ?thesis by (auto simp: rows_ok_def)
  qed
  show thesis
  proof (rule that [of b])
    show "RestoreRoomAggregate (Some r) (map Some rows) bv = Inr b" using b(1) i by (simp add: RestoreRoomAggregate_def)
    show "room_agg_ok b" using f mem assms by (auto simp: room_agg_ok_def rows_ok_def)
    show "roomOf b = r" using f by (simp add: roomOf_def)
  qed (use f b set in auto)
qed

text \<open>Aggregates a sequence of commands reaches.\<close>

inductive room_session :: "RoomAggregate \<Rightarrow> RoomAggregate \<Rightarrow> bool" for a where
  session_start: "room_session a a"
| session_step: "room_session a b \<Longrightarrow> TrimSpace newID \<noteq> [] \<Longrightarrow> commandOk c \<Longrightarrow> room_session a (snd (runRoom clock newID now c b))"

lemma room_session_ok: "room_session a b \<Longrightarrow> room_agg_ok a \<Longrightarrow> room_agg_ok b"
  by (induction rule: room_session.induct) (auto dest: runRoom_obeys)


definition sampleRoom :: Room where
  "sampleRoom = zeroRoom\<lparr>rm_ID := ''r1'', rm_Name := ''Team'', rm_OwnerID := ''alice'', rm_RoomType := RoomTypeGroup\<rparr>"

definition sampleMember :: "string \<Rightarrow> string \<Rightarrow> RoomMemberEntity" where
  "sampleMember account role = \<lparr>mb_ID = account, mb_RoomID = ''r1'', mb_AccountID = account, mb_DisplayName = [], mb_Username = [],
     mb_AvatarObjectKey = [], mb_Role = role, mb_LastDeliveredAt = None, mb_LastReadAt = None, mb_CreatedAt = zeroTime, mb_UpdatedAt = zeroTime\<rparr>"

abbreviation sampleRows :: "RoomMemberEntity list" where
  "sampleRows \<equiv> [sampleMember ''alice'' RoomRoleOwner, sampleMember ''bob'' RoomRoleMember, sampleMember ''carol'' RoomRoleMember]"

lemma sample_names: "trimmed ''alice''" "trimmed ''bob''" "trimmed ''carol''" "trimmed ''r1''" "TrimSpace ''n1'' \<noteq> []"
  "IsGroup sampleRoom" "normalizeRoomRole RoomRoleOwner = RoomRoleOwner" "normalizeRoomRole RoomRoleMember = RoomRoleMember"
  by code_simp+

lemma sample_rows_ok: "rows_ok sampleRoom sampleRows"
  using sample_names by (simp add: rows_ok_def sampleMember_def sampleRoom_def)


section \<open>Receipts\<close>

lemma NewMessage_fields: "NewMessage clock k room sender params now = Inr m \<Longrightarrow> me_RoomID m = TrimSpace room \<and> me_SenderID m = TrimSpace sender"
  by (auto simp: NewMessage_def Let_def split: if_splits)

lemma SendMessage_ok:
  assumes "room_agg_ok a" "member a sender \<noteq> None" "NewMessage clock messageID (rm_ID (roomOf a)) sender params now = Inr m"
  shows "\<exists>msg b. SendMessage clock a messageID sender params identity outbox now = (Inr msg, b)"
proof -
  have unit: "fst (toUnit p) = Inr () \<Longrightarrow> \<exists>x s. p = (Inr x, s)" for p :: "(error + 'a) \<times> 's"
    by (cases p; cases "fst p") auto
  from assms have "allowed clock now (Send messageID sender params identity outbox) a" by simp
  with Send_obeys [OF assms(1), of clock now messageID sender params identity outbox "[]"] show ?thesis
    by (intro unit) (simp add: obeys_def)
qed

text \<open>The aggregate that a sent message leaves.\<close>

lemma SendMessage_Inr:
  assumes "room_agg_ok a" "SendMessage clock a messageID sender params identity outbox now = (Inr msg, b)"
  obtains d c where "NewMessage clock messageID (rm_ID (roomOf a)) sender params now = Inr msg" "member a sender \<noteq> None"
    "c = a\<lparr>ra_pendingMessages := ra_pendingMessages a @ [msg], ra_pendingReceipts := ra_pendingReceipts a @
      map (receiptFor (me_ID msg) now) (filter (\<lambda>m. TrimSpace (mb_AccountID m) \<noteq> TrimSpace sender) (Members a))\<rparr>"
    "b = recorded (touchRoom clock now c) (RoomMessageCreatedEvent d) now"
    "em_MessageID d = me_ID msg" "em_MessageContent d = me_Message msg" "em_MessageSenderID d = me_SenderID msg"
proof -
  note r = room_agg_ok_room [OF assms(1)]
  from assms obtain m where nm: "NewMessage clock messageID (rm_ID (roomOf a)) sender params now = Inr m" "member a sender \<noteq> None"
    by (cases "NewMessage clock messageID (rm_ID (roomOf a)) sender params now") (auto simp: SendMessage_def requireMember_eq split: option.splits)
  define c where "c = a\<lparr>ra_pendingMessages := ra_pendingMessages a @ [m], ra_pendingReceipts := ra_pendingReceipts a @
    map (receiptFor (me_ID m) now) (filter (\<lambda>x. TrimSpace (mb_AccountID x) \<noteq> TrimSpace sender) (Members a))\<rparr>"
  have c: "roomOf c = roomOf a" "aggregateID c = aggregateID a" by (simp_all add: c_def)
  obtain d where d: "recordMessageCreated (touchRoom clock now c) m identity outbox now =
      (Inr (), recorded (touchRoom clock now c) (RoomMessageCreatedEvent d) now)"
    "em_MessageID d = me_ID m" "em_MessageContent d = me_Message m" "em_MessageSenderID d = me_SenderID m"
    using recordEvent_ok [of "touchRoom clock now c" "RoomMessageCreatedEvent _" now] r c by (auto simp: recordMessageCreated_def)
  from assms nm d(1) have "m = msg" "b = recorded (touchRoom clock now c) (RoomMessageCreatedEvent d) now"
    by (auto simp: SendMessage_def requireMember_eq Let_def simp flip: c_def split: option.splits)
  with that nm d c_def show thesis by blast
qed

lemma Members_accounts:
  assumes "room_agg_ok a" "set (ra_memberOrder a) \<subseteq> dom (ra_members a)"
  shows "map mb_AccountID (Members a) = ra_memberOrder a"
proof -
  have "map mb_AccountID (List.map_filter (ra_members a) ks) = ks" if "set ks \<subseteq> dom (ra_members a)" for ks
    using that room_agg_ok_member [OF assms(1)] by (induction ks) (auto simp: map_filter_simps split: option.splits)
  with assms(2) show ?thesis by (simp add: Members_def)
qed

lemma send_message_effect:
  assumes "rows_ok r rows" "RestoreRoomAggregate (Some r) (map Some rows) bv = Inr a"
    and "SendMessage clock a messageID sender params identity outbox now = (Inr msg, b)"
  shows "ra_pendingMessages b = [msg]" "me_RoomID msg = rm_ID r" "me_SenderID msg = TrimSpace sender" "TrimSpace sender \<in> mb_AccountID ` set rows"
    "distinct (map pr_AccountID (ra_pendingReceipts b))" "pr_AccountID ` set (ra_pendingReceipts b) = mb_AccountID ` set rows - {TrimSpace sender}"
    "\<forall>x\<in>set (ra_pendingReceipts b). pr_MessageID x = me_ID msg \<and> pr_Status x = ''sent''"
    "\<exists>e d. events b = [e] \<and> ev_Version e = bv + 1 \<and> ev_AggregateID e = rm_ID r \<and> ev_EventName e = ''RoomMessageCreatedEvent'' \<and> ev_EventData e = RoomMessageCreatedEvent d \<and>
       em_MessageID d = me_ID msg \<and> em_MessageContent d = me_Message msg \<and> em_MessageSenderID d = TrimSpace sender"
proof -
  obtain a' where a': "RestoreRoomAggregate (Some r) (map Some rows) bv = Inr a'" "room_agg_ok a'" "roomOf a' = r" "events a' = []" "version a' = bv"
    "ra_members a' = map_of (rev (map (\<lambda>m. (mb_AccountID m, m)) rows))" "distinct (ra_memberOrder a')"
    "set (ra_memberOrder a') = mb_AccountID ` set rows" "ra_pendingMessages a' = []" "ra_pendingReceipts a' = []"
    by (rule RestoreRoomAggregate_ok [OF assms(1)])
  with assms(2) have [simp]: "a' = a" by simp
  note a = a' [simplified]
  obtain d c where m: "NewMessage clock messageID (rm_ID r) sender params now = Inr msg" "member a sender \<noteq> None"
    and c: "c = a\<lparr>ra_pendingMessages := ra_pendingMessages a @ [msg], ra_pendingReceipts := ra_pendingReceipts a @
      map (receiptFor (me_ID msg) now) (filter (\<lambda>m. TrimSpace (mb_AccountID m) \<noteq> TrimSpace sender) (Members a))\<rparr>"
    and b: "b = recorded (touchRoom clock now c) (RoomMessageCreatedEvent d) now"
    and d: "em_MessageID d = me_ID msg" "em_MessageContent d = me_Message msg" "em_MessageSenderID d = me_SenderID msg"
    using SendMessage_Inr [OF a(2) assms(3)] a(3) by metis
  have dom: "dom (ra_members a) = mb_AccountID ` set rows" by (simp add: a(6) dom_map_of_conv_image_fst image_image)
  have accs: "map mb_AccountID (Members a) = ra_memberOrder a" using Members_accounts [OF a(2)] a(8) dom by simp
  show f: "me_RoomID msg = rm_ID r" "me_SenderID msg = TrimSpace sender"
    using NewMessage_fields [OF m(1)] assms(1) by (simp_all add: rows_ok_def TrimSpace_trimmed)
  show "ra_pendingMessages b = [msg]" by (simp add: b c a(9))
  show "TrimSpace sender \<in> mb_AccountID ` set rows" using m(2) dom by blast
  have eq: "map pr_AccountID (ra_pendingReceipts b) = filter (\<lambda>k. k \<noteq> TrimSpace sender) (ra_memberOrder a)"
  proof -
    have "TrimSpace (mb_AccountID x) = mb_AccountID x" if "x \<in> set (Members a)" for x
    proof -
      from that have "mb_AccountID x \<in> set (map mb_AccountID (Members a))" by simp
      then have "mb_AccountID x \<in> mb_AccountID ` set rows" by (simp only: accs a(8))
      with assms(1) show ?thesis by (auto simp: rows_ok_def TrimSpace_trimmed)
    qed
    then show ?thesis by (simp add: b c a(10) receiptFor_def comp_def filter_map flip: accs cong: filter_cong)
  qed
  show "distinct (map pr_AccountID (ra_pendingReceipts b))" using a(7) by (simp only: eq distinct_filter)
  show "pr_AccountID ` set (ra_pendingReceipts b) = mb_AccountID ` set rows - {TrimSpace sender}"
    using arg_cong [OF eq, of set] a(8) by auto
  show "\<forall>x\<in>set (ra_pendingReceipts b). pr_MessageID x = me_ID msg \<and> pr_Status x = ''sent''"
    by (auto simp: b c a(10) receiptFor_def)
  show "\<exists>e d. events b = [e] \<and> ev_Version e = bv + 1 \<and> ev_AggregateID e = rm_ID r \<and> ev_EventName e = ''RoomMessageCreatedEvent'' \<and> ev_EventData e = RoomMessageCreatedEvent d \<and>
       em_MessageID d = me_ID msg \<and> em_MessageContent d = me_Message msg \<and> em_MessageSenderID d = TrimSpace sender"
    using d f room_agg_ok_room(2) [OF a(2)] a(3-5)
    by (auto simp: b recorded_def c touchRoom_def newEvent_def nextVersion_def Version_def)
qed

text \<open>
  C15 (functional). A message sent to a room as it is loaded becomes the one message to store, with the sender and the room's id, one receipt in status
  \<open>sent\<close> for every other member and none for the sender, and one event with the next version that repeats the message and
  is named after its Go type \<^verbatim>\<open>RoomMessageCreatedEvent\<close>.
\<close>

theorem send_message_receipts:
  assumes "rows_ok r rows" "RestoreRoomAggregate (Some r) (map Some rows) bv = Inr a"
    and "SendMessage clock a messageID sender params identity outbox now = (Inr msg, b)"
  shows "ra_pendingMessages b = [msg] \<and> me_RoomID msg = rm_ID r \<and> me_SenderID msg = TrimSpace sender \<and> TrimSpace sender \<in> mb_AccountID ` set rows \<and>
    distinct (map pr_AccountID (ra_pendingReceipts b)) \<and>
    pr_AccountID ` set (ra_pendingReceipts b) = mb_AccountID ` set rows - {TrimSpace sender} \<and>
    (\<forall>x\<in>set (ra_pendingReceipts b). pr_MessageID x = me_ID msg \<and> pr_Status x = ''sent'') \<and>
    (\<exists>e d. events b = [e] \<and> ev_Version e = bv + 1 \<and> ev_AggregateID e = rm_ID r \<and> ev_EventName e = ''RoomMessageCreatedEvent'' \<and> ev_EventData e = RoomMessageCreatedEvent d \<and>
       em_MessageID d = me_ID msg \<and> em_MessageContent d = me_Message msg \<and> em_MessageSenderID d = TrimSpace sender)"
  using send_message_effect [OF assms] by blast

theorem send_message_receipts_witness:
  "\<exists>a b msg. RestoreRoomAggregate (Some sampleRoom) (map Some sampleRows) 3 = Inr a \<and>
     SendMessage zeroTime a ''m1'' ''alice'' (systemParams ''hi'') \<lparr>si_Name = ''Alice'', si_Email = []\<rparr>
       \<lparr>op_Mentions = [], op_MentionAll = False, op_MentionedAccountIDs = []\<rparr> zeroTime = (Inr msg, b) \<and>
     pr_AccountID ` set (ra_pendingReceipts b) = {''bob'', ''carol''} \<and> length (ra_pendingReceipts b) = 2"
proof -
  obtain a where a: "RestoreRoomAggregate (Some sampleRoom) (map Some sampleRows) 3 = Inr a" "roomOf a = sampleRoom" "room_agg_ok a"
      "ra_members a = map_of (rev (map (\<lambda>m. (mb_AccountID m, m)) sampleRows))"
    by (rule RestoreRoomAggregate_ok [OF sample_rows_ok, of 3], rule that; assumption)
  have t: "TrimSpace ''m1'' \<noteq> []" "TrimSpace ''alice'' = ''alice''" by code_simp+
  obtain m where nm: "NewMessage zeroTime ''m1'' (rm_ID (roomOf a)) ''alice'' (systemParams ''hi'') zeroTime = Inr m"
    using NewMessage_system [of "''m1''" "''r1''" "''alice''" zeroTime "''hi''" zeroTime] t sample_names a(2)
    by (auto simp: sampleRoom_def TrimSpace_trimmed)
  have mem: "member a ''alice'' \<noteq> None" by (simp add: a(4) t sampleMember_def)
  from SendMessage_ok [OF a(3) mem nm]
  obtain msg b where s: "SendMessage zeroTime a ''m1'' ''alice'' (systemParams ''hi'') \<lparr>si_Name = ''Alice'', si_Email = []\<rparr>
       \<lparr>op_Mentions = [], op_MentionAll = False, op_MentionedAccountIDs = []\<rparr> zeroTime = (Inr msg, b)" by blast
  note x = send_message_receipts [OF sample_rows_ok a(1) s]
  have "pr_AccountID ` set (ra_pendingReceipts b) = {''bob'', ''carol''}" using x t by (auto simp: sampleMember_def)
  moreover from this x have "length (ra_pendingReceipts b) = 2" using distinct_card [of "map pr_AccountID (ra_pendingReceipts b)"] by simp
  ultimately show ?thesis using a(1) s by blast
qed

end
