(* ===== verification/VideoCalls.thy ===== *)
theory VideoCalls
  imports RoomAggregate Locks
begin

text \<open>
  Video calls, \<^verbatim>\<open>core/modules/room/application/service/video_call_service.go\<close>: at most one call session per room, kept in the cache under
  the room's key, every change under the room's lock. The state is the key space of the locks beside the cache of sessions; a session is
  encoded as JSON and comes back unchanged, and its expiry is not modelled. \<open>load\<close> is the room repository's \<^verbatim>\<open>Load\<close>, \<open>newID\<close> the id
  \<^verbatim>\<open>uuid.NewString\<close> draws; the response of a call is the session itself, without the formatting of its instants.
\<close>

section \<open>The session store\<close>

type_synonym sessionCache = "string \<rightharpoonup> VideoCallSession"

definition videoCallSessionCacheKey :: "string \<Rightarrow> string" where
  "videoCallSessionCacheKey roomID = ''room:video_call:'' @ TrimSpace roomID"

definition sessionGet :: "sessionCache \<Rightarrow> string \<Rightarrow> VideoCallSession option" where
  "sessionGet cache roomID = cache (videoCallSessionCacheKey roomID)"

definition sessionSave :: "sessionCache \<Rightarrow> VideoCallSession \<Rightarrow> sessionCache" where
  "sessionSave cache s = cache(videoCallSessionCacheKey (vc_RoomID s) \<mapsto> s)"

definition sessionDelete :: "sessionCache \<Rightarrow> string \<Rightarrow> sessionCache" where
  "sessionDelete cache roomID = cache(videoCallSessionCacheKey roomID := None)"

section \<open>The service\<close>

abbreviation ErrVideoCallActiveSessionAlreadyExists :: error where
  "ErrVideoCallActiveSessionAlreadyExists \<equiv> Sentinel ''ErrVideoCallActiveSessionAlreadyExists''"

type_synonym loadRoom = "string \<Rightarrow> error + RoomAggregate"

definition requireRoomMember :: "loadRoom \<Rightarrow> string \<Rightarrow> string \<Rightarrow> error + RoomMemberEntity" where
  "requireRoomMember load roomID actorID = andThen (load (TrimSpace roomID)) (\<lambda>agg.
     case find (\<lambda>m. TrimSpace (mb_AccountID m) = TrimSpace actorID) (Members agg) of None \<Rightarrow> Inl ErrRoomMemberRequired | Some m \<Rightarrow> Inr m)"

definition EnsureRoomMember :: "loadRoom \<Rightarrow> string \<Rightarrow> string \<Rightarrow> error + unit" where
  "EnsureRoomMember load roomID actorID = andThen (requireRoomMember load roomID actorID) (\<lambda>m. Inr ())"

definition activeSession :: "sessionCache \<Rightarrow> string \<Rightarrow> VideoCallSession option" where
  "activeSession cache roomID = (case sessionGet cache roomID of None \<Rightarrow> None | Some s \<Rightarrow> if IsActive s then Some s else None)"

definition requireActiveSession :: "sessionCache \<Rightarrow> string \<Rightarrow> string \<Rightarrow> error + VideoCallSession" where
  "requireActiveSession cache roomID sessionID = (case activeSession cache roomID of
      None \<Rightarrow> Inl ErrVideoCallAlreadyEnded
    | Some s \<Rightarrow> if TrimSpace sessionID \<noteq> [] \<and> TrimSpace (vc_SessionID s) \<noteq> TrimSpace sessionID
        then Inl (Errorf ''video call session mismatch: %s'' []) else Inr s)"

definition GetActiveCall :: "loadRoom \<Rightarrow> string \<Rightarrow> string \<Rightarrow> sessionCache \<Rightarrow> error + VideoCallSession option" where
  "GetActiveCall load roomID actorID cache = andThen (requireRoomMember load roomID actorID) (\<lambda>m. Inr (activeSession cache roomID))"

definition DefaultVideoCallLockOptions :: MultiLockOptions where
  "DefaultVideoCallLockOptions = DefaultMultiLockOptions\<lparr>KeyPrefix := ''room:video_call''\<rparr>"

definition withVideoCallRoomLock :: "('s acquireFn \<times> 's releaseFn) option \<Rightarrow> string \<Rightarrow> string \<Rightarrow> ('s \<Rightarrow> (error + 'a) \<times> 's) \<Rightarrow> 's \<Rightarrow> (error + 'a) \<times> 's" where
  "withVideoCallRoomLock locker lockValue roomID fn = WithLocks locker lockValue [TrimSpace roomID] DefaultVideoCallLockOptions fn"

text \<open>The bodies of the four calls that change a session, as they run under the lock.\<close>

definition startBody :: "loadRoom \<Rightarrow> gotime \<Rightarrow> string \<Rightarrow> string \<Rightarrow> string \<Rightarrow> sessionCache \<Rightarrow> (error + VideoCallSession) \<times> sessionCache" where
  "startBody load clock newID roomID actorID cache =
     checked (requireRoomMember load roomID actorID) cache (\<lambda>m.
       if activeSession cache roomID \<noteq> None then (Inl ErrVideoCallActiveSessionAlreadyExists, cache)
       else checked (NewVideoCallSession clock newID (TrimSpace roomID) (TrimSpace actorID) (UTC clock)) cache (\<lambda>s.
         (Inr s, sessionSave cache s)))"

definition joinBody :: "loadRoom \<Rightarrow> gotime \<Rightarrow> string \<Rightarrow> string \<Rightarrow> string \<Rightarrow> sessionCache \<Rightarrow> (error + VideoCallSession) \<times> sessionCache" where
  "joinBody load clock roomID sessionID actorID cache =
     checked (requireRoomMember load roomID actorID) cache (\<lambda>m.
     checked (requireActiveSession cache roomID sessionID) cache (\<lambda>s.
     checked (Join clock s actorID (UTC clock)) cache (\<lambda>s'. (Inr s', sessionSave cache s'))))"

definition leaveBody :: "loadRoom \<Rightarrow> gotime \<Rightarrow> string \<Rightarrow> string \<Rightarrow> string \<Rightarrow> sessionCache \<Rightarrow> (error + VideoCallSession) \<times> sessionCache" where
  "leaveBody load clock roomID sessionID actorID cache =
     checked (requireRoomMember load roomID actorID) cache (\<lambda>m.
     checked (requireActiveSession cache roomID sessionID) cache (\<lambda>s.
     checked (Leave clock s actorID (UTC clock)) cache (\<lambda>(ended, s').
       (Inr s', if ended then sessionDelete cache roomID else sessionSave cache s'))))"

definition endBody :: "loadRoom \<Rightarrow> gotime \<Rightarrow> string \<Rightarrow> string \<Rightarrow> string \<Rightarrow> sessionCache \<Rightarrow> (error + VideoCallSession) \<times> sessionCache" where
  "endBody load clock roomID sessionID actorID cache =
     checked (requireRoomMember load roomID actorID) cache (\<lambda>m.
     checked (requireActiveSession cache roomID sessionID) cache (\<lambda>s.
       if \<not> HasParticipant s actorID \<and> TrimSpace (vc_StartedByAccountID s) \<noteq> TrimSpace actorID then (Inl ErrVideoCallParticipantNotFound, cache)
       else checked (End clock s actorID (UTC clock)) cache (\<lambda>s'. (Inr s', sessionDelete cache roomID))))"

text \<open>The locked calls, with the Redis lock beside the cache. \<open>n\<close> bounds the attempts of an acquisition.\<close>

type_synonym callState = "keyspace \<times> sessionCache"

definition StartCall :: "nat \<Rightarrow> string \<Rightarrow> loadRoom \<Rightarrow> gotime \<Rightarrow> string \<Rightarrow> string \<Rightarrow> string \<Rightarrow> callState \<Rightarrow> (error + VideoCallSession) \<times> callState" where
  "StartCall n v load clock newID roomID actorID =
     withVideoCallRoomLock (redisLock n) v roomID (onSecond (startBody load clock newID roomID actorID))"

definition JoinCall :: "nat \<Rightarrow> string \<Rightarrow> loadRoom \<Rightarrow> gotime \<Rightarrow> string \<Rightarrow> string \<Rightarrow> string \<Rightarrow> callState \<Rightarrow> (error + VideoCallSession) \<times> callState" where
  "JoinCall n v load clock roomID sessionID actorID =
     withVideoCallRoomLock (redisLock n) v roomID (onSecond (joinBody load clock roomID sessionID actorID))"

definition LeaveCall :: "nat \<Rightarrow> string \<Rightarrow> loadRoom \<Rightarrow> gotime \<Rightarrow> string \<Rightarrow> string \<Rightarrow> string \<Rightarrow> callState \<Rightarrow> (error + VideoCallSession) \<times> callState" where
  "LeaveCall n v load clock roomID sessionID actorID =
     withVideoCallRoomLock (redisLock n) v roomID (onSecond (leaveBody load clock roomID sessionID actorID))"

definition EndCall :: "nat \<Rightarrow> string \<Rightarrow> loadRoom \<Rightarrow> gotime \<Rightarrow> string \<Rightarrow> string \<Rightarrow> string \<Rightarrow> callState \<Rightarrow> (error + VideoCallSession) \<times> callState" where
  "EndCall n v load clock roomID sessionID actorID =
     withVideoCallRoomLock (redisLock n) v roomID (onSecond (endBody load clock roomID sessionID actorID))"

record VideoCallSignalResult =
  vs_SessionID :: string
  vs_RoomID :: string
  vs_SenderAccountID :: string
  vs_TargetAccountID :: string
  vs_SignalType :: string
  vs_SignalPayload :: string

text \<open>Relaying reads the session without the lock. The payload is copied.\<close>

definition RelaySignal :: "loadRoom \<Rightarrow> string \<Rightarrow> string \<Rightarrow> string \<Rightarrow> string \<Rightarrow> string \<Rightarrow> string \<Rightarrow> sessionCache \<Rightarrow> error + VideoCallSignalResult" where
  "RelaySignal load roomID sessionID actorID target signalType payload cache =
     andThen (requireRoomMember load roomID actorID) (\<lambda>m.
     andThen (ValidateVideoCallSignalType signalType) (\<lambda>u.
     andThen (ValidateVideoCallSignalTarget target) (\<lambda>u.
     andThen (requireActiveSession cache roomID sessionID) (\<lambda>s.
       if \<not> HasParticipant s actorID then Inl ErrVideoCallParticipantNotFound
       else Inr \<lparr>vs_SessionID = vc_SessionID s, vs_RoomID = vc_RoomID s, vs_SenderAccountID = TrimSpace actorID,
         vs_TargetAccountID = TrimSpace target, vs_SignalType = TrimSpace signalType, vs_SignalPayload = payload\<rparr>))))"

section \<open>What the service relies on of a session store\<close>

text \<open>The interface \<^verbatim>\<open>videoCallSessionStore\<close>: one session per room, rooms told apart by their trimmed ids.\<close>

locale session_store =
  fixes get :: "'s \<Rightarrow> string \<Rightarrow> VideoCallSession option"
    and save :: "'s \<Rightarrow> VideoCallSession \<Rightarrow> 's"
    and del :: "'s \<Rightarrow> string \<Rightarrow> 's"
  assumes get_save: "get (save c s) room = (if TrimSpace room = TrimSpace (vc_RoomID s) then Some s else get c room)"
    and get_del: "get (del c gone) room = (if TrimSpace room = TrimSpace gone then None else get c room)"
begin

text \<open>A property of all stored sessions survives a save of a session that has it, and every delete.\<close>

lemma save_all:
  assumes "\<forall>room s. get c room = Some s \<longrightarrow> P (TrimSpace room) s" "P (TrimSpace (vc_RoomID x)) x"
  shows "\<forall>room s. get (save c x) room = Some s \<longrightarrow> P (TrimSpace room) s"
  using assms by (auto simp: get_save)

lemma del_all:
  assumes "\<forall>room s. get c room = Some s \<longrightarrow> P (TrimSpace room) s"
  shows "\<forall>room s. get (del c gone) room = Some s \<longrightarrow> P (TrimSpace room) s"
  using assms by (auto simp: get_del)

lemma other_rooms:
  "TrimSpace room \<noteq> TrimSpace (vc_RoomID x) \<Longrightarrow> get (save c x) room = get c room"
  "TrimSpace room \<noteq> TrimSpace gone \<Longrightarrow> get (del c gone) room = get c room"
  by (simp_all add: get_save get_del)

end

interpretation store: session_store sessionGet sessionSave sessionDelete
  by unfold_locales (auto simp: sessionGet_def sessionSave_def sessionDelete_def videoCallSessionCacheKey_def)

section \<open>Stored calls\<close>

definition call_ok :: "string \<Rightarrow> VideoCallSession \<Rightarrow> bool" where
  "call_ok room s \<longleftrightarrow> IsActive s \<and> vc_RoomID s = room \<and> vc_ParticipantAccountIDs s \<noteq> [] \<and> distinct (vc_ParticipantAccountIDs s) \<and>
     (\<forall>p\<in>set (vc_ParticipantAccountIDs s). trimmed p \<and> p \<noteq> [])"

definition calls_ok :: "sessionCache \<Rightarrow> bool" where
  "calls_ok cache \<longleftrightarrow> (\<forall>room s. sessionGet cache room = Some s \<longrightarrow> call_ok (TrimSpace room) s)"

lemma NewVideoCallSession_ok: "NewVideoCallSession clock k room actor now = Inr s \<Longrightarrow>
    call_ok (TrimSpace room) s \<and> vc_ParticipantAccountIDs s = [TrimSpace actor]"
  by (auto simp: NewVideoCallSession_def call_ok_def IsActive_def split: if_splits)

lemma Join_ok:
  assumes "call_ok room s" "Join clock s actor now = Inr s'"
  shows "call_ok room s' \<and> set (vc_ParticipantAccountIDs s') = insert (TrimSpace actor) (set (vc_ParticipantAccountIDs s))"
proof (cases "HasParticipant s (TrimSpace actor)")
  case True
  with assms(2) have "s' = s\<lparr>vc_UpdatedAt := normalizeRoomTime clock now\<rparr>" by (simp add: Join_def split: if_splits)
  with True assms(1) show ?thesis by (simp add: call_ok_def IsActive_def HasParticipant_def insert_absorb)
next
  case False
  with assms(2) have s': "s' = s\<lparr>vc_ParticipantAccountIDs := vc_ParticipantAccountIDs s @ [TrimSpace actor], vc_UpdatedAt := normalizeRoomTime clock now\<rparr>"
    and "TrimSpace actor \<noteq> []" by (simp_all add: Join_def split: if_splits)
  with False have "TrimSpace actor \<notin> set (vc_ParticipantAccountIDs s)" by (simp add: HasParticipant_def)
  with assms(1) \<open>TrimSpace actor \<noteq> []\<close> show ?thesis by (simp add: s' call_ok_def IsActive_def)
qed

lemma Leave_ok:
  assumes "call_ok room s" "Leave clock s actor now = Inr (ended, s')"
  shows "(ended \<or> call_ok room s') \<and> set (vc_ParticipantAccountIDs s') = set (vc_ParticipantAccountIDs s) - {TrimSpace actor} \<and>
    (ended \<longleftrightarrow> vc_ParticipantAccountIDs s' = [])"
proof -
  define s1 where "s1 = s\<lparr>vc_ParticipantAccountIDs := filter (\<lambda>p. p \<noteq> TrimSpace actor) (vc_ParticipantAccountIDs s),
    vc_UpdatedAt := normalizeRoomTime clock now\<rparr>"
  have s1: "vc_ParticipantAccountIDs s1 = filter (\<lambda>p. p \<noteq> TrimSpace actor) (vc_ParticipantAccountIDs s)" by (simp add: s1_def)
  have set: "set (vc_ParticipantAccountIDs s1) = set (vc_ParticipantAccountIDs s) - {TrimSpace actor}" by (auto simp: s1)
  show ?thesis
  proof (cases "vc_ParticipantAccountIDs s1 = []")
    case True
    with assms(2) obtain s2 where "End clock s1 (TrimSpace actor) now = Inr s2" "ended" "s' = s2"
      by (auto simp: Leave_def Let_def simp flip: s1_def split: if_splits)
    then have "vc_ParticipantAccountIDs s' = vc_ParticipantAccountIDs s1" "ended" by (auto simp: End_def Let_def split: if_splits)
    with set True show ?thesis by simp
  next
    case False
    with assms(2) have "\<not> ended" "s' = s1" by (simp_all add: Leave_def Let_def flip: s1_def split: if_splits)
    moreover have "call_ok room s1" using False assms(1) by (simp add: call_ok_def IsActive_def s1_def)
    ultimately show ?thesis using set False by simp
  qed
qed

lemma End_ok: "End clock s actor now = Inr s' \<Longrightarrow> vc_ParticipantAccountIDs s' = vc_ParticipantAccountIDs s"
  by (auto simp: End_def Let_def split: if_splits)

lemma requireActiveSession_stored: "requireActiveSession cache room k = Inr s \<Longrightarrow> sessionGet cache room = Some s"
  by (auto simp: requireActiveSession_def activeSession_def split: option.splits if_splits)

text \<open>What one call may do to the cache: it changes the session of its own room only, by a member of that room, who alone may be new among the participants.\<close>

definition call_effect :: "loadRoom \<Rightarrow> string \<Rightarrow> string \<Rightarrow> sessionCache \<Rightarrow> error + VideoCallSession \<Rightarrow> sessionCache \<Rightarrow> bool" where
  "call_effect load room actor cache r cache' \<longleftrightarrow> calls_ok cache' \<and>
     (\<forall>other. TrimSpace other \<noteq> TrimSpace room \<longrightarrow> sessionGet cache' other = sessionGet cache other) \<and>
     (case r of Inl e \<Rightarrow> cache' = cache
      | Inr s \<Rightarrow> (\<exists>m. requireRoomMember load room actor = Inr m) \<and>
          set (vc_ParticipantAccountIDs s) \<subseteq> insert (TrimSpace actor)
            (case sessionGet cache room of None \<Rightarrow> {} | Some t \<Rightarrow> set (vc_ParticipantAccountIDs t)))"

lemma call_effect_refused: "calls_ok cache \<Longrightarrow> call_effect load room actor cache (Inl e) cache"
  by (simp add: call_effect_def)

lemma call_effect_saved:
  assumes "calls_ok cache" "requireRoomMember load room actor = Inr m" "call_ok (TrimSpace room) s"
    "set (vc_ParticipantAccountIDs s) \<subseteq> insert (TrimSpace actor) (case sessionGet cache room of None \<Rightarrow> {} | Some t \<Rightarrow> set (vc_ParticipantAccountIDs t))"
  shows "call_effect load room actor cache (Inr s) (sessionSave cache s)"
  using assms store.save_all [of cache call_ok s] by (auto simp: call_effect_def calls_ok_def call_ok_def store.other_rooms)

lemma call_effect_deleted:
  assumes "calls_ok cache" "requireRoomMember load room actor = Inr m"
    "set (vc_ParticipantAccountIDs s) \<subseteq> insert (TrimSpace actor) (case sessionGet cache room of None \<Rightarrow> {} | Some t \<Rightarrow> set (vc_ParticipantAccountIDs t))"
  shows "call_effect load room actor cache (Inr s) (sessionDelete cache room)"
  using assms store.del_all [of cache call_ok room] by (auto simp: call_effect_def calls_ok_def store.other_rooms)

lemma checkedE [elim!]:
  assumes "checked r s f = (x, s')"
  obtains e where "r = Inl e" "x = Inl e" "s' = s" | y where "r = Inr y" "f y = (x, s')"
  using assms by (auto simp: checked_def split: sum.splits)

lemma startBody_effect:
  assumes "calls_ok cache" "startBody load clock k room actor cache = (r, cache')"
  shows "call_effect load room actor cache r cache'"
  using assms(2) unfolding startBody_def
proof (elim checkedE)
  fix m
  assume m: "requireRoomMember load room actor = Inr m" and b: "(if activeSession cache room \<noteq> None then (Inl ErrVideoCallActiveSessionAlreadyExists, cache)
       else checked (NewVideoCallSession clock k (TrimSpace room) (TrimSpace actor) (UTC clock)) cache (\<lambda>s.
         (Inr s, sessionSave cache s))) = (r, cache')"
  from b consider (refused) e where "r = Inl e" "cache' = cache"
    | (saved) s where "NewVideoCallSession clock k (TrimSpace room) (TrimSpace actor) (UTC clock) = Inr s" "r = Inr s" "cache' = sessionSave cache s"
    by (auto split: if_splits)
  then show ?thesis
  proof cases
    case saved
    with NewVideoCallSession_ok [OF saved(1)] show ?thesis by (auto intro!: call_effect_saved [OF assms(1) m])
  qed (simp add: call_effect_refused [OF assms(1)])
qed (simp add: call_effect_refused [OF assms(1)])

lemma sessionBody_effect:
  assumes "calls_ok cache"
  shows "joinBody load clock room k actor cache = (r, cache') \<Longrightarrow> call_effect load room actor cache r cache'"
    "leaveBody load clock room k actor cache = (r, cache') \<Longrightarrow> call_effect load room actor cache r cache'"
    "endBody load clock room k actor cache = (r, cache') \<Longrightarrow> call_effect load room actor cache r cache'"
proof -
  note refused = call_effect_refused [OF assms]
  have ok: "call_ok (TrimSpace room) s" "sessionGet cache room = Some s" if "requireActiveSession cache room k = Inr s" for s
    using requireActiveSession_stored [OF that] assms by (auto simp: calls_ok_def)
  show "call_effect load room actor cache r cache'" if j: "joinBody load clock room k actor cache = (r, cache')"
    using j unfolding joinBody_def
  proof (elim checkedE)
    fix m s s'
    assume m: "requireRoomMember load room actor = Inr m" and s: "requireActiveSession cache room k = Inr s"
      and s': "Join clock s actor (UTC clock) = Inr s'" and e: "(Inr s', sessionSave cache s') = (r, cache')"
    from Join_ok [OF ok(1) [OF s] s'] e show ?thesis using call_effect_saved [OF assms m, of s'] by (simp add: ok(2) [OF s])
  qed (simp_all add: refused)
  show "call_effect load room actor cache r cache'" if j: "leaveBody load clock room k actor cache = (r, cache')"
    using j unfolding leaveBody_def
  proof (elim checkedE)
    fix m s p
    assume m: "requireRoomMember load room actor = Inr m" and s: "requireActiveSession cache room k = Inr s"
      and l: "Leave clock s actor (UTC clock) = Inr p"
      and e: "(case p of (ended, s') \<Rightarrow> (Inr s', if ended then sessionDelete cache room else sessionSave cache s')) = (r, cache')"
    obtain ended s' where p: "p = (ended, s')" by (rule prod.exhaust)
    note lv = Leave_ok [OF ok(1) [OF s] l [unfolded p]]
    then have "set (vc_ParticipantAccountIDs s') \<subseteq> insert (TrimSpace actor) (case sessionGet cache room of None \<Rightarrow> {} | Some t \<Rightarrow> set (vc_ParticipantAccountIDs t))"
      by (auto simp: ok(2) [OF s])
    with lv e p show ?thesis using call_effect_saved [OF assms m, of s'] call_effect_deleted [OF assms m, of s'] by (auto split: if_splits)
  qed (simp_all add: refused)
  show "call_effect load room actor cache r cache'" if j: "endBody load clock room k actor cache = (r, cache')"
    using j unfolding endBody_def
  proof (elim checkedE)
    fix m s
    assume m: "requireRoomMember load room actor = Inr m" and s: "requireActiveSession cache room k = Inr s"
      and e: "(if \<not> HasParticipant s actor \<and> TrimSpace (vc_StartedByAccountID s) \<noteq> TrimSpace actor then (Inl ErrVideoCallParticipantNotFound, cache)
        else checked (End clock s actor (UTC clock)) cache (\<lambda>s'. (Inr s', sessionDelete cache room))) = (r, cache')"
    from e consider (stop) x where "r = Inl x" "cache' = cache"
      | (ended) s' where "End clock s actor (UTC clock) = Inr s'" "r = Inr s'" "cache' = sessionDelete cache room"
      by (auto split: if_splits)
    then show ?thesis
    proof cases
      case ended
      with End_ok [OF ended(1)] show ?thesis using call_effect_deleted [OF assms m, of s'] by (auto simp: ok(2) [OF s])
    qed (simp add: refused)
  qed (simp_all add: refused)
qed

section \<open>Any sequence of calls\<close>

datatype videoCommand = Start string string string | JoinRoom string string string | LeaveRoom string string string | EndRoom string string string

fun runCall :: "nat \<Rightarrow> string \<Rightarrow> loadRoom \<Rightarrow> gotime \<Rightarrow> videoCommand \<Rightarrow> callState \<Rightarrow> (error + VideoCallSession) \<times> callState" where
  "runCall n v load clock (Start k room actor) w = StartCall n v load clock k room actor w"
| "runCall n v load clock (JoinRoom k room actor) w = JoinCall n v load clock room k actor w"
| "runCall n v load clock (LeaveRoom k room actor) w = LeaveCall n v load clock room k actor w"
| "runCall n v load clock (EndRoom k room actor) w = EndCall n v load clock room k actor w"

fun callRoom :: "videoCommand \<Rightarrow> string" where
  "callRoom (Start k room actor) = room" | "callRoom (JoinRoom k room actor) = room"
| "callRoom (LeaveRoom k room actor) = room" | "callRoom (EndRoom k room actor) = room"

fun callActor :: "videoCommand \<Rightarrow> string" where
  "callActor (Start k room actor) = actor" | "callActor (JoinRoom k room actor) = actor"
| "callActor (LeaveRoom k room actor) = actor" | "callActor (EndRoom k room actor) = actor"

fun callBody :: "loadRoom \<Rightarrow> gotime \<Rightarrow> videoCommand \<Rightarrow> sessionCache \<Rightarrow> (error + VideoCallSession) \<times> sessionCache" where
  "callBody load clock (Start k room actor) = startBody load clock k room actor"
| "callBody load clock (JoinRoom k room actor) = joinBody load clock room k actor"
| "callBody load clock (LeaveRoom k room actor) = leaveBody load clock room k actor"
| "callBody load clock (EndRoom k room actor) = endBody load clock room k actor"

lemma runCall_locked: "runCall n v load clock c w =
    WithLocks (redisLock n) v [TrimSpace (callRoom c)] DefaultVideoCallLockOptions (onSecond (callBody load clock c)) w"
  by (cases c) (simp_all add: StartCall_def JoinCall_def LeaveCall_def EndCall_def withVideoCallRoomLock_def)

lemma callBody_effect:
  "calls_ok cache \<Longrightarrow> callBody load clock c cache = (r, cache') \<Longrightarrow> call_effect load (callRoom c) (callActor c) cache r cache'"
  by (cases c) (auto dest: startBody_effect sessionBody_effect)

lemma runCall_effect:
  assumes "calls_ok (snd w)" "runCall n v load clock c w = (r, w')"
  shows "fst w' = fst w \<and> call_effect load (callRoom c) (callActor c) (snd w) r (snd w')"
proof -
  obtain ks cache where w: "w = (ks, cache)" by (rule prod.exhaust)
  from WithLocks_outcome [OF assms(2) [unfolded runCall_locked w]]
  have o: "fst w' = ks" "(\<exists>e. r = Inl e) \<and> snd w' = cache \<or> callBody load clock c cache = (r, snd w')" by blast+
  from o(2) show ?thesis
  proof
    assume "(\<exists>e. r = Inl e) \<and> snd w' = cache"
    with o(1) assms(1) show ?thesis by (auto simp: w call_effect_refused)
  next
    assume "callBody load clock c cache = (r, snd w')"
    with o(1) assms(1) callBody_effect show ?thesis by (simp add: w)
  qed
qed

text \<open>The states that calls, with rooms and locks changing in between, lead to from an empty cache.\<close>

inductive call_reach :: "callState \<Rightarrow> bool" where
  reach_empty: "call_reach (ks, Map.empty)"
| reach_call: "call_reach w \<Longrightarrow> call_reach (snd (runCall n v load clock c w))"
| reach_locks: "call_reach (ks, cache) \<Longrightarrow> call_reach (ks', cache)"

lemma call_reach_ok: "call_reach w \<Longrightarrow> calls_ok (snd w)"
proof (induction rule: call_reach.induct)
  case (reach_call w n v load clock c)
  from runCall_effect [OF reach_call.IH, of n v load clock c] show ?case by (simp add: call_effect_def prod_eq_iff)
qed (auto simp: calls_ok_def sessionGet_def)


definition sampleLoad :: loadRoom where
  "sampleLoad roomID = RestoreRoomAggregate (Some (zeroRoom\<lparr>rm_ID := roomID, rm_RoomType := RoomTypeGroup\<rparr>))
     (map (\<lambda>k. Some \<lparr>mb_ID = k, mb_RoomID = roomID, mb_AccountID = k, mb_DisplayName = [], mb_Username = [], mb_AvatarObjectKey = [],
        mb_Role = RoomRoleMember, mb_LastDeliveredAt = None, mb_LastReadAt = None, mb_CreatedAt = zeroTime, mb_UpdatedAt = zeroTime\<rparr>) [''ann'', ''ben'']) 0"

definition sampleClock :: gotime where "sampleClock = GoTime 1 ''UTC''"

definition sampleStarted :: callState where
  "sampleStarted = snd (runCall 0 ''v'' sampleLoad sampleClock (Start ''s1'' ''r1'' ''ann'') (Map.empty, Map.empty))"


end
