(* ===== verification/Spec2Isabelle.thy ===== *)
theory Spec2Isabelle
  imports EventSourcing Finance Locks LedgerEntities LedgerPosting LedgerAccount LedgerStore LedgerService LedgerTransfer
    PaymentEvents PaymentIntent PaymentAggregate PaymentLedger PaymentBooking PaymentFlow
    RelationshipPair RelationshipStore RelationshipSpec RelationshipSteps RelationshipService
    RoomEntities RoomAggregate RoomRules VideoCalls
begin

text \<open>
  A verification development of the Go backend of a chat application with payments. The program is a modular monolith; every module has a domain (entities,
  event-sourced aggregates, rules), application code (command handlers, services, message consumers) and infrastructure (repositories on
  PostgreSQL, a Redis cache and lock, outbox tables that are published to Kafka). This development models the modules that carry
  state of their own to protect: the ledger, payments, relationships between users, and rooms, with the shared kernel they are written on.

  \<^bold>\<open>The parts and how they interact.\<close>
  The payment module (\<^verbatim>\<open>core/modules/payment\<close>) keeps payment intents and publishes what happens to them as events. The ledger module
  (\<^verbatim>\<open>core/modules/ledger\<close>) consumes these events and books them on accounts; a booking is a batch of ledger events that is recorded in one database
  transaction, under locks on the accounts. The relationship module (\<^verbatim>\<open>core/modules/relationship\<close>) keeps friend requests, friendships,
  follows and blocks of pairs of users and counters per user. The room module (\<^verbatim>\<open>core/modules/room\<close>) keeps rooms with members and messages, and video
  call sessions in the cache. All use the event kernel (\<^verbatim>\<open>core/shared/pkg/event\<close>) and the lock (\<^verbatim>\<open>core/shared/infra/lock\<close>).

  \<^bold>\<open>The theories\<close>, each with the code it models at its head:
  \<^item> \<^verbatim>\<open>GoPrelude\<close>: the part of Go and its library the modules use (errors, 64-bit integers that wrap, byte strings, instants) and shared lemmas.
  \<^item> \<^verbatim>\<open>EventSourcing\<close>: the kernel \<^verbatim>\<open>core/shared/pkg/event\<close>. The locale \<open>aggregate\<close> states what the kernel relies on of an aggregate and proves once
    that versions are consecutive and that replaying the recorded events rebuilds the state; it is interpreted on the ledger account, the payment intent, the
    friend request and the pair of users. The room aggregate checks its own root in its transition and has no such interpretation.
  \<^item> \<^verbatim>\<open>Locks\<close>: \<^verbatim>\<open>core/shared/infra/lock\<close>. The locale \<open>lock_service\<close> is what \<open>WithLocks\<close> relies on; it is interpreted on the Redis lock over the
    key space. No circular wait, bodies run with every key held, every key is given back.
  \<^item> \<^verbatim>\<open>Finance\<close>: \<^verbatim>\<open>core/shared/finance\<close>, the provider's fee over 64-bit integers, and where its overflow check fails.
  \<^item> \<^verbatim>\<open>LedgerEntities\<close>, \<^verbatim>\<open>LedgerPosting\<close>, \<^verbatim>\<open>LedgerAccount\<close>: the domain of the ledger. Every operation of an account over every history: the balance is the
    sum of the postings, no transaction is applied twice, refused operations leave no trace, guarded debits do not overdraw.
  \<^item> \<^verbatim>\<open>LedgerStore\<close>: event store, snapshots, reservations, optimistic versions. Loading through a snapshot equals the full replay, what is saved is
    loaded back, stale saves are refused.
  \<^item> \<^verbatim>\<open>LedgerService\<close>, \<^verbatim>\<open>LedgerTransfer\<close>: the service on the interface \<open>account_repository\<close>, interpreted on the store. Batches are atomic and idempotent,
    transfers conserve money and succeed when funded.
  \<^item> \<^verbatim>\<open>PaymentEvents\<close>, \<^verbatim>\<open>PaymentIntent\<close>, \<^verbatim>\<open>PaymentAggregate\<close>: payment intents as entity and as aggregate. The status machine, that both packages' copies of
    the transition code agree, that histories replay, and that a payment is settled once.
  \<^item> \<^verbatim>\<open>PaymentLedger\<close>, \<^verbatim>\<open>PaymentBooking\<close>, \<^verbatim>\<open>PaymentFlow\<close>: how the ledger books payment events, the consumer under its locks as a refinement of the
    effect each event means, and the net effect of a payment from creation to settlement or reversal through both modules.
  \<^item> \<^verbatim>\<open>RelationshipPair\<close>, \<^verbatim>\<open>RelationshipStore\<close>: entities, rules, aggregates and repositories of relationships. \<^verbatim>\<open>RelationshipSpec\<close> is the abstract
    specification (who is friends with, follows, blocks and has asked whom), \<^verbatim>\<open>RelationshipSteps\<close> and \<^verbatim>\<open>RelationshipService\<close> the proof that the nine
    command handlers implement it, that counters are exact, and that blocked users are isolated.
  \<^item> \<^verbatim>\<open>RoomEntities\<close>, \<^verbatim>\<open>RoomAggregate\<close>: rooms, members, messages, mentions, reactions, call sessions; the room aggregate and the state of a message.
    \<^verbatim>\<open>RoomRules\<close>: every command on a loaded room is accepted exactly when the rules for members and roles allow it, with exactly its effect, and
    leaves no trace otherwise; a sent message has one receipt per other member. \<^verbatim>\<open>VideoCalls\<close>: the call service under the room's lock, on the interface
    \<open>session_store\<close>, interpreted on the cache.

  \<^bold>\<open>How code becomes definitions.\<close> Structs are records, a pointer that may be \<^verbatim>\<open>nil\<close> is an \<open>option\<close>, an aggregate record extends the record of the embedded
  root. A fallible function returns \<open>error + 'a\<close>; a method that mutates its receiver also on failure returns its result with the new receiver. Amounts
  are \<open>int64\<close> words. Tables are lists of rows or maps with the unique indexes and checks of the migrations; a transaction keeps the new database of a
  successful body and the old one otherwise. Clocks, fresh identifiers, JSON decoding and answers of other services are arguments.

  \<^bold>\<open>Bounds.\<close> Acquiring a lock makes a bounded number of attempts, the argument \<open>n\<close> or \<open>attempts\<close>, since the timeout bounds them; the theorems hold for every
  value. Every other loop is structural recursion. The theorems on the
  event store assume that one save records at most a hundred operations on an account, so that it passes at most one version at which a snapshot is
  taken; the batches of the program have a few per account.

  \<^bold>\<open>Not modelled.\<close> Isolation between concurrent database transactions beyond version checks and locks, the expiry of locks and cache entries, connection failures,
  the length limits of columns, and the JSON text of payloads (encoding and decoding is the identity). The modules \<^verbatim>\<open>account\<close>, \<^verbatim>\<open>notification\<close> and
  \<^verbatim>\<open>foreign_exchange\<close>; the room module's repositories, command handlers, queries and projections; queries and projections of the other modules; payment providers
  and schedulers; HTTP, gRPC and websocket transports; request and response types; process start-up and wiring. They are I/O, third-party clients,
  generated code or read models that protect no invariant of the modelled state.
\<close>

end
